(* ===== verification/Prelude.thy ===== *)
theory Prelude
  imports Main "HOL-Library.Word" "HOL-Library.Monad_Syntax" "HOL-Library.Signed_Division"
begin

text \<open>
  Shared vocabulary of the development: the type of machine addresses, the collections of
  simplification rules the component theories use, and the list functions that describe what
  the \<open>prev\<close> and \<open>next\<close> fields of an intrusive doubly linked list have to hold.

  The C code is modelled in the option monad: \<open>None\<close> is an execution that dereferences a null
  or dangling pointer (or never returns), \<open>Some r\<close> an execution that returns \<open>r\<close>.
\<close>

unbundle bit_operations_syntax

declare neq0_conv [iff del] \<comment> \<open>addresses are compared with the null address by \<open>\<noteq>\<close>\<close>

type_synonym ptr = nat
type_synonym byte = "8 word"
type_synonym u16 = "16 word"
type_synonym u32 = "32 word"

named_theorems us_defs \<open>definitions of the small accessors, unfolded by the component proofs\<close>

subsection \<open>Options\<close>

lemma bind_SomeE:
  assumes "Option.bind m f = Some r"
  obtains x where "m = Some x" and "f x = Some r"
  using assms by (auto simp: Option.bind_eq_Some_conv)

subsection \<open>Single bits of a word\<close>

lemma and_exp_word: "e AND 2 ^ k = (if bit e k then 2 ^ k else (0::'a::len word))"
  by (rule bit_eqI) (auto simp: bit_and_iff bit_exp_iff)

subsection \<open>Neighbours in a list of addresses\<close>

fun first :: "ptr list \<Rightarrow> ptr" where
  "first [] = 0"
| "first (x # xs) = x"

fun nxt :: "ptr list \<Rightarrow> ptr \<Rightarrow> ptr" where
  "nxt [] x = 0"
| "nxt (y # ys) x = (if x = y then first ys else nxt ys x)"

fun prv_from :: "ptr \<Rightarrow> ptr list \<Rightarrow> ptr \<Rightarrow> ptr" where
  "prv_from p [] x = 0"
| "prv_from p (y # ys) x = (if x = y then p else prv_from y ys x)"

abbreviation prv :: "ptr list \<Rightarrow> ptr \<Rightarrow> ptr" where
  "prv \<equiv> prv_from 0"

lemma first_in: "first xs \<noteq> 0 \<Longrightarrow> first xs \<in> set xs"
  by (cases xs) auto

lemma first_zero_iff: "0 \<notin> set xs \<Longrightarrow> first xs = 0 \<longleftrightarrow> xs = []"
  by (cases xs) auto

lemma first_in': "xs \<noteq> [] \<Longrightarrow> first xs \<in> set xs"
  by (cases xs) auto

lemma nxt_in: "nxt xs x \<noteq> 0 \<Longrightarrow> nxt xs x \<in> set xs"
proof (induction xs)
  case (Cons y ys)
  then show ?case
    using first_in [of ys] by (cases "x = y") auto
qed simp

lemma nxt_notin [simp]: "x \<notin> set xs \<Longrightarrow> nxt xs x = 0"
  by (induction xs) auto

lemma prv_from_notin [simp]: "x \<notin> set xs \<Longrightarrow> prv_from p xs x = 0"
  by (induction xs arbitrary: p) auto

lemma prv_from_in: "prv_from p xs x \<noteq> 0 \<Longrightarrow> prv_from p xs x \<in> insert p (set xs)"
  by (induction xs arbitrary: p) (auto split: if_splits)

lemma prv_in: "prv xs x \<noteq> 0 \<Longrightarrow> prv xs x \<in> set xs"
  using prv_from_in [of 0 xs x] by auto

lemma nxt_ne: "distinct xs \<Longrightarrow> 0 \<notin> set xs \<Longrightarrow> x \<in> set xs \<Longrightarrow> nxt xs x \<noteq> x"
proof (induction xs)
  case (Cons y ys)
  then show ?case
    using first_in [of ys] by auto
qed simp

lemma prv_from_tail:
  "distinct xs \<Longrightarrow> x \<in> set xs \<Longrightarrow> x \<noteq> first xs \<Longrightarrow> prv_from p xs x = prv_from q xs x"
  by (cases xs) auto

lemma prv_from_first: "xs \<noteq> [] \<Longrightarrow> prv_from p xs (first xs) = p"
  by (cases xs) auto

lemma prv_from_eq_0:
  "distinct xs \<Longrightarrow> 0 \<notin> set xs \<Longrightarrow> x \<in> set xs \<Longrightarrow> p \<noteq> 0 \<Longrightarrow> prv_from p xs x \<noteq> 0"
  by (induction xs arbitrary: p) auto

lemma prv_eq_0_iff:
  "distinct xs \<Longrightarrow> 0 \<notin> set xs \<Longrightarrow> x \<in> set xs \<Longrightarrow> prv xs x = 0 \<longleftrightarrow> x = first xs"
  using prv_from_eq_0 by (cases xs) auto

lemma prv_from_nxt:
  "distinct xs \<Longrightarrow> 0 \<notin> set xs \<Longrightarrow> x \<in> set xs \<Longrightarrow> nxt xs x \<noteq> 0 \<Longrightarrow> prv_from p xs (nxt xs x) = x"
proof (induction xs arbitrary: p)
  case (Cons y ys)
  then show ?case
    by (cases ys) (auto dest: nxt_in)
qed simp

lemma nxt_prv_from:
  "distinct xs \<Longrightarrow> 0 \<notin> set xs \<Longrightarrow> x \<in> set xs \<Longrightarrow> prv_from p xs x \<noteq> 0 \<Longrightarrow>
   x \<noteq> first xs \<Longrightarrow> nxt xs (prv_from p xs x) = x"
proof (induction xs arbitrary: p)
  case (Cons y ys)
  then show ?case
    by (cases ys) (auto dest: prv_from_in)
qed simp

lemma nxt_prv:
  "distinct xs \<Longrightarrow> 0 \<notin> set xs \<Longrightarrow> x \<in> set xs \<Longrightarrow> prv xs x \<noteq> 0 \<Longrightarrow> nxt xs (prv xs x) = x"
  by (rule nxt_prv_from) (auto simp: prv_eq_0_iff)

lemma nxt_nxt_ne:
  "distinct ys \<Longrightarrow> 0 \<notin> set ys \<Longrightarrow> y \<in> set ys \<Longrightarrow> nxt ys y \<noteq> 0 \<Longrightarrow> nxt ys (nxt ys y) \<noteq> y"
proof (induction ys)
  case (Cons z zs)
  show ?case
  proof (cases "y = z")
    case True
    have "first zs \<in> set zs"
      using Cons.prems True by (auto intro: first_in)
    then have "first zs \<noteq> z"
      using Cons.prems(1) by auto
    then show ?thesis
      using Cons.prems True nxt_in [of zs "first zs"] by auto
  next
    case False
    have "nxt zs y \<in> set zs"
      using Cons.prems False by (auto intro: nxt_in)
    then have "nxt zs y \<noteq> z"
      using Cons.prems(1) by auto
    then show ?thesis
      using Cons False by auto
  qed
qed simp

lemma nxt_eq_prv:
  assumes "distinct xs" "0 \<notin> set xs" "x \<in> set xs" "nxt xs x = prv xs x"
  shows "xs = [x]"
proof -
  have n0: "nxt xs x = 0"
  proof (rule ccontr)
    assume ne: "nxt xs x \<noteq> 0"
    have "nxt xs (prv xs x) = x"
      using assms ne by (intro nxt_prv) auto
    then show False
      using nxt_nxt_ne assms ne by metis
  qed
  then have "x = first xs"
    using assms prv_eq_0_iff by metis
  with n0 assms(2,3) show ?thesis
    by (cases xs) (auto simp: first_zero_iff)
qed

lemma removeAll_first:
  "distinct xs \<Longrightarrow> first (removeAll z xs) = (if first xs = z \<and> z \<in> set xs then nxt xs z else first xs)"
  by (cases xs) auto

lemma nxt_removeAll:
  "distinct xs \<Longrightarrow> 0 \<notin> set xs \<Longrightarrow> z \<in> set xs \<Longrightarrow> x \<noteq> z \<Longrightarrow>
   nxt (removeAll z xs) x = (if nxt xs x = z then nxt xs z else nxt xs x)"
proof (induction xs)
  case (Cons y ys)
  show ?case
  proof (cases "z \<in> set ys")
    case True
    with Cons show ?thesis
      by (auto simp: removeAll_first)
  next
    case False
    with Cons.prems have "z = y" "y \<notin> set ys" by auto
    moreover have "nxt ys x \<noteq> y"
      using Cons.prems \<open>y \<notin> set ys\<close> nxt_in [of ys x] by auto
    ultimately show ?thesis
      using Cons.prems by (auto simp: removeAll_id)
  qed
qed simp

lemma prv_from_removeAll:
  "distinct xs \<Longrightarrow> 0 \<notin> set xs \<Longrightarrow> z \<in> set xs \<Longrightarrow> x \<noteq> z \<Longrightarrow> p \<notin> set xs \<Longrightarrow>
   prv_from p (removeAll z xs) x =
     (if x \<in> set xs \<and> prv_from p xs x = z then prv_from p xs z else prv_from p xs x)"
proof (induction xs arbitrary: p)
  case (Cons y ys)
  show ?case
  proof (cases "z = y")
    case True
    then have rm: "removeAll z (y # ys) = ys" "y \<notin> set ys"
      using Cons.prems by (auto simp: removeAll_id)
    show ?thesis
    proof (cases "x \<in> set ys \<and> x \<noteq> first ys")
      case False
      then show ?thesis
        using True rm Cons.prems by (cases ys) auto
    next
      case x: True
      then have "prv_from p ys x = prv_from y ys x"
        using Cons.prems by (intro prv_from_tail) auto
      moreover have "prv_from y ys x \<noteq> y"
        using x rm Cons.prems prv_from_in [of 0 ys x] prv_from_tail [of ys x y 0] by auto
      ultimately show ?thesis
        using True rm x Cons.prems by auto
    qed
  next
    case False
    then show ?thesis
      using Cons by auto
  qed
qed simp

subsection \<open>Intrusive doubly linked lists\<close>

text \<open>
  \<open>links p\<close> are the \<open>prev\<close> and \<open>next\<close> fields of the node at \<open>p\<close>. \<open>dlist links h xs\<close> says that
  the nodes reached from the head \<open>h\<close> are exactly \<open>xs\<close>, in this order, without repetition, and
  that every node of the list points back to its predecessor.
\<close>

definition dlist :: "(ptr \<Rightarrow> (ptr \<times> ptr) option) \<Rightarrow> ptr \<Rightarrow> ptr list \<Rightarrow> bool" where
  "dlist links h xs \<longleftrightarrow> distinct xs \<and> 0 \<notin> set xs \<and> h = first xs
     \<and> (\<forall>x\<in>set xs. links x = Some (prv xs x, nxt xs x))"

lemma dlist_Nil [simp]: "dlist links h [] \<longleftrightarrow> h = 0"
  by (auto simp: dlist_def)

lemma dlistD:
  assumes "dlist links h xs"
  shows dlist_distinct: "distinct xs" and dlist_nonnull: "0 \<notin> set xs" and dlist_head: "h = first xs"
    and dlist_links: "x \<in> set xs \<Longrightarrow> links x = Some (prv xs x, nxt xs x)"
  using assms by (auto simp: dlist_def)

lemma dlist_cong:
  "dlist links h xs \<Longrightarrow> (\<And>x. x \<in> set xs \<Longrightarrow> links' x = links x) \<Longrightarrow> dlist links' h xs"
  by (simp add: dlist_def)

lemma dlist_head_in: "dlist links h xs \<Longrightarrow> h \<noteq> 0 \<Longrightarrow> h \<in> set xs"
  using first_in by (auto simp: dlist_def)

lemma dlist_unique:
  assumes "dlist links h xs" "dlist links h ys"
  shows "xs = ys"
proof -
  have "xs = ys" if "distinct xs" "distinct ys" "0 \<notin> set xs" "0 \<notin> set ys" "first xs = first ys"
    "\<And>x. x \<in> set xs \<Longrightarrow> map_option snd (links x) = Some (nxt xs x)"
    "\<And>x. x \<in> set ys \<Longrightarrow> map_option snd (links x) = Some (nxt ys x)" for xs ys
    using that
  proof (induction xs arbitrary: ys)
    case Nil
    then show ?case by (metis first.simps(1) first_zero_iff)
  next
    case (Cons x xs)
    then obtain zs where ys: "ys = x # zs"
      by (cases ys) auto
    have "xs = zs"
    proof (rule Cons.IH)
      show "first xs = first zs"
        using Cons.prems(6) [of x] Cons.prems(7) [of x] ys by simp
      show "map_option snd (links z) = Some (nxt xs z)" if "z \<in> set xs" for z
        using Cons.prems(6) [of z] Cons.prems(1) that by auto
      show "map_option snd (links z) = Some (nxt zs z)" if "z \<in> set zs" for z
        using Cons.prems(7) [of z] Cons.prems(2) ys that by auto
    qed (use Cons.prems ys in auto)
    with ys show ?case by simp
  qed
  then show ?thesis
    using assms by (auto simp: dlist_def)
qed

text \<open>Insertion in front of the head, and removal of any node, as updates of the link fields.\<close>

lemma dlist_push:
  assumes d: "dlist links h xs" and x: "x \<noteq> 0" "x \<notin> set xs"
    and lx: "links' x = Some (0, h)"
    and lh: "h \<noteq> 0 \<Longrightarrow> links' h = map_option (\<lambda>l. (x, snd l)) (links h)"
    and rest: "\<And>p. p \<in> set xs \<Longrightarrow> p \<noteq> h \<Longrightarrow> links' p = links p"
  shows "dlist links' x (x # xs)"
  unfolding dlist_def
proof (intro conjI ballI)
  show "distinct (x # xs)" "0 \<notin> set (x # xs)" "x = first (x # xs)"
    using d x by (auto simp: dlist_def)
  fix p assume p: "p \<in> set (x # xs)"
  show "links' p = Some (prv (x # xs) p, nxt (x # xs) p)"
  proof (cases "p = x")
    case True
    then show ?thesis using lx d by (simp add: dlist_def)
  next
    case False
    with p have pin: "p \<in> set xs" by simp
    show ?thesis
    proof (cases "p = h")
      case True
      have "prv_from x xs p = x"
        using True pin d by (cases xs) (auto simp: dlist_def)
      moreover have "h \<noteq> 0"
        using True pin d by (auto simp: dlist_def)
      ultimately show ?thesis
        using True pin False lh dlist_links [OF d pin] by auto
    next
      case False
      have "prv_from x xs p = prv xs p"
        using pin False d by (intro prv_from_tail) (auto simp: dlist_def)
      then show ?thesis
        using False pin d \<open>p \<noteq> x\<close> rest by (auto simp: dlist_def)
    qed
  qed
qed

lemma dlist_remove:
  assumes d: "dlist links h xs" and x: "x \<in> set xs"
    and h': "h' = (if h = x then nxt xs x else h)"
    and rest: "\<And>p. p \<in> set xs \<Longrightarrow> p \<noteq> x \<Longrightarrow>
      links' p = Some (if p = nxt xs x then prv xs x else prv xs p,
                       if p = prv xs x then nxt xs x else nxt xs p)"
  shows "dlist links' h' (removeAll x xs)"
  unfolding dlist_def
proof (intro conjI ballI)
  have dx: "distinct xs" "0 \<notin> set xs"
    using d by (auto simp: dlist_def)
  show "distinct (removeAll x xs)" "0 \<notin> set (removeAll x xs)"
    using dx by (auto simp: distinct_removeAll)
  show "h' = first (removeAll x xs)"
    using d x dx h' by (auto simp: dlist_def removeAll_first)
  fix p assume "p \<in> set (removeAll x xs)"
  then have p: "p \<in> set xs" "p \<noteq> x" by auto
  have "p = nxt xs x \<longleftrightarrow> prv xs p = x"
    using dx x p prv_from_nxt [of xs x 0] nxt_prv [of xs p] by metis
  moreover have "p = prv xs x \<longleftrightarrow> nxt xs p = x"
    using dx x p prv_from_nxt [of xs p 0] nxt_prv [of xs x] by metis
  ultimately show "links' p = Some (prv (removeAll x xs) p, nxt (removeAll x xs) p)"
    using rest [OF p] dx x p by (simp add: nxt_removeAll prv_from_removeAll)
qed

subsection \<open>The rest of a list from an iterator on\<close>

lemma nxt_Cons [simp]: "x \<noteq> s \<Longrightarrow> nxt (x # xs) s = nxt xs s"
  by (cases xs) auto

lemma dropWhile_ne_notin: "it \<notin> set xs \<Longrightarrow> dropWhile (\<lambda>y. y \<noteq> it) xs = []"
  by (induction xs) auto

lemma dropWhile_ne_append: "s \<notin> set pre \<Longrightarrow> dropWhile (\<lambda>y. y \<noteq> s) (pre @ s # l) = s # l"
  by (induction pre) auto

lemma dropWhile_ne_first: "xs \<noteq> [] \<Longrightarrow> it = first xs \<Longrightarrow> dropWhile (\<lambda>y. y \<noteq> it) xs = xs"
  by (cases xs) auto

lemma dropWhile_ne_removeAll:
  assumes "distinct xs" "0 \<notin> set xs" "s \<in> set xs"
  shows "dropWhile (\<lambda>y. y \<noteq> (if it = s then nxt xs s else it)) (removeAll s xs)
         = removeAll s (dropWhile (\<lambda>y. y \<noteq> it) xs)"
  using assms
proof (induction xs)
  case Nil
  then show ?case by simp
next
  case (Cons x xs)
  show ?case
  proof (cases "x = s")
    case True
    then have s: "s \<notin> set xs" using Cons.prems by simp
    show ?thesis
    proof (cases "it = s")
      case True
      then show ?thesis
        using \<open>x = s\<close> s Cons.prems by (cases xs) auto
    next
      case False
      have "s \<notin> set (dropWhile (\<lambda>y. y \<noteq> it) xs)"
        using s set_dropWhileD by fastforce
      then show ?thesis
        using \<open>x = s\<close> s False by simp
    qed
  next
    case False
    then have "s \<in> set xs" using Cons.prems by simp
    then have IH: "dropWhile (\<lambda>y. y \<noteq> (if it = s then nxt xs s else it)) (removeAll s xs)
        = removeAll s (dropWhile (\<lambda>y. y \<noteq> it) xs)"
      using Cons by simp
    have "nxt xs s \<noteq> x"
      using Cons.prems nxt_in [of xs s] by auto
    then show ?thesis
      using IH False by auto
  qed
qed

end
