(* ===== verification/UsTypes.thy ===== *)
theory UsTypes
  imports Prelude
begin

text \<open>
  The data of the event library (\<open>src/uSockets2/src\<close>, built with \<open>LIBUS_USE_EPOLL\<close>): the
  structs of \<open>internal/internal.h\<close>, \<open>internal/loop_data.h\<close> and
  \<open>internal/eventing/epoll_kqueue.h\<close> as records, the memory that holds them, and the host
  (kernel, allocator and application callbacks) the library runs on.

  \<^item> An address is a \<^typ>\<open>nat\<close>, \<open>0\<close> is \<open>NULL\<close>. The memory has one map per struct. A struct whose
    first member is a \<open>us_poll_t\<close> (socket, listen socket, timer, async, UDP socket) keeps that
    member in \<open>polls\<close> and its own members in \<open>socks\<close>, \<open>listens\<close> or \<open>cbs\<close>, all at the
    same address, so the casts of the C code are the identity on addresses.
  \<^item> There is one loop (one thread runs one loop): a \<open>loop\<close> argument and every \<open>context->loop\<close>
    denote it, so its fields are fields of the state.
  \<^item> \<open>log\<close> is the history of system calls and application callbacks, the newest first.
\<close>

datatype fnptr =
    Fn_null
  | Fn_default_is_low_prio_handler
  | Fn_sweep_timer_cb
  | Fn_internal_on_udp_read
  | Fn_ssl_on_open | Fn_ssl_on_close | Fn_ssl_on_data | Fn_ssl_on_writable | Fn_ssl_on_end
  | Fn_ssl_is_low_prio
  | Fn_user nat

datatype callback =
    On_open ptr bool "byte list"
  | On_data ptr "byte list"
  | On_writable ptr
  | On_close ptr int
  | On_timeout ptr
  | On_end ptr
  | On_connect_error ptr int
  | Is_low_prio ptr
  | On_pre | On_post
  | On_callback ptr
  | On_server_name ptr string
  | On_udp_data ptr ptr int

datatype epoll_op = EPOLL_CTL_ADD | EPOLL_CTL_MOD | EPOLL_CTL_DEL

datatype sockopt =
    TCP_NODELAY int | TCP_CORK int | SO_REUSEPORT int | SO_REUSEADDR int | IPV6_V6ONLY int
  | IPV6_RECVPKTINFO int | IP_PKTINFO int | IPV6_RECVTCLASS int | IP_RECVTOS int

text \<open>The \<open>hints\<close> passed to \<open>getaddrinfo\<close>: none, or a socket type with or without \<open>AI_PASSIVE\<close>.\<close>

datatype addr_hints = No_hints | Hints bool int

record addrinfo =
  ai_family :: int
  ai_socktype :: int
  ai_protocol :: int
  ai_addr :: "byte list"

datatype event =
    Malloc nat | Realloc ptr nat | Free ptr
  | Epoll_create | Epoll_ctl epoll_op int u32 ptr | Epoll_wait
  | Timerfd_create | Timerfd_settime int int int int int | Eventfd
  | Read8 int | Write8 int "64 word"
  | Close int | Shutdown_write int | Shutdown_read int
  | Recv int nat | Send int "byte list" bool | Accept int
  | Setsockopt int sockopt | Getsockname int | Getpeername int
  | Fcntl_getfl int | Fcntl_setfl int int | Fchmod_700 int | Unlink string
  | Getaddrinfo "string option" "int option" addr_hints | Freeaddrinfo
  | Socket int int int | Bind int "byte list" | Listen int int | Connect int "byte list"
  | Sendmmsg int "(byte list \<times> byte list) list" int | Recvmmsg int nat int
  | Callback fnptr callback

subsection \<open>The structs\<close>

text \<open>\<open>fd\<close> and \<open>poll_type\<close> are bit fields of 28 and 4 bits.\<close>

record us_poll_t =
  p_fd :: "28 word"
  p_poll_type :: "4 word"

text \<open>\<open>timeout\<close> and \<open>low_prio_state\<close> are bit fields of 14 and 2 bits.\<close>

record us_socket_t =
  s_context :: ptr
  s_prev :: ptr
  s_next :: ptr
  s_timeout :: "14 word"
  s_low_prio_state :: "2 word"

record us_internal_callback_t =
  cb_expects_the_loop :: bool
  cb_leave_poll_ready :: bool
  cb_cb :: fnptr

record us_socket_context_t =
  c_timestamp :: u16
  c_head :: ptr
  c_iterator :: ptr
  c_prev :: ptr
  c_next :: ptr
  c_on_open :: fnptr
  c_on_data :: fnptr
  c_on_writable :: fnptr
  c_on_close :: fnptr
  c_on_socket_timeout :: fnptr
  c_on_end :: fnptr
  c_on_connect_error :: fnptr
  c_is_low_prio :: fnptr

record us_internal_loop_data_t =
  sweep_timer :: ptr
  wakeup_async :: ptr
  last_write_failed :: bool
  head :: ptr
  iterator :: ptr
  recv_buf :: ptr
  ssl_data :: ptr
  pre_cb :: fnptr
  post_cb :: fnptr
  closed_head :: ptr
  low_prio_head :: ptr
  low_prio_budget :: int
  iteration_nr :: "64 word"

record us_loop_t = us_internal_loop_data_t +
  num_polls :: int
  num_ready_polls :: int
  current_ready_poll :: int
  loop_fd :: int
  ready_polls :: "(ptr \<times> u32) list"

text \<open>
  The UDP packet buffer of \<open>bsd.c\<close>: the message headers, the I/O vectors, the address slots, the
  control blocks and the payload area that follows the struct, in pieces of \<open>LIBUS_UDP_MAX_SIZE\<close>.
  A pointer into one of these arrays is the index of the element.
\<close>

record mmsghdr =
  msg_name :: nat
  msg_namelen :: nat
  msg_iov :: nat
  msg_iovlen :: nat
  msg_control :: nat
  msg_controllen :: nat
  msg_len :: nat

record us_internal_udp_packet_buffer =
  msgvec :: "mmsghdr list"
  iov :: "(nat \<times> nat) list" \<comment> \<open>\<open>iov_base\<close> and \<open>iov_len\<close>\<close>
  addr_slots :: "byte list list"
  control :: "byte list list"
  payload_area :: "byte list list"

record us_internal_udp_t =
  udp_receive_buf :: ptr
  udp_data_cb :: fnptr
  udp_drain_cb :: fnptr
  udp_user :: ptr
  udp_port :: int

record us = us_loop_t +
  polls :: "ptr \<rightharpoonup> us_poll_t"
  socks :: "ptr \<rightharpoonup> us_socket_t"
  listens :: "ptr \<rightharpoonup> nat"
  cbs :: "ptr \<rightharpoonup> us_internal_callback_t"
  ctxs :: "ptr \<rightharpoonup> us_socket_context_t"
  udps :: "ptr \<rightharpoonup> us_internal_udp_t"
  pbufs :: "ptr \<rightharpoonup> us_internal_udp_packet_buffer"
  live :: "ptr list"
  log :: "event list"

subsection \<open>Constants\<close>

definition LIBUS_RECV_BUFFER_LENGTH :: nat where "LIBUS_RECV_BUFFER_LENGTH = 524288"
definition LIBUS_TIMEOUT_GRANULARITY :: int where "LIBUS_TIMEOUT_GRANULARITY = 4"
definition LIBUS_RECV_BUFFER_PADDING :: nat where "LIBUS_RECV_BUFFER_PADDING = 32"

text \<open>The sizes of the structs on x86-64, where \<open>LIBUS_EXT_ALIGNMENT\<close> is 16.\<close>

definition sizeof_us_poll_t :: nat where "sizeof_us_poll_t = 16"
definition sizeof_us_socket_t :: nat where "sizeof_us_socket_t = 48"
definition sizeof_us_internal_callback_t :: nat where "sizeof_us_internal_callback_t = 48"
definition sizeof_us_listen_socket_t :: nat where "sizeof_us_listen_socket_t = 64"
definition sizeof_us_socket_context_t :: nat where "sizeof_us_socket_context_t = 112"
definition sizeof_us_internal_udp_t :: nat where "sizeof_us_internal_udp_t = 96"

text \<open>\<open>LIBUS_SOCKET_READABLE\<close> and \<open>LIBUS_SOCKET_WRITABLE\<close> are \<open>EPOLLIN\<close> and \<open>EPOLLOUT\<close>.\<close>

definition LIBUS_SOCKET_READABLE :: u32 where "LIBUS_SOCKET_READABLE = 1"
definition LIBUS_SOCKET_WRITABLE :: u32 where "LIBUS_SOCKET_WRITABLE = 4"
definition EPOLLERR :: u32 where "EPOLLERR = 8"
definition EPOLLHUP :: u32 where "EPOLLHUP = 16"

definition POLL_TYPE_SOCKET :: "4 word" where "POLL_TYPE_SOCKET = 0"
definition POLL_TYPE_SOCKET_SHUT_DOWN :: "4 word" where "POLL_TYPE_SOCKET_SHUT_DOWN = 1"
definition POLL_TYPE_SEMI_SOCKET :: "4 word" where "POLL_TYPE_SEMI_SOCKET = 2"
definition POLL_TYPE_CALLBACK :: "4 word" where "POLL_TYPE_CALLBACK = 3"
definition POLL_TYPE_POLLING_OUT :: "4 word" where "POLL_TYPE_POLLING_OUT = 4"
definition POLL_TYPE_POLLING_IN :: "4 word" where "POLL_TYPE_POLLING_IN = 8"

lemmas us_consts [us_defs] =
  LIBUS_SOCKET_READABLE_def LIBUS_SOCKET_WRITABLE_def EPOLLERR_def EPOLLHUP_def
  POLL_TYPE_SOCKET_def POLL_TYPE_SOCKET_SHUT_DOWN_def POLL_TYPE_SEMI_SOCKET_def
  POLL_TYPE_CALLBACK_def POLL_TYPE_POLLING_OUT_def POLL_TYPE_POLLING_IN_def

subsection \<open>The host\<close>

text \<open>
  A system call appends its event to the history; the kernel answers from the whole history
  (the call included), so any kernel behaviour is some choice of these functions.
  \<open>k_int\<close> is the returned integer, \<open>k_bytes\<close> the bytes the kernel wrote to the caller's buffer,
  \<open>k_errno\<close> the value of \<open>errno\<close>, \<open>k_ready\<close> the entries \<open>epoll_wait\<close> stored, \<open>k_addrinfo\<close> the list
  \<open>getaddrinfo\<close> returned, \<open>k_msgs\<close> the datagrams of \<open>recvmmsg\<close> (payload, peer address, control data), \<open>k_malloc\<close> and \<open>k_realloc\<close> the address of a block, given the live ones (0 when memory is
  exhausted).
  \<open>h_call f cb\<close> runs the function behind the pointer \<open>f\<close> on the arguments of \<open>cb\<close>: it returns
  the function's value (an address, or an integer for \<open>is_low_prio\<close>) and the new state.
\<close>

record host =
  k_int :: "event list \<Rightarrow> int"
  k_bytes :: "event list \<Rightarrow> byte list"
  k_errno :: "event list \<Rightarrow> int"
  k_ready :: "event list \<Rightarrow> (ptr \<times> u32) list"
  k_addrinfo :: "event list \<Rightarrow> addrinfo list"
  k_msgs :: "event list \<Rightarrow> (byte list \<times> byte list \<times> byte list) list"
  k_malloc :: "event list \<Rightarrow> ptr list \<Rightarrow> ptr"
  k_realloc :: "event list \<Rightarrow> ptr list \<Rightarrow> ptr \<Rightarrow> ptr"
  h_call :: "fnptr \<Rightarrow> callback \<Rightarrow> us \<Rightarrow> (nat \<times> us) option"

definition emit :: "event \<Rightarrow> us \<Rightarrow> us" where
  "emit e st = st\<lparr>log := e # log st\<rparr>"

definition sys_int :: "host \<Rightarrow> event \<Rightarrow> us \<Rightarrow> int \<times> us" where
  "sys_int h e st = (let st = emit e st in (k_int h (log st), st))"

text \<open>\<open>default_is_low_prio_handler\<close> is the only callback the library has itself for a socket.\<close>

definition default_is_low_prio_handler :: nat where
  "default_is_low_prio_handler = 0"

definition call :: "host \<Rightarrow> fnptr \<Rightarrow> callback \<Rightarrow> us \<Rightarrow> (nat \<times> us) option" where
  "call h f cb st =
     (let st = emit (Callback f cb) st
      in if f = Fn_null then None
         else if f = Fn_default_is_low_prio_handler then Some (default_is_low_prio_handler, st)
         else h_call h f cb st)"

subsection \<open>Memory access\<close>

definition upd_poll :: "ptr \<Rightarrow> (us_poll_t \<Rightarrow> us_poll_t) \<Rightarrow> us \<Rightarrow> us option" where
  "upd_poll p f st = map_option (\<lambda>x. st\<lparr>polls := (polls st)(p \<mapsto> f x)\<rparr>) (polls st p)"

definition upd_sock :: "ptr \<Rightarrow> (us_socket_t \<Rightarrow> us_socket_t) \<Rightarrow> us \<Rightarrow> us option" where
  "upd_sock p f st = map_option (\<lambda>x. st\<lparr>socks := (socks st)(p \<mapsto> f x)\<rparr>) (socks st p)"

definition upd_ctx :: "ptr \<Rightarrow> (us_socket_context_t \<Rightarrow> us_socket_context_t) \<Rightarrow> us \<Rightarrow> us option" where
  "upd_ctx p f st = map_option (\<lambda>x. st\<lparr>ctxs := (ctxs st)(p \<mapsto> f x)\<rparr>) (ctxs st p)"

definition upd_cb :: "ptr \<Rightarrow> (us_internal_callback_t \<Rightarrow> us_internal_callback_t) \<Rightarrow> us \<Rightarrow> us option" where
  "upd_cb p f st = map_option (\<lambda>x. st\<lparr>cbs := (cbs st)(p \<mapsto> f x)\<rparr>) (cbs st p)"

text \<open>\<open>s->context->loop\<close>: reading it needs the socket and its context to be live.\<close>

definition sock_ctx :: "ptr \<Rightarrow> us \<Rightarrow> us_socket_context_t option" where
  "sock_ctx p st = Option.bind (socks st p) (\<lambda>s. ctxs st (s_context s))"

definition malloc :: "host \<Rightarrow> nat \<Rightarrow> us \<Rightarrow> ptr \<times> us" where
  "malloc h n st =
     (let st = emit (Malloc n) st; p = k_malloc h (log st) (live st)
      in (p, if p = 0 then st else st\<lparr>live := p # live st\<rparr>))"

definition free :: "ptr \<Rightarrow> us \<Rightarrow> us option" where
  "free p st =
     (if p \<in> set (live st)
      then Some ((emit (Free p) st)\<lparr>live := removeAll p (live st),
             polls := (polls st)(p := None), socks := (socks st)(p := None),
             listens := (listens st)(p := None), cbs := (cbs st)(p := None),
             ctxs := (ctxs st)(p := None), udps := (udps st)(p := None),
             pbufs := (pbufs st)(p := None)\<rparr>)
      else None)"

definition move :: "ptr \<Rightarrow> ptr \<Rightarrow> (ptr \<rightharpoonup> 'a) \<Rightarrow> (ptr \<rightharpoonup> 'a)" where
  "move p q m = (if p = q then m else m(q := m p, p := None))"

definition realloc :: "host \<Rightarrow> ptr \<Rightarrow> nat \<Rightarrow> us \<Rightarrow> (ptr \<times> us) option" where
  "realloc h p n st =
     (if p \<in> set (live st)
      then let st = emit (Realloc p n) st; q = k_realloc h (log st) (live st) p
           in if q = 0 then Some (0, st)
              else Some (q, st\<lparr>live := q # removeAll p (live st),
                polls := move p q (polls st), socks := move p q (socks st),
                listens := move p q (listens st), cbs := move p q (cbs st), udps := move p q (udps st)\<rparr>)
      else None)"

end
