(* ===== verification/UsPoll.thy ===== *)
theory UsPoll
  imports UsTypes
begin

text \<open>
  Polls, timers and asyncs: the \<open>LIBUS_USE_EPOLL\<close> build of
  \<open>src/uSockets2/src/eventing/epoll_kqueue.c\<close>, without the run loop (theory \<open>UsLoop\<close>).
  The lemmas say what each operation does to the 4-bit \<open>poll_type\<close> field, which packs the type
  of the poll (two low bits) and the polled events (two high bits), and to the list of ready
  polls that the loop is dispatching.
\<close>

subsection \<open>Polls\<close>

definition us_create_poll :: "host \<Rightarrow> bool \<Rightarrow> nat \<Rightarrow> us \<Rightarrow> ptr \<times> us" where
  "us_create_poll h fallthrough ext_size st =
     (let st = (if \<not> fallthrough then st\<lparr>num_polls := num_polls st + 1\<rparr> else st)
      in malloc h (sizeof_us_poll_t + ext_size) st)"

definition us_poll_free :: "ptr \<Rightarrow> us \<Rightarrow> us option" where
  "us_poll_free p st = free p (st\<lparr>num_polls := num_polls st - 1\<rparr>)"

definition us_poll_init :: "ptr \<Rightarrow> int \<Rightarrow> 4 word \<Rightarrow> us \<Rightarrow> us option" where
  "us_poll_init p fd poll_type st =
     (if p \<in> set (live st)
      then Some (st\<lparr>polls := (polls st)(p \<mapsto> \<lparr>p_fd = word_of_int fd, p_poll_type = poll_type\<rparr>)\<rparr>)
      else None)"

definition poll_events_of :: "us_poll_t \<Rightarrow> u32" where
  "poll_events_of x =
     (if p_poll_type x AND POLL_TYPE_POLLING_IN \<noteq> 0 then LIBUS_SOCKET_READABLE else 0) OR
     (if p_poll_type x AND POLL_TYPE_POLLING_OUT \<noteq> 0 then LIBUS_SOCKET_WRITABLE else 0)"

definition us_poll_events :: "ptr \<Rightarrow> us \<Rightarrow> u32 option" where
  "us_poll_events p st = map_option poll_events_of (polls st p)"

definition us_poll_fd :: "ptr \<Rightarrow> us \<Rightarrow> int option" where
  "us_poll_fd p st = map_option (\<lambda>x. sint (p_fd x)) (polls st p)"

definition poll_type_of :: "us_poll_t \<Rightarrow> 4 word" where
  "poll_type_of x = p_poll_type x AND 3"

definition us_internal_poll_type :: "ptr \<Rightarrow> us \<Rightarrow> (4 word) option" where
  "us_internal_poll_type p st = map_option poll_type_of (polls st p)"

definition us_internal_poll_set_type :: "ptr \<Rightarrow> 4 word \<Rightarrow> us \<Rightarrow> us option" where
  "us_internal_poll_set_type p poll_type =
     upd_poll p (\<lambda>x. x\<lparr>p_poll_type := poll_type OR (p_poll_type x AND 12)\<rparr>)"

text \<open>The \<open>poll_type\<close> value that polls for \<open>events\<close>; written out in \<open>us_poll_start\<close> and
  \<open>us_poll_change\<close>.\<close>

definition with_events :: "u32 \<Rightarrow> us_poll_t \<Rightarrow> us_poll_t" where
  "with_events events x = x\<lparr>p_poll_type := poll_type_of x
     OR (if events AND LIBUS_SOCKET_READABLE \<noteq> 0 then POLL_TYPE_POLLING_IN else 0)
     OR (if events AND LIBUS_SOCKET_WRITABLE \<noteq> 0 then POLL_TYPE_POLLING_OUT else 0)\<rparr>"

definition us_poll_start :: "host \<Rightarrow> ptr \<Rightarrow> u32 \<Rightarrow> us \<Rightarrow> us option" where
  "us_poll_start h p events st = do {
     st \<leftarrow> upd_poll p (with_events events) st;
     fd \<leftarrow> us_poll_fd p st;
     Some (snd (sys_int h (Epoll_ctl EPOLL_CTL_ADD fd events p) st)) }"

definition us_poll_change :: "host \<Rightarrow> ptr \<Rightarrow> u32 \<Rightarrow> us \<Rightarrow> us option" where
  "us_poll_change h p events st = do {
     old_events \<leftarrow> us_poll_events p st;
     if old_events \<noteq> events then do {
       st \<leftarrow> upd_poll p (with_events events) st;
       fd \<leftarrow> us_poll_fd p st;
       Some (snd (sys_int h (Epoll_ctl EPOLL_CTL_MOD fd events p) st)) }
     else Some st }"

text \<open>
  The loop over the ready polls from index \<open>i\<close>, with \<open>remaining\<close> entries left to replace.
  Reading beyond the array is \<open>None\<close>.
\<close>

function update_pending_from ::
    "nat \<Rightarrow> int \<Rightarrow> nat \<Rightarrow> ptr \<Rightarrow> ptr \<Rightarrow> (ptr \<times> u32) list \<Rightarrow> (ptr \<times> u32) list option" where
  "update_pending_from i n remaining old_poll new_poll ready =
     (if int i < n \<and> remaining \<noteq> 0 then
        if i < length ready then
          if fst (ready ! i) = old_poll
          then update_pending_from (Suc i) n (remaining - 1) old_poll new_poll
                 (ready[i := (new_poll, snd (ready ! i))])
          else update_pending_from (Suc i) n remaining old_poll new_poll ready
        else None
      else Some ready)"
  by pat_completeness auto
termination
  by (relation "measure (\<lambda>(i, n, _). nat (n - int i))") auto

declare update_pending_from.simps [simp del]

text \<open>Epoll has only one ready poll per poll: one entry is replaced.\<close>

definition us_internal_loop_update_pending_ready_polls :: "ptr \<Rightarrow> ptr \<Rightarrow> us \<Rightarrow> us option" where
  "us_internal_loop_update_pending_ready_polls old_poll new_poll st = do {
     ready \<leftarrow> update_pending_from (nat (current_ready_poll st)) (num_ready_polls st) 1
                old_poll new_poll (ready_polls st);
     Some (st\<lparr>ready_polls := ready\<rparr>) }"

definition us_poll_resize :: "host \<Rightarrow> ptr \<Rightarrow> nat \<Rightarrow> us \<Rightarrow> (ptr \<times> us) option" where
  "us_poll_resize h p ext_size st = do {
     events \<leftarrow> us_poll_events p st;
     (new_p, st) \<leftarrow> realloc h p (sizeof_us_poll_t + ext_size) st;
     if p \<noteq> new_p \<and> events \<noteq> 0 then do {
       st \<leftarrow> upd_poll new_p (\<lambda>x. x\<lparr>p_poll_type := poll_type_of x\<rparr>) st;
       st \<leftarrow> us_poll_change h new_p events st;
       st \<leftarrow> us_internal_loop_update_pending_ready_polls p new_p st;
       Some (new_p, st) }
     else Some (new_p, st) }"

definition us_poll_stop :: "host \<Rightarrow> ptr \<Rightarrow> us \<Rightarrow> us option" where
  "us_poll_stop h p st = do {
     fd \<leftarrow> us_poll_fd p st;
     let st = snd (sys_int h (Epoll_ctl EPOLL_CTL_DEL fd 0 p) st);
     us_internal_loop_update_pending_ready_polls p 0 st }"

text \<open>The eventfd or timerfd is read so that it is no longer ready; the value is not used.\<close>

definition us_internal_accept_poll_event :: "host \<Rightarrow> ptr \<Rightarrow> us \<Rightarrow> us option" where
  "us_internal_accept_poll_event h p st = do {
     fd \<leftarrow> us_poll_fd p st;
     Some (snd (sys_int h (Read8 fd) st)) }"

subsection \<open>Timers\<close>

definition us_create_timer :: "host \<Rightarrow> bool \<Rightarrow> nat \<Rightarrow> us \<Rightarrow> (ptr \<times> us) option" where
  "us_create_timer h fallthrough ext_size st =
     (let (p, st) = us_create_poll h fallthrough (sizeof_us_internal_callback_t + ext_size) st;
          (timerfd, st) = sys_int h Timerfd_create st
      in if timerfd = -1 then Some (0, st)
         else do {
           st \<leftarrow> us_poll_init p timerfd POLL_TYPE_CALLBACK st;
           Some (p, st\<lparr>cbs := (cbs st)(p \<mapsto> \<lparr>cb_expects_the_loop = False,
                            cb_leave_poll_ready = False, cb_cb = Fn_null\<rparr>)\<rparr>) })"

text \<open>\<open>us_timer_close\<close> and \<open>us_internal_async_close\<close> have the same body.\<close>

definition us_timer_close :: "host \<Rightarrow> ptr \<Rightarrow> us \<Rightarrow> us option" where
  "us_timer_close h timer st = do {
     st \<leftarrow> us_poll_stop h timer st;
     fd \<leftarrow> us_poll_fd timer st;
     us_poll_free timer (snd (sys_int h (Close fd) st)) }"

text \<open>C's \<open>/\<close> and \<open>%\<close> truncate towards zero.\<close>

definition us_timer_set :: "host \<Rightarrow> ptr \<Rightarrow> fnptr \<Rightarrow> int \<Rightarrow> int \<Rightarrow> us \<Rightarrow> us option" where
  "us_timer_set h t cb ms repeat_ms st = do {
     st \<leftarrow> upd_cb t (\<lambda>x. x\<lparr>cb_cb := cb\<rparr>) st;
     fd \<leftarrow> us_poll_fd t st;
     let st = snd (sys_int h (Timerfd_settime fd (repeat_ms sdiv 1000) (repeat_ms smod 1000 * 1000000)
                                (ms sdiv 1000) (ms smod 1000 * 1000000)) st);
     us_poll_start h t LIBUS_SOCKET_READABLE st }"

subsection \<open>Asyncs\<close>

definition us_internal_create_async :: "host \<Rightarrow> bool \<Rightarrow> nat \<Rightarrow> us \<Rightarrow> (ptr \<times> us) option" where
  "us_internal_create_async h fallthrough ext_size st =
     (let (p, st) = us_create_poll h fallthrough (sizeof_us_internal_callback_t + ext_size) st;
          (fd, st) = sys_int h Eventfd st
      in do {
           st \<leftarrow> us_poll_init p fd POLL_TYPE_CALLBACK st;
           Some (p, st\<lparr>cbs := (cbs st)(p \<mapsto> \<lparr>cb_expects_the_loop = True,
                            cb_leave_poll_ready = False, cb_cb = Fn_null\<rparr>)\<rparr>) })"

definition us_internal_async_close :: "host \<Rightarrow> ptr \<Rightarrow> us \<Rightarrow> us option" where
  "us_internal_async_close h a st = do {
     st \<leftarrow> us_poll_stop h a st;
     fd \<leftarrow> us_poll_fd a st;
     us_poll_free a (snd (sys_int h (Close fd) st)) }"

definition us_internal_async_set :: "host \<Rightarrow> ptr \<Rightarrow> fnptr \<Rightarrow> us \<Rightarrow> us option" where
  "us_internal_async_set h a cb st = do {
     st \<leftarrow> upd_cb a (\<lambda>x. x\<lparr>cb_cb := cb\<rparr>) st;
     us_poll_start h a LIBUS_SOCKET_READABLE st }"

definition us_internal_async_wakeup :: "host \<Rightarrow> ptr \<Rightarrow> us \<Rightarrow> us option" where
  "us_internal_async_wakeup h a st = do {
     fd \<leftarrow> us_poll_fd a st;
     Some (snd (sys_int h (Write8 fd 1) st)) }"

subsection \<open>The packed poll type\<close>

lemma word4_exhaust:
  obtains "x = (0::4 word)" | "x = 1" | "x = 2" | "x = 3" | "x = 4" | "x = 5" | "x = 6" | "x = 7"
    | "x = 8" | "x = 9" | "x = 10" | "x = 11" | "x = 12" | "x = 13" | "x = 14" | "x = 15"
proof -
  have "unat x < 16"
    using unsigned_less [of x, where 'a = nat] by simp
  then have "unat x \<in> {0, 1, 2, 3, 4, 5, 6, 7, 8, 9, 10, 11, 12, 13, 14, 15}"
    by (simp only: insert_iff empty_iff) presburger
  then have "of_nat (unat x) \<in> (of_nat :: nat \<Rightarrow> 4 word) ` {0, 1, 2, 3, 4, 5, 6, 7, 8, 9, 10, 11, 12, 13, 14, 15}"
    by (rule imageI)
  then have "x \<in> {0, 1, 2, 3, 4, 5, 6, 7, 8, 9, 10, 11, 12, 13, 14, 15}"
    by simp
  then show thesis
    using that by blast
qed

lemma poll_type_of_with_events [simp]: "poll_type_of (with_events e x) = poll_type_of x"
  by (rule word4_exhaust [of "p_poll_type x"])
     (simp_all add: poll_type_of_def with_events_def us_defs)

lemma p_fd_with_events [simp]: "p_fd (with_events e x) = p_fd x"
  by (simp add: with_events_def)

lemma poll_events_of_with_events_cases:
  "poll_events_of (with_events e x) =
     (if e AND 1 \<noteq> 0 then 1 else 0) OR (if e AND 4 \<noteq> 0 then 4 else 0)"
  by (rule word4_exhaust [of "p_poll_type x"]; cases "e AND 1 = 0"; cases "e AND 4 = 0")
     (simp_all add: poll_type_of_def poll_events_of_def with_events_def us_defs)

lemma poll_events_of_with_events:
  "poll_events_of (with_events e x) = e AND (LIBUS_SOCKET_READABLE OR LIBUS_SOCKET_WRITABLE)"
proof -
  have "e AND 1 = (if e AND 1 \<noteq> 0 then 1 else 0)" "e AND 4 = (if e AND 4 \<noteq> 0 then 4 else 0)"
    using and_exp_word [of e 2] by (simp_all add: and_one_eq split: if_splits)
  then show ?thesis
    unfolding poll_events_of_with_events_cases us_defs bit.conj_disj_distrib
    by (intro arg_cong2 [where f = "(OR)"]) (rule sym, assumption)+
qed

lemma with_events_id_eq:
  "e AND (LIBUS_SOCKET_READABLE OR LIBUS_SOCKET_WRITABLE) = e \<Longrightarrow>
   poll_events_of (with_events e x) = e"
  by (simp add: poll_events_of_with_events)

lemma poll_events_of_set_type:
  "t AND 12 = 0 \<Longrightarrow>
   poll_events_of (x\<lparr>p_poll_type := t OR (p_poll_type x AND 12)\<rparr>) = poll_events_of x"
  by (rule word4_exhaust [of "p_poll_type x"]; rule word4_exhaust [of t])
     (simp_all add: poll_events_of_def us_defs)

lemma poll_type_of_set_type:
  "t AND 12 = 0 \<Longrightarrow> poll_type_of (x\<lparr>p_poll_type := t OR (p_poll_type x AND 12)\<rparr>) = t"
  by (rule word4_exhaust [of "p_poll_type x"]; rule word4_exhaust [of t])
     (simp_all add: poll_type_of_def)

subsection \<open>The list of ready polls\<close>

lemma update_pending_from_0 [simp]:
  "update_pending_from i n 0 old_poll new_poll ready = Some ready"
  by (subst update_pending_from.simps) simp

lemma update_pending_from_absent:
  assumes "n \<le> int (length ready)" and "\<forall>j. i \<le> j \<and> int j < n \<longrightarrow> fst (ready ! j) \<noteq> old_poll"
  shows "update_pending_from i n k old_poll new_poll ready = Some ready"
  using assms
proof (induction i n k old_poll new_poll ready rule: update_pending_from.induct)
  case (1 i n k old_poll new_poll ready)
  then show ?case
    by (subst update_pending_from.simps) auto
qed

lemma update_pending_from_present:
  assumes "n \<le> int (length ready)" "i \<le> j" "int j < n" "fst (ready ! j) = old_poll"
    and "\<forall>m. i \<le> m \<and> m < j \<longrightarrow> fst (ready ! m) \<noteq> old_poll"
  shows "update_pending_from i n 1 old_poll new_poll ready
         = Some (ready[j := (new_poll, snd (ready ! j))])"
  using assms
proof (induction "j - i" arbitrary: i)
  case 0
  then show ?case
    by (subst update_pending_from.simps) auto
next
  case (Suc d)
  then have "i \<noteq> j" "i < length ready" "int i < n" by auto
  then have "fst (ready ! i) \<noteq> old_poll"
    using Suc.prems Suc.hyps(2) by auto
  moreover have "update_pending_from (Suc i) n 1 old_poll new_poll ready
      = Some (ready[j := (new_poll, snd (ready ! j))])"
    using Suc \<open>i \<noteq> j\<close> by auto
  ultimately show ?case
    using \<open>int i < n\<close> \<open>i < length ready\<close> by (subst update_pending_from.simps) simp
qed

text \<open>Ready polls are within the array and no poll is in it twice: the state of the array after
  \<open>epoll_wait\<close>, kept by every operation.\<close>

definition ready_ok :: "us \<Rightarrow> bool" where
  "ready_ok st \<longleftrightarrow> 0 \<le> current_ready_poll st \<and> num_ready_polls st \<le> int (length (ready_polls st))
     \<and> (\<forall>i j. i < j \<and> int j < num_ready_polls st \<and> fst (ready_polls st ! i) \<noteq> 0
            \<longrightarrow> fst (ready_polls st ! i) \<noteq> fst (ready_polls st ! j))"

definition pending :: "us \<Rightarrow> ptr set" where
  "pending st = {fst (ready_polls st ! i) |i. nat (current_ready_poll st) \<le> i \<and> int i < num_ready_polls st}"

lemma update_pending_eq:
  assumes ok: "ready_ok st" and p: "p \<noteq> 0"
  shows "\<exists>ready. us_internal_loop_update_pending_ready_polls p q st = Some (st\<lparr>ready_polls := ready\<rparr>)
           \<and> length ready = length (ready_polls st)
           \<and> (\<forall>i. nat (current_ready_poll st) \<le> i \<and> int i < num_ready_polls st \<longrightarrow>
                ready ! i = (if fst (ready_polls st ! i) = p then (q, snd (ready_polls st ! i))
                             else ready_polls st ! i))
           \<and> (\<forall>i. i < nat (current_ready_poll st) \<longrightarrow> ready ! i = ready_polls st ! i)"
proof (cases "\<exists>j. nat (current_ready_poll st) \<le> j \<and> int j < num_ready_polls st \<and> fst (ready_polls st ! j) = p")
  case False
  then show ?thesis
    using ok by (auto simp: us_internal_loop_update_pending_ready_polls_def update_pending_from_absent
        ready_ok_def intro!: exI [of _ "ready_polls st"])
next
  case True
  then obtain j where j: "nat (current_ready_poll st) \<le> j" "int j < num_ready_polls st"
    "fst (ready_polls st ! j) = p" by blast
  have uniq: "fst (ready_polls st ! m) = p \<longleftrightarrow> m = j" if "int m < num_ready_polls st" for m
    using ok j that p by (metis linorder_neqE_nat ready_ok_def)
  have "update_pending_from (nat (current_ready_poll st)) (num_ready_polls st) 1 p q (ready_polls st)
      = Some ((ready_polls st)[j := (q, snd (ready_polls st ! j))])"
    using ok j uniq by (intro update_pending_from_present) (auto simp: ready_ok_def)
  moreover have "\<forall>i. int i < num_ready_polls st \<longrightarrow>
      (ready_polls st)[j := (q, snd (ready_polls st ! j))] ! i
      = (if fst (ready_polls st ! i) = p then (q, snd (ready_polls st ! i)) else ready_polls st ! i)"
    using ok j(2) uniq by (auto simp: ready_ok_def nth_list_update)
  ultimately show ?thesis
    using j(1)
    by (intro exI [of _ "(ready_polls st)[j := (q, snd (ready_polls st ! j))]"])
       (simp add: us_internal_loop_update_pending_ready_polls_def)
qed

end
