(* ===== verification/UsInv.thy ===== *)
theory UsInv
  imports UsPoll
begin

text \<open>
  The abstract view of the library's memory. The intrusive lists threaded through the structs
  (the contexts of the loop, the sockets of each context, the low-priority queue, the sockets
  that are closed but not yet freed) are abstracted to lists of addresses, and \<open>us_inv A st\<close>
  says that the memory \<open>st\<close> holds exactly the lists of \<open>A\<close>. A socket is in exactly one of them,
  or is loose (unlinked, or created and not yet linked) while an operation is under way.
\<close>

record abs =
  a_ctxs :: "ptr list"
  a_socks :: "ptr \<Rightarrow> ptr list"
  a_low :: "ptr list"
  a_closed :: "ptr list"
  a_loose :: "ptr set"

definition slinks :: "us \<Rightarrow> ptr \<Rightarrow> (ptr \<times> ptr) option" where
  "slinks st p = map_option (\<lambda>x. (s_prev x, s_next x)) (socks st p)"

definition clinks :: "us \<Rightarrow> ptr \<Rightarrow> (ptr \<times> ptr) option" where
  "clinks st p = map_option (\<lambda>x. (c_prev x, c_next x)) (ctxs st p)"

definition ctxs_ok :: "ptr list \<Rightarrow> us \<Rightarrow> bool" where
  "ctxs_ok cs st \<longleftrightarrow> dlist (clinks st) (head st) cs \<and> dom (ctxs st) = set cs"

definition list_ok :: "ptr \<Rightarrow> ptr list \<Rightarrow> us \<Rightarrow> bool" where
  "list_ok c xs st \<longleftrightarrow>
     (\<exists>ctx. ctxs st c = Some ctx \<and> dlist (slinks st) (c_head ctx) xs
        \<and> (c_iterator ctx = 0 \<or> c_iterator ctx \<in> set xs))
     \<and> (\<forall>s\<in>set xs. \<exists>x. socks st s = Some x \<and> s_context x = c \<and> s_low_prio_state x \<noteq> 1)"

definition low_ok :: "ptr list \<Rightarrow> ptr list \<Rightarrow> us \<Rightarrow> bool" where
  "low_ok cs xs st \<longleftrightarrow> dlist (slinks st) (low_prio_head st) xs
     \<and> (\<forall>s\<in>set xs. \<exists>x. socks st s = Some x \<and> s_low_prio_state x = 1 \<and> s_context x \<in> set cs)"

definition closed_ok :: "ptr list \<Rightarrow> ptr list \<Rightarrow> us \<Rightarrow> bool" where
  "closed_ok cs xs st \<longleftrightarrow> distinct xs \<and> 0 \<notin> set xs \<and> closed_head st = first xs
     \<and> (\<forall>s\<in>set xs. \<exists>x. socks st s = Some x \<and> s_next x = nxt xs s
          \<and> s_prev x = s_context x \<and> s_context x \<in> set cs)"

definition loose_ok :: "ptr list \<Rightarrow> ptr set \<Rightarrow> us \<Rightarrow> bool" where
  "loose_ok cs X st \<longleftrightarrow> (\<forall>s\<in>X. \<exists>x. socks st s = Some x \<and> s_context x \<in> set cs)"

definition linked :: "abs \<Rightarrow> ptr set" where
  "linked A = (\<Union>c\<in>set (a_ctxs A). set (a_socks A c)) \<union> set (a_low A) \<union> set (a_closed A)"

definition heap_ok :: "us \<Rightarrow> bool" where
  "heap_ok st \<longleftrightarrow> 0 \<notin> dom (socks st) \<and> dom (socks st) \<subseteq> dom (polls st) \<and> dom (cbs st) \<subseteq> dom (polls st)
     \<and> dom (cbs st) \<inter> dom (socks st) = {} \<and> dom (polls st) \<inter> dom (ctxs st) = {}
     \<and> dom (polls st) \<union> dom (ctxs st) \<subseteq> set (live st) \<and> ready_ok st"

definition mem_ok :: "abs \<Rightarrow> us \<Rightarrow> bool" where
  "mem_ok A st \<longleftrightarrow> dom (socks st) = linked A \<union> a_loose A \<and> linked A \<inter> a_loose A = {} \<and> heap_ok st"

definition us_inv :: "abs \<Rightarrow> us \<Rightarrow> bool" where
  "us_inv A st \<longleftrightarrow> ctxs_ok (a_ctxs A) st
     \<and> (\<forall>c\<in>set (a_ctxs A). list_ok c (a_socks A c) st)
     \<and> low_ok (a_ctxs A) (a_low A) st
     \<and> closed_ok (a_ctxs A) (a_closed A) st
     \<and> loose_ok (a_ctxs A) (a_loose A) st
     \<and> mem_ok A st"

lemma us_invD:
  assumes "us_inv A st"
  shows us_inv_ctxs: "ctxs_ok (a_ctxs A) st"
    and us_inv_list: "c \<in> set (a_ctxs A) \<Longrightarrow> list_ok c (a_socks A c) st"
    and us_inv_low: "low_ok (a_ctxs A) (a_low A) st"
    and us_inv_closed: "closed_ok (a_ctxs A) (a_closed A) st"
    and us_inv_loose: "loose_ok (a_ctxs A) (a_loose A) st"
    and us_inv_mem: "mem_ok A st"
  using assms by (auto simp: us_inv_def)

subsection \<open>What the invariant gives about one socket\<close>

lemma us_inv_sock_ctx:
  assumes "us_inv A st" "socks st s = Some x"
  shows "s_context x \<in> set (a_ctxs A)" and "\<exists>ctx. ctxs st (s_context x) = Some ctx"
    and "\<exists>q. polls st s = Some q" and "s \<noteq> 0"
proof -
  have "s \<in> linked A \<union> a_loose A"
    using assms by (auto simp: us_inv_def mem_ok_def)
  then show ctx: "s_context x \<in> set (a_ctxs A)"
    using assms unfolding us_inv_def linked_def list_ok_def low_ok_def closed_ok_def loose_ok_def
    by force
  then show "\<exists>ctx. ctxs st (s_context x) = Some ctx"
    using assms by (auto simp: us_inv_def ctxs_ok_def)
  show "\<exists>q. polls st s = Some q" "s \<noteq> 0"
    using assms by (auto simp: us_inv_def mem_ok_def heap_ok_def)
qed

lemma us_inv_listD:
  assumes "us_inv A st" "c \<in> set (a_ctxs A)"
  obtains ctx where "ctxs st c = Some ctx" "dlist (slinks st) (c_head ctx) (a_socks A c)"
    "c_iterator ctx = 0 \<or> c_iterator ctx \<in> set (a_socks A c)"
    "\<And>s. s \<in> set (a_socks A c) \<Longrightarrow> \<exists>x. socks st s = Some x \<and> s_context x = c \<and> s_low_prio_state x \<noteq> 1"
  using us_inv_list [OF assms] by (auto simp: list_ok_def)

lemma us_inv_lowD:
  assumes "us_inv A st"
  shows "dlist (slinks st) (low_prio_head st) (a_low A)"
    and "s \<in> set (a_low A) \<Longrightarrow> \<exists>x. socks st s = Some x \<and> s_low_prio_state x = 1"
  using us_inv_low [OF assms] by (auto simp: low_ok_def)

lemma us_inv_ctxs_socks: "us_inv A st \<Longrightarrow> dom (socks st) \<inter> set (a_ctxs A) = {}"
  unfolding us_inv_def mem_ok_def heap_ok_def ctxs_ok_def by blast

lemma us_inv_ctx_not_sock: "us_inv A st \<Longrightarrow> c \<in> set (a_ctxs A) \<Longrightarrow> socks st c = None"
  using us_inv_ctxs_socks [of A st] by (cases "socks st c") auto

lemma us_inv_dom: "us_inv A st \<Longrightarrow> dom (socks st) = linked A \<union> a_loose A"
  by (simp add: us_inv_def mem_ok_def)

lemma dlist_prev_sock:
  assumes "dlist links h xs" "s \<in> set xs" "links s = Some (p, n)"
  shows "p = 0 \<or> p \<in> set xs" and "n = 0 \<or> n \<in> set xs"
  using assms prv_in [of xs s] nxt_in [of xs s] by (auto simp: dlist_def)

text \<open>The marker of a closed socket (\<open>prev == context\<close>) never occurs in a linked one.\<close>

lemma us_inv_not_marked:
  assumes inv: "us_inv A st" and x: "socks st s = Some x"
    and s: "(\<exists>c\<in>set (a_ctxs A). s \<in> set (a_socks A c)) \<or> s \<in> set (a_low A)"
  shows "s_prev x \<noteq> s_context x"
proof -
  obtain h xs where d: "dlist (slinks st) h xs" "s \<in> set xs" and xs: "set xs \<subseteq> linked A"
    using s us_inv_lowD(1) [OF inv] us_inv_listD [OF inv]
    by (metis UN_upper linked_def sup.coboundedI1 sup.cobounded2 sup.cobounded1 le_supI1)
  have "s_prev x = 0 \<or> s_prev x \<in> set xs"
    using dlist_prev_sock(1) [OF d, of "s_prev x" "s_next x"] x by (simp add: slinks_def)
  moreover have "s_context x \<in> set (a_ctxs A)"
    using us_inv_sock_ctx [OF inv x] by simp
  moreover have "0 \<notin> set (a_ctxs A)"
    using us_inv_ctxs [OF inv] by (auto simp: ctxs_ok_def dlist_def)
  moreover have "set (a_ctxs A) \<inter> linked A = {}"
    using us_inv_ctxs_socks [OF inv] us_inv_dom [OF inv] by blast
  ultimately show ?thesis
    using xs by auto
qed

lemma us_inv_disjoint:
  assumes inv: "us_inv A st"
  shows "c \<in> set (a_ctxs A) \<Longrightarrow> d \<in> set (a_ctxs A) \<Longrightarrow> c \<noteq> d \<Longrightarrow> set (a_socks A c) \<inter> set (a_socks A d) = {}"
    and "c \<in> set (a_ctxs A) \<Longrightarrow> set (a_socks A c) \<inter> set (a_low A) = {}"
    and "c \<in> set (a_ctxs A) \<Longrightarrow> set (a_socks A c) \<inter> set (a_closed A) = {}"
    and "set (a_low A) \<inter> set (a_closed A) = {}"
proof -
  note ok = us_inv_list [OF inv] us_inv_low [OF inv] us_inv_closed [OF inv]
  show "set (a_socks A c) \<inter> set (a_socks A d) = {}"
    if "c \<in> set (a_ctxs A)" "d \<in> set (a_ctxs A)" "c \<noteq> d"
    using ok(1) [OF that(1)] ok(1) [OF that(2)] that(3) by (fastforce simp: list_ok_def)
  show "set (a_socks A c) \<inter> set (a_low A) = {}" if "c \<in> set (a_ctxs A)"
    using ok(1) [OF that] ok(2) by (fastforce simp: list_ok_def low_ok_def)
  show "set (a_socks A c) \<inter> set (a_closed A) = {}" if "c \<in> set (a_ctxs A)"
    using ok(3) us_inv_not_marked [OF inv] that unfolding closed_ok_def by blast
  show "set (a_low A) \<inter> set (a_closed A) = {}"
    using ok(3) us_inv_not_marked [OF inv] unfolding closed_ok_def by blast
qed

text \<open>Frame rules: a list is untouched by updates of other sockets and contexts.\<close>

lemma dom_clinks: "dom (clinks st) = dom (ctxs st)"
  by (auto simp: clinks_def)

lemma ctxs_ok_frame:
  "ctxs_ok cs st \<Longrightarrow> head st' = head st \<Longrightarrow> clinks st' = clinks st \<Longrightarrow> ctxs_ok cs st'"
proof -
  assume a: "ctxs_ok cs st" "head st' = head st" "clinks st' = clinks st"
  have "dom (ctxs st') = dom (ctxs st)"
    using a(3) by (simp flip: dom_clinks)
  then show ?thesis using a by (simp add: ctxs_ok_def)
qed

lemma list_ok_frame:
  "list_ok c xs st \<Longrightarrow> ctxs st' c = ctxs st c \<Longrightarrow> (\<And>s. s \<in> set xs \<Longrightarrow> socks st' s = socks st s)
   \<Longrightarrow> list_ok c xs st'"
  unfolding list_ok_def
  by (auto intro!: dlist_cong [of "slinks st" _ xs "slinks st'"] simp: slinks_def)

lemma low_ok_frame:
  "low_ok cs xs st \<Longrightarrow> low_prio_head st' = low_prio_head st \<Longrightarrow>
   (\<And>s. s \<in> set xs \<Longrightarrow> socks st' s = socks st s) \<Longrightarrow> low_ok cs xs st'"
  unfolding low_ok_def
  by (auto intro!: dlist_cong [of "slinks st" _ xs "slinks st'"] simp: slinks_def)

lemma closed_ok_frame:
  "closed_ok cs xs st \<Longrightarrow> closed_head st' = closed_head st \<Longrightarrow>
   (\<And>s. s \<in> set xs \<Longrightarrow> socks st' s = socks st s) \<Longrightarrow> closed_ok cs xs st'"
  unfolding closed_ok_def by auto

lemma loose_ok_frame:
  "loose_ok cs X st \<Longrightarrow> (\<And>s. s \<in> X \<Longrightarrow> socks st' s = socks st s) \<Longrightarrow> loose_ok cs X st'"
  unfolding loose_ok_def by auto

text \<open>Everything the invariant reads.\<close>

definition same_memory :: "us \<Rightarrow> us \<Rightarrow> bool" where
  "same_memory st st' \<longleftrightarrow> socks st' = socks st \<and> ctxs st' = ctxs st \<and> cbs st' = cbs st
     \<and> dom (polls st') = dom (polls st) \<and> live st' = live st \<and> head st' = head st
     \<and> low_prio_head st' = low_prio_head st \<and> closed_head st' = closed_head st"

lemma same_memory_links: "same_memory st st' \<Longrightarrow> slinks st' = slinks st \<and> clinks st' = clinks st"
  by (auto simp: same_memory_def slinks_def clinks_def)

lemma us_inv_same_memory:
  assumes "us_inv A st" "same_memory st st'" "ready_ok st'"
  shows "us_inv A st'"
proof -
  have eqs: "socks st' = socks st" "ctxs st' = ctxs st" "cbs st' = cbs st"
    "dom (polls st') = dom (polls st)" "live st' = live st" "head st' = head st"
    "low_prio_head st' = low_prio_head st" "closed_head st' = closed_head st"
    "slinks st' = slinks st" "clinks st' = clinks st"
    using assms(2) same_memory_links [OF assms(2)] by (auto simp: same_memory_def)
  show ?thesis
    using assms(1,3)
    unfolding us_inv_def ctxs_ok_def list_ok_def low_ok_def closed_ok_def loose_ok_def mem_ok_def heap_ok_def eqs
    by (elim conjE) (intro conjI; assumption)
qed

subsection \<open>Re-establishing the invariant after one list has changed\<close>

text \<open>The memory that no list operation touches.\<close>

definition same_shape :: "us \<Rightarrow> us \<Rightarrow> bool" where
  "same_shape st st' \<longleftrightarrow> dom (socks st') = dom (socks st) \<and> dom (polls st') = dom (polls st)
     \<and> cbs st' = cbs st \<and> live st' = live st \<and> head st' = head st \<and> clinks st' = clinks st
     \<and> ready_ok st'"

lemma same_shape_heap: "same_shape st st' \<Longrightarrow> heap_ok st \<Longrightarrow> heap_ok st'"
  by (simp add: same_shape_def heap_ok_def flip: dom_clinks)

definition others :: "abs \<Rightarrow> ptr \<Rightarrow> ptr set" where
  "others A c = (\<Union>d\<in>set (a_ctxs A) - {c}. set (a_socks A d)) \<union> set (a_low A) \<union> set (a_closed A)"

lemma linked_others: "c \<in> set (a_ctxs A) \<Longrightarrow> linked A = set (a_socks A c) \<union> others A c"
  by (auto simp: linked_def others_def)

lemma linked_others_upd:
  "c \<in> set (a_ctxs A) \<Longrightarrow>
   linked (A\<lparr>a_socks := (a_socks A)(c := xs), a_loose := X\<rparr>) = set xs \<union> others A c"
  unfolding linked_def others_def by (auto split: if_splits)

lemma others_disjoint:
  assumes "us_inv A st" "c \<in> set (a_ctxs A)"
  shows "set (a_socks A c) \<inter> others A c = {}"
  using us_inv_disjoint [OF assms(1)] assms(2) unfolding others_def by blast

lemma us_inv_update_list:
  assumes inv: "us_inv A st" and c: "c \<in> set (a_ctxs A)" and shape: "same_shape st st'"
    and heads: "low_prio_head st' = low_prio_head st" "closed_head st' = closed_head st"
    and unchanged: "\<And>d. d \<noteq> c \<Longrightarrow> ctxs st' d = ctxs st d"
    and frame: "\<And>p. p \<notin> set (a_socks A c) \<union> a_loose A \<Longrightarrow> socks st' p = socks st p"
    and list: "list_ok c xs st'" and loose: "loose_ok (a_ctxs A) X st'"
    and sets: "set xs \<union> X = set (a_socks A c) \<union> a_loose A" "set xs \<inter> X = {}"
  shows "us_inv (A\<lparr>a_socks := (a_socks A)(c := xs), a_loose := X\<rparr>) st'"
    (is "us_inv ?A st'")
proof -
  note disj = others_disjoint [OF inv c] and m = us_inv_mem [OF inv] and L = linked_others [OF c]
  have untouched: "socks st' p = socks st p" if "p \<in> others A c" for p
    using that m frame [of p] disj L unfolding mem_ok_def by blast
  show ?thesis
    unfolding us_inv_def
  proof (intro conjI ballI)
    show "ctxs_ok (a_ctxs ?A) st'"
      using us_inv_ctxs [OF inv] shape by (auto simp: same_shape_def intro: ctxs_ok_frame)
    show "list_ok d (a_socks ?A d) st'" if d: "d \<in> set (a_ctxs ?A)" for d
    proof (cases "d = c")
      case True
      then show ?thesis using list by simp
    next
      case False
      have "s \<in> others A c" if "s \<in> set (a_socks A d)" for s
        using that d False by (auto simp: others_def)
      then have "list_ok d (a_socks A d) st'"
        using d False unchanged untouched by (intro list_ok_frame [OF us_inv_list [OF inv]]) simp_all
      with False show ?thesis by simp
    qed
    have "s \<in> others A c" if "s \<in> set (a_low A) \<union> set (a_closed A)" for s
      using that by (auto simp: others_def)
    then show "low_ok (a_ctxs ?A) (a_low ?A) st'" "closed_ok (a_ctxs ?A) (a_closed ?A) st'"
      using heads untouched
      by (simp_all add: low_ok_frame [OF us_inv_low [OF inv]] closed_ok_frame [OF us_inv_closed [OF inv]])
    show "loose_ok (a_ctxs ?A) (a_loose ?A) st'"
      using loose by simp
    have L': "linked ?A = set xs \<union> others A c"
      by (rule linked_others_upd [OF c])
    have "others A c \<inter> a_loose A = {}"
      using m L by (auto simp: mem_ok_def)
    then have "linked ?A \<union> X = linked A \<union> a_loose A" "linked ?A \<inter> X = {}"
      using sets disj unfolding L L' by blast+
    then show "mem_ok ?A st'"
      using m shape same_shape_heap [OF shape] by (simp add: mem_ok_def same_shape_def)
  qed
qed

text \<open>The same for the low-priority queue and for the list of closed sockets.\<close>

definition in_ctxs :: "abs \<Rightarrow> ptr set" where
  "in_ctxs A = (\<Union>c\<in>set (a_ctxs A). set (a_socks A c))"

lemma linked_in_ctxs: "linked A = in_ctxs A \<union> set (a_low A) \<union> set (a_closed A)"
  by (simp add: linked_def in_ctxs_def)

lemma in_ctxs_upd [simp]:
  "in_ctxs (A\<lparr>a_low := xs\<rparr>) = in_ctxs A" "in_ctxs (A\<lparr>a_closed := xs\<rparr>) = in_ctxs A"
  "in_ctxs (A\<lparr>a_loose := X\<rparr>) = in_ctxs A"
  by (simp_all add: in_ctxs_def)

lemma in_ctxs_disjoint:
  assumes "us_inv A st"
  shows "in_ctxs A \<inter> set (a_low A) = {}" "in_ctxs A \<inter> set (a_closed A) = {}"
    "set (a_low A) \<inter> set (a_closed A) = {}" "in_ctxs A \<inter> a_loose A = {}"
    "set (a_low A) \<inter> a_loose A = {}" "set (a_closed A) \<inter> a_loose A = {}"
proof -
  note disj = us_inv_disjoint [OF assms]
  have m: "linked A \<inter> a_loose A = {}"
    using us_inv_mem [OF assms] by (simp add: mem_ok_def)
  show "in_ctxs A \<inter> set (a_low A) = {}"
    using disj(2) by (auto simp: in_ctxs_def)
  show "in_ctxs A \<inter> set (a_closed A) = {}"
    using disj(3) by (auto simp: in_ctxs_def)
  show "set (a_low A) \<inter> set (a_closed A) = {}"
    by (rule disj(4))
  show "in_ctxs A \<inter> a_loose A = {}" "set (a_low A) \<inter> a_loose A = {}" "set (a_closed A) \<inter> a_loose A = {}"
    using m unfolding linked_in_ctxs by auto
qed

lemma list_ok_unchanged:
  assumes "us_inv A st" "c \<in> set (a_ctxs A)" "ctxs st' c = ctxs st c"
    and "\<And>p. p \<in> in_ctxs A \<Longrightarrow> socks st' p = socks st p"
  shows "list_ok c (a_socks A c) st'"
  using assms(2-) by (intro list_ok_frame [OF us_inv_list [OF assms(1)]]) (auto simp: in_ctxs_def)

lemma us_inv_update_low:
  assumes inv: "us_inv A st" and shape: "same_shape st st'"
    and heads: "ctxs st' = ctxs st" "closed_head st' = closed_head st"
    and frame: "\<And>p. p \<notin> set (a_low A) \<union> a_loose A \<Longrightarrow> socks st' p = socks st p"
    and low: "low_ok (a_ctxs A) xs st'" and loose: "loose_ok (a_ctxs A) X st'"
    and sets: "set xs \<union> X = set (a_low A) \<union> a_loose A" "set xs \<inter> X = {}"
  shows "us_inv (A\<lparr>a_low := xs, a_loose := X\<rparr>) st'" (is "us_inv ?A st'")
proof -
  note m = us_inv_mem [OF inv] and disj = in_ctxs_disjoint [OF inv]
  have untouched: "socks st' p = socks st p" if "p \<in> in_ctxs A \<union> set (a_closed A)" for p
    using that disj frame [of p] by blast
  have "linked ?A \<union> X = linked A \<union> a_loose A" "linked ?A \<inter> X = {}"
    using sets disj unfolding linked_in_ctxs by auto
  then have "mem_ok ?A st'"
    using m shape same_shape_heap [OF shape] by (simp add: mem_ok_def same_shape_def)
  moreover have "ctxs_ok (a_ctxs A) st'"
    using us_inv_ctxs [OF inv] shape by (auto simp: same_shape_def intro: ctxs_ok_frame)
  moreover have "closed_ok (a_ctxs A) (a_closed A) st'"
    using us_inv_closed [OF inv] heads untouched by (auto intro: closed_ok_frame)
  moreover have "\<forall>c\<in>set (a_ctxs A). list_ok c (a_socks A c) st'"
    using list_ok_unchanged [OF inv] heads untouched by simp
  ultimately show ?thesis
    using low loose by (simp add: us_inv_def)
qed

lemma us_inv_update_closed:
  assumes inv: "us_inv A st" and shape: "same_shape st st'"
    and heads: "ctxs st' = ctxs st" "low_prio_head st' = low_prio_head st"
    and frame: "\<And>p. p \<notin> set (a_closed A) \<union> a_loose A \<Longrightarrow> socks st' p = socks st p"
    and closed: "closed_ok (a_ctxs A) xs st'" and loose: "loose_ok (a_ctxs A) X st'"
    and sets: "set xs \<union> X = set (a_closed A) \<union> a_loose A" "set xs \<inter> X = {}"
  shows "us_inv (A\<lparr>a_closed := xs, a_loose := X\<rparr>) st'" (is "us_inv ?A st'")
proof -
  note m = us_inv_mem [OF inv] and disj = in_ctxs_disjoint [OF inv]
  have untouched: "socks st' p = socks st p" if "p \<in> in_ctxs A \<union> set (a_low A)" for p
    using that disj frame [of p] by blast
  have "linked ?A \<union> X = linked A \<union> a_loose A" "linked ?A \<inter> X = {}"
    using sets disj unfolding linked_in_ctxs by auto
  then have "mem_ok ?A st'"
    using m shape same_shape_heap [OF shape] by (simp add: mem_ok_def same_shape_def)
  moreover have "ctxs_ok (a_ctxs A) st'"
    using us_inv_ctxs [OF inv] shape by (auto simp: same_shape_def intro: ctxs_ok_frame)
  moreover have "low_ok (a_ctxs A) (a_low A) st'"
    using us_inv_low [OF inv] heads untouched by (auto intro: low_ok_frame)
  moreover have "\<forall>c\<in>set (a_ctxs A). list_ok c (a_socks A c) st'"
    using list_ok_unchanged [OF inv] heads untouched by simp
  ultimately show ?thesis
    using closed loose by (simp add: us_inv_def)
qed

end
