(* ===== verification/UsContext.thy ===== *)
theory UsContext
  imports UsInv
begin

text \<open>
  Linking and unlinking: the contexts of the loop (\<open>us_internal_loop_link/unlink\<close> of
  \<open>src/uSockets2/src/loop.c\<close>) and the sockets of a context
  (\<open>us_internal_socket_context_link/unlink\<close> of \<open>src/uSockets2/src/context.c\<close>), with creation and
  release of contexts. Each pointer operation is shown to refine the operation on the list it
  stands for: cons for a link, \<open>removeAll\<close> for an unlink.
\<close>

subsection \<open>Contexts of the loop\<close>

definition us_internal_loop_link :: "ptr \<Rightarrow> us \<Rightarrow> us option" where
  "us_internal_loop_link c st = do {
     st \<leftarrow> upd_ctx c (\<lambda>x. x\<lparr>c_next := head st, c_prev := 0\<rparr>) st;
     st \<leftarrow> (if head st \<noteq> 0 then upd_ctx (head st) (\<lambda>x. x\<lparr>c_prev := c\<rparr>) st else Some st);
     Some (st\<lparr>head := c\<rparr>) }"

definition us_internal_loop_unlink :: "ptr \<Rightarrow> us \<Rightarrow> us option" where
  "us_internal_loop_unlink c st = do {
     x \<leftarrow> ctxs st c;
     if head st = c then do {
       let st = st\<lparr>head := c_next x\<rparr>;
       if head st \<noteq> 0 then upd_ctx (head st) (\<lambda>y. y\<lparr>c_prev := 0\<rparr>) st else Some st }
     else do {
       st \<leftarrow> upd_ctx (c_prev x) (\<lambda>y. y\<lparr>c_next := c_next x\<rparr>) st;
       if c_next x \<noteq> 0 then upd_ctx (c_next x) (\<lambda>y. y\<lparr>c_prev := c_prev x\<rparr>) st else Some st } }"

subsection \<open>Sockets of a context\<close>

definition us_internal_socket_context_unlink :: "ptr \<Rightarrow> ptr \<Rightarrow> us \<Rightarrow> us option" where
  "us_internal_socket_context_unlink c s st = do {
     x \<leftarrow> socks st s;
     ctx \<leftarrow> ctxs st c;
     st \<leftarrow> (if s = c_iterator ctx then upd_ctx c (\<lambda>y. y\<lparr>c_iterator := s_next x\<rparr>) st else Some st);
     if s_prev x = s_next x then upd_ctx c (\<lambda>y. y\<lparr>c_head := 0\<rparr>) st
     else do {
       st \<leftarrow> (if s_prev x \<noteq> 0 then upd_sock (s_prev x) (\<lambda>y. y\<lparr>s_next := s_next x\<rparr>) st
               else upd_ctx c (\<lambda>y. y\<lparr>c_head := s_next x\<rparr>) st);
       if s_next x \<noteq> 0 then upd_sock (s_next x) (\<lambda>y. y\<lparr>s_prev := s_prev x\<rparr>) st else Some st } }"

definition us_internal_socket_context_link :: "ptr \<Rightarrow> ptr \<Rightarrow> us \<Rightarrow> us option" where
  "us_internal_socket_context_link c s st = do {
     ctx \<leftarrow> ctxs st c;
     st \<leftarrow> upd_sock s (\<lambda>x. x\<lparr>s_context := c, s_next := c_head ctx, s_prev := 0\<rparr>) st;
     st \<leftarrow> (if c_head ctx \<noteq> 0 then upd_sock (c_head ctx) (\<lambda>x. x\<lparr>s_prev := s\<rparr>) st else Some st);
     upd_ctx c (\<lambda>x. x\<lparr>c_head := s\<rparr>) st }"

definition us_socket_context_timestamp :: "ptr \<Rightarrow> us \<Rightarrow> u16 option" where
  "us_socket_context_timestamp c st = map_option c_timestamp (ctxs st c)"

text \<open>The value of every context field before \<open>us_create_socket_context\<close> stores to it is
  indeterminate; the callbacks not set are \<open>Fn_null\<close>.\<close>

definition us_create_socket_context :: "host \<Rightarrow> nat \<Rightarrow> us \<Rightarrow> (ptr \<times> us) option" where
  "us_create_socket_context h ext_size st =
     (let (c, st) = malloc h (sizeof_us_socket_context_t + ext_size) st
      in if c \<notin> set (live st) then None
      else let st = st\<lparr>ctxs := (ctxs st)(c \<mapsto> \<lparr>c_timestamp = 0, c_head = 0, c_iterator = 0, c_prev = 0,
                 c_next = 0, c_on_open = Fn_null, c_on_data = Fn_null, c_on_writable = Fn_null,
                 c_on_close = Fn_null, c_on_socket_timeout = Fn_null, c_on_end = Fn_null,
                 c_on_connect_error = Fn_null, c_is_low_prio = Fn_default_is_low_prio_handler\<rparr>)\<rparr>
      in do { st \<leftarrow> us_internal_loop_link c st; Some (c, st) })"

definition us_socket_context_free :: "ptr \<Rightarrow> us \<Rightarrow> us option" where
  "us_socket_context_free c st = do {
     st \<leftarrow> us_internal_loop_unlink c st;
     free c st }"

subsection \<open>Refinement\<close>

definition a_link :: "ptr \<Rightarrow> ptr \<Rightarrow> abs \<Rightarrow> abs" where
  "a_link c s A = A\<lparr>a_socks := (a_socks A)(c := s # a_socks A c), a_loose := a_loose A - {s}\<rparr>"

definition a_unlink :: "ptr \<Rightarrow> ptr \<Rightarrow> abs \<Rightarrow> abs" where
  "a_unlink c s A =
     A\<lparr>a_socks := (a_socks A)(c := removeAll s (a_socks A c)), a_loose := insert s (a_loose A)\<rparr>"

text \<open>What a socket holds besides its list links.\<close>

definition core :: "us_socket_t \<Rightarrow> ptr \<times> 14 word \<times> 2 word" where
  "core x = (s_context x, s_timeout x, s_low_prio_state x)"

lemma ready_ok_simps [simp]:
  "ready_ok (st\<lparr>socks := S\<rparr>) = ready_ok st" "ready_ok (st\<lparr>ctxs := C\<rparr>) = ready_ok st"
  "ready_ok (st\<lparr>polls := P\<rparr>) = ready_ok st" "ready_ok (st\<lparr>log := L\<rparr>) = ready_ok st"
  "ready_ok (st\<lparr>head := a\<rparr>) = ready_ok st" "ready_ok (st\<lparr>closed_head := a\<rparr>) = ready_ok st"
  "ready_ok (st\<lparr>low_prio_head := a\<rparr>) = ready_ok st" "ready_ok (st\<lparr>live := M\<rparr>) = ready_ok st"
  "ready_ok (st\<lparr>last_write_failed := b\<rparr>) = ready_ok st"
  "ready_ok (st\<lparr>low_prio_budget := i\<rparr>) = ready_ok st"
  "ready_ok (st\<lparr>num_polls := i\<rparr>) = ready_ok st" "ready_ok (st\<lparr>cbs := B\<rparr>) = ready_ok st"
  "ready_ok (st\<lparr>listens := E\<rparr>) = ready_ok st"
  by (simp_all add: ready_ok_def)

lemma dlist_list_ok:
  "ctxs st c = Some ctx \<Longrightarrow> list_ok c xs st \<Longrightarrow> dlist (slinks st) (c_head ctx) xs"
  by (auto simp: list_ok_def)

theorem context_link_refines:
  assumes inv: "us_inv A st" and c: "c \<in> set (a_ctxs A)" and s: "s \<in> a_loose A"
    and x: "socks st s = Some x" and low: "s_low_prio_state x \<noteq> 1"
  shows "\<exists>st' S C. us_internal_socket_context_link c s st = Some st'
           \<and> us_inv (a_link c s A) st' \<and> st' = st\<lparr>socks := S, ctxs := C\<rparr>
           \<and> map_option core (S s) = Some (c, s_timeout x, s_low_prio_state x)
           \<and> (\<forall>p. p \<noteq> s \<longrightarrow> map_option core (S p) = map_option core (socks st p))
           \<and> (\<forall>d. map_option (c_head_update (\<lambda>_. 0)) (C d) = map_option (c_head_update (\<lambda>_. 0)) (ctxs st d))"
proof -
  obtain ctx where ctx: "ctxs st c = Some ctx" "dlist (slinks st) (c_head ctx) (a_socks A c)"
    and it: "c_iterator ctx = 0 \<or> c_iterator ctx \<in> set (a_socks A c)"
    and mem: "\<And>s. s \<in> set (a_socks A c) \<Longrightarrow> \<exists>x. socks st s = Some x \<and> s_context x = c \<and> s_low_prio_state x \<noteq> 1"
    using us_inv_listD [OF inv c] by metis
  let ?h = "c_head ctx"
  have sn: "s \<notin> set (a_socks A c)" "s \<noteq> 0"
    using in_ctxs_disjoint(4) [OF inv] c s us_inv_sock_ctx [OF inv x] by (auto simp: in_ctxs_def)
  have h: "?h \<noteq> 0 \<Longrightarrow> ?h \<in> set (a_socks A c) \<and> (\<exists>y. socks st ?h = Some y)" "?h \<noteq> s"
    using dlist_head_in [OF ctx(2)] mem sn by blast+
  define x' where "x' = x\<lparr>s_context := c, s_next := ?h, s_prev := 0\<rparr>"
  define S where "S = (if ?h = 0 then (socks st)(s \<mapsto> x')
    else (socks st)(s \<mapsto> x', ?h \<mapsto> (the (socks st ?h))\<lparr>s_prev := s\<rparr>))"
  define C where "C = (ctxs st)(c \<mapsto> ctx\<lparr>c_head := s\<rparr>)"
  let ?st = "st\<lparr>socks := S, ctxs := C\<rparr>"
  have step: "us_internal_socket_context_link c s st = Some ?st"
    using ctx(1) x h by (auto simp: us_internal_socket_context_link_def upd_sock_def upd_ctx_def
        S_def C_def x'_def)
  have S_other: "S p = socks st p" if "p \<noteq> s" "p \<noteq> ?h" for p
    using that by (simp add: S_def)
  have S_s: "S s = Some x'"
    using h by (auto simp: S_def)
  have S_h: "S ?h = Some ((the (socks st ?h))\<lparr>s_prev := s\<rparr>)" if "?h \<noteq> 0"
    using that by (simp add: S_def)
  have dl: "dlist (slinks ?st) s (s # a_socks A c)"
  proof (rule dlist_push [OF ctx(2) sn(2) sn(1)])
    show "slinks ?st s = Some (0, ?h)"
      by (simp add: slinks_def S_s x'_def)
    show "slinks ?st ?h = map_option (\<lambda>l. (s, snd l)) (slinks st ?h)" if "?h \<noteq> 0"
      using that h S_h by (auto simp: slinks_def)
    show "slinks ?st p = slinks st p" if "p \<in> set (a_socks A c)" "p \<noteq> ?h" for p
    proof -
      have "p \<noteq> s" using that sn by auto
      then show ?thesis using that S_other [of p] by (simp add: slinks_def)
    qed
  qed
  have cores: "map_option core (S p) = map_option core (socks st p)" if "p \<noteq> s" for p
    using that h S_h S_other [of p] by (cases "p = ?h \<and> ?h \<noteq> 0") (auto simp: core_def S_def)
  have lst: "list_ok c (s # a_socks A c) ?st"
  proof -
    have "\<exists>y. S p = Some y \<and> s_context y = c \<and> s_low_prio_state y \<noteq> 1"
      if p: "p \<in> set (s # a_socks A c)" for p
    proof (cases "p = s")
      case True
      then show ?thesis using low S_s by (simp add: x'_def)
    next
      case False
      with p mem obtain y where "socks st p = Some y" "s_context y = c" "s_low_prio_state y \<noteq> 1"
        by auto
      then show ?thesis using cores [OF False] by (auto simp: core_def)
    qed
    then show ?thesis
      using dl it by (auto simp: list_ok_def C_def)
  qed
  have cl: "clinks ?st = clinks st"
    using ctx(1) by (auto simp: clinks_def C_def)
  have "dom S = dom (socks st)"
    using x h by (auto simp: S_def)
  then have shape: "same_shape st ?st"
    using us_inv_mem [OF inv] cl by (simp add: same_shape_def mem_ok_def heap_ok_def)
  have "us_inv (a_link c s A) ?st"
    unfolding a_link_def
  proof (rule us_inv_update_list [OF inv c shape])
    show "socks ?st p = socks st p" if "p \<notin> set (a_socks A c) \<union> a_loose A" for p
      using that s h S_other [of p] by (cases "?h = 0") (auto simp: S_def)
    show "loose_ok (a_ctxs A) (a_loose A - {s}) ?st"
    proof (rule loose_ok_frame)
      show "loose_ok (a_ctxs A) (a_loose A - {s}) st"
        using us_inv_loose [OF inv] by (auto simp: loose_ok_def)
      show "socks ?st p = socks st p" if "p \<in> a_loose A - {s}" for p
        using that h in_ctxs_disjoint(4) [OF inv] c S_other [of p]
        by (cases "?h = 0") (auto simp: S_def in_ctxs_def)
    qed
  qed (use lst s sn in_ctxs_disjoint(4) [OF inv] c in \<open>auto simp: C_def in_ctxs_def\<close>)
  then show ?thesis
    using step S_s ctx(1) cores by (auto simp: core_def x'_def C_def intro!: exI [of _ S] exI [of _ C])
qed

theorem context_unlink_refines:
  assumes inv: "us_inv A st" and c: "c \<in> set (a_ctxs A)" and s: "s \<in> set (a_socks A c)"
    and ctx: "ctxs st c = Some ctx"
  shows "\<exists>S C. us_internal_socket_context_unlink c s st = Some (st\<lparr>socks := S, ctxs := C\<rparr>)
           \<and> us_inv (a_unlink c s A) (st\<lparr>socks := S, ctxs := C\<rparr>)
           \<and> S s = socks st s
           \<and> (\<forall>p. map_option core (S p) = map_option core (socks st p))
           \<and> C = (ctxs st)(c \<mapsto> ctx\<lparr>c_iterator := if c_iterator ctx = s then nxt (a_socks A c) s else c_iterator ctx,
               c_head := first (removeAll s (a_socks A c))\<rparr>)"
proof -
  let ?xs = "a_socks A c"
  have d: "dlist (slinks st) (c_head ctx) ?xs"
    and it: "c_iterator ctx = 0 \<or> c_iterator ctx \<in> set ?xs"
    and mem: "\<And>s. s \<in> set ?xs \<Longrightarrow> \<exists>x. socks st s = Some x \<and> s_context x = c \<and> s_low_prio_state x \<noteq> 1"
    using us_inv_list [OF inv c] ctx by (auto simp: list_ok_def)
  note xs = dlist_distinct [OF d] dlist_nonnull [OF d]
  obtain x where x: "socks st s = Some x" using mem s by blast
  let ?p = "prv ?xs s" and ?n = "nxt ?xs s"
  have lx: "s_prev x = ?p" "s_next x = ?n"
    using dlist_links [OF d s] x by (auto simp: slinks_def)
  have pn: "?p = 0 \<or> ?p \<in> set ?xs" "?n = 0 \<or> ?n \<in> set ?xs"
    using prv_in nxt_in by auto
  have ps: "?p \<noteq> s" "?n \<noteq> s"
    using nxt_ne [OF xs s] nxt_prv [OF xs s] nxt_ne [OF xs, of ?p] pn s xs by metis+
  have sing: "?p = ?n \<longleftrightarrow> ?xs = [s]"
    using nxt_eq_prv [OF xs s] by auto
  have hd: "?p = 0 \<longleftrightarrow> c_head ctx = s"
    using prv_eq_0_iff [OF xs s] dlist_head [OF d] by auto
  define S where "S = (\<lambda>q. if q = 0 then socks st q
     else if q = ?p then map_option (\<lambda>y. y\<lparr>s_next := ?n\<rparr>) (socks st q)
     else if q = ?n then map_option (\<lambda>y. y\<lparr>s_prev := ?p\<rparr>) (socks st q) else socks st q)"
  define C where "C = (ctxs st)(c \<mapsto> ctx\<lparr>c_iterator := if c_iterator ctx = s then ?n else c_iterator ctx,
     c_head := first (removeAll s ?xs)\<rparr>)"
  let ?st = "st\<lparr>socks := S, ctxs := C\<rparr>"
  have newhead: "first (removeAll s ?xs) = (if c_head ctx = s then ?n else c_head ctx)"
    using removeAll_first [OF xs(1)] s dlist_head [OF d] by auto
  have py: "?p \<noteq> 0 \<Longrightarrow> \<exists>y. socks st ?p = Some y" and ny: "?n \<noteq> 0 \<Longrightarrow> \<exists>y. socks st ?n = Some y"
    using mem pn by blast+
  have S_upd: "S = (if ?p = ?n then socks st else
      (let S1 = (if ?p \<noteq> 0 then (socks st)(?p \<mapsto> (the (socks st ?p))\<lparr>s_next := ?n\<rparr>) else socks st)
       in if ?n \<noteq> 0 then S1(?n \<mapsto> (the (socks st ?n))\<lparr>s_prev := ?p\<rparr>) else S1))"
  proof -
    have "?p = ?n \<Longrightarrow> ?n = 0"
      using sing by auto
    then show ?thesis
      using py ny by (auto simp: S_def fun_eq_iff Let_def)
  qed
  have step: "us_internal_socket_context_unlink c s st = Some ?st"
  proof (cases "?p = ?n")
    case True
    then have "?xs = [s]" using sing by simp
    then show ?thesis
      using x ctx lx True S_upd
      by (auto simp: us_internal_socket_context_unlink_def upd_ctx_def C_def)
  next
    case False
    have hd': "first (removeAll s ?xs) = (if ?p = 0 then ?n else c_head ctx)"
      using newhead hd by simp
    have keep: "ctx\<lparr>c_head := c_head ctx\<rparr> = ctx" "(ctxs st)(c \<mapsto> ctx) = ctxs st"
      using ctx by (simp, auto)
    obtain y z where yz: "?p \<noteq> 0 \<Longrightarrow> socks st ?p = Some y" "?n \<noteq> 0 \<Longrightarrow> socks st ?n = Some z"
      using py ny by metis
    show ?thesis
      unfolding us_internal_socket_context_unlink_def S_upd C_def hd' Let_def
      using x ctx lx False
      by (cases "?p = 0"; cases "?n = 0"; cases "c_iterator ctx = s")
         (simp_all add: upd_ctx_def upd_sock_def yz keep eq_commute [of s "c_iterator ctx"])
  qed
  have cores: "map_option core (S q) = map_option core (socks st q)" for q
    by (cases "socks st q") (auto simp: S_def core_def)
  have dl: "dlist (slinks ?st) (first (removeAll s ?xs)) (removeAll s ?xs)"
  proof (rule dlist_remove [OF d s])
    show "first (removeAll s ?xs) = (if c_head ctx = s then nxt ?xs s else c_head ctx)"
      by (rule newhead)
    fix q assume q: "q \<in> set ?xs" "q \<noteq> s"
    obtain y where "socks st q = Some y" "s_prev y = prv ?xs q" "s_next y = nxt ?xs q"
      using dlist_links [OF d q(1)] by (auto simp: slinks_def)
    moreover have "q \<noteq> 0" using q xs by auto
    moreover have "q = ?p \<Longrightarrow> q \<noteq> ?n"
      using sing q by auto
    ultimately show "slinks ?st q = Some (if q = ?n then ?p else prv ?xs q, if q = ?p then ?n else nxt ?xs q)"
      by (auto simp: slinks_def S_def)
  qed
  have lst: "list_ok c (removeAll s ?xs) ?st"
  proof -
    have "\<exists>y. S q = Some y \<and> s_context y = c \<and> s_low_prio_state y \<noteq> 1" if "q \<in> set (removeAll s ?xs)" for q
      using that mem [of q] cores [of q] by (auto simp: core_def)
    moreover have "?n \<noteq> 0 \<Longrightarrow> ?n \<in> set (removeAll s ?xs)"
      using pn ps by auto
    ultimately show ?thesis
      using dl it by (auto simp: list_ok_def C_def)
  qed
  have cl: "clinks ?st = clinks st"
    using ctx by (auto simp: clinks_def C_def)
  have "dom S = dom (socks st)"
    by (auto simp: S_def split: if_splits)
  then have shape: "same_shape st ?st"
    using us_inv_mem [OF inv] cl by (simp add: same_shape_def mem_ok_def heap_ok_def)
  have loose_disj: "set ?xs \<inter> a_loose A = {}"
    using in_ctxs_disjoint(4) [OF inv] c by (auto simp: in_ctxs_def)
  have S_s: "S s = socks st s"
    using ps xs s by (auto simp: S_def)
  have "us_inv (a_unlink c s A) ?st"
    unfolding a_unlink_def
  proof (rule us_inv_update_list [OF inv c shape])
    show "socks ?st q = socks st q" if "q \<notin> set ?xs \<union> a_loose A" for q
      using that pn by (auto simp: S_def)
    show "loose_ok (a_ctxs A) (insert s (a_loose A)) ?st"
    proof -
      have "S q = socks st q" if "q \<in> a_loose A" for q
        using that pn loose_disj by (auto simp: S_def)
      then show ?thesis
        using us_inv_loose [OF inv] x S_s us_inv_sock_ctx(1) [OF inv x] by (auto simp: loose_ok_def)
    qed
  qed (use lst s loose_disj in \<open>auto simp: C_def\<close>)
  then show ?thesis
    using step cores S_s C_def by blast
qed

end
