(* ===== verification/Bsd.thy ===== *)
theory Bsd
  imports UsTypes
begin

text \<open>
  The wrappers of the socket system calls (\<open>src/uSockets2/src/bsd.c\<close>, the Linux branches of its
  conditionals: \<open>SOCK_CLOEXEC\<close>, \<open>SOCK_NONBLOCK\<close>, \<open>MSG_MORE\<close>, \<open>TCP_CORK\<close>, \<open>SO_REUSEPORT\<close> and
  \<open>IPV6_V6ONLY\<close> are defined). A function that makes system calls takes and returns the state,
  whose history records the calls. A socket address is the byte string the kernel stores
  (family in host order, x86-64), as \<open>internal_finalize_bsd_addr\<close> reads it through casts.
\<close>

definition LIBUS_SOCKET_ERROR :: int where "LIBUS_SOCKET_ERROR = -1"
definition LIBUS_LISTEN_EXCLUSIVE_PORT :: int where "LIBUS_LISTEN_EXCLUSIVE_PORT = 1"
definition AF_UNIX :: int where "AF_UNIX = 1"
definition AF_INET :: int where "AF_INET = 2"
definition AF_INET6 :: int where "AF_INET6 = 10"
definition SOCK_STREAM :: int where "SOCK_STREAM = 1"
definition SOCK_DGRAM :: int where "SOCK_DGRAM = 2"
definition SOCK_NONBLOCK :: int where "SOCK_NONBLOCK = 2048"
definition SOCK_CLOEXEC :: int where "SOCK_CLOEXEC = 524288"
definition O_NONBLOCK :: int where "O_NONBLOCK = 2048"
definition EWOULDBLOCK :: int where "EWOULDBLOCK = 11"

lemmas bsd_consts [us_defs] =
  LIBUS_SOCKET_ERROR_def LIBUS_LISTEN_EXCLUSIVE_PORT_def AF_UNIX_def AF_INET_def AF_INET6_def
  SOCK_STREAM_def SOCK_DGRAM_def SOCK_NONBLOCK_def SOCK_CLOEXEC_def O_NONBLOCK_def EWOULDBLOCK_def

subsection \<open>Socket options and descriptors\<close>

definition apple_no_sigpipe :: "int \<Rightarrow> int" where
  "apple_no_sigpipe fd = fd"

definition bsd_set_nonblocking :: "host \<Rightarrow> int \<Rightarrow> us \<Rightarrow> int \<times> us" where
  "bsd_set_nonblocking h fd st =
     (let (flags, st) = sys_int h (Fcntl_getfl fd) st;
          (_, st) = sys_int h (Fcntl_setfl fd (flags OR O_NONBLOCK)) st
      in (fd, st))"

definition bsd_socket_nodelay :: "host \<Rightarrow> int \<Rightarrow> int \<Rightarrow> us \<Rightarrow> us" where
  "bsd_socket_nodelay h fd enabled st = snd (sys_int h (Setsockopt fd (TCP_NODELAY enabled)) st)"

definition bsd_socket_flush :: "host \<Rightarrow> int \<Rightarrow> us \<Rightarrow> us" where
  "bsd_socket_flush h fd st = snd (sys_int h (Setsockopt fd (TCP_CORK 0)) st)"

definition bsd_create_socket :: "host \<Rightarrow> int \<Rightarrow> int \<Rightarrow> int \<Rightarrow> us \<Rightarrow> int \<times> us" where
  "bsd_create_socket h domain type protocol st =
     (let (created_fd, st) = sys_int h (Socket domain (type OR (SOCK_CLOEXEC OR SOCK_NONBLOCK)) protocol) st
      in bsd_set_nonblocking h (apple_no_sigpipe created_fd) st)"

definition bsd_close_socket :: "host \<Rightarrow> int \<Rightarrow> us \<Rightarrow> us" where
  "bsd_close_socket h fd st = snd (sys_int h (Close fd) st)"

definition bsd_shutdown_socket :: "host \<Rightarrow> int \<Rightarrow> us \<Rightarrow> us" where
  "bsd_shutdown_socket h fd st = snd (sys_int h (Shutdown_write fd) st)"

definition bsd_shutdown_socket_read :: "host \<Rightarrow> int \<Rightarrow> us \<Rightarrow> us" where
  "bsd_shutdown_socket_read h fd st = snd (sys_int h (Shutdown_read fd) st)"

subsection \<open>Addresses\<close>

record bsd_addr_t =
  addr_mem :: "byte list"
  addr_ip :: "byte list"
  addr_ip_length :: int
  addr_port :: int

definition byte_at :: "byte list \<Rightarrow> nat \<Rightarrow> byte" where
  "byte_at bs i = (if i < length bs then bs ! i else 0)"

definition bytes_at :: "byte list \<Rightarrow> nat \<Rightarrow> nat \<Rightarrow> byte list" where
  "bytes_at bs i n = map (\<lambda>k. byte_at bs (i + k)) [0..<n]"

definition ss_family :: "byte list \<Rightarrow> int" where
  "ss_family mem = uint (byte_at mem 0) + 256 * uint (byte_at mem 1)"

definition sin_port :: "byte list \<Rightarrow> int" where \<comment> \<open>\<open>ntohs\<close> of the network-order port\<close>
  "sin_port mem = 256 * uint (byte_at mem 2) + uint (byte_at mem 3)"

text \<open>The \<open>ip\<close> pointer is left as it is for an unknown family; the model keeps the old bytes.\<close>

definition internal_finalize_bsd_addr :: "bsd_addr_t \<Rightarrow> bsd_addr_t" where
  "internal_finalize_bsd_addr addr =
     (if ss_family (addr_mem addr) = AF_INET6 then
        addr\<lparr>addr_ip := bytes_at (addr_mem addr) 8 16, addr_ip_length := 16,
             addr_port := sin_port (addr_mem addr)\<rparr>
      else if ss_family (addr_mem addr) = AF_INET then
        addr\<lparr>addr_ip := bytes_at (addr_mem addr) 4 4, addr_ip_length := 4,
             addr_port := sin_port (addr_mem addr)\<rparr>
      else addr\<lparr>addr_ip_length := 0, addr_port := -1\<rparr>)"

definition bsd_local_addr :: "host \<Rightarrow> int \<Rightarrow> bsd_addr_t \<Rightarrow> us \<Rightarrow> int \<times> bsd_addr_t \<times> us" where
  "bsd_local_addr h fd addr st =
     (let (r, st) = sys_int h (Getsockname fd) st
      in if r \<noteq> 0 then (-1, addr, st)
         else (0, internal_finalize_bsd_addr (addr\<lparr>addr_mem := k_bytes h (log st)\<rparr>), st))"

definition bsd_remote_addr :: "host \<Rightarrow> int \<Rightarrow> bsd_addr_t \<Rightarrow> us \<Rightarrow> int \<times> bsd_addr_t \<times> us" where
  "bsd_remote_addr h fd addr st =
     (let (r, st) = sys_int h (Getpeername fd) st
      in if r \<noteq> 0 then (-1, addr, st)
         else (0, internal_finalize_bsd_addr (addr\<lparr>addr_mem := k_bytes h (log st)\<rparr>), st))"

definition bsd_addr_get_ip :: "bsd_addr_t \<Rightarrow> byte list" where "bsd_addr_get_ip = addr_ip"
definition bsd_addr_get_ip_length :: "bsd_addr_t \<Rightarrow> int" where "bsd_addr_get_ip_length = addr_ip_length"
definition bsd_addr_get_port :: "bsd_addr_t \<Rightarrow> int" where "bsd_addr_get_port = addr_port"

definition uninit_addr :: bsd_addr_t where
  "uninit_addr = \<lparr>addr_mem = [], addr_ip = [], addr_ip_length = 0, addr_port = 0\<rparr>"

definition bsd_accept_socket :: "host \<Rightarrow> int \<Rightarrow> bsd_addr_t \<Rightarrow> us \<Rightarrow> int \<times> bsd_addr_t \<times> us" where
  "bsd_accept_socket h fd addr st =
     (let (accepted_fd, st) = sys_int h (Accept fd) st
      in if accepted_fd = LIBUS_SOCKET_ERROR then (LIBUS_SOCKET_ERROR, addr, st)
         else let addr = internal_finalize_bsd_addr (addr\<lparr>addr_mem := k_bytes h (log st)\<rparr>);
                  (fd, st) = bsd_set_nonblocking h (apple_no_sigpipe accepted_fd) st
              in (fd, addr, st))"

subsection \<open>Data\<close>

text \<open>\<open>recv\<close> returns -1, or the number of bytes it stored; the bytes are \<open>k_bytes\<close>.\<close>

definition bsd_recv :: "host \<Rightarrow> int \<Rightarrow> nat \<Rightarrow> us \<Rightarrow> int \<times> byte list \<times> us" where
  "bsd_recv h fd len st =
     (let (r, st) = sys_int h (Recv fd len) st in (r, k_bytes h (log st), st))"

definition bsd_send :: "host \<Rightarrow> int \<Rightarrow> byte list \<Rightarrow> bool \<Rightarrow> us \<Rightarrow> int \<times> us" where
  "bsd_send h fd buf msg_more st = sys_int h (Send fd buf msg_more) st"

definition bsd_would_block :: "host \<Rightarrow> us \<Rightarrow> bool" where
  "bsd_would_block h st \<longleftrightarrow> k_errno h (log st) = EWOULDBLOCK"

subsection \<open>Listening and connecting\<close>

text \<open>The loops over the result of \<open>getaddrinfo\<close>: the first address of the family for which
  \<open>socket\<close> succeeds.\<close>

fun first_socket ::
    "host \<Rightarrow> int \<Rightarrow> addrinfo list \<Rightarrow> int \<times> addrinfo option \<Rightarrow> us \<Rightarrow> (int \<times> addrinfo option) \<times> us" where
  "first_socket h fam [] r st = (r, st)"
| "first_socket h fam (a # as) (fd, la) st =
     (if fd \<noteq> LIBUS_SOCKET_ERROR then ((fd, la), st)
      else if ai_family a = fam then
        let (fd, st) = bsd_create_socket h (ai_family a) (ai_socktype a) (ai_protocol a) st
        in first_socket h fam as (fd, Some a) st
      else first_socket h fam as (fd, la) st)"

definition bsd_create_listen_socket :: "host \<Rightarrow> string option \<Rightarrow> int \<Rightarrow> int \<Rightarrow> us \<Rightarrow> int \<times> us" where
  "bsd_create_listen_socket h hst port options st =
     (let (err, st) = sys_int h (Getaddrinfo hst (Some port) (Hints True SOCK_STREAM)) st
      in if err \<noteq> 0 then (LIBUS_SOCKET_ERROR, st)
      else let result = k_addrinfo h (log st);
               (r, st) = first_socket h AF_INET6 result (LIBUS_SOCKET_ERROR, None) st;
               ((listenFd, listenAddr), st) = first_socket h AF_INET result r st
           in if listenFd = LIBUS_SOCKET_ERROR then (LIBUS_SOCKET_ERROR, emit Freeaddrinfo st)
      else let st = (if port \<noteq> 0 then
                       let st = (if options AND LIBUS_LISTEN_EXCLUSIVE_PORT = 0
                                 then snd (sys_int h (Setsockopt listenFd (SO_REUSEPORT 1)) st) else st)
                       in snd (sys_int h (Setsockopt listenFd (SO_REUSEADDR 1)) st)
                     else st);
               st = snd (sys_int h (Setsockopt listenFd (IPV6_V6ONLY 0)) st);
               (b, st) = sys_int h (Bind listenFd (ai_addr (the listenAddr))) st;
               (failed, st) = (if b \<noteq> 0 then (True, st)
                               else let (l, st) = sys_int h (Listen listenFd 512) st in (l \<noteq> 0, st))
           in if failed then (LIBUS_SOCKET_ERROR, emit Freeaddrinfo (bsd_close_socket h listenFd st))
              else (listenFd, emit Freeaddrinfo st))"

text \<open>The bytes of a \<open>sockaddr_un\<close> up to the last character of the path; \<open>strcpy\<close> into the 108
  bytes of \<open>sun_path\<close> is undefined for a longer path.\<close>

definition sockaddr_un :: "string \<Rightarrow> byte list option" where
  "sockaddr_un path =
     (if length path < 108 then Some (1 # 0 # map (word_of_int \<circ> of_char) path) else None)"

definition bsd_create_listen_socket_unix :: "host \<Rightarrow> string \<Rightarrow> int \<Rightarrow> us \<Rightarrow> (int \<times> us) option" where
  "bsd_create_listen_socket_unix h path options st =
     (let (listenFd, st) = bsd_create_socket h AF_UNIX SOCK_STREAM 0 st
      in if listenFd = LIBUS_SOCKET_ERROR then Some (LIBUS_SOCKET_ERROR, st)
      else do {
        let st = snd (sys_int h (Fchmod_700 listenFd) st);
        server_address \<leftarrow> sockaddr_un path;
        let st = snd (sys_int h (Unlink path) st);
        let (b, st) = sys_int h (Bind listenFd server_address) st;
        let (failed, st) = (if b \<noteq> 0 then (True, st)
                            else let (l, st) = sys_int h (Listen listenFd 512) st in (l \<noteq> 0, st));
        if failed then Some (LIBUS_SOCKET_ERROR, bsd_close_socket h listenFd st)
        else Some (listenFd, st) })"

definition bsd_create_connect_socket ::
    "host \<Rightarrow> string option \<Rightarrow> int \<Rightarrow> string option \<Rightarrow> int \<Rightarrow> us \<Rightarrow> (int \<times> us) option" where
  "bsd_create_connect_socket h hst port source_host options st =
     (let (err, st) = sys_int h (Getaddrinfo hst (Some port) (Hints False SOCK_STREAM)) st
      in if err \<noteq> 0 then Some (LIBUS_SOCKET_ERROR, st)
      else case k_addrinfo h (log st) of [] \<Rightarrow> None
      | a # _ \<Rightarrow>
        let (fd, st) = bsd_create_socket h (ai_family a) (ai_socktype a) (ai_protocol a) st
        in if fd = LIBUS_SOCKET_ERROR then Some (LIBUS_SOCKET_ERROR, emit Freeaddrinfo st)
        else do {
          (failed, st) \<leftarrow> (case source_host of None \<Rightarrow> Some (False, st)
            | Some src \<Rightarrow>
                let (e, st) = sys_int h (Getaddrinfo (Some src) None No_hints) st
                in if e \<noteq> 0 then Some (False, st)
                else case k_addrinfo h (log st) of [] \<Rightarrow> None
                | i # _ \<Rightarrow> let (ret, st) = sys_int h (Bind fd (ai_addr i)) st
                           in Some (ret = LIBUS_SOCKET_ERROR, emit Freeaddrinfo st));
          if failed then Some (LIBUS_SOCKET_ERROR, emit Freeaddrinfo (bsd_close_socket h fd st))
          else let st = snd (sys_int h (Connect fd (ai_addr a)) st)
               in Some (fd, emit Freeaddrinfo st) })"

definition bsd_create_connect_socket_unix :: "host \<Rightarrow> string \<Rightarrow> int \<Rightarrow> us \<Rightarrow> (int \<times> us) option" where
  "bsd_create_connect_socket_unix h server_path options st = do {
     server_address \<leftarrow> sockaddr_un server_path;
     let (fd, st) = bsd_create_socket h AF_UNIX SOCK_STREAM 0 st;
     if fd = LIBUS_SOCKET_ERROR then Some (LIBUS_SOCKET_ERROR, st)
     else Some (fd, snd (sys_int h (Connect fd server_address) st)) }"

definition bsd_create_udp_socket :: "host \<Rightarrow> string option \<Rightarrow> int \<Rightarrow> us \<Rightarrow> int \<times> us" where
  "bsd_create_udp_socket h hst port st =
     (let (err, st) = sys_int h (Getaddrinfo hst (Some port) (Hints True SOCK_DGRAM)) st
      in if err \<noteq> 0 then (LIBUS_SOCKET_ERROR, st)
      else let result = k_addrinfo h (log st);
               (r, st) = first_socket h AF_INET6 result (LIBUS_SOCKET_ERROR, None) st;
               ((listenFd, listenAddr), st) = first_socket h AF_INET result r st
           in if listenFd = LIBUS_SOCKET_ERROR then (LIBUS_SOCKET_ERROR, emit Freeaddrinfo st)
      else let st = (if port \<noteq> 0 then snd (sys_int h (Setsockopt listenFd (SO_REUSEADDR 1)) st) else st);
               st = snd (sys_int h (Setsockopt listenFd (IPV6_V6ONLY 0)) st);
               (e, st) = sys_int h (Setsockopt listenFd (IPV6_RECVPKTINFO 1)) st;
               st = (if e = -1 \<and> k_errno h (log st) = 92
                     then snd (sys_int h (Setsockopt listenFd (IP_PKTINFO 1)) st) else st);
               (e, st) = sys_int h (Setsockopt listenFd (IPV6_RECVTCLASS 1)) st;
               st = (if e = -1 \<and> k_errno h (log st) = 92
                     then snd (sys_int h (Setsockopt listenFd (IP_RECVTOS 1)) st) else st);
               (b, st) = sys_int h (Bind listenFd (ai_addr (the listenAddr))) st
           in if b \<noteq> 0 then (LIBUS_SOCKET_ERROR, emit Freeaddrinfo (bsd_close_socket h listenFd st))
              else (listenFd, emit Freeaddrinfo st))"

subsection \<open>UDP packet buffers\<close>

definition LIBUS_UDP_MAX_SIZE :: nat where "LIBUS_UDP_MAX_SIZE = 65536"
definition LIBUS_UDP_MAX_NUM :: nat where "LIBUS_UDP_MAX_NUM = 1024"
definition MSG_NOSIGNAL :: int where "MSG_NOSIGNAL = 16384"
definition sizeof_sockaddr_in :: nat where "sizeof_sockaddr_in = 16"
definition sizeof_sockaddr_storage :: nat where "sizeof_sockaddr_storage = 128"

lemmas udp_consts [us_defs] =
  LIBUS_UDP_MAX_SIZE_def LIBUS_UDP_MAX_NUM_def MSG_NOSIGNAL_def sizeof_sockaddr_in_def
  sizeof_sockaddr_storage_def

text \<open>
  \<open>&b->addr\<close> is the address of the whole array, so of its slot 0, for every \<open>n\<close>. The bytes of
  the block are indeterminate; the model has zeros.
\<close>

definition init_mmsghdr :: "nat \<Rightarrow> mmsghdr" where
  "init_mmsghdr n = \<lparr>msg_name = 0, msg_namelen = sizeof_sockaddr_storage, msg_iov = n, msg_iovlen = 1,
                     msg_control = n, msg_controllen = 256, msg_len = 0\<rparr>"

definition bsd_create_udp_packet_buffer :: us_internal_udp_packet_buffer where
  "bsd_create_udp_packet_buffer =
     \<lparr>msgvec = map init_mmsghdr [0..<LIBUS_UDP_MAX_NUM],
      iov = map (\<lambda>n. (n, LIBUS_UDP_MAX_SIZE)) [0..<LIBUS_UDP_MAX_NUM],
      addr_slots = replicate LIBUS_UDP_MAX_NUM (replicate sizeof_sockaddr_storage 0),
      control = replicate LIBUS_UDP_MAX_NUM (replicate 256 0),
      payload_area = replicate LIBUS_UDP_MAX_NUM (replicate LIBUS_UDP_MAX_SIZE 0)\<rparr>"

text \<open>\<open>memcpy\<close> of \<open>src\<close> to offset \<open>off\<close> of a block; \<open>None\<close> when it writes beyond the block.\<close>

definition memcpy_to :: "byte list \<Rightarrow> nat \<Rightarrow> byte list \<Rightarrow> byte list option" where
  "memcpy_to dst off src =
     (if off + length src \<le> length dst
      then Some (take off dst @ src @ drop (off + length src) dst) else None)"

definition nth_opt :: "'a list \<Rightarrow> nat \<Rightarrow> 'a option" where
  "nth_opt xs i = (if i < length xs then Some (xs ! i) else None)"

definition bsd_udp_buffer_set_packet_payload ::
    "us_internal_udp_packet_buffer \<Rightarrow> nat \<Rightarrow> nat \<Rightarrow> byte list \<Rightarrow> byte list
     \<Rightarrow> us_internal_udp_packet_buffer option" where
  "bsd_udp_buffer_set_packet_payload b index offset payload peer_addr = do {
     mh \<leftarrow> nth_opt (msgvec b) index;
     slot \<leftarrow> nth_opt (addr_slots b) (msg_name mh);
     slot \<leftarrow> memcpy_to slot 0 (take sizeof_sockaddr_in peer_addr);
     let b = b\<lparr>addr_slots := (addr_slots b)[msg_name mh := slot],
               msgvec := (msgvec b)[index := mh\<lparr>msg_controllen := 0\<rparr>]\<rparr>;
     v \<leftarrow> nth_opt (iov b) (msg_iov mh);
     let b = b\<lparr>iov := (iov b)[msg_iov mh := (fst v, length payload + offset)]\<rparr>;
     block \<leftarrow> nth_opt (payload_area b) (fst v);
     block \<leftarrow> memcpy_to block offset payload;
     Some (b\<lparr>payload_area := (payload_area b)[fst v := block]\<rparr>) }"

definition bsd_udp_packet_buffer_peer :: "us_internal_udp_packet_buffer \<Rightarrow> nat \<Rightarrow> byte list option" where
  "bsd_udp_packet_buffer_peer b index = do {
     mh \<leftarrow> nth_opt (msgvec b) index; nth_opt (addr_slots b) (msg_name mh) }"

definition bsd_udp_packet_buffer_payload :: "us_internal_udp_packet_buffer \<Rightarrow> nat \<Rightarrow> byte list option" where
  "bsd_udp_packet_buffer_payload b index = do {
     mh \<leftarrow> nth_opt (msgvec b) index;
     v \<leftarrow> nth_opt (iov b) (msg_iov mh);
     nth_opt (payload_area b) (fst v) }"

definition bsd_udp_packet_buffer_payload_length :: "us_internal_udp_packet_buffer \<Rightarrow> nat \<Rightarrow> nat option" where
  "bsd_udp_packet_buffer_payload_length b index = map_option msg_len (nth_opt (msgvec b) index)"

text \<open>
  The kernel side of \<open>sendmmsg\<close> and \<open>recvmmsg\<close>: what the headers say to send, and the effect of
  a received datagram (the payload cut to the I/O vector, the address and the control data
  through their pointers, the lengths updated).
\<close>

definition datagram :: "us_internal_udp_packet_buffer \<Rightarrow> nat \<Rightarrow> (byte list \<times> byte list) option" where
  "datagram b i = do {
     mh \<leftarrow> nth_opt (msgvec b) i;
     v \<leftarrow> nth_opt (iov b) (msg_iov mh);
     block \<leftarrow> nth_opt (payload_area b) (fst v);
     slot \<leftarrow> nth_opt (addr_slots b) (msg_name mh);
     Some (take (snd v) block, take (msg_namelen mh) slot) }"

definition bsd_sendmmsg ::
    "host \<Rightarrow> int \<Rightarrow> us_internal_udp_packet_buffer \<Rightarrow> nat \<Rightarrow> int \<Rightarrow> us \<Rightarrow> (int \<times> us) option" where
  "bsd_sendmmsg h fd b vlen flags st = do {
     ds \<leftarrow> those (map (datagram b) [0..<vlen]);
     Some (sys_int h (Sendmmsg fd ds (flags OR MSG_NOSIGNAL)) st) }"

definition store_datagram ::
    "nat \<Rightarrow> byte list \<times> byte list \<times> byte list \<Rightarrow> us_internal_udp_packet_buffer
     \<Rightarrow> us_internal_udp_packet_buffer option" where
  "store_datagram i m b = (case m of (payload, peer, ctl) \<Rightarrow> do {
     mh \<leftarrow> nth_opt (msgvec b) i;
     v \<leftarrow> nth_opt (iov b) (msg_iov mh);
     block \<leftarrow> nth_opt (payload_area b) (fst v);
     block \<leftarrow> memcpy_to block 0 (take (snd v) payload);
     slot \<leftarrow> nth_opt (addr_slots b) (msg_name mh);
     slot \<leftarrow> memcpy_to slot 0 (take (msg_namelen mh) peer);
     ctrl \<leftarrow> nth_opt (control b) (msg_control mh);
     ctrl \<leftarrow> memcpy_to ctrl 0 (take (msg_controllen mh) ctl);
     Some (b\<lparr>payload_area := (payload_area b)[fst v := block],
             addr_slots := (addr_slots b)[msg_name mh := slot],
             control := (control b)[msg_control mh := ctrl],
             msgvec := (msgvec b)[i := mh\<lparr>msg_len := min (snd v) (length payload),
               msg_namelen := length peer, msg_controllen := min (msg_controllen mh) (length ctl)\<rparr>]\<rparr>) })"

fun store_datagrams ::
    "nat \<Rightarrow> (byte list \<times> byte list \<times> byte list) list \<Rightarrow> us_internal_udp_packet_buffer
     \<Rightarrow> us_internal_udp_packet_buffer option" where
  "store_datagrams i [] b = Some b"
| "store_datagrams i (m # ms) b = do { b \<leftarrow> store_datagram i m b; store_datagrams (Suc i) ms b }"

text \<open>\<open>recvmmsg\<close> returns -1, or the number of datagrams it stored.\<close>

definition bsd_recvmmsg ::
    "host \<Rightarrow> int \<Rightarrow> us_internal_udp_packet_buffer \<Rightarrow> nat \<Rightarrow> int \<Rightarrow> us
     \<Rightarrow> (int \<times> us_internal_udp_packet_buffer \<times> us) option" where
  "bsd_recvmmsg h fd b vlen flags st =
     (if vlen \<le> length (msgvec b) then do {
        let b = b\<lparr>msgvec := map (\<lambda>mh. mh\<lparr>msg_controllen := 256\<rparr>) (take vlen (msgvec b)) @ drop vlen (msgvec b)\<rparr>;
        let (r, st) = sys_int h (Recvmmsg fd vlen flags) st;
        if r < 0 then Some (r, b, st)
        else do {
          b \<leftarrow> store_datagrams 0 (take (nat r) (take vlen (k_msgs h (log st)))) b;
          Some (r, b, st) } }
      else None)"

subsection \<open>Control messages\<close>

text \<open>
  The walk with \<open>CMSG_FIRSTHDR\<close> and \<open>CMSG_NXTHDR\<close>: offsets of the headers (length, 8 bytes;
  level and type, 4 bytes each; the data follow, aligned to 8 bytes) in \<open>n\<close> bytes of control data.
\<close>

fun le_nat :: "byte list \<Rightarrow> nat" where
  "le_nat [] = 0"
| "le_nat (b # bs) = unat b + 256 * le_nat bs"

definition cmsg_len :: "byte list \<Rightarrow> nat \<Rightarrow> nat" where "cmsg_len c o' = le_nat (bytes_at c o' 8)"
definition cmsg_level :: "byte list \<Rightarrow> nat \<Rightarrow> nat" where "cmsg_level c o' = le_nat (bytes_at c (o' + 8) 4)"
definition cmsg_type :: "byte list \<Rightarrow> nat \<Rightarrow> nat" where "cmsg_type c o' = le_nat (bytes_at c (o' + 12) 4)"
definition CMSG_ALIGN :: "nat \<Rightarrow> nat" where "CMSG_ALIGN n = (n + 7) div 8 * 8"

function cmsgs_from :: "byte list \<Rightarrow> nat \<Rightarrow> nat \<Rightarrow> nat list" where
  "cmsgs_from c n o' = o' # (let len = cmsg_len c o'; o2 = o' + CMSG_ALIGN len in
     if len < 16 \<or> o2 + 16 > n \<or> o2 + CMSG_ALIGN (cmsg_len c o2) > n then []
     else cmsgs_from c n o2)"
  by pat_completeness auto
termination
  by (relation "measure (\<lambda>(c, n, o'). n - o')") (auto simp: CMSG_ALIGN_def)

declare cmsgs_from.simps [simp del]

definition cmsgs :: "byte list \<Rightarrow> nat \<Rightarrow> nat list" where
  "cmsgs c n = (if n \<ge> 16 then cmsgs_from c n 0 else [])"

fun local_ip_of :: "byte list \<Rightarrow> nat list \<Rightarrow> byte list" where
  "local_ip_of c [] = []"
| "local_ip_of c (o' # os) =
     (if cmsg_level c o' = 0 \<and> cmsg_type c o' = 8 then bytes_at c (o' + 16 + 8) 4
      else if cmsg_level c o' = 41 \<and> cmsg_type c o' = 50 then bytes_at c (o' + 16) 16
      else local_ip_of c os)"

text \<open>The bytes written to \<open>ip\<close>; their number (0, 4 or 16) is the value the function returns.\<close>

definition bsd_udp_packet_buffer_local_ip :: "us_internal_udp_packet_buffer \<Rightarrow> nat \<Rightarrow> byte list option" where
  "bsd_udp_packet_buffer_local_ip b index = do {
     mh \<leftarrow> nth_opt (msgvec b) index;
     c \<leftarrow> nth_opt (control b) (msg_control mh);
     Some (local_ip_of c (cmsgs c (msg_controllen mh))) }"

fun ecn_of :: "byte list \<Rightarrow> nat list \<Rightarrow> byte" where
  "ecn_of c [] = 0"
| "ecn_of c (o' # os) =
     (if cmsg_level c o' = 0 \<and> cmsg_type c o' = 1 then byte_at c (o' + 16) AND 3
      else if cmsg_level c o' = 41 \<and> cmsg_type c o' = 67 then byte_at c (o' + 16) AND 3
      else ecn_of c os)"

definition bsd_udp_packet_buffer_ecn :: "us_internal_udp_packet_buffer \<Rightarrow> nat \<Rightarrow> byte option" where
  "bsd_udp_packet_buffer_ecn b index = do {
     mh \<leftarrow> nth_opt (msgvec b) index;
     c \<leftarrow> nth_opt (control b) (msg_control mh);
     Some (ecn_of c (cmsgs c (msg_controllen mh))) }"

end
