(* ===== verification/UsSocket.thy ===== *)
theory UsSocket
  imports UsContext Bsd
begin

text \<open>
  Sockets: \<open>src/uSockets2/src/socket.c\<close> and the operations of \<open>src/uSockets2/src/context.c\<close> that
  create, close and move sockets, on their \<open>ssl = 0\<close> paths (the \<open>ssl\<close> paths are in theory
  \<open>SslSocket\<close>). A closed socket stays in memory until the end of the loop iteration: it
  is moved to the loop's list of closed sockets and marked by \<open>prev = context\<close>.
\<close>

subsection \<open>State of a socket\<close>

definition is_closed :: "us_socket_t \<Rightarrow> bool" where
  "is_closed x \<longleftrightarrow> s_prev x = s_context x"

definition us_socket_is_closed :: "ptr \<Rightarrow> us \<Rightarrow> bool option" where
  "us_socket_is_closed s st = map_option is_closed (socks st s)"

definition us_socket_is_established :: "ptr \<Rightarrow> us \<Rightarrow> bool option" where
  "us_socket_is_established s st = map_option (\<lambda>t. t \<noteq> POLL_TYPE_SEMI_SOCKET) (us_internal_poll_type s st)"

definition us_socket_is_shut_down :: "ptr \<Rightarrow> us \<Rightarrow> bool option" where
  "us_socket_is_shut_down s st = map_option (\<lambda>t. t = POLL_TYPE_SOCKET_SHUT_DOWN) (us_internal_poll_type s st)"

definition us_socket_context :: "ptr \<Rightarrow> us \<Rightarrow> ptr option" where
  "us_socket_context s st = map_option s_context (socks st s)"

definition us_socket_get_native_handle :: "ptr \<Rightarrow> us \<Rightarrow> int option" where
  "us_socket_get_native_handle s st = us_poll_fd s st"

definition us_socket_local_port :: "host \<Rightarrow> ptr \<Rightarrow> us \<Rightarrow> (int \<times> us) option" where
  "us_socket_local_port h s st = do {
     fd \<leftarrow> us_poll_fd s st;
     let (r, addr, st) = bsd_local_addr h fd uninit_addr st;
     if r \<noteq> 0 then Some (-1, st) else Some (bsd_addr_get_port addr, st) }"

text \<open>The result is the bytes written to \<open>buf\<close>, of which there are as many as the new \<open>*length\<close>.\<close>

definition us_socket_remote_address :: "host \<Rightarrow> ptr \<Rightarrow> int \<Rightarrow> us \<Rightarrow> (byte list \<times> int \<times> us) option" where
  "us_socket_remote_address h s len st = do {
     fd \<leftarrow> us_poll_fd s st;
     let (r, addr, st) = bsd_remote_addr h fd uninit_addr st;
     if r \<noteq> 0 \<or> len < bsd_addr_get_ip_length addr then Some ([], 0, st)
     else Some (take (nat (bsd_addr_get_ip_length addr)) (bsd_addr_get_ip addr), bsd_addr_get_ip_length addr, st) }"

subsection \<open>Timeouts\<close>

text \<open>The sum is taken in 32 bits and cut to the 14 bits of the field.\<close>

definition timeout_of :: "u16 \<Rightarrow> u32 \<Rightarrow> 14 word" where
  "timeout_of timestamp seconds = ucast (0x2000 OR (ucast timestamp + drop_bit 2 (seconds + 3)))"

definition us_socket_timeout :: "ptr \<Rightarrow> u32 \<Rightarrow> us \<Rightarrow> us option" where
  "us_socket_timeout s seconds st =
     (if seconds \<noteq> 0 then do {
        ctx \<leftarrow> sock_ctx s st;
        upd_sock s (\<lambda>x. x\<lparr>s_timeout := timeout_of (c_timestamp ctx) seconds\<rparr>) st }
      else upd_sock s (\<lambda>x. x\<lparr>s_timeout := 0\<rparr>) st)"

subsection \<open>Closing\<close>

text \<open>
  The tail that \<open>us_socket_close\<close>, \<open>us_socket_close_connecting\<close> and \<open>us_listen_socket_close\<close> share:
  stop polling, close the descriptor, link into the list of closed sockets, mark as closed.
\<close>

definition close_and_mark :: "host \<Rightarrow> ptr \<Rightarrow> us \<Rightarrow> us option" where
  "close_and_mark h s st = do {
     _ \<leftarrow> sock_ctx s st;
     st \<leftarrow> us_poll_stop h s st;
     fd \<leftarrow> us_poll_fd s st;
     let st = bsd_close_socket h fd st;
     st \<leftarrow> upd_sock s (\<lambda>x. x\<lparr>s_next := closed_head st\<rparr>) st;
     let st = st\<lparr>closed_head := s\<rparr>;
     upd_sock s (\<lambda>x. x\<lparr>s_prev := s_context x\<rparr>) st }"

definition us_socket_close_connecting :: "host \<Rightarrow> ptr \<Rightarrow> us \<Rightarrow> (ptr \<times> us) option" where
  "us_socket_close_connecting h s st = do {
     x \<leftarrow> socks st s;
     if \<not> is_closed x then do {
       st \<leftarrow> us_internal_socket_context_unlink (s_context x) s st;
       st \<leftarrow> close_and_mark h s st;
       Some (s, st) }
     else Some (s, st) }"

definition us_listen_socket_close :: "host \<Rightarrow> ptr \<Rightarrow> us \<Rightarrow> us option" where
  "us_listen_socket_close h ls st = do {
     x \<leftarrow> socks st ls;
     if \<not> is_closed x then do {
       st \<leftarrow> us_internal_socket_context_unlink (s_context x) ls st;
       close_and_mark h ls st }
     else Some st }"

text \<open>Unlink from the low-priority queue, as written out in \<open>us_socket_close\<close>.\<close>

definition low_prio_unlink :: "ptr \<Rightarrow> us \<Rightarrow> us option" where
  "low_prio_unlink s st = do {
     x \<leftarrow> socks st s;
     st \<leftarrow> (if s_prev x = 0 then Some (st\<lparr>low_prio_head := s_next x\<rparr>)
             else upd_sock (s_prev x) (\<lambda>y. y\<lparr>s_next := s_next x\<rparr>) st);
     st \<leftarrow> (if s_next x \<noteq> 0 then upd_sock (s_next x) (\<lambda>y. y\<lparr>s_prev := s_prev x\<rparr>) st else Some st);
     upd_sock s (\<lambda>y. y\<lparr>s_prev := 0, s_next := 0, s_low_prio_state := 0\<rparr>) st }"

text \<open>The part of \<open>us_socket_close\<close> before the callback.\<close>

definition close_silently :: "host \<Rightarrow> ptr \<Rightarrow> us_socket_t \<Rightarrow> us \<Rightarrow> us option" where
  "close_silently h s x st = do {
     _ \<leftarrow> sock_ctx s st;
     st \<leftarrow> (if s_low_prio_state x = 1 then low_prio_unlink s st
             else us_internal_socket_context_unlink (s_context x) s st);
     close_and_mark h s st }"

definition us_socket_close :: "host \<Rightarrow> ptr \<Rightarrow> int \<Rightarrow> us \<Rightarrow> (ptr \<times> us) option" where
  "us_socket_close h s code st = do {
     x \<leftarrow> socks st s;
     if \<not> is_closed x then do {
       st \<leftarrow> close_silently h s x st;
       ctx \<leftarrow> sock_ctx s st;
       call h (c_on_close ctx) (On_close s code) st }
     else Some (s, st) }"

subsection \<open>Writing and shutting down\<close>

definition us_socket_write :: "host \<Rightarrow> ptr \<Rightarrow> byte list \<Rightarrow> bool \<Rightarrow> us \<Rightarrow> (int \<times> us) option" where
  "us_socket_write h s data msg_more st = do {
     closed \<leftarrow> us_socket_is_closed s st;
     shut \<leftarrow> us_socket_is_shut_down s st;
     if closed \<or> shut then Some (0, st)
     else do {
       fd \<leftarrow> us_poll_fd s st;
       let (written, st) = bsd_send h fd data msg_more st;
       if written \<noteq> int (length data) then do {
         _ \<leftarrow> sock_ctx s st;
         let st = st\<lparr>last_write_failed := True\<rparr>;
         st \<leftarrow> us_poll_change h s (LIBUS_SOCKET_READABLE OR LIBUS_SOCKET_WRITABLE) st;
         Some (if written < 0 then 0 else written, st) }
       else Some (if written < 0 then 0 else written, st) } }"

definition us_socket_flush :: "host \<Rightarrow> ptr \<Rightarrow> us \<Rightarrow> us option" where
  "us_socket_flush h s st = do {
     shut \<leftarrow> us_socket_is_shut_down s st;
     if \<not> shut then do { fd \<leftarrow> us_poll_fd s st; Some (bsd_socket_flush h fd st) } else Some st }"

definition us_socket_shutdown :: "host \<Rightarrow> ptr \<Rightarrow> us \<Rightarrow> us option" where
  "us_socket_shutdown h s st = do {
     closed \<leftarrow> us_socket_is_closed s st;
     shut \<leftarrow> us_socket_is_shut_down s st;
     if \<not> closed \<and> \<not> shut then do {
       st \<leftarrow> us_internal_poll_set_type s POLL_TYPE_SOCKET_SHUT_DOWN st;
       _ \<leftarrow> sock_ctx s st;
       events \<leftarrow> us_poll_events s st;
       st \<leftarrow> us_poll_change h s (events AND LIBUS_SOCKET_READABLE) st;
       fd \<leftarrow> us_poll_fd s st;
       Some (bsd_shutdown_socket h fd st) }
     else Some st }"

definition us_socket_shutdown_read :: "host \<Rightarrow> ptr \<Rightarrow> us \<Rightarrow> us option" where
  "us_socket_shutdown_read h s st = do {
     fd \<leftarrow> us_poll_fd s st; Some (bsd_shutdown_socket_read h fd st) }"

subsection \<open>Listening, connecting, moving to another context\<close>

text \<open>
  The block that \<open>us_socket_context_listen\<close>, \<open>listen_unix\<close>, \<open>connect\<close> and \<open>connect_unix\<close> have in common:
  a semi-socket of \<open>extra\<close> bytes beyond its poll, polled for \<open>events\<close> and linked into the context.
  \<open>s_prev\<close> is indeterminate until the link stores it (and \<open>next\<close>, where the code does not set it).
\<close>

definition new_semi_socket :: "host \<Rightarrow> ptr \<Rightarrow> int \<Rightarrow> nat \<Rightarrow> u32 \<Rightarrow> us \<Rightarrow> (ptr \<times> us) option" where
  "new_semi_socket h c fd extra events st = do {
     _ \<leftarrow> ctxs st c;
     let (p, st) = us_create_poll h False extra st;
     st \<leftarrow> us_poll_init p fd POLL_TYPE_SEMI_SOCKET st;
     st \<leftarrow> us_poll_start h p events st;
     let st = st\<lparr>socks := (socks st)(p \<mapsto> \<lparr>s_context = c, s_prev = 0, s_next = 0, s_timeout = 0,
                                          s_low_prio_state = 0\<rparr>)\<rparr>;
     st \<leftarrow> us_internal_socket_context_link c p st;
     Some (p, st) }"

definition us_socket_context_listen ::
    "host \<Rightarrow> ptr \<Rightarrow> string option \<Rightarrow> int \<Rightarrow> int \<Rightarrow> nat \<Rightarrow> us \<Rightarrow> (ptr \<times> us) option" where
  "us_socket_context_listen h c hst port options socket_ext_size st =
     (let (listen_socket_fd, st) = bsd_create_listen_socket h hst port options st
      in if listen_socket_fd = LIBUS_SOCKET_ERROR then Some (0, st)
         else do {
           (ls, st) \<leftarrow> new_semi_socket h c listen_socket_fd sizeof_us_listen_socket_t LIBUS_SOCKET_READABLE st;
           Some (ls, st\<lparr>listens := (listens st)(ls \<mapsto> socket_ext_size)\<rparr>) })"

definition us_socket_context_listen_unix ::
    "host \<Rightarrow> ptr \<Rightarrow> string \<Rightarrow> int \<Rightarrow> nat \<Rightarrow> us \<Rightarrow> (ptr \<times> us) option" where
  "us_socket_context_listen_unix h c path options socket_ext_size st = do {
     (listen_socket_fd, st) \<leftarrow> bsd_create_listen_socket_unix h path options st;
     if listen_socket_fd = LIBUS_SOCKET_ERROR then Some (0, st)
     else do {
       (ls, st) \<leftarrow> new_semi_socket h c listen_socket_fd sizeof_us_listen_socket_t LIBUS_SOCKET_READABLE st;
       Some (ls, st\<lparr>listens := (listens st)(ls \<mapsto> socket_ext_size)\<rparr>) } }"

definition us_socket_context_connect ::
    "host \<Rightarrow> ptr \<Rightarrow> string option \<Rightarrow> int \<Rightarrow> string option \<Rightarrow> int \<Rightarrow> nat \<Rightarrow> us \<Rightarrow> (ptr \<times> us) option" where
  "us_socket_context_connect h c hst port source_host options socket_ext_size st = do {
     (connect_socket_fd, st) \<leftarrow> bsd_create_connect_socket h hst port source_host options st;
     if connect_socket_fd = LIBUS_SOCKET_ERROR then Some (0, st)
     else new_semi_socket h c connect_socket_fd (sizeof_us_socket_t + socket_ext_size) LIBUS_SOCKET_WRITABLE st }"

definition us_socket_context_connect_unix ::
    "host \<Rightarrow> ptr \<Rightarrow> string \<Rightarrow> int \<Rightarrow> nat \<Rightarrow> us \<Rightarrow> (ptr \<times> us) option" where
  "us_socket_context_connect_unix h c server_path options socket_ext_size st = do {
     (connect_socket_fd, st) \<leftarrow> bsd_create_connect_socket_unix h server_path options st;
     if connect_socket_fd = LIBUS_SOCKET_ERROR then Some (0, st)
     else new_semi_socket h c connect_socket_fd (sizeof_us_socket_t + socket_ext_size) LIBUS_SOCKET_WRITABLE st }"

definition us_create_child_socket_context :: "host \<Rightarrow> ptr \<Rightarrow> nat \<Rightarrow> us \<Rightarrow> (ptr \<times> us) option" where
  "us_create_child_socket_context h c context_ext_size st = do {
     _ \<leftarrow> ctxs st c; us_create_socket_context h context_ext_size st }"

definition us_socket_context_adopt_socket :: "host \<Rightarrow> ptr \<Rightarrow> ptr \<Rightarrow> nat \<Rightarrow> us \<Rightarrow> (ptr \<times> us) option" where
  "us_socket_context_adopt_socket h c s ext_size st = do {
     x \<leftarrow> socks st s;
     if is_closed x then Some (s, st)
     else do {
       st \<leftarrow> (if s_low_prio_state x \<noteq> 1 then us_internal_socket_context_unlink (s_context x) s st else Some st);
       _ \<leftarrow> sock_ctx s st;
       (new_s, st) \<leftarrow> us_poll_resize h s (sizeof_us_socket_t + ext_size) st;
       st \<leftarrow> upd_sock new_s (\<lambda>x. x\<lparr>s_timeout := 0\<rparr>) st;
       y \<leftarrow> socks st new_s;
       if s_low_prio_state y = 1 then do {
         _ \<leftarrow> sock_ctx new_s st;
         st \<leftarrow> (if s_prev y = 0 then Some (st\<lparr>low_prio_head := new_s\<rparr>)
                 else upd_sock (s_prev y) (\<lambda>z. z\<lparr>s_next := new_s\<rparr>) st);
         st \<leftarrow> (if s_next y \<noteq> 0 then upd_sock (s_next y) (\<lambda>z. z\<lparr>s_prev := new_s\<rparr>) st else Some st);
         Some (new_s, st) }
       else do {
         st \<leftarrow> us_internal_socket_context_link c new_s st;
         Some (new_s, st) } } }"

subsection \<open>Setting the callbacks of a context\<close>

definition us_socket_context_on_open :: "ptr \<Rightarrow> fnptr \<Rightarrow> us \<Rightarrow> us option" where
  "us_socket_context_on_open c f = upd_ctx c (\<lambda>x. x\<lparr>c_on_open := f\<rparr>)"
definition us_socket_context_on_close :: "ptr \<Rightarrow> fnptr \<Rightarrow> us \<Rightarrow> us option" where
  "us_socket_context_on_close c f = upd_ctx c (\<lambda>x. x\<lparr>c_on_close := f\<rparr>)"
definition us_socket_context_on_data :: "ptr \<Rightarrow> fnptr \<Rightarrow> us \<Rightarrow> us option" where
  "us_socket_context_on_data c f = upd_ctx c (\<lambda>x. x\<lparr>c_on_data := f\<rparr>)"
definition us_socket_context_on_writable :: "ptr \<Rightarrow> fnptr \<Rightarrow> us \<Rightarrow> us option" where
  "us_socket_context_on_writable c f = upd_ctx c (\<lambda>x. x\<lparr>c_on_writable := f\<rparr>)"
definition us_socket_context_on_timeout :: "ptr \<Rightarrow> fnptr \<Rightarrow> us \<Rightarrow> us option" where
  "us_socket_context_on_timeout c f = upd_ctx c (\<lambda>x. x\<lparr>c_on_socket_timeout := f\<rparr>)"
definition us_socket_context_on_end :: "ptr \<Rightarrow> fnptr \<Rightarrow> us \<Rightarrow> us option" where
  "us_socket_context_on_end c f = upd_ctx c (\<lambda>x. x\<lparr>c_on_end := f\<rparr>)"
definition us_socket_context_on_connect_error :: "ptr \<Rightarrow> fnptr \<Rightarrow> us \<Rightarrow> us option" where
  "us_socket_context_on_connect_error c f = upd_ctx c (\<lambda>x. x\<lparr>c_on_connect_error := f\<rparr>)"

end
