(* ===== verification/Udp.thy ===== *)
theory Udp
  imports UsPoll Bsd
begin

text \<open>
  UDP sockets: \<open>src/uSockets2/src/udp.c\<close>. A UDP socket is a callback poll that leaves its poll
  ready (\<open>leave_poll_ready\<close>): the loop runs \<open>internal_on_udp_read\<close>, which receives into the
  socket's packet buffer and hands the buffer to the application.
\<close>

definition with_pbuf :: "(us_internal_udp_packet_buffer \<Rightarrow> nat \<Rightarrow> 'a option) \<Rightarrow> ptr \<Rightarrow> nat \<Rightarrow> us \<Rightarrow> 'a option" where
  "with_pbuf f buf index st = do { b \<leftarrow> pbufs st buf; f b index }"

definition us_udp_packet_buffer_ecn :: "ptr \<Rightarrow> nat \<Rightarrow> us \<Rightarrow> byte option" where
  "us_udp_packet_buffer_ecn = with_pbuf bsd_udp_packet_buffer_ecn"

definition us_udp_packet_buffer_local_ip :: "ptr \<Rightarrow> nat \<Rightarrow> us \<Rightarrow> byte list option" where
  "us_udp_packet_buffer_local_ip = with_pbuf bsd_udp_packet_buffer_local_ip"

definition us_udp_packet_buffer_peer :: "ptr \<Rightarrow> nat \<Rightarrow> us \<Rightarrow> byte list option" where
  "us_udp_packet_buffer_peer = with_pbuf bsd_udp_packet_buffer_peer"

definition us_udp_packet_buffer_payload :: "ptr \<Rightarrow> nat \<Rightarrow> us \<Rightarrow> byte list option" where
  "us_udp_packet_buffer_payload = with_pbuf bsd_udp_packet_buffer_payload"

definition us_udp_packet_buffer_payload_length :: "ptr \<Rightarrow> nat \<Rightarrow> us \<Rightarrow> nat option" where
  "us_udp_packet_buffer_payload_length = with_pbuf bsd_udp_packet_buffer_payload_length"

definition us_udp_socket_send :: "host \<Rightarrow> ptr \<Rightarrow> ptr \<Rightarrow> nat \<Rightarrow> us \<Rightarrow> (int \<times> us) option" where
  "us_udp_socket_send h s buf num st = do {
     fd \<leftarrow> us_poll_fd s st;
     b \<leftarrow> pbufs st buf;
     bsd_sendmmsg h fd b num 0 st }"

definition us_udp_socket_receive :: "host \<Rightarrow> ptr \<Rightarrow> ptr \<Rightarrow> us \<Rightarrow> (int \<times> us) option" where
  "us_udp_socket_receive h s buf st = do {
     fd \<leftarrow> us_poll_fd s st;
     b \<leftarrow> pbufs st buf;
     (r, b, st) \<leftarrow> bsd_recvmmsg h fd b LIBUS_UDP_MAX_NUM 0 st;
     Some (r, st\<lparr>pbufs := (pbufs st)(buf \<mapsto> b)\<rparr>) }"

definition us_udp_buffer_set_packet_payload ::
    "ptr \<Rightarrow> nat \<Rightarrow> nat \<Rightarrow> byte list \<Rightarrow> byte list \<Rightarrow> us \<Rightarrow> us option" where
  "us_udp_buffer_set_packet_payload buf index offset payload peer_addr st = do {
     b \<leftarrow> pbufs st buf;
     b \<leftarrow> bsd_udp_buffer_set_packet_payload b index offset payload peer_addr;
     Some (st\<lparr>pbufs := (pbufs st)(buf \<mapsto> b)\<rparr>) }"

text \<open>\<open>sizeof(struct us_internal_udp_packet_buffer) + LIBUS_UDP_MAX_SIZE * LIBUS_UDP_MAX_NUM\<close>; the
  struct has a header of 64, a vector of 16, an address of 128 and a control block of 256 bytes
  for each packet. A failed allocation is dereferenced.\<close>

definition us_create_udp_packet_buffer :: "host \<Rightarrow> us \<Rightarrow> (ptr \<times> us) option" where
  "us_create_udp_packet_buffer h st =
     (let (b, st) = malloc h ((64 + 16 + 128 + 256 + LIBUS_UDP_MAX_SIZE) * LIBUS_UDP_MAX_NUM) st
      in if b \<in> set (live st)
         then Some (b, st\<lparr>pbufs := (pbufs st)(b \<mapsto> bsd_create_udp_packet_buffer)\<rparr>) else None)"

definition us_udp_socket_bound_port :: "ptr \<Rightarrow> us \<Rightarrow> int option" where
  "us_udp_socket_bound_port s st = map_option udp_port (udps st s)"

definition us_udp_socket_user :: "ptr \<Rightarrow> us \<Rightarrow> ptr option" where
  "us_udp_socket_user s st = map_option udp_user (udps st s)"

definition internal_on_udp_read :: "host \<Rightarrow> ptr \<Rightarrow> us \<Rightarrow> us option" where
  "internal_on_udp_read h s st = do {
     udp \<leftarrow> udps st s;
     (packets, st) \<leftarrow> us_udp_socket_receive h s (udp_receive_buf udp) st;
     udp \<leftarrow> udps st s;
     (_, st) \<leftarrow> call h (udp_data_cb udp) (On_udp_data s (udp_receive_buf udp) packets) st;
     Some st }"

definition us_create_udp_socket ::
    "host \<Rightarrow> ptr \<Rightarrow> fnptr \<Rightarrow> fnptr \<Rightarrow> string option \<Rightarrow> int \<Rightarrow> ptr \<Rightarrow> us \<Rightarrow> (ptr \<times> us) option" where
  "us_create_udp_socket h buf data_cb drain_cb hst port user st =
     (let (fd, st) = bsd_create_udp_socket h hst port st
      in if fd = LIBUS_SOCKET_ERROR then Some (0, st)
         else do {
           (buf, st) \<leftarrow> (if buf = 0 then us_create_udp_packet_buffer h st else Some (buf, st));
           let (p, st) = us_create_poll h False sizeof_us_internal_udp_t st;
           st \<leftarrow> us_poll_init p fd POLL_TYPE_CALLBACK st;
           let (_, tmp, st) = bsd_local_addr h fd uninit_addr st;
           let st = st\<lparr>cbs := (cbs st)(p \<mapsto> \<lparr>cb_expects_the_loop = False, cb_leave_poll_ready = True,
                                            cb_cb = Fn_internal_on_udp_read\<rparr>),
                       udps := (udps st)(p \<mapsto> \<lparr>udp_receive_buf = buf, udp_data_cb = data_cb,
                          udp_drain_cb = drain_cb, udp_user = user, udp_port = bsd_addr_get_port tmp\<rparr>)\<rparr>;
           st \<leftarrow> us_poll_start h p LIBUS_SOCKET_READABLE st;
           Some (p, st) })"

end
