(* ===== verification/UsLoop.thy ===== *)
theory UsLoop
  imports UsSocket Udp
begin

text \<open>
  The event loop: \<open>src/uSockets2/src/loop.c\<close> (timer sweep, low-priority queue, release of closed
  sockets, dispatch of one ready poll) and the run loop of
  \<open>src/uSockets2/src/eventing/epoll_kqueue.c\<close>. A C loop that runs application callbacks may not
  end, so it is a \<open>partial_function (option)\<close>; so is each loop over an intrusive list.
\<close>

subsection \<open>The timer sweep\<close>

text \<open>The inner loop that seeks the next socket whose timeout is \<open>needle\<close>; 0 when there is none.\<close>

partial_function (option) seek :: "u16 \<Rightarrow> ptr \<Rightarrow> us \<Rightarrow> ptr option" where
  "seek needle s st = do {
     x \<leftarrow> socks st s;
     if needle = ucast (s_timeout x) then Some s
     else if s_next x = 0 then Some 0
     else seek needle (s_next x) st }"

partial_function (option) sweep_sockets :: "host \<Rightarrow> ptr \<Rightarrow> u16 \<Rightarrow> ptr \<Rightarrow> us \<Rightarrow> us option" where
  "sweep_sockets h c needle s st =
     (if s = 0 then Some st
      else do {
        s \<leftarrow> seek needle s st;
        if s = 0 then Some st
        else do {
          st \<leftarrow> upd_sock s (\<lambda>x. x\<lparr>s_timeout := 0\<rparr>) st;
          st \<leftarrow> upd_ctx c (\<lambda>x. x\<lparr>c_iterator := s\<rparr>) st;
          ctx \<leftarrow> ctxs st c;
          (_, st) \<leftarrow> call h (c_on_socket_timeout ctx) (On_timeout s) st;
          ctx \<leftarrow> ctxs st c;
          if s = c_iterator ctx then do { x \<leftarrow> socks st s; sweep_sockets h c needle (s_next x) st }
          else sweep_sockets h c needle (c_iterator ctx) st } })"

definition next_timestamp :: "u16 \<Rightarrow> u16" where
  "next_timestamp t = (t + 1) AND 0x1fff"

definition needle_of :: "u16 \<Rightarrow> u16" where
  "needle_of t = 0x2000 OR t"

definition sweep_context :: "host \<Rightarrow> ptr \<Rightarrow> us \<Rightarrow> us option" where
  "sweep_context h c st = do {
     st \<leftarrow> upd_ctx c (\<lambda>x. x\<lparr>c_timestamp := next_timestamp (c_timestamp x)\<rparr>) st;
     ctx \<leftarrow> ctxs st c;
     st \<leftarrow> sweep_sockets h c (needle_of (c_timestamp ctx)) (c_head ctx) st;
     upd_ctx c (\<lambda>x. x\<lparr>c_iterator := 0\<rparr>) st }"

partial_function (option) sweep_contexts :: "host \<Rightarrow> us \<Rightarrow> us option" where
  "sweep_contexts h st =
     (if iterator st = 0 then Some st
      else do {
        st \<leftarrow> sweep_context h (iterator st) st;
        ctx \<leftarrow> ctxs st (iterator st);
        sweep_contexts h (st\<lparr>iterator := c_next ctx\<rparr>) })"

definition us_internal_timer_sweep :: "host \<Rightarrow> us \<Rightarrow> us option" where
  "us_internal_timer_sweep h st = sweep_contexts h (st\<lparr>iterator := head st\<rparr>)"

definition sweep_timer_cb :: "host \<Rightarrow> us \<Rightarrow> us option" where
  "sweep_timer_cb h st = us_internal_timer_sweep h st"

subsection \<open>The low-priority queue\<close>

definition MAX_LOW_PRIO_SOCKETS_PER_LOOP_ITERATION :: int where
  "MAX_LOW_PRIO_SOCKETS_PER_LOOP_ITERATION = 5"

definition low_prio_step :: "host \<Rightarrow> ptr \<Rightarrow> us \<Rightarrow> us option" where
  "low_prio_step h s st = do {
     x \<leftarrow> socks st s;
     let st = st\<lparr>low_prio_head := s_next x\<rparr>;
     st \<leftarrow> (if s_next x \<noteq> 0 then upd_sock (s_next x) (\<lambda>y. y\<lparr>s_prev := 0\<rparr>) st else Some st);
     st \<leftarrow> upd_sock s (\<lambda>y. y\<lparr>s_next := 0\<rparr>) st;
     x \<leftarrow> socks st s;
     st \<leftarrow> us_internal_socket_context_link (s_context x) s st;
     events \<leftarrow> us_poll_events s st;
     st \<leftarrow> us_poll_change h s (events OR LIBUS_SOCKET_READABLE) st;
     upd_sock s (\<lambda>y. y\<lparr>s_low_prio_state := 2\<rparr>) st }"

partial_function (option) low_prio_loop :: "host \<Rightarrow> ptr \<Rightarrow> us \<Rightarrow> us option" where
  "low_prio_loop h s st =
     (if s \<noteq> 0 \<and> low_prio_budget st > 0 then do {
        st \<leftarrow> low_prio_step h s st;
        low_prio_loop h (low_prio_head st) (st\<lparr>low_prio_budget := low_prio_budget st - 1\<rparr>) }
      else Some st)"

definition us_internal_handle_low_priority_sockets :: "host \<Rightarrow> us \<Rightarrow> us option" where
  "us_internal_handle_low_priority_sockets h st =
     (let st = st\<lparr>low_prio_budget := MAX_LOW_PRIO_SOCKETS_PER_LOOP_ITERATION\<rparr>
      in low_prio_loop h (low_prio_head st) st)"

text \<open>Putting a socket into the queue, as written out in \<open>us_internal_dispatch_ready_poll\<close>.\<close>

definition low_prio_link :: "ptr \<Rightarrow> us \<Rightarrow> us option" where
  "low_prio_link s st = do {
     _ \<leftarrow> sock_ctx s st;
     st \<leftarrow> upd_sock s (\<lambda>x. x\<lparr>s_prev := 0, s_next := low_prio_head st\<rparr>) st;
     x \<leftarrow> socks st s;
     st \<leftarrow> (if s_next x \<noteq> 0 then upd_sock (s_next x) (\<lambda>y. y\<lparr>s_prev := s\<rparr>) st else Some st);
     let st = st\<lparr>low_prio_head := s\<rparr>;
     upd_sock s (\<lambda>x. x\<lparr>s_low_prio_state := 1\<rparr>) st }"

subsection \<open>Closed sockets\<close>

partial_function (option) free_closed_loop :: "ptr \<Rightarrow> us \<Rightarrow> us option" where
  "free_closed_loop s st =
     (if s = 0 then Some st
      else do {
        x \<leftarrow> socks st s;
        st \<leftarrow> us_poll_free s st;
        free_closed_loop (s_next x) st })"

definition us_internal_free_closed_sockets :: "us \<Rightarrow> us option" where
  "us_internal_free_closed_sockets st =
     (if closed_head st \<noteq> 0 then do {
        st \<leftarrow> free_closed_loop (closed_head st) st;
        Some (st\<lparr>closed_head := 0\<rparr>) }
      else Some st)"

subsection \<open>One iteration\<close>

definition us_loop_iteration_number :: "us \<Rightarrow> int" where
  "us_loop_iteration_number st = sint (iteration_nr st)"

definition us_internal_loop_pre :: "host \<Rightarrow> us \<Rightarrow> us option" where
  "us_internal_loop_pre h st = do {
     let st = st\<lparr>iteration_nr := iteration_nr st + 1\<rparr>;
     st \<leftarrow> us_internal_handle_low_priority_sockets h st;
     (_, st) \<leftarrow> call h (pre_cb st) On_pre st;
     Some st }"

definition us_internal_loop_post :: "host \<Rightarrow> us \<Rightarrow> us option" where
  "us_internal_loop_post h st = do {
     st \<leftarrow> us_internal_free_closed_sockets st;
     (_, st) \<leftarrow> call h (post_cb st) On_post st;
     Some st }"

text \<open>
  Calling the function behind a callback poll: the sweep of the loop's timer, the read of a UDP
  socket, or a function of the application, which gets the loop when \<open>cb_expects_the_loop\<close>.
\<close>

definition run_callback :: "host \<Rightarrow> ptr \<Rightarrow> us_internal_callback_t \<Rightarrow> us \<Rightarrow> us option" where
  "run_callback h p cb st =
     (case cb_cb cb of
        Fn_sweep_timer_cb \<Rightarrow> sweep_timer_cb h st
      | Fn_internal_on_udp_read \<Rightarrow> internal_on_udp_read h p st
      | f \<Rightarrow> map_option snd (call h f (On_callback (if cb_expects_the_loop cb then 0 else p)) st))"

definition dispatch_callback :: "host \<Rightarrow> ptr \<Rightarrow> us \<Rightarrow> us option" where
  "dispatch_callback h p st = do {
     cb \<leftarrow> cbs st p;
     st \<leftarrow> (if \<not> cb_leave_poll_ready cb then us_internal_accept_poll_event h p st else Some st);
     run_callback h p cb st }"

definition dispatch_connect :: "host \<Rightarrow> ptr \<Rightarrow> bool \<Rightarrow> us \<Rightarrow> us option" where
  "dispatch_connect h s error st = do {
     ctx \<leftarrow> sock_ctx s st;
     if error then do {
       (_, st) \<leftarrow> call h (c_on_connect_error ctx) (On_connect_error s 0) st;
       (_, st) \<leftarrow> us_socket_close_connecting h s st;
       Some st }
     else do {
       st \<leftarrow> us_poll_change h s LIBUS_SOCKET_READABLE st;
       fd \<leftarrow> us_poll_fd s st;
       let st = bsd_socket_nodelay h fd 1 st;
       st \<leftarrow> us_internal_poll_set_type s POLL_TYPE_SOCKET st;
       st \<leftarrow> us_socket_timeout s 0 st;
       ctx \<leftarrow> sock_ctx s st;
       (_, st) \<leftarrow> call h (c_on_open ctx) (On_open s True []) st;
       Some st } }"

text \<open>One accepted descriptor, up to \<open>on_open\<close>; then the loop until \<open>accept\<close> fails.\<close>

definition accept_one :: "host \<Rightarrow> ptr \<Rightarrow> int \<Rightarrow> bsd_addr_t \<Rightarrow> us \<Rightarrow> us option" where
  "accept_one h ls client_fd addr st = do {
     l \<leftarrow> socks st ls;
     _ \<leftarrow> ctxs st (s_context l);
     ext \<leftarrow> listens st ls;
     let (s, st) = us_create_poll h False (sizeof_us_socket_t - sizeof_us_poll_t + ext) st;
     st \<leftarrow> us_poll_init s client_fd POLL_TYPE_SOCKET st;
     st \<leftarrow> us_poll_start h s LIBUS_SOCKET_READABLE st;
     let st = st\<lparr>socks := (socks st)(s \<mapsto> \<lparr>s_context = s_context l, s_prev = 0, s_next = 0,
                                          s_timeout = 0, s_low_prio_state = 0\<rparr>)\<rparr>;
     let st = bsd_socket_nodelay h client_fd 1 st;
     st \<leftarrow> us_internal_socket_context_link (s_context l) s st;
     ctx \<leftarrow> ctxs st (s_context l);
     (_, st) \<leftarrow> call h (c_on_open ctx)
       (On_open s False (take (nat (bsd_addr_get_ip_length addr)) (bsd_addr_get_ip addr))) st;
     Some st }"

partial_function (option) accept_loop :: "host \<Rightarrow> ptr \<Rightarrow> int \<Rightarrow> bsd_addr_t \<Rightarrow> us \<Rightarrow> us option" where
  "accept_loop h ls client_fd addr st = do {
     st \<leftarrow> accept_one h ls client_fd addr st;
     closed \<leftarrow> us_socket_is_closed ls st;
     if closed then Some st
     else do {
       fd \<leftarrow> us_poll_fd ls st;
       (case bsd_accept_socket h fd addr st of (client_fd, addr, st) \<Rightarrow>
         if client_fd \<noteq> LIBUS_SOCKET_ERROR then accept_loop h ls client_fd addr st else Some st) } }"

definition dispatch_listen :: "host \<Rightarrow> ptr \<Rightarrow> us \<Rightarrow> us option" where
  "dispatch_listen h ls st = do {
     fd \<leftarrow> us_poll_fd ls st;
     let (client_fd, addr, st) = bsd_accept_socket h fd uninit_addr st;
     if client_fd = LIBUS_SOCKET_ERROR then Some st
     else accept_loop h ls client_fd addr st }"

text \<open>The writable part: the socket to go on with, or \<open>None\<close> inside when it was closed.\<close>

definition dispatch_writable :: "host \<Rightarrow> ptr \<Rightarrow> us \<Rightarrow> (ptr option \<times> us) option" where
  "dispatch_writable h s st = do {
     ctx \<leftarrow> sock_ctx s st;
     let st = st\<lparr>last_write_failed := False\<rparr>;
     (s, st) \<leftarrow> call h (c_on_writable ctx) (On_writable s) st;
     closed \<leftarrow> us_socket_is_closed s st;
     if closed then Some (None, st)
     else do {
       _ \<leftarrow> sock_ctx s st;
       shut \<leftarrow> us_socket_is_shut_down s st;
       if \<not> last_write_failed st \<or> shut then do {
         events \<leftarrow> us_poll_events s st;
         st \<leftarrow> us_poll_change h s (events AND LIBUS_SOCKET_READABLE) st;
         Some (Some s, st) }
       else Some (Some s, st) } }"

definition dispatch_recv :: "host \<Rightarrow> ptr \<Rightarrow> us \<Rightarrow> us option" where
  "dispatch_recv h s st = do {
     fd \<leftarrow> us_poll_fd s st;
     _ \<leftarrow> sock_ctx s st;
     let (len, data, st) = bsd_recv h fd LIBUS_RECV_BUFFER_LENGTH st;
     if len > 0 then do {
       ctx \<leftarrow> sock_ctx s st;
       (_, st) \<leftarrow> call h (c_on_data ctx) (On_data s (take (nat len) data)) st;
       Some st }
     else if len = 0 then do {
       shut \<leftarrow> us_socket_is_shut_down s st;
       if shut then map_option snd (us_socket_close h s 0 st)
       else do {
         events \<leftarrow> us_poll_events s st;
         st \<leftarrow> us_poll_change h s (events AND LIBUS_SOCKET_WRITABLE) st;
         ctx \<leftarrow> sock_ctx s st;
         (_, st) \<leftarrow> call h (c_on_end ctx) (On_end s) st;
         Some st } }
     else if len = LIBUS_SOCKET_ERROR \<and> \<not> bsd_would_block h st
     then map_option snd (us_socket_close h s 0 st)
     else Some st }"

text \<open>\<open>is_low_prio\<close> decides whether the socket is read now or put into the low-priority queue.\<close>

definition dispatch_readable :: "host \<Rightarrow> ptr \<Rightarrow> us \<Rightarrow> us option" where
  "dispatch_readable h s st = do {
     ctx \<leftarrow> sock_ctx s st;
     (low, st) \<leftarrow> call h (c_is_low_prio ctx) (Is_low_prio s) st;
     if low \<noteq> 0 then do {
       x \<leftarrow> socks st s;
       _ \<leftarrow> sock_ctx s st;
       if s_low_prio_state x = 2 then do {
         st \<leftarrow> upd_sock s (\<lambda>y. y\<lparr>s_low_prio_state := 0\<rparr>) st;
         dispatch_recv h s st }
       else if low_prio_budget st > 0
       then dispatch_recv h s (st\<lparr>low_prio_budget := low_prio_budget st - 1\<rparr>)
       else do {
         events \<leftarrow> us_poll_events s st;
         st \<leftarrow> us_poll_change h s (events AND LIBUS_SOCKET_WRITABLE) st;
         st \<leftarrow> us_internal_socket_context_unlink (s_context x) s st;
         low_prio_link s st } }
     else dispatch_recv h s st }"

definition dispatch_socket :: "host \<Rightarrow> ptr \<Rightarrow> bool \<Rightarrow> u32 \<Rightarrow> us \<Rightarrow> us option" where
  "dispatch_socket h s error events st =
     (if error then map_option snd (us_socket_close h s 0 st)
      else do {
        (s', st) \<leftarrow> (if events AND LIBUS_SOCKET_WRITABLE \<noteq> 0 then dispatch_writable h s st else Some (Some s, st));
        (case s' of None \<Rightarrow> Some st
         | Some s \<Rightarrow> if events AND LIBUS_SOCKET_READABLE \<noteq> 0 then dispatch_readable h s st else Some st) })"

definition us_internal_dispatch_ready_poll :: "host \<Rightarrow> ptr \<Rightarrow> bool \<Rightarrow> u32 \<Rightarrow> us \<Rightarrow> us option" where
  "us_internal_dispatch_ready_poll h p error events st = do {
     t \<leftarrow> us_internal_poll_type p st;
     if t = POLL_TYPE_CALLBACK then dispatch_callback h p st
     else if t = POLL_TYPE_SEMI_SOCKET then do {
       e \<leftarrow> us_poll_events p st;
       if e = LIBUS_SOCKET_WRITABLE then dispatch_connect h p error st else dispatch_listen h p st }
     else dispatch_socket h p error events st }"

subsection \<open>Creating, running and releasing the loop\<close>

definition us_internal_loop_data_init :: "host \<Rightarrow> fnptr \<Rightarrow> fnptr \<Rightarrow> fnptr \<Rightarrow> us \<Rightarrow> us option" where
  "us_internal_loop_data_init h wakeup_cb pre post st = do {
     (t, st) \<leftarrow> us_create_timer h True 0 st;
     let st = st\<lparr>sweep_timer := t\<rparr>;
     let (b, st) = malloc h (LIBUS_RECV_BUFFER_LENGTH + LIBUS_RECV_BUFFER_PADDING * 2) st;
     let st = st\<lparr>recv_buf := b, ssl_data := 0, head := 0, iterator := 0, closed_head := 0,
                 low_prio_head := 0, low_prio_budget := 0, pre_cb := pre, post_cb := post,
                 iteration_nr := 0\<rparr>;
     (a, st) \<leftarrow> us_internal_create_async h True 0 st;
     us_internal_async_set h a wakeup_cb (st\<lparr>wakeup_async := a\<rparr>) }"

text \<open>With \<open>LIBUS_NO_SSL\<close>: no SSL data to release. \<open>free\<close> of a null pointer does nothing.\<close>

definition us_internal_loop_data_free :: "host \<Rightarrow> us \<Rightarrow> us option" where
  "us_internal_loop_data_free h st = do {
     st \<leftarrow> (if recv_buf st = 0 then Some st else free (recv_buf st) st);
     st \<leftarrow> us_timer_close h (sweep_timer st) st;
     us_internal_async_close h (wakeup_async st) st }"

definition us_wakeup_loop :: "host \<Rightarrow> us \<Rightarrow> us option" where
  "us_wakeup_loop h st = us_internal_async_wakeup h (wakeup_async st) st"

definition us_loop_integrate :: "host \<Rightarrow> us \<Rightarrow> us option" where
  "us_loop_integrate h st =
     us_timer_set h (sweep_timer st) Fn_sweep_timer_cb (LIBUS_TIMEOUT_GRANULARITY * 1000)
       (LIBUS_TIMEOUT_GRANULARITY * 1000) st"

text \<open>The struct of the loop itself is not in the memory: its fields are the state's. The contents
  of the array of ready polls are indeterminate until the first \<open>epoll_wait\<close>.\<close>

definition empty_us :: us where
  "empty_us = \<lparr>sweep_timer = 0, wakeup_async = 0, last_write_failed = False, head = 0, iterator = 0,
     recv_buf = 0, ssl_data = 0, pre_cb = Fn_null, post_cb = Fn_null, closed_head = 0,
     low_prio_head = 0, low_prio_budget = 0, iteration_nr = 0, num_polls = 0, num_ready_polls = 0,
     current_ready_poll = 0, loop_fd = 0, ready_polls = [],
     polls = Map.empty, socks = Map.empty, listens = Map.empty, cbs = Map.empty, ctxs = Map.empty,
     udps = Map.empty, pbufs = Map.empty, live = [], log = []\<rparr>"

definition us_create_loop :: "host \<Rightarrow> fnptr \<Rightarrow> fnptr \<Rightarrow> fnptr \<Rightarrow> us option" where
  "us_create_loop h wakeup_cb pre post =
     (let st = empty_us\<lparr>num_polls := 0, num_ready_polls := 0, current_ready_poll := 0\<rparr>;
          (fd, st) = sys_int h Epoll_create st
      in us_internal_loop_data_init h wakeup_cb pre post (st\<lparr>loop_fd := fd\<rparr>))"

definition us_loop_free :: "host \<Rightarrow> us \<Rightarrow> us option" where
  "us_loop_free h st = do {
     st \<leftarrow> us_internal_loop_data_free h st;
     Some (snd (sys_int h (Close (loop_fd st)) st)) }"

text \<open>Dispatch of the entry at \<open>current_ready_poll\<close>, then the loop over the entries.\<close>

definition dispatch_current :: "host \<Rightarrow> us \<Rightarrow> us option" where
  "dispatch_current h st =
     (if nat (current_ready_poll st) < length (ready_polls st) then
        (case ready_polls st ! nat (current_ready_poll st) of (p, evs) \<Rightarrow>
           if p = 0 then Some st
           else do {
             let error = evs AND (EPOLLERR OR EPOLLHUP);
             pe \<leftarrow> us_poll_events p st;
             let events = evs AND pe;
             if events \<noteq> 0 \<or> error \<noteq> 0 then us_internal_dispatch_ready_poll h p (error \<noteq> 0) events st
             else Some st })
      else None)"

partial_function (option) dispatch_all :: "host \<Rightarrow> us \<Rightarrow> us option" where
  "dispatch_all h st =
     (if current_ready_poll st < num_ready_polls st then do {
        st \<leftarrow> dispatch_current h st;
        dispatch_all h (st\<lparr>current_ready_poll := current_ready_poll st + 1\<rparr>) }
      else Some st)"

definition wait_ready :: "host \<Rightarrow> us \<Rightarrow> us" where
  "wait_ready h st =
     (let (n, st) = sys_int h Epoll_wait st
      in st\<lparr>num_ready_polls := n, ready_polls := k_ready h (log st), current_ready_poll := 0\<rparr>)"

definition run_iteration :: "host \<Rightarrow> us \<Rightarrow> us option" where
  "run_iteration h st = do {
     st \<leftarrow> us_internal_loop_pre h st;
     st \<leftarrow> dispatch_all h (wait_ready h st);
     us_internal_loop_post h st }"

partial_function (option) run_loop :: "host \<Rightarrow> us \<Rightarrow> us option" where
  "run_loop h st =
     (if num_polls st \<noteq> 0 then do { st \<leftarrow> run_iteration h st; run_loop h st } else Some st)"

definition us_loop_run :: "host \<Rightarrow> us \<Rightarrow> us option" where
  "us_loop_run h st = do { st \<leftarrow> us_loop_integrate h st; run_loop h st }"

end
