(* ===== verification/UsClose.thy ===== *)
theory UsClose
  imports UsLoop
begin

text \<open>
  What closing a socket does to the lists: the refinement of \<open>us_poll_stop\<close>, of the moves into
  and out of the low-priority queue, and of the three close operations, to operations on the
  abstract view of theory \<open>UsInv\<close>.
\<close>

text \<open>The fields of the loop that the operations of an application leave alone.\<close>

definition same_loop :: "us \<Rightarrow> us \<Rightarrow> bool" where
  "same_loop st st' \<longleftrightarrow> iterator st' = iterator st \<and> head st' = head st \<and> pre_cb st' = pre_cb st
     \<and> post_cb st' = post_cb st \<and> low_prio_budget st' = low_prio_budget st
     \<and> num_ready_polls st' = num_ready_polls st \<and> current_ready_poll st' = current_ready_poll st
     \<and> sweep_timer st' = sweep_timer st \<and> wakeup_async st' = wakeup_async st
     \<and> cbs st' = cbs st \<and> udps st' = udps st \<and> pbufs st' = pbufs st \<and> recv_buf st' = recv_buf st"

lemma same_loop_refl [simp]: "same_loop st st"
  by (simp add: same_loop_def)

lemma same_loop_trans: "same_loop a b \<Longrightarrow> same_loop b c \<Longrightarrow> same_loop a c"
  by (simp add: same_loop_def)

subsection \<open>Stopping a poll\<close>

lemma us_inv_ready: "us_inv A st \<Longrightarrow> ready_ok st"
  using us_inv_mem by (simp add: mem_ok_def heap_ok_def)

lemma ready_ok_unique:
  "ready_ok st \<Longrightarrow> i < j \<Longrightarrow> int j < num_ready_polls st \<Longrightarrow> fst (ready_polls st ! i) \<noteq> 0 \<Longrightarrow>
   fst (ready_polls st ! i) \<noteq> fst (ready_polls st ! j)"
  by (simp add: ready_ok_def)

text \<open>After the stop no ready entry that is still to be dispatched denotes the poll.\<close>

definition stop_event :: "ptr \<Rightarrow> us_poll_t \<Rightarrow> event" where
  "stop_event p q = Epoll_ctl EPOLL_CTL_DEL (sint (p_fd q)) 0 p"

lemma poll_stop_eq:
  assumes ok: "ready_ok st" and p: "p \<noteq> 0" "polls st p = Some q"
  obtains ready where "us_poll_stop h p st = Some (st\<lparr>log := stop_event p q # log st, ready_polls := ready\<rparr>)"
    "ready_ok (st\<lparr>log := stop_event p q # log st, ready_polls := ready\<rparr>)"
    "pending (st\<lparr>log := stop_event p q # log st, ready_polls := ready\<rparr>) \<subseteq> pending st - {p} \<union> {0}"
proof -
  define e where "e = stop_event p q"
  let ?st = "st\<lparr>log := e # log st\<rparr>"
  have ok': "ready_ok ?st" using ok by simp
  obtain ready where r: "us_internal_loop_update_pending_ready_polls p 0 ?st = Some (?st\<lparr>ready_polls := ready\<rparr>)"
    "length ready = length (ready_polls st)"
    "\<forall>i. nat (current_ready_poll st) \<le> i \<and> int i < num_ready_polls st \<longrightarrow>
       ready ! i = (if fst (ready_polls st ! i) = p then (0, snd (ready_polls st ! i)) else ready_polls st ! i)"
    "\<forall>i. i < nat (current_ready_poll st) \<longrightarrow> ready ! i = ready_polls st ! i"
    using update_pending_eq [OF ok' p(1), of 0] by auto
  have step: "us_poll_stop h p st = Some (?st\<lparr>ready_polls := ready\<rparr>)"
    using p r(1) by (simp add: us_poll_stop_def us_poll_fd_def sys_int_def emit_def e_def stop_event_def Let_def)
  have entry: "fst (ready ! i) = fst (ready_polls st ! i) \<or> fst (ready ! i) = 0" if "int i < num_ready_polls st" for i
    using r(3,4) that by (cases "i < nat (current_ready_poll st)") auto
  have "ready_ok (?st\<lparr>ready_polls := ready\<rparr>)"
    unfolding ready_ok_def
  proof (intro conjI allI impI)
    show "0 \<le> current_ready_poll (?st\<lparr>ready_polls := ready\<rparr>)"
      "num_ready_polls (?st\<lparr>ready_polls := ready\<rparr>) \<le> int (length (ready_polls (?st\<lparr>ready_polls := ready\<rparr>)))"
      using ok r(2) by (simp_all add: ready_ok_def)
    fix i j assume "i < j \<and> int j < num_ready_polls (?st\<lparr>ready_polls := ready\<rparr>) \<and>
      fst (ready_polls (?st\<lparr>ready_polls := ready\<rparr>) ! i) \<noteq> 0"
    then have a: "i < j" "int i < num_ready_polls st" "int j < num_ready_polls st" "fst (ready ! i) \<noteq> 0"
      by simp_all
    then have i: "fst (ready ! i) = fst (ready_polls st ! i)"
      using entry [OF a(2)] by auto
    then have "fst (ready_polls st ! i) \<noteq> fst (ready_polls st ! j)"
      using ready_ok_unique [OF ok a(1,3)] a(4) by simp
    then show "fst (ready_polls (?st\<lparr>ready_polls := ready\<rparr>) ! i) \<noteq> fst (ready_polls (?st\<lparr>ready_polls := ready\<rparr>) ! j)"
      using entry [OF a(3)] a(4) i by (elim disjE) simp_all
  qed
  moreover have "pending (?st\<lparr>ready_polls := ready\<rparr>) \<subseteq> pending st - {p} \<union> {0}"
  proof
    fix x assume "x \<in> pending (?st\<lparr>ready_polls := ready\<rparr>)"
    then obtain i where i: "x = fst (ready ! i)" "nat (current_ready_poll st) \<le> i" "int i < num_ready_polls st"
      by (auto simp: pending_def)
    then have "x = (if fst (ready_polls st ! i) = p then 0 else fst (ready_polls st ! i))"
      using r(3) by simp
    then show "x \<in> pending st - {p} \<union> {0}"
      using i by (auto simp: pending_def)
  qed
  ultimately show thesis
    using step that [of ready] by (simp add: e_def)
qed

subsection \<open>Marking a loose socket as closed\<close>

lemma us_inv_cong:
  assumes "us_inv A st" "a_ctxs B = a_ctxs A" "a_low B = a_low A" "a_closed B = a_closed A" "a_loose B = a_loose A"
    and "\<And>c. c \<in> set (a_ctxs A) \<Longrightarrow> a_socks B c = a_socks A c"
  shows "us_inv B st"
proof -
  have "linked B = linked A"
    unfolding linked_def using assms(2-6) by auto
  then show ?thesis
    using assms unfolding us_inv_def mem_ok_def by simp
qed

lemma nxt_Cons_other: "s \<noteq> x \<Longrightarrow> nxt (x # xs) s = nxt xs s"
  by (cases xs) auto

lemma closed_ok_push:
  assumes c: "closed_ok cs xs st" and s: "s \<noteq> 0" "s \<notin> set xs"
    and x: "socks st' s = Some x" "s_next x = closed_head st" "s_prev x = s_context x" "s_context x \<in> set cs"
    and h: "closed_head st' = s" and same: "\<And>p. p \<in> set xs \<Longrightarrow> socks st' p = socks st p"
  shows "closed_ok cs (s # xs) st'"
  unfolding closed_ok_def
proof (intro conjI ballI)
  show "distinct (s # xs)" "0 \<notin> set (s # xs)" "closed_head st' = first (s # xs)"
    using c s h by (auto simp: closed_ok_def)
  fix p assume p: "p \<in> set (s # xs)"
  show "\<exists>y. socks st' p = Some y \<and> s_next y = nxt (s # xs) p \<and> s_prev y = s_context y \<and> s_context y \<in> set cs"
  proof (cases "p = s")
    case True
    then show ?thesis
      using c x s by (cases xs) (auto simp: closed_ok_def)
  next
    case False
    then have px: "p \<in> set xs"
      using p by simp
    then obtain y where "socks st p = Some y" "s_next y = nxt xs p" "s_prev y = s_context y" "s_context y \<in> set cs"
      using c unfolding closed_ok_def by blast
    then show ?thesis
      using same [OF px] False by (intro exI [of _ y]) (simp add: nxt_Cons_other)
  qed
qed

definition a_mark :: "ptr \<Rightarrow> abs \<Rightarrow> abs" where
  "a_mark s A = A\<lparr>a_closed := s # a_closed A, a_loose := a_loose A - {s}\<rparr>"

lemma close_and_mark_refines:
  assumes inv: "us_inv A st" and s: "s \<in> a_loose A" and x: "socks st s = Some x"
  shows "\<exists>st'. close_and_mark h s st = Some st' \<and> us_inv (a_mark s A) st'
           \<and> socks st' = (socks st)(s \<mapsto> x\<lparr>s_next := closed_head st, s_prev := s_context x\<rparr>)
           \<and> ctxs st' = ctxs st \<and> polls st' = polls st \<and> pending st' \<subseteq> pending st - {s} \<union> {0}
           \<and> same_loop st st'
           \<and> (\<exists>es. log st' = es @ log st \<and> (\<forall>f cb. Callback f cb \<notin> set es))"
proof -
  obtain ctx q where cq: "ctxs st (s_context x) = Some ctx" "polls st s = Some q" and s0: "s \<noteq> 0"
    using us_inv_sock_ctx [OF inv x] by blast
  let ?e = "stop_event s q"
  obtain ready where stop: "us_poll_stop h s st = Some (st\<lparr>log := ?e # log st, ready_polls := ready\<rparr>)"
    "ready_ok (st\<lparr>log := ?e # log st, ready_polls := ready\<rparr>)"
    "pending (st\<lparr>log := ?e # log st, ready_polls := ready\<rparr>) \<subseteq> pending st - {s} \<union> {0}"
    by (rule poll_stop_eq [OF us_inv_ready [OF inv] s0 cq(2)])
  define x' where "x' = x\<lparr>s_next := closed_head st, s_prev := s_context x\<rparr>"
  let ?fd = "sint (p_fd q)"
  define st' where "st' = st\<lparr>log := Close ?fd # ?e # log st, ready_polls := ready,
    socks := (socks st)(s \<mapsto> x'), closed_head := s\<rparr>"
  have "close_and_mark h s st = Some st'"
    using x cq stop(1)
    by (simp add: close_and_mark_def sock_ctx_def us_poll_fd_def bsd_close_socket_def sys_int_def
        emit_def upd_sock_def Let_def st'_def x'_def)
  moreover have rok: "ready_ok st'" "pending st' = pending (st\<lparr>log := ?e # log st, ready_polls := ready\<rparr>)"
    using stop(2) by (simp_all add: ready_ok_def pending_def st'_def)
  moreover have "us_inv (a_mark s A) st'"
    unfolding a_mark_def
  proof (rule us_inv_update_closed [OF inv])
    show "same_shape st st'"
      using rok x by (auto simp: same_shape_def st'_def clinks_def)
    show "closed_ok (a_ctxs A) (s # a_closed A) st'"
    proof (rule closed_ok_push [OF us_inv_closed [OF inv] s0])
      show "s \<notin> set (a_closed A)"
        using in_ctxs_disjoint(6) [OF inv] s by auto
      then show "\<And>p. p \<in> set (a_closed A) \<Longrightarrow> socks st' p = socks st p"
        by (auto simp: st'_def)
      show "s_context x' \<in> set (a_ctxs A)"
        using us_inv_sock_ctx(1) [OF inv x] by (simp add: x'_def)
    qed (simp_all add: st'_def x'_def)
    show "loose_ok (a_ctxs A) (a_loose A - {s}) st'"
      using us_inv_loose [OF inv] by (auto simp: loose_ok_def st'_def)
    show "set (s # a_closed A) \<union> (a_loose A - {s}) = set (a_closed A) \<union> a_loose A"
      using s by auto
    show "set (s # a_closed A) \<inter> (a_loose A - {s}) = {}"
      using in_ctxs_disjoint(6) [OF inv] by auto
  qed (use s in \<open>auto simp: st'_def\<close>)
  ultimately show ?thesis
    using stop(3) by (intro exI [of _ st']) (auto simp: st'_def x'_def stop_event_def same_loop_def)
qed

subsection \<open>Into and out of the low-priority queue\<close>

definition a_low_in :: "ptr \<Rightarrow> abs \<Rightarrow> abs" where
  "a_low_in s A = A\<lparr>a_low := s # a_low A, a_loose := a_loose A - {s}\<rparr>"

definition a_low_out :: "ptr \<Rightarrow> abs \<Rightarrow> abs" where
  "a_low_out s A = A\<lparr>a_low := removeAll s (a_low A), a_loose := insert s (a_loose A)\<rparr>"

lemma low_prio_unlink_refines:
  assumes inv: "us_inv A st" and s: "s \<in> set (a_low A)" and x: "socks st s = Some x"
  shows "\<exists>S. low_prio_unlink s st = Some (st\<lparr>low_prio_head := first (removeAll s (a_low A)), socks := S\<rparr>)
           \<and> us_inv (a_low_out s A) (st\<lparr>low_prio_head := first (removeAll s (a_low A)), socks := S\<rparr>)
           \<and> S s = Some (x\<lparr>s_prev := 0, s_next := 0, s_low_prio_state := 0\<rparr>)
           \<and> (\<forall>p. p \<noteq> s \<longrightarrow> map_option core (S p) = map_option core (socks st p))"
proof -
  let ?xs = "a_low A"
  have d: "dlist (slinks st) (low_prio_head st) ?xs"
    and mem: "\<And>s. s \<in> set ?xs \<Longrightarrow> \<exists>x. socks st s = Some x \<and> s_low_prio_state x = 1 \<and> s_context x \<in> set (a_ctxs A)"
    using us_inv_low [OF inv] by (auto simp: low_ok_def)
  note xs = dlist_distinct [OF d] dlist_nonnull [OF d]
  let ?p = "prv ?xs s" and ?n = "nxt ?xs s"
  have lx: "s_prev x = ?p" "s_next x = ?n"
    using dlist_links [OF d s] x by (auto simp: slinks_def)
  have pn: "?p = 0 \<or> ?p \<in> set ?xs" "?n = 0 \<or> ?n \<in> set ?xs"
    using prv_in nxt_in by auto
  have ps: "?p \<noteq> s" "?n \<noteq> s"
    using nxt_ne [OF xs s] nxt_prv [OF xs s] nxt_ne [OF xs, of ?p] pn s xs by metis+
  have pne: "?p = ?n \<Longrightarrow> ?p = 0 \<and> ?n = 0"
    using nxt_eq_prv [OF xs s] by auto
  have hd: "?p = 0 \<longleftrightarrow> low_prio_head st = s"
    using prv_eq_0_iff [OF xs s] dlist_head [OF d] by auto
  have newhead: "first (removeAll s ?xs) = (if low_prio_head st = s then ?n else low_prio_head st)"
    using removeAll_first [OF xs(1)] s dlist_head [OF d] by auto
  define x' where "x' = x\<lparr>s_prev := 0, s_next := 0, s_low_prio_state := 0\<rparr>"
  obtain y z where yz: "?p \<noteq> 0 \<Longrightarrow> socks st ?p = Some y" "?n \<noteq> 0 \<Longrightarrow> socks st ?n = Some z"
    using mem pn by metis
  define S1 where "S1 = (if ?p = 0 then socks st else (socks st)(?p \<mapsto> y\<lparr>s_next := ?n\<rparr>))"
  define S2 where "S2 = (if ?n = 0 then S1 else S1(?n \<mapsto> z\<lparr>s_prev := ?p\<rparr>))"
  define S where "S = S2(s \<mapsto> x')"
  let ?st = "st\<lparr>low_prio_head := first (removeAll s ?xs), socks := S\<rparr>"
  have S2s: "S2 s = Some x"
    using ps x by (auto simp: S2_def S1_def)
  have S1n: "?n \<noteq> 0 \<Longrightarrow> S1 ?n = Some z"
    using pne yz by (auto simp: S1_def)
  have keep: "st\<lparr>low_prio_head := low_prio_head st\<rparr> = st" by simp
  have step: "low_prio_unlink s st = Some ?st"
    using x lx yz S1n S2s newhead hd keep
    by (cases "?p = 0"; cases "?n = 0")
       (simp_all add: low_prio_unlink_def upd_sock_def S_def S2_def S1_def x'_def)
  have S_eq: "S q = (if q = s then Some x' else if q = ?n \<and> ?n \<noteq> 0 then Some (z\<lparr>s_prev := ?p\<rparr>)
      else if q = ?p \<and> ?p \<noteq> 0 then Some (y\<lparr>s_next := ?n\<rparr>) else socks st q)" for q
    by (auto simp: S_def S2_def S1_def)
  have cores: "map_option core (S q) = map_option core (socks st q)" if "q \<noteq> s" for q
    using that yz by (auto simp: S_eq core_def)
  have dl: "dlist (slinks ?st) (first (removeAll s ?xs)) (removeAll s ?xs)"
  proof (rule dlist_remove [OF d s newhead])
    fix q assume q: "q \<in> set ?xs" "q \<noteq> s"
    obtain w where "socks st q = Some w" "s_prev w = prv ?xs q" "s_next w = nxt ?xs q"
      using dlist_links [OF d q(1)] by (auto simp: slinks_def)
    moreover have "q \<noteq> 0" using q xs by auto
    ultimately show "slinks ?st q = Some (if q = ?n then ?p else prv ?xs q, if q = ?p then ?n else nxt ?xs q)"
      using q(2) pne yz by (auto simp: slinks_def S_eq)
  qed
  have low: "low_ok (a_ctxs A) (removeAll s ?xs) ?st"
  proof -
    have "\<exists>w. S q = Some w \<and> s_low_prio_state w = 1 \<and> s_context w \<in> set (a_ctxs A)"
      if "q \<in> set (removeAll s ?xs)" for q
      using that mem [of q] cores [of q] by (auto simp: core_def)
    then show ?thesis using dl by (simp add: low_ok_def)
  qed
  have disj: "set ?xs \<inter> a_loose A = {}"
    by (rule in_ctxs_disjoint(5) [OF inv])
  have "dom S = dom (socks st)"
    using x yz by (auto simp: S_eq split: if_splits)
  then have shape: "same_shape st ?st"
    using us_inv_ready [OF inv] by (auto simp: same_shape_def ready_ok_def clinks_def)
  have "us_inv (a_low_out s A) ?st"
    unfolding a_low_out_def
  proof (rule us_inv_update_low [OF inv shape])
    show "socks ?st q = socks st q" if "q \<notin> set ?xs \<union> a_loose A" for q
      using that pn s by (auto simp: S_eq)
    show "loose_ok (a_ctxs A) (insert s (a_loose A)) ?st"
    proof -
      have "S q = socks st q" if "q \<in> a_loose A" for q
        using that pn s disj by (auto simp: S_eq)
      then show ?thesis
        using us_inv_loose [OF inv] us_inv_sock_ctx(1) [OF inv x] disj s
        by (auto simp: loose_ok_def S_eq [of s] x'_def)
    qed
  qed (use low s disj in auto)
  then show ?thesis
    using step cores by (intro exI [of _ S]) (auto simp: S_eq x'_def)
qed

lemma low_prio_link_refines:
  assumes inv: "us_inv A st" and s: "s \<in> a_loose A" and x: "socks st s = Some x"
  shows "\<exists>S. low_prio_link s st = Some (st\<lparr>socks := S, low_prio_head := s\<rparr>)
           \<and> us_inv (a_low_in s A) (st\<lparr>socks := S, low_prio_head := s\<rparr>)
           \<and> map_option core (S s) = Some (s_context x, s_timeout x, 1)
           \<and> (\<forall>p. p \<noteq> s \<longrightarrow> map_option core (S p) = map_option core (socks st p))"
proof -
  let ?xs = "a_low A" and ?h = "low_prio_head st"
  have d: "dlist (slinks st) ?h ?xs"
    and mem: "\<And>s. s \<in> set ?xs \<Longrightarrow> \<exists>x. socks st s = Some x \<and> s_low_prio_state x = 1 \<and> s_context x \<in> set (a_ctxs A)"
    using us_inv_low [OF inv] by (auto simp: low_ok_def)
  obtain ctx where ctx: "ctxs st (s_context x) = Some ctx"
    using us_inv_sock_ctx [OF inv x] by blast
  have sn: "s \<notin> set ?xs" "s \<noteq> 0"
    using in_ctxs_disjoint(5) [OF inv] s us_inv_sock_ctx [OF inv x] by auto
  have h: "?h \<noteq> 0 \<Longrightarrow> ?h \<in> set ?xs" "?h \<noteq> s"
    using dlist_head_in [OF d] sn by auto
  obtain y where y: "?h \<noteq> 0 \<Longrightarrow> socks st ?h = Some y"
    using mem h by metis
  define x' where "x' = x\<lparr>s_prev := 0, s_next := ?h, s_low_prio_state := 1\<rparr>"
  define S where "S = (if ?h = 0 then (socks st)(s \<mapsto> x') else (socks st)(?h \<mapsto> y\<lparr>s_prev := s\<rparr>, s \<mapsto> x'))"
  let ?st = "st\<lparr>socks := S, low_prio_head := s\<rparr>"
  have step: "low_prio_link s st = Some ?st"
    using x ctx h y
    by (cases "?h = 0")
       (auto simp: low_prio_link_def sock_ctx_def upd_sock_def S_def x'_def Let_def fun_upd_twist [of s])
  have S_eq: "S q = (if q = s then Some x' else if q = ?h \<and> ?h \<noteq> 0 then Some (y\<lparr>s_prev := s\<rparr>) else socks st q)" for q
    using h by (auto simp: S_def)
  have cores: "map_option core (S q) = map_option core (socks st q)" if "q \<noteq> s" for q
    using that y by (auto simp: S_eq core_def)
  have dl: "dlist (slinks ?st) s (s # ?xs)"
    by (rule dlist_push [OF d sn(2) sn(1)])
       (use sn y h in \<open>auto simp: slinks_def S_eq x'_def\<close>)
  have low: "low_ok (a_ctxs A) (s # ?xs) ?st"
  proof -
    have "\<exists>w. S q = Some w \<and> s_low_prio_state w = 1 \<and> s_context w \<in> set (a_ctxs A)"
      if "q \<in> set (s # ?xs)" for q
    proof (cases "q = s")
      case True
      then show ?thesis using us_inv_sock_ctx(1) [OF inv x] by (simp add: S_eq x'_def)
    next
      case False
      then show ?thesis using that mem [of q] cores [of q] by (auto simp: core_def)
    qed
    then show ?thesis using dl by (simp add: low_ok_def)
  qed
  have disj: "set ?xs \<inter> a_loose A = {}"
    by (rule in_ctxs_disjoint(5) [OF inv])
  have "dom S = dom (socks st)"
    using x y by (auto simp: S_eq split: if_splits)
  then have shape: "same_shape st ?st"
    using us_inv_ready [OF inv] by (auto simp: same_shape_def ready_ok_def clinks_def)
  have "us_inv (a_low_in s A) ?st"
    unfolding a_low_in_def
  proof (rule us_inv_update_low [OF inv shape])
    show "socks ?st q = socks st q" if "q \<notin> set ?xs \<union> a_loose A" for q
      using that h s by (auto simp: S_eq)
    show "loose_ok (a_ctxs A) (a_loose A - {s}) ?st"
    proof -
      have "S q = socks st q" if "q \<in> a_loose A - {s}" for q
        using that h disj by (auto simp: S_eq)
      then show ?thesis
        using us_inv_loose [OF inv] by (auto simp: loose_ok_def)
    qed
  qed (use low s disj sn in auto)
  then show ?thesis
    using step cores by (intro exI [of _ S]) (auto simp: S_eq x'_def core_def)
qed

subsection \<open>Updates that keep the lists\<close>

lemma mem_ok_frame:
  "mem_ok A st \<Longrightarrow> dom (socks st') = dom (socks st) \<Longrightarrow> dom (polls st') = dom (polls st) \<Longrightarrow>
   cbs st' = cbs st \<Longrightarrow> dom (ctxs st') = dom (ctxs st) \<Longrightarrow> live st' = live st \<Longrightarrow> ready_ok st' \<Longrightarrow> mem_ok A st'"
  unfolding mem_ok_def heap_ok_def by (elim conjE, intro conjI) simp_all

lemma us_inv_upd_socket:
  assumes inv: "us_inv A st" and x: "socks st s = Some x"
    and same: "s_prev x' = s_prev x" "s_next x' = s_next x" "s_context x' = s_context x"
      "s_low_prio_state x' = 1 \<longleftrightarrow> s_low_prio_state x = 1"
  shows "us_inv A (st\<lparr>socks := (socks st)(s \<mapsto> x')\<rparr>)"
proof -
  let ?st = "st\<lparr>socks := (socks st)(s \<mapsto> x')\<rparr>"
  have sl: "slinks ?st = slinks st" and cl: "clinks ?st = clinks st"
    using x same by (auto simp: slinks_def clinks_def)
  have ex: "(\<exists>y. socks ?st p = Some y \<and> P (s_prev y) (s_next y) (s_context y) (s_low_prio_state y = 1))
      \<longleftrightarrow> (\<exists>y. socks st p = Some y \<and> P (s_prev y) (s_next y) (s_context y) (s_low_prio_state y = 1))" for P p
    using x same by auto
  have "dom (socks ?st) = dom (socks st)"
    using x by auto
  then have "mem_ok A ?st"
    by (rule mem_ok_frame [OF us_inv_mem [OF inv]]) (simp_all add: us_inv_ready [OF inv])
  moreover have "list_ok c (a_socks A c) ?st" if "c \<in> set (a_ctxs A)" for c
    using us_inv_list [OF inv that] ex [of _ "\<lambda>_ _ d l. d = c \<and> \<not> l"] unfolding list_ok_def sl by simp
  moreover have "low_ok (a_ctxs A) (a_low A) ?st"
    using us_inv_low [OF inv] ex [of _ "\<lambda>_ _ d l. l \<and> d \<in> set (a_ctxs A)"] unfolding low_ok_def sl by simp
  moreover have "closed_ok (a_ctxs A) (a_closed A) ?st"
  proof -
    have "\<exists>y. socks ?st p = Some y \<and> s_next y = nxt (a_closed A) p \<and> s_prev y = s_context y \<and> s_context y \<in> set (a_ctxs A)"
      if "p \<in> set (a_closed A)" for p
      using us_inv_closed [OF inv] that
        ex [of p "\<lambda>a b d l. b = nxt (a_closed A) p \<and> a = d \<and> d \<in> set (a_ctxs A)"]
      unfolding closed_ok_def by simp
    then show ?thesis
      using us_inv_closed [OF inv] by (simp add: closed_ok_def)
  qed
  moreover have "loose_ok (a_ctxs A) (a_loose A) ?st"
    using us_inv_loose [OF inv] ex [of _ "\<lambda>_ _ d _. d \<in> set (a_ctxs A)"] unfolding loose_ok_def by simp
  moreover have "ctxs_ok (a_ctxs A) ?st"
    using us_inv_ctxs [OF inv] cl by (auto intro: ctxs_ok_frame)
  ultimately show ?thesis
    by (simp add: us_inv_def)
qed

lemma us_inv_upd_ctx:
  assumes inv: "us_inv A st" and x: "ctxs st c = Some x"
    and same: "c_prev x' = c_prev x" "c_next x' = c_next x" "c_head x' = c_head x"
      "c_iterator x' = c_iterator x \<or> c_iterator x' = 0 \<or> c_iterator x' \<in> set (a_socks A c)"
  shows "us_inv A (st\<lparr>ctxs := (ctxs st)(c \<mapsto> x')\<rparr>)"
proof -
  let ?st = "st\<lparr>ctxs := (ctxs st)(c \<mapsto> x')\<rparr>"
  have sl: "slinks ?st = slinks st" and cl: "clinks ?st = clinks st"
    using x same by (auto simp: slinks_def clinks_def)
  have d: "dom (ctxs ?st) = dom (ctxs st)"
    using x by auto
  have "mem_ok A ?st"
    by (rule mem_ok_frame [OF us_inv_mem [OF inv]]) (simp_all only: d, simp_all add: us_inv_ready [OF inv])
  moreover have "list_ok e (a_socks A e) ?st" if "e \<in> set (a_ctxs A)" for e
    using us_inv_list [OF inv that] x same unfolding list_ok_def sl by auto
  moreover have "ctxs_ok (a_ctxs A) ?st"
    using us_inv_ctxs [OF inv] cl by (auto intro: ctxs_ok_frame)
  moreover have "low_ok (a_ctxs A) (a_low A) ?st" "closed_ok (a_ctxs A) (a_closed A) ?st"
    "loose_ok (a_ctxs A) (a_loose A) ?st"
    using us_invD(3-5) [OF inv] unfolding low_ok_def closed_ok_def loose_ok_def sl by simp_all
  ultimately show ?thesis
    by (simp add: us_inv_def)
qed

subsection \<open>The close operations\<close>

definition a_close :: "ptr \<Rightarrow> abs \<Rightarrow> abs" where
  "a_close s A = A\<lparr>a_socks := (\<lambda>c. removeAll s (a_socks A c)), a_low := removeAll s (a_low A),
                   a_closed := s # a_closed A\<rparr>"

definition open_in :: "abs \<Rightarrow> ptr set" where
  "open_in A = in_ctxs A \<union> set (a_low A)"

lemma is_closed_iff:
  assumes inv: "us_inv A st" and x: "socks st s = Some x" and s: "s \<in> linked A"
  shows "is_closed x \<longleftrightarrow> s \<in> set (a_closed A)"
proof
  assume "is_closed x"
  then show "s \<in> set (a_closed A)"
    using us_inv_not_marked [OF inv x] s unfolding linked_def is_closed_def by blast
next
  assume "s \<in> set (a_closed A)"
  then show "is_closed x"
    using us_inv_closed [OF inv] x unfolding closed_ok_def is_closed_def by fastforce
qed

lemma low_state_iff:
  assumes inv: "us_inv A st" and x: "socks st s = Some x" and s: "s \<in> open_in A"
  shows "s_low_prio_state x = 1 \<longleftrightarrow> s \<in> set (a_low A)"
proof -
  have "s_low_prio_state x = 1" if "s \<in> set (a_low A)"
    using us_inv_lowD(2) [OF inv that] x by auto
  moreover have "s_low_prio_state x \<noteq> 1" if i: "s \<in> in_ctxs A"
  proof -
    obtain c where "c \<in> set (a_ctxs A)" "s \<in> set (a_socks A c)"
      using i by (auto simp: in_ctxs_def)
    then show ?thesis
      using us_inv_list [OF inv, of c] x unfolding list_ok_def by fastforce
  qed
  ultimately show ?thesis
    using s in_ctxs_disjoint(1) [OF inv] by (auto simp: open_in_def)
qed

lemma in_ctxs_own:
  assumes inv: "us_inv A st" and x: "socks st s = Some x" and s: "s \<in> in_ctxs A"
  shows "s \<in> set (a_socks A (s_context x))" and "d \<in> set (a_ctxs A) \<Longrightarrow> d \<noteq> s_context x \<Longrightarrow> s \<notin> set (a_socks A d)"
proof -
  obtain c where c: "c \<in> set (a_ctxs A)" "s \<in> set (a_socks A c)"
    using s by (auto simp: in_ctxs_def)
  then have "s_context x = c"
    using us_inv_list [OF inv, of c] x unfolding list_ok_def by fastforce
  then show "s \<in> set (a_socks A (s_context x))"
    "d \<in> set (a_ctxs A) \<Longrightarrow> d \<noteq> s_context x \<Longrightarrow> s \<notin> set (a_socks A d)"
    using c us_inv_disjoint(1) [OF inv, of c d] by auto
qed

text \<open>The state after the first part of the close, before the socket is marked.\<close>

lemma unlink_any_refines:
  assumes inv: "us_inv A st" and loose: "a_loose A = {}" and x: "socks st s = Some x" and s: "s \<in> open_in A"
  obtains st' A' x' where
    "(if s_low_prio_state x = 1 then low_prio_unlink s st
      else us_internal_socket_context_unlink (s_context x) s st) = Some st'"
    "us_inv A' st'" "a_loose A' = {s}" "\<forall>st''. us_inv (a_mark s A') st'' \<longrightarrow> us_inv (a_close s A) st''"
    "socks st' s = Some x'" "s_context x' = s_context x" "polls st' = polls st" "pending st' = pending st"
    "log st' = log st" "closed_head st' = closed_head st"
    "same_loop st st'"
    "\<forall>c ctx. ctxs st c = Some ctx \<longrightarrow> (\<exists>hd. ctxs st' c = Some (ctx\<lparr>c_iterator :=
        if c_iterator ctx = s then nxt (a_socks A c) s else c_iterator ctx, c_head := hd\<rparr>))"
proof (cases "s_low_prio_state x = 1")
  case True
  then have sl: "s \<in> set (a_low A)"
    using low_state_iff [OF inv x s] by simp
  obtain S where S: "low_prio_unlink s st = Some (st\<lparr>low_prio_head := first (removeAll s (a_low A)), socks := S\<rparr>)"
    "us_inv (a_low_out s A) (st\<lparr>low_prio_head := first (removeAll s (a_low A)), socks := S\<rparr>)"
    "S s = Some (x\<lparr>s_prev := 0, s_next := 0, s_low_prio_state := 0\<rparr>)"
    using low_prio_unlink_refines [OF inv sl x] by blast
  show thesis
  proof (rule that [of "st\<lparr>low_prio_head := first (removeAll s (a_low A)), socks := S\<rparr>" "a_low_out s A"
        "x\<lparr>s_prev := 0, s_next := 0, s_low_prio_state := 0\<rparr>"])
    show "\<forall>st''. us_inv (a_mark s (a_low_out s A)) st'' \<longrightarrow> us_inv (a_close s A) st''"
    proof (intro allI impI, rule us_inv_cong)
      fix c assume "c \<in> set (a_ctxs (a_mark s (a_low_out s A)))"
      then have "s \<notin> set (a_socks A c)"
        using in_ctxs_disjoint(1) [OF inv] sl by (auto simp: a_mark_def a_low_out_def in_ctxs_def)
      then show "a_socks (a_close s A) c = a_socks (a_mark s (a_low_out s A)) c"
        by (simp add: a_close_def a_mark_def a_low_out_def)
    qed (simp_all add: a_close_def a_mark_def a_low_out_def loose)
    show "\<forall>c ctx. ctxs st c = Some ctx \<longrightarrow>
        (\<exists>hd. ctxs (st\<lparr>low_prio_head := first (removeAll s (a_low A)), socks := S\<rparr>) c = Some (ctx\<lparr>c_iterator :=
          if c_iterator ctx = s then nxt (a_socks A c) s else c_iterator ctx, c_head := hd\<rparr>))"
    proof (intro allI impI)
      fix c ctx assume ctx: "ctxs st c = Some ctx"
      then have c: "c \<in> set (a_ctxs A)"
        using us_inv_ctxs [OF inv] by (auto simp: ctxs_ok_def)
      then have "c_iterator ctx = 0 \<or> c_iterator ctx \<in> in_ctxs A"
        using us_inv_list [OF inv c] ctx by (auto simp: list_ok_def in_ctxs_def)
      then have "c_iterator ctx \<noteq> s"
        using in_ctxs_disjoint(1) [OF inv] sl us_inv_sock_ctx(4) [OF inv x] by auto
      then show "\<exists>hd. ctxs (st\<lparr>low_prio_head := first (removeAll s (a_low A)), socks := S\<rparr>) c = Some (ctx\<lparr>c_iterator :=
          if c_iterator ctx = s then nxt (a_socks A c) s else c_iterator ctx, c_head := hd\<rparr>)"
        using ctx by (intro exI [of _ "c_head ctx"]) simp
    qed
  qed (use S True loose in \<open>simp_all add: a_low_out_def pending_def same_loop_def\<close>)
next
  case False
  let ?c = "s_context x"
  have si: "s \<in> in_ctxs A"
    using False s low_state_iff [OF inv x s] by (auto simp: open_in_def)
  note own = in_ctxs_own [OF inv x si]
  obtain ctx where ctx: "ctxs st ?c = Some ctx" and c: "?c \<in> set (a_ctxs A)"
    using us_inv_sock_ctx [OF inv x] by blast
  obtain S C where S: "us_internal_socket_context_unlink ?c s st = Some (st\<lparr>socks := S, ctxs := C\<rparr>)"
    "us_inv (a_unlink ?c s A) (st\<lparr>socks := S, ctxs := C\<rparr>)" "S s = socks st s"
    "C = (ctxs st)(?c \<mapsto> ctx\<lparr>c_iterator := if c_iterator ctx = s then nxt (a_socks A ?c) s else c_iterator ctx,
               c_head := first (removeAll s (a_socks A ?c))\<rparr>)"
    using context_unlink_refines [OF inv c own(1) ctx] by blast
  have nl: "s \<notin> set (a_low A)"
    using False low_state_iff [OF inv x s] by simp
  show thesis
  proof (rule that [of "st\<lparr>socks := S, ctxs := C\<rparr>" "a_unlink ?c s A"])
    show "\<forall>st''. us_inv (a_mark s (a_unlink ?c s A)) st'' \<longrightarrow> us_inv (a_close s A) st''"
    proof (intro allI impI, rule us_inv_cong)
      fix d assume "d \<in> set (a_ctxs (a_mark s (a_unlink ?c s A)))"
      then show "a_socks (a_close s A) d = a_socks (a_mark s (a_unlink ?c s A)) d"
        using own(2) [of d] by (auto simp: a_mark_def a_unlink_def a_close_def)
    qed (use nl loose in \<open>simp_all add: a_close_def a_mark_def a_unlink_def\<close>)
    show "\<forall>d dx. ctxs st d = Some dx \<longrightarrow> (\<exists>hd. ctxs (st\<lparr>socks := S, ctxs := C\<rparr>) d = Some (dx\<lparr>c_iterator :=
          if c_iterator dx = s then nxt (a_socks A d) s else c_iterator dx, c_head := hd\<rparr>))"
    proof (intro allI impI)
      fix d dx assume dx: "ctxs st d = Some dx"
      show "\<exists>hd. ctxs (st\<lparr>socks := S, ctxs := C\<rparr>) d = Some (dx\<lparr>c_iterator :=
          if c_iterator dx = s then nxt (a_socks A d) s else c_iterator dx, c_head := hd\<rparr>)"
      proof (cases "d = ?c")
        case True
        then show ?thesis using dx ctx by (auto simp: S(4))
      next
        case False
        have dc: "d \<in> set (a_ctxs A)"
          using us_inv_ctxs [OF inv] dx by (auto simp: ctxs_ok_def)
        have "c_iterator dx = 0 \<or> c_iterator dx \<in> set (a_socks A d)"
          using us_inv_list [OF inv dc] dx by (auto simp: list_ok_def)
        then have "c_iterator dx \<noteq> s"
          using own(2) [OF dc False] us_inv_sock_ctx(4) [OF inv x] by auto
        then show ?thesis
          using dx False by (intro exI [of _ "c_head dx"]) (simp add: S(4))
      qed
    qed
  qed (use S x False loose in \<open>simp_all add: a_unlink_def pending_def same_loop_def\<close>)
qed

lemma close_silently_refines:
  assumes inv: "us_inv A st" and loose: "a_loose A = {}" and x: "socks st s = Some x" and s: "s \<in> open_in A"
  obtains st' y ctx where "close_silently h s x st = Some st'" "us_inv (a_close s A) st'"
    "socks st' s = Some y" "is_closed y" "s_context y = s_context x"
    "sock_ctx s st' = Some ctx" "map_option c_on_close (ctxs st (s_context x)) = Some (c_on_close ctx)"
    "same_loop st st'"
    "\<forall>c ctx. ctxs st c = Some ctx \<longrightarrow> (\<exists>hd. ctxs st' c = Some (ctx\<lparr>c_iterator :=
        if c_iterator ctx = s then nxt (a_socks A c) s else c_iterator ctx, c_head := hd\<rparr>))"
    "polls st' = polls st" "pending st' \<subseteq> pending st - {s} \<union> {0}"
    "\<exists>es. log st' = es @ log st \<and> (\<forall>f cb. Callback f cb \<notin> set es)"
proof -
  obtain ctx where ctx: "ctxs st (s_context x) = Some ctx"
    using us_inv_sock_ctx [OF inv x] by blast
  obtain st1 A1 x1 where u: "(if s_low_prio_state x = 1 then low_prio_unlink s st
      else us_internal_socket_context_unlink (s_context x) s st) = Some st1"
    "us_inv A1 st1" "a_loose A1 = {s}" "\<forall>st''. us_inv (a_mark s A1) st'' \<longrightarrow> us_inv (a_close s A) st''"
    "socks st1 s = Some x1" "s_context x1 = s_context x" "polls st1 = polls st" "pending st1 = pending st"
    "log st1 = log st" "closed_head st1 = closed_head st"
    "same_loop st st1"
    "\<forall>c ctx. ctxs st c = Some ctx \<longrightarrow> (\<exists>hd. ctxs st1 c = Some (ctx\<lparr>c_iterator :=
        if c_iterator ctx = s then nxt (a_socks A c) s else c_iterator ctx, c_head := hd\<rparr>))"
    by (rule unlink_any_refines [OF inv loose x s])
  obtain st' where m: "close_and_mark h s st1 = Some st'" "us_inv (a_mark s A1) st'"
    "socks st' = (socks st1)(s \<mapsto> x1\<lparr>s_next := closed_head st1, s_prev := s_context x1\<rparr>)"
    "ctxs st' = ctxs st1" "polls st' = polls st1" "pending st' \<subseteq> pending st1 - {s} \<union> {0}" "same_loop st1 st'"
    "\<exists>es. log st' = es @ log st1 \<and> (\<forall>f cb. Callback f cb \<notin> set es)"
    using close_and_mark_refines [OF u(2) _ u(5), of h] u(3) by blast
  obtain ctx' where ctx': "ctxs st1 (s_context x) = Some ctx'" "c_on_close ctx' = c_on_close ctx"
    using u(12) ctx by fastforce
  show thesis
  proof (rule that)
    show "close_silently h s x st = Some st'"
      using x ctx u(1) m(1) by (simp add: close_silently_def sock_ctx_def)
    show "us_inv (a_close s A) st'"
      using u(4) m(2) by simp
    show "socks st' s = Some (x1\<lparr>s_next := closed_head st1, s_prev := s_context x1\<rparr>)"
      using m(3) by simp
    show "sock_ctx s st' = Some ctx'"
      using m(3,4) u(6) ctx' by (simp add: sock_ctx_def)
    show "same_loop st st'"
      by (rule same_loop_trans [OF u(11) m(7)])
  qed (use u m ctx ctx' in \<open>simp_all add: is_closed_def\<close>)
qed

lemma a_close_simps [simp]:
  "a_ctxs (a_close s A) = a_ctxs A" "a_loose (a_close s A) = a_loose A"
  "a_closed (a_close s A) = s # a_closed A" "a_low (a_close s A) = removeAll s (a_low A)"
  "a_socks (a_close s A) c = removeAll s (a_socks A c)"
  "open_in (a_close s A) = open_in A - {s}"
  by (auto simp: a_close_def open_in_def in_ctxs_def)

lemma linked_open_in: "linked A = open_in A \<union> set (a_closed A)"
  by (simp add: open_in_def linked_in_ctxs)

lemma us_socket_close_closed:
  "socks st s = Some x \<Longrightarrow> is_closed x \<Longrightarrow> us_socket_close h s code st = Some (s, st)"
  by (simp add: us_socket_close_def)

lemma us_socket_close_open:
  assumes inv: "us_inv A st" and loose: "a_loose A = {}" and x: "socks st s = Some x" and s: "s \<in> open_in A"
  obtains st' f where "us_socket_close h s code st = call h f (On_close s code) st'"
    "map_option c_on_close (ctxs st (s_context x)) = Some f" "us_inv (a_close s A) st'"
    "us_socket_is_closed s st' = Some True" "s \<notin> pending st'"
    "\<exists>es. log st' = es @ log st \<and> (\<forall>f cb. Callback f cb \<notin> set es)"
proof -
  have n: "\<not> is_closed x"
    using is_closed_iff [OF inv x] s in_ctxs_disjoint(2,3) [OF inv] by (auto simp: linked_open_in open_in_def)
  obtain st' y ctx where c: "close_silently h s x st = Some st'" "us_inv (a_close s A) st'"
    "socks st' s = Some y" "is_closed y" "s_context y = s_context x"
    "sock_ctx s st' = Some ctx" "map_option c_on_close (ctxs st (s_context x)) = Some (c_on_close ctx)"
    "same_loop st st'"
    "\<forall>c ctx. ctxs st c = Some ctx \<longrightarrow> (\<exists>hd. ctxs st' c = Some (ctx\<lparr>c_iterator :=
        if c_iterator ctx = s then nxt (a_socks A c) s else c_iterator ctx, c_head := hd\<rparr>))"
    "polls st' = polls st" "pending st' \<subseteq> pending st - {s} \<union> {0}"
    "\<exists>es. log st' = es @ log st \<and> (\<forall>f cb. Callback f cb \<notin> set es)"
    by (rule close_silently_refines [OF inv loose x s])
  have "s \<noteq> 0"
    using us_inv_sock_ctx [OF inv x] by simp
  then show thesis
    using that [of "c_on_close ctx" st'] x n c
    by (auto simp: us_socket_close_def us_socket_is_closed_def)
qed

end
