(* ===== verification/UsApp.thy ===== *)
theory UsApp
  imports UsClose
begin

text \<open>
  What an application may do to the library from inside a callback: calls of the library's
  API, as a step relation \<open>api_step\<close>. Every step keeps the invariant of theory \<open>UsInv\<close> and only
  lets the lists evolve in a way the loops of theory \<open>UsLoop\<close> can follow: a socket that is closed
  stays closed and allocated, and the part of a context's list behind its iterator only shrinks.
\<close>

subsection \<open>Evolution of the lists\<close>

text \<open>The sockets of the context that the timer sweep has still to look at.\<close>

definition rest :: "ptr \<Rightarrow> abs \<Rightarrow> us \<Rightarrow> ptr list" where
  "rest c A st = (case ctxs st c of None \<Rightarrow> [] | Some ctx \<Rightarrow> dropWhile (\<lambda>s. s \<noteq> c_iterator ctx) (a_socks A c))"

definition callbacks_set :: "us_socket_context_t \<Rightarrow> bool" where
  "callbacks_set x \<longleftrightarrow> Fn_null \<notin> {c_on_open x, c_on_data x, c_on_writable x, c_on_close x,
     c_on_socket_timeout x, c_on_end x, c_on_connect_error x, c_is_low_prio x}
     \<and> c_on_writable x \<noteq> Fn_default_is_low_prio_handler"

lemma callbacks_setD:
  assumes "callbacks_set x"
  shows "c_on_open x \<noteq> Fn_null" "c_on_data x \<noteq> Fn_null" "c_on_writable x \<noteq> Fn_null" "c_on_close x \<noteq> Fn_null"
    "c_on_socket_timeout x \<noteq> Fn_null" "c_on_end x \<noteq> Fn_null" "c_on_connect_error x \<noteq> Fn_null"
    "c_is_low_prio x \<noteq> Fn_null" "c_on_writable x \<noteq> Fn_default_is_low_prio_handler"
  using assms by (auto simp: callbacks_set_def)

definition app_ok :: "abs \<Rightarrow> us \<Rightarrow> bool" where
  "app_ok A st \<longleftrightarrow> us_inv A st \<and> a_loose A = {} \<and> (\<forall>x\<in>ran (ctxs st). callbacks_set x)
     \<and> pre_cb st \<noteq> Fn_null \<and> post_cb st \<noteq> Fn_null"

definition grows :: "abs \<Rightarrow> us \<Rightarrow> abs \<Rightarrow> us \<Rightarrow> bool" where
  "grows A st A' st' \<longleftrightarrow> a_ctxs A' = a_ctxs A \<and> linked A \<subseteq> linked A' \<and> set (a_low A') \<subseteq> set (a_low A)
     \<and> set (a_closed A) \<subseteq> set (a_closed A') \<and> same_loop st st' \<and> pending st' \<subseteq> pending st \<union> {0}
     \<and> dom (polls st) \<subseteq> dom (polls st')"

definition evolves :: "abs \<Rightarrow> us \<Rightarrow> abs \<Rightarrow> us \<Rightarrow> bool" where
  "evolves A st A' st' \<longleftrightarrow> grows A st A' st'
     \<and> (\<forall>c\<in>set (a_ctxs A). rest c A' st' = filter (\<lambda>s. s \<notin> set (a_closed A')) (rest c A st))"

lemma rest_subset: "set (rest c A st) \<subseteq> set (a_socks A c)"
  by (auto simp: rest_def split: option.splits dest: set_dropWhileD)

lemma rest_open:
  assumes "us_inv A st" "c \<in> set (a_ctxs A)"
  shows "filter (\<lambda>s. s \<notin> set (a_closed A)) (rest c A st) = rest c A st"
proof (rule filter_True, rule ballI)
  fix s assume "s \<in> set (rest c A st)"
  then have "s \<in> in_ctxs A"
    using assms(2) rest_subset by (fastforce simp: in_ctxs_def)
  then show "s \<notin> set (a_closed A)"
    using in_ctxs_disjoint(2) [OF assms(1)] by auto
qed

lemma grows_refl: "grows A st A st"
  by (auto simp: grows_def)

lemma grows_trans: "grows A st A1 st1 \<Longrightarrow> grows A1 st1 A2 st2 \<Longrightarrow> grows A st A2 st2"
  using same_loop_trans unfolding grows_def by (auto 0 3)

lemma evolves_grows: "evolves A st A' st' \<Longrightarrow> grows A st A' st'"
  by (simp add: evolves_def)

lemma evolves_refl: "us_inv A st \<Longrightarrow> evolves A st A st"
  by (auto simp: evolves_def rest_open grows_refl)

lemma evolves_trans:
  assumes "evolves A st A1 st1" "evolves A1 st1 A2 st2"
  shows "evolves A st A2 st2"
proof -
  have "rest c A2 st2 = filter (\<lambda>s. s \<notin> set (a_closed A2)) (rest c A st)" if "c \<in> set (a_ctxs A)" for c
  proof -
    have "rest c A2 st2 = filter (\<lambda>s. s \<notin> set (a_closed A2)) (filter (\<lambda>s. s \<notin> set (a_closed A1)) (rest c A st))"
      using assms that by (simp add: evolves_def grows_def)
    also have "\<dots> = filter (\<lambda>s. s \<notin> set (a_closed A2)) (rest c A st)"
      using assms(2) by (auto simp: evolves_def grows_def intro!: filter_cong)
    finally show ?thesis .
  qed
  then show ?thesis
    using grows_trans [OF evolves_grows [OF assms(1)] evolves_grows [OF assms(2)]] by (simp add: evolves_def)
qed

text \<open>A step that keeps all lists.\<close>

lemma evolves_same:
  assumes "us_inv A st" "same_loop st st'" "pending st' \<subseteq> pending st \<union> {0}" "dom (polls st') = dom (polls st)"
    "\<And>c. map_option c_iterator (ctxs st' c) = map_option c_iterator (ctxs st c)"
  shows "evolves A st A st'"
proof -
  have "rest c A st' = rest c A st" for c
    using assms(5) [of c] by (cases "ctxs st c"; cases "ctxs st' c") (auto simp: rest_def)
  then show ?thesis
    using assms by (simp add: evolves_def grows_def rest_open)
qed

subsection \<open>Operations on one socket\<close>

lemma app_ok_same_ctxs:
  "app_ok A st \<Longrightarrow> us_inv A' st' \<Longrightarrow> a_loose A' = {} \<Longrightarrow> ctxs st' = ctxs st \<Longrightarrow> same_loop st st' \<Longrightarrow> app_ok A' st'"
  by (simp add: app_ok_def same_loop_def)

definition poll_log :: "us \<Rightarrow> us \<Rightarrow> bool" where
  "poll_log st st' \<longleftrightarrow> (\<exists>P L b. st' = st\<lparr>polls := P, log := L, last_write_failed := b\<rparr> \<and> dom P = dom (polls st))"

text \<open>Sending, polling and shutting down touch the polls and the history only.\<close>

lemma poll_log_step:
  assumes ok: "app_ok A st" and pl: "poll_log st st'"
  shows "app_ok A st' \<and> evolves A st A st'"
proof -
  obtain P L b where st': "st' = st\<lparr>polls := P, log := L, last_write_failed := b\<rparr>" and P: "dom P = dom (polls st)"
    using pl by (auto simp: poll_log_def)
  have inv: "us_inv A st" using ok by (simp add: app_ok_def)
  have "us_inv A st'"
    by (rule us_inv_same_memory [OF inv]) (auto simp: same_memory_def st' P us_inv_ready [OF inv])
  moreover have sl: "same_loop st st'"
    by (simp add: same_loop_def st')
  moreover have "evolves A st A st'"
    by (rule evolves_same [OF inv sl]) (auto simp: st' P pending_def)
  ultimately show ?thesis
    using ok by (auto intro: app_ok_same_ctxs simp: st' app_ok_def)
qed

lemma poll_logI:
  "st' = st\<lparr>polls := P, log := L, last_write_failed := b\<rparr> \<Longrightarrow> dom P = dom (polls st) \<Longrightarrow> poll_log st st'"
  by (auto simp: poll_log_def)

lemma poll_log_refl: "poll_log st st"
  by (rule poll_logI [where P = "polls st" and L = "log st" and b = "last_write_failed st"]) simp_all

lemma poll_log_trans:
  assumes "poll_log x y" "poll_log y z"
  shows "poll_log x z"
proof -
  obtain P L b where y: "y = x\<lparr>polls := P, log := L, last_write_failed := b\<rparr>" "dom P = dom (polls x)"
    using assms(1) by (auto simp: poll_log_def)
  obtain P' L' b' where "z = y\<lparr>polls := P', log := L', last_write_failed := b'\<rparr>" "dom P' = dom (polls y)"
    using assms(2) by (auto simp: poll_log_def)
  with y show ?thesis
    by (intro poll_logI [where P = P' and L = L' and b = b']) simp_all
qed

lemma poll_log_emit: "poll_log st (emit e st)"
  by (rule poll_logI [where P = "polls st" and L = "e # log st" and b = "last_write_failed st"]) (simp_all add: emit_def)

lemma poll_log_sys: "poll_log st (snd (sys_int h e st))"
  by (simp add: sys_int_def poll_log_emit Let_def)

lemma poll_log_sys': "sys_int h e st = (n, st') \<Longrightarrow> poll_log st st'"
  using poll_log_sys [of st h e] by simp

lemma poll_log_upd_poll: "upd_poll p f st = Some st' \<Longrightarrow> poll_log st st'"
  by (cases "polls st p")
     (auto simp: upd_poll_def split: if_splits intro!: poll_logI [where P = "(polls st)(p \<mapsto> f (the (polls st p)))" and L = "log st" and b = "last_write_failed st"])

lemma poll_log_failed: "poll_log st (st\<lparr>last_write_failed := b\<rparr>)"
  by (rule poll_logI [where P = "polls st" and L = "log st" and b = b]) simp_all

lemma poll_log_change: "us_poll_change h p e st = Some st' \<Longrightarrow> poll_log st st'"
  by (auto simp: us_poll_change_def Let_def split: Option.bind_splits if_splits
      intro: poll_log_refl poll_log_trans [OF poll_log_upd_poll poll_log_sys])

lemma poll_log_trans_failed:
  "poll_log x y \<Longrightarrow> poll_log (y\<lparr>last_write_failed := b\<rparr>) z \<Longrightarrow> poll_log x z"
  by (rule poll_log_trans [OF _ poll_log_trans [OF poll_log_failed]])

lemma poll_log_write: "us_socket_write h s d m st = Some (n, st') \<Longrightarrow> poll_log st st'"
  unfolding us_socket_write_def bsd_send_def Let_def
  by (elim bind_SomeE)
     (auto split: if_splits prod.splits elim!: bind_SomeE intro: poll_log_refl poll_log_trans_failed
       dest!: poll_log_sys' poll_log_change)

lemma poll_log_shutdown:
  assumes "us_socket_shutdown h s st = Some st'"
  shows "poll_log st st'"
proof (cases "st' = st")
  case False
  then obtain st1 e st2 fd where "us_internal_poll_set_type s POLL_TYPE_SOCKET_SHUT_DOWN st = Some st1"
    "us_poll_change h s e st1 = Some st2" "st' = bsd_shutdown_socket h fd st2"
    using assms by (auto simp: us_socket_shutdown_def split: Option.bind_splits if_splits)
  then show ?thesis
    by (auto simp: us_internal_poll_set_type_def bsd_shutdown_socket_def
        intro: poll_log_trans [OF poll_log_upd_poll poll_log_trans [OF poll_log_change poll_log_sys]])
qed (simp add: poll_log_refl)

lemma poll_log_flush: "us_socket_flush h s st = Some st' \<Longrightarrow> poll_log st st'"
  by (auto simp: us_socket_flush_def bsd_socket_flush_def split: Option.bind_splits if_splits
      intro: poll_log_refl poll_log_sys)

lemma poll_log_shutdown_read: "us_socket_shutdown_read h s st = Some st' \<Longrightarrow> poll_log st st'"
  by (auto simp: us_socket_shutdown_read_def bsd_shutdown_socket_read_def split: Option.bind_splits
      intro: poll_log_sys)

lemma poll_log_wakeup: "us_wakeup_loop h st = Some st' \<Longrightarrow> poll_log st st'"
  by (auto simp: us_wakeup_loop_def us_internal_async_wakeup_def split: Option.bind_splits intro: poll_log_sys)

lemma timeout_step:
  assumes ok: "app_ok A st" and t: "us_socket_timeout s seconds st = Some st'"
  shows "app_ok A st' \<and> evolves A st A st'"
proof -
  have inv: "us_inv A st" using ok by (simp add: app_ok_def)
  obtain x t where x: "socks st s = Some x" and st': "st' = st\<lparr>socks := (socks st)(s \<mapsto> x\<lparr>s_timeout := t\<rparr>)\<rparr>"
    using t by (auto simp: us_socket_timeout_def upd_sock_def split: Option.bind_splits if_splits)
  have inv': "us_inv A st'"
    unfolding st' by (rule us_inv_upd_socket [OF inv x]) simp_all
  have sl: "same_loop st st'"
    by (simp add: same_loop_def st')
  have "app_ok A st'"
    by (rule app_ok_same_ctxs [OF ok inv']) (use ok sl in \<open>simp_all add: st' app_ok_def\<close>)
  moreover have "evolves A st A st'"
    by (rule evolves_same [OF inv sl]) (auto simp: st' pending_def)
  ultimately show ?thesis by simp
qed

lemma setter_step:
  assumes ok: "app_ok A st" and x: "ctxs st c = Some x" and st': "st' = st\<lparr>ctxs := (ctxs st)(c \<mapsto> x')\<rparr>"
    and same: "c_prev x' = c_prev x" "c_next x' = c_next x" "c_head x' = c_head x" "c_iterator x' = c_iterator x"
    and set: "callbacks_set x \<Longrightarrow> callbacks_set x'"
  shows "app_ok A st' \<and> evolves A st A st'"
proof -
  have inv: "us_inv A st" using ok by (simp add: app_ok_def)
  have inv': "us_inv A st'"
    unfolding st' by (rule us_inv_upd_ctx [OF inv x]) (use same in simp_all)
  have cb: "callbacks_set x"
    using ok x by (auto simp: app_ok_def ranI)
  have "callbacks_set y" if "y \<in> ran (ctxs st')" for y
    using that ok set [OF cb] by (auto simp: st' app_ok_def ran_def split: if_splits)
  then have "app_ok A st'"
    using ok inv' by (simp add: app_ok_def) (simp add: st')
  moreover have "evolves A st A st'"
    by (rule evolves_same [OF inv]) (use x same in \<open>auto simp: st' same_loop_def pending_def\<close>)
  ultimately show ?thesis by simp
qed

lemma rest_close:
  assumes inv: "us_inv A st" and c: "c \<in> set (a_ctxs A)" and s: "s \<noteq> 0"
    and ctx: "ctxs st c = Some ctx"
    and ctx': "ctxs st' c = Some (ctx\<lparr>c_iterator := if c_iterator ctx = s then nxt (a_socks A c) s else c_iterator ctx, c_head := hh\<rparr>)"
  shows "rest c (a_close s A) st' = filter (\<lambda>y. y \<notin> set (a_closed (a_close s A))) (rest c A st)"
proof -
  have d: "distinct (a_socks A c)" "0 \<notin> set (a_socks A c)" and it: "c_iterator ctx = 0 \<or> c_iterator ctx \<in> set (a_socks A c)"
    using us_inv_list [OF inv c] ctx by (auto simp: list_ok_def dlist_def)
  have "rest c (a_close s A) st' = removeAll s (rest c A st)"
  proof (cases "s \<in> set (a_socks A c)")
    case True
    then show ?thesis
      using dropWhile_ne_removeAll [OF d True, of "c_iterator ctx"] by (simp add: rest_def ctx ctx')
  next
    case False
    then have n: "c_iterator ctx \<noteq> s" using it s by auto
    have "s \<notin> set (rest c A st)"
      using False rest_subset by fastforce
    then show ?thesis
      using False n by (simp add: rest_def ctx ctx')
  qed
  also have "\<dots> = filter (\<lambda>y. y \<noteq> s) (filter (\<lambda>y. y \<notin> set (a_closed A)) (rest c A st))"
    by (simp add: rest_open [OF inv c] removeAll_filter_not_eq eq_commute [of s])
  also have "\<dots> = filter (\<lambda>y. y \<notin> set (a_closed (a_close s A))) (rest c A st)"
    by (auto intro!: filter_cong)
  finally show ?thesis .
qed

lemma open_of_alloc:
  assumes "app_ok A st" "socks st s = Some x" "\<not> is_closed x"
  shows "s \<in> open_in A"
proof -
  have inv: "us_inv A st" and l: "a_loose A = {}" using assms(1) by (auto simp: app_ok_def)
  then have "s \<in> linked A"
    using us_inv_dom [OF inv] assms(2) by auto
  then show ?thesis
    using is_closed_iff [OF inv assms(2)] assms(3) by (auto simp: linked_open_in)
qed

lemma close_step:
  assumes ok: "app_ok A st" and x: "socks st s = Some x" "\<not> is_closed x"
    and c: "close_silently h s x st = Some st'"
  shows "app_ok (a_close s A) st' \<and> evolves A st (a_close s A) st'"
proof -
  have inv: "us_inv A st" and l: "a_loose A = {}" using ok by (auto simp: app_ok_def)
  have s: "s \<in> open_in A" by (rule open_of_alloc [OF ok x])
  have s0: "s \<noteq> 0" using us_inv_sock_ctx(4) [OF inv x(1)] .
  obtain st1 y ctx where st1: "close_silently h s x st = Some st1" "us_inv (a_close s A) st1"
    "same_loop st st1"
    "\<forall>c ctx. ctxs st c = Some ctx \<longrightarrow> (\<exists>hd. ctxs st1 c = Some (ctx\<lparr>c_iterator :=
        if c_iterator ctx = s then nxt (a_socks A c) s else c_iterator ctx, c_head := hd\<rparr>))"
    "polls st1 = polls st" "pending st1 \<subseteq> pending st - {s} \<union> {0}"
    by (rule close_silently_refines [OF inv l x(1) s])
  have e: "st1 = st'" using st1(1) c by simp
  have inv': "us_inv (a_close s A) st'" using st1(2) e by simp
  have dom: "dom (ctxs st') = dom (ctxs st)"
    using us_inv_ctxs [OF inv] us_inv_ctxs [OF inv'] by (simp add: ctxs_ok_def)
  have "callbacks_set y" if y: "y \<in> ran (ctxs st')" for y
  proof -
    obtain d where d: "ctxs st' d = Some y" using y by (auto simp: ran_def)
    then obtain dx where dx: "ctxs st d = Some dx" using dom by (metis domD domI)
    then have "callbacks_set dx" using ok by (auto simp: app_ok_def ranI)
    then show ?thesis using st1(4) dx d e by (fastforce simp: callbacks_set_def)
  qed
  then have "app_ok (a_close s A) st'"
    using ok inv' st1(3) e by (simp add: app_ok_def same_loop_def)
  moreover have "rest d (a_close s A) st' = filter (\<lambda>y. y \<notin> set (a_closed (a_close s A))) (rest d A st)"
    if d: "d \<in> set (a_ctxs A)" for d
  proof -
    obtain dx where dx: "ctxs st d = Some dx" using us_inv_listD [OF inv d] by metis
    then obtain hd where "ctxs st' d = Some (dx\<lparr>c_iterator :=
        if c_iterator dx = s then nxt (a_socks A d) s else c_iterator dx, c_head := hd\<rparr>)"
      using st1(4) e by blast
    then show ?thesis by (rule rest_close [OF inv d s0 dx])
  qed
  moreover have "linked A \<subseteq> linked (a_close s A)"
    by (auto simp: linked_open_in)
  ultimately show ?thesis
    using st1(3,5,6) e by (auto simp: evolves_def grows_def)
qed

subsection \<open>The API as a step relation\<close>

text \<open>
  \<open>us_socket_close\<close> is its part before the callback followed by what the callback does; the
  callback is again a sequence of steps. Closing a listening or a connecting socket is allowed
  for sockets outside the low-priority queue, the only ones the code has it for.
\<close>

inductive api_step :: "host \<Rightarrow> us \<Rightarrow> us \<Rightarrow> bool" for h where
  Step_callback: "api_step h st (emit (Callback f cb) st)"
| Step_timeout: "us_socket_timeout s seconds st = Some st' \<Longrightarrow> api_step h st st'"
| Step_write: "us_socket_write h s data msg_more st = Some (n, st') \<Longrightarrow> api_step h st st'"
| Step_flush: "us_socket_flush h s st = Some st' \<Longrightarrow> api_step h st st'"
| Step_shutdown: "us_socket_shutdown h s st = Some st' \<Longrightarrow> api_step h st st'"
| Step_shutdown_read: "us_socket_shutdown_read h s st = Some st' \<Longrightarrow> api_step h st st'"
| Step_wakeup: "us_wakeup_loop h st = Some st' \<Longrightarrow> api_step h st st'"
| Step_close: "socks st s = Some x \<Longrightarrow> \<not> is_closed x \<Longrightarrow> close_silently h s x st = Some st' \<Longrightarrow> api_step h st st'"
| Step_close_connecting: "socks st s = Some x \<Longrightarrow> s_low_prio_state x \<noteq> 1 \<Longrightarrow>
    us_socket_close_connecting h s st = Some (r, st') \<Longrightarrow> api_step h st st'"
| Step_listen_close: "socks st s = Some x \<Longrightarrow> s_low_prio_state x \<noteq> 1 \<Longrightarrow>
    us_listen_socket_close h s st = Some st' \<Longrightarrow> api_step h st st'"
| Step_on_open: "f \<noteq> Fn_null \<Longrightarrow> us_socket_context_on_open c f st = Some st' \<Longrightarrow> api_step h st st'"
| Step_on_data: "f \<noteq> Fn_null \<Longrightarrow> us_socket_context_on_data c f st = Some st' \<Longrightarrow> api_step h st st'"
| Step_on_writable: "f \<noteq> Fn_null \<Longrightarrow> f \<noteq> Fn_default_is_low_prio_handler \<Longrightarrow> us_socket_context_on_writable c f st = Some st' \<Longrightarrow> api_step h st st'"
| Step_on_close: "f \<noteq> Fn_null \<Longrightarrow> us_socket_context_on_close c f st = Some st' \<Longrightarrow> api_step h st st'"
| Step_on_timeout: "f \<noteq> Fn_null \<Longrightarrow> us_socket_context_on_timeout c f st = Some st' \<Longrightarrow> api_step h st st'"
| Step_on_end: "f \<noteq> Fn_null \<Longrightarrow> us_socket_context_on_end c f st = Some st' \<Longrightarrow> api_step h st st'"
| Step_on_connect_error: "f \<noteq> Fn_null \<Longrightarrow> us_socket_context_on_connect_error c f st = Some st' \<Longrightarrow> api_step h st st'"

lemma close_connecting_eq:
  assumes "app_ok A st" "socks st s = Some x" "s_low_prio_state x \<noteq> 1"
  shows "us_socket_close_connecting h s st =
           (if is_closed x then Some (s, st) else map_option (Pair s) (close_silently h s x st))"
    and "us_listen_socket_close h s st = (if is_closed x then Some st else close_silently h s x st)"
proof -
  have "us_inv A st" using assms(1) by (simp add: app_ok_def)
  then obtain ctx where "ctxs st (s_context x) = Some ctx"
    using us_inv_sock_ctx(2) assms(2) by blast
  then have c: "sock_ctx s st = Some ctx"
    using assms(2) by (simp add: sock_ctx_def)
  show "us_socket_close_connecting h s st =
           (if is_closed x then Some (s, st) else map_option (Pair s) (close_silently h s x st))"
    "us_listen_socket_close h s st = (if is_closed x then Some st else close_silently h s x st)"
    using assms(2,3) c
    by (auto simp: us_socket_close_connecting_def us_listen_socket_close_def close_silently_def
        map_option_case split: Option.bind_splits option.splits)
qed

lemma setter_upd:
  "upd_ctx c F st = Some st' \<Longrightarrow> \<exists>x. ctxs st c = Some x \<and> st' = st\<lparr>ctxs := (ctxs st)(c \<mapsto> F x)\<rparr>"
  by (auto simp: upd_ctx_def)

lemmas setter_defs =
  us_socket_context_on_open_def us_socket_context_on_data_def us_socket_context_on_writable_def
  us_socket_context_on_close_def us_socket_context_on_timeout_def us_socket_context_on_end_def
  us_socket_context_on_connect_error_def

lemma setter_step':
  assumes ok: "app_ok A st" and u: "upd_ctx c F st = Some st'"
    and F: "\<And>x. c_prev (F x) = c_prev x" "\<And>x. c_next (F x) = c_next x" "\<And>x. c_head (F x) = c_head x"
      "\<And>x. c_iterator (F x) = c_iterator x" "\<And>x. callbacks_set x \<Longrightarrow> callbacks_set (F x)"
  shows "\<exists>A'. app_ok A' st' \<and> evolves A st A' st'"
proof -
  obtain x where "ctxs st c = Some x" "st' = st\<lparr>ctxs := (ctxs st)(c \<mapsto> F x)\<rparr>"
    using setter_upd [OF u] by blast
  then show ?thesis
    using setter_step [OF ok _ _ F(1-4) F(5)] by blast
qed

lemma closing_step:
  assumes ok: "app_ok A st" and x: "socks st s = Some x" and c: "is_closed x \<and> st' = st \<or>
    \<not> is_closed x \<and> close_silently h s x st = Some st'"
  shows "\<exists>A'. app_ok A' st' \<and> evolves A st A' st'"
  using c
proof
  assume "is_closed x \<and> st' = st"
  then show ?thesis using ok evolves_refl by (auto simp: app_ok_def)
next
  assume "\<not> is_closed x \<and> close_silently h s x st = Some st'"
  then show ?thesis using close_step [OF ok x] by blast
qed

theorem api_step_evolves:
  assumes "api_step h st st'" and ok: "app_ok A st"
  shows "\<exists>A'. app_ok A' st' \<and> evolves A st A' st'"
proof -
  have pl: ?thesis if "poll_log st st'"
    using poll_log_step [OF ok that] by blast
  from assms(1) show ?thesis
  proof cases
    case (Step_callback f cb)
    then show ?thesis using pl poll_log_emit by simp
  next
    case (Step_timeout s seconds)
    then show ?thesis using timeout_step [OF ok] by blast
  next
    case (Step_close s x)
    then show ?thesis using closing_step [OF ok] by blast
  next
    case (Step_close_connecting s x r)
    then show ?thesis
      using close_connecting_eq(1) [OF ok, of s x h] by (intro closing_step [OF ok, of s x]) (auto split: if_splits)
  next
    case (Step_listen_close s x)
    then show ?thesis
      using close_connecting_eq(2) [OF ok, of s x h] by (intro closing_step [OF ok, of s x]) (auto split: if_splits)
  qed (use pl in \<open>auto intro: poll_log_write poll_log_flush poll_log_shutdown poll_log_shutdown_read poll_log_wakeup\<close>,
      unfold setter_defs, (erule setter_step' [OF ok]; simp add: callbacks_set_def)+)
qed

lemma api_steps_evolve:
  "(api_step h)\<^sup>*\<^sup>* st st' \<Longrightarrow> app_ok A st \<Longrightarrow> \<exists>A'. app_ok A' st' \<and> evolves A st A' st'"
proof (induction rule: rtranclp_induct)
  case base
  then show ?case using evolves_refl by (auto simp: app_ok_def)
next
  case (step y z)
  then show ?case using api_step_evolves evolves_trans by meson
qed

end
