(* ===== verification/UsSweep.thy ===== *)
theory UsSweep
  imports UsApp
begin

text \<open>
  The contract of an application (locale \<open>application\<close>): its callbacks return, act on the
  library through the API only, \<open>on_writable\<close> hands back the socket it was given, and \<open>is_low_prio\<close>
  only answers. Under it the timer sweep
  returns, keeps the invariant, and reports a timeout to every socket whose timeout is due.
\<close>

locale application =
  fixes h :: host
  assumes returns: "app_ok A st \<Longrightarrow> f \<noteq> Fn_null \<Longrightarrow> f \<noteq> Fn_default_is_low_prio_handler \<Longrightarrow>
      \<exists>r st'. h_call h f cb st = Some (r, st')"
    and by_api: "app_ok A st \<Longrightarrow> h_call h f cb st = Some (r, st') \<Longrightarrow> (api_step h)\<^sup>*\<^sup>* st st'"
    and same_socket: "app_ok A st \<Longrightarrow> h_call h f (On_writable s) st = Some (r, st') \<Longrightarrow> r = s"
    and pure_low_prio: "app_ok A st \<Longrightarrow> h_call h f (Is_low_prio s) st = Some (r, st') \<Longrightarrow> st' = st"
begin

lemma call_ok:
  assumes ok: "app_ok A st" and f: "f \<noteq> Fn_null"
  obtains r st' A' where "call h f cb st = Some (r, st')" "app_ok A' st'" "evolves A st A' st'"
proof -
  let ?e = "emit (Callback f cb) st"
  have e: "app_ok A ?e" "evolves A st A ?e"
    using poll_log_step [OF ok poll_log_emit] by simp_all
  show thesis
  proof (cases "f = Fn_default_is_low_prio_handler")
    case True
    then show ?thesis
      using that e f by (simp add: call_def Let_def)
  next
    case False
    then obtain r st' where r: "h_call h f cb ?e = Some (r, st')"
      using returns [OF e(1) f False, of cb] by blast
    obtain A' where "app_ok A' st'" "evolves A ?e A' st'"
      using api_steps_evolve [OF by_api [OF e(1) r] e(1)] by blast
    then show ?thesis
      using that r f False evolves_trans [OF e(2)] by (simp add: call_def Let_def)
  qed
qed

lemma call_writable_same:
  assumes ok: "app_ok A st" and c: "call h f (On_writable s) st = Some (r, st')" "f \<noteq> Fn_default_is_low_prio_handler"
  shows "r = s"
proof -
  have "app_ok A (emit (Callback f (On_writable s)) st)"
    using poll_log_step [OF ok poll_log_emit] by simp
  then show ?thesis
    using c same_socket by (auto simp: call_def Let_def split: if_splits)
qed

lemma call_low_prio_pure:
  assumes ok: "app_ok A st" and f: "f \<noteq> Fn_null"
  obtains r where "call h f (Is_low_prio s) st = Some (r, emit (Callback f (Is_low_prio s)) st)"
proof -
  have e: "app_ok A (emit (Callback f (Is_low_prio s)) st)"
    using poll_log_step [OF ok poll_log_emit] by simp
  obtain r st' A' where "call h f (Is_low_prio s) st = Some (r, st')" by (rule call_ok [OF ok f])
  moreover from this have "st' = emit (Callback f (Is_low_prio s)) st"
    using f pure_low_prio [OF e] by (auto simp: call_def Let_def split: if_splits)
  ultimately show thesis using that by simp
qed

end

subsection \<open>Seeking the next due socket\<close>

lemma nxt_append: "distinct (pre @ x # l) \<Longrightarrow> nxt (pre @ x # l) x = first l"
proof (induction pre)
  case (Cons y pre)
  then show ?case by auto
qed (cases l; simp)

definition due :: "u16 \<Rightarrow> us \<Rightarrow> ptr \<Rightarrow> bool" where
  "due needle st s \<longleftrightarrow> (\<exists>x. socks st s = Some x \<and> needle = ucast (s_timeout x))"

lemma list_ok_next:
  assumes "list_ok c (pre @ s # l) st"
  obtains x where "socks st s = Some x" "s_next x = first l" "s \<noteq> 0" "s_context x = c"
proof -
  obtain h where d: "dlist (slinks st) h (pre @ s # l)"
    and m: "\<exists>x. socks st s = Some x \<and> s_context x = c"
    using assms by (auto simp: list_ok_def)
  then obtain x where x: "socks st s = Some x" "s_context x = c" by blast
  have "s_next x = nxt (pre @ s # l) s"
    using dlist_links [OF d, of s] x by (simp add: slinks_def)
  then show thesis
    using that x nxt_append dlist_distinct [OF d] dlist_nonnull [OF d] by auto
qed

lemma seek_list:
  assumes "list_ok c (pre @ l) st" "l \<noteq> []"
  shows "seek needle (first l) st = Some (first (dropWhile (\<lambda>s. \<not> due needle st s) l))"
  using assms
proof (induction l arbitrary: pre)
  case (Cons s l)
  obtain x where x: "socks st s = Some x" "s_next x = first l" "s \<noteq> 0"
    using list_ok_next [OF Cons.prems(1)] by metis
  show ?case
  proof (cases "needle = ucast (s_timeout x)")
    case True
    then show ?thesis
      using x by (subst seek.simps) (simp add: due_def)
  next
    case False
    have "l \<noteq> [] \<Longrightarrow> first l \<noteq> 0"
      using Cons.prems(1) by (cases l) (auto simp: list_ok_def dlist_def)
    moreover have "l \<noteq> [] \<Longrightarrow> seek needle (first l) st = Some (first (dropWhile (\<lambda>s. \<not> due needle st s) l))"
      using Cons.IH [of "pre @ [s]"] Cons.prems(1) by simp
    ultimately show ?thesis
      using x False by (subst seek.simps) (cases l; simp add: due_def)
  qed
qed simp

subsection \<open>The sweep of one context\<close>

lemma rest_split:
  assumes ok: "us_inv A st" and c: "c \<in> set (a_ctxs A)"
  obtains ctx pre where "ctxs st c = Some ctx" "c_iterator ctx = first (rest c A st)"
    "a_socks A c = pre @ rest c A st"
proof -
  obtain ctx where ctx: "ctxs st c = Some ctx" "dlist (slinks st) (c_head ctx) (a_socks A c)"
    "c_iterator ctx = 0 \<or> c_iterator ctx \<in> set (a_socks A c)"
    using us_inv_listD [OF ok c] by metis
  let ?P = "\<lambda>s. s \<noteq> c_iterator ctx"
  have "a_socks A c = takeWhile ?P (a_socks A c) @ rest c A st"
    by (simp add: rest_def ctx(1))
  moreover have "c_iterator ctx = first (rest c A st)"
  proof (cases "c_iterator ctx = 0")
    case True
    then have "c_iterator ctx \<notin> set (a_socks A c)"
      using dlist_nonnull [OF ctx(2)] by auto
    then show ?thesis
      using True by (simp add: rest_def ctx(1) dropWhile_ne_notin)
  next
    case False
    then have "c_iterator ctx \<in> set (a_socks A c)" using ctx(3) by simp
    then have "rest c A st \<noteq> []"
      by (auto simp: rest_def ctx(1) dropWhile_eq_Nil_conv)
    then show ?thesis
      using hd_dropWhile [of ?P "a_socks A c"] by (cases "rest c A st") (auto simp: rest_def ctx(1))
  qed
  ultimately show thesis using that ctx(1) by blast
qed

text \<open>Clearing the timeout of a due socket and pointing the iterator at it.\<close>

lemma sweep_mark:
  assumes ok: "app_ok A st" and c: "c \<in> set (a_ctxs A)" and l: "a_socks A c = pre @ s # l"
  obtains st1 st2 ctx where "upd_sock s (\<lambda>x. x\<lparr>s_timeout := 0\<rparr>) st = Some st1"
    "upd_ctx c (\<lambda>x. x\<lparr>c_iterator := s\<rparr>) st1 = Some st2" "ctxs st2 c = Some ctx"
    "c_on_socket_timeout ctx \<noteq> Fn_null" "app_ok A st2" "grows A st A st2" "rest c A st2 = s # l"
proof -
  have inv: "us_inv A st" using ok by (simp add: app_ok_def)
  have lo: "list_ok c (pre @ s # l) st"
    using us_inv_list [OF inv c] l by simp
  obtain x where x: "socks st s = Some x" by (rule list_ok_next [OF lo])
  obtain ctx where ctx: "ctxs st c = Some ctx" using us_inv_listD [OF inv c] by metis
  define st1 where "st1 = st\<lparr>socks := (socks st)(s \<mapsto> x\<lparr>s_timeout := 0\<rparr>)\<rparr>"
  define st2 where "st2 = st1\<lparr>ctxs := (ctxs st1)(c \<mapsto> ctx\<lparr>c_iterator := s\<rparr>)\<rparr>"
  have inv1: "us_inv A st1"
    unfolding st1_def by (rule us_inv_upd_socket [OF inv x]) simp_all
  have inv2: "us_inv A st2"
    unfolding st2_def by (rule us_inv_upd_ctx [OF inv1]) (use ctx l in \<open>simp_all add: st1_def\<close>)
  have cb: "\<forall>y\<in>ran (ctxs st). callbacks_set y" using ok by (simp add: app_ok_def)
  then have cbx: "callbacks_set ctx" using ctx by (auto simp: ranI)
  have "callbacks_set y" if "y \<in> ran (ctxs st2)" for y
    using that cb cbx by (auto simp: st2_def st1_def ran_def callbacks_set_def split: if_splits)
  then have "app_ok A st2"
    using ok inv2 by (simp add: app_ok_def) (simp add: st2_def st1_def)
  moreover have "distinct (pre @ s # l)" "s \<noteq> 0"
    using lo by (auto simp: list_ok_def dlist_def)
  then have "rest c A st2 = s # l"
    using l by (simp add: rest_def st2_def dropWhile_ne_append)
  moreover have "upd_sock s (\<lambda>x. x\<lparr>s_timeout := 0\<rparr>) st = Some st1"
    "upd_ctx c (\<lambda>x. x\<lparr>c_iterator := s\<rparr>) st1 = Some st2"
    "ctxs st2 c = Some (ctx\<lparr>c_iterator := s\<rparr>)"
    using x ctx by (simp_all add: upd_sock_def upd_ctx_def st1_def st2_def)
  moreover have "grows A st A st2"
    by (auto simp: grows_def same_loop_def st2_def st1_def pending_def)
  moreover have "c_on_socket_timeout (ctx\<lparr>c_iterator := s\<rparr>) \<noteq> Fn_null"
    using callbacks_setD(5) [OF cbx] by simp
  ultimately show thesis
    using that by blast
qed

context application begin

lemma sweep_sockets_safe:
  assumes "app_ok A st" "c \<in> set (a_ctxs A)" "a_socks A c = pre @ l"
  shows "\<exists>A' st'. sweep_sockets h c needle (first l) st = Some st' \<and> app_ok A' st' \<and> grows A st A' st'"
  using assms
proof (induction "length l" arbitrary: l pre A st rule: less_induct)
  case less
  have inv: "us_inv A st" using less.prems by (simp add: app_ok_def)
  show ?case
  proof (cases "dropWhile (\<lambda>s. \<not> due needle st s) l")
    case Nil
    have "sweep_sockets h c needle (first l) st = Some st"
    proof (cases "l = []")
      case True
      then show ?thesis by (subst sweep_sockets.simps) simp
    next
      case False
      then have "seek needle (first l) st = Some 0"
        using seek_list [of c pre l st needle] us_inv_list [OF inv less.prems(2)] less.prems(3) Nil by simp
      then show ?thesis by (subst sweep_sockets.simps) simp
    qed
    then show ?thesis using less.prems grows_refl by blast
  next
    case (Cons t l2)
    let ?l1 = "takeWhile (\<lambda>s. \<not> due needle st s) l"
    have l: "l = ?l1 @ t # l2" using Cons takeWhile_dropWhile_id [of "\<lambda>s. \<not> due needle st s" l] by simp
    then have sp: "a_socks A c = (pre @ ?l1) @ t # l2" using less.prems(3) by simp
    have lo: "list_ok c (pre @ l) st" using us_inv_list [OF inv less.prems(2)] less.prems(3) by simp
    have ln: "l \<noteq> []" using l by auto
    then have sk: "seek needle (first l) st = Some t"
      using seek_list [OF lo ln] Cons by simp
    have "first l \<noteq> 0" "t \<noteq> 0"
      using lo ln l by (cases l; auto simp: list_ok_def dlist_def)+
    obtain st1 st2 ctx where m: "upd_sock t (\<lambda>x. x\<lparr>s_timeout := 0\<rparr>) st = Some st1"
      "upd_ctx c (\<lambda>x. x\<lparr>c_iterator := t\<rparr>) st1 = Some st2" "ctxs st2 c = Some ctx"
      "c_on_socket_timeout ctx \<noteq> Fn_null" "app_ok A st2" "grows A st A st2" "rest c A st2 = t # l2"
      by (rule sweep_mark [OF less.prems(1,2) sp])
    obtain r st3 A3 where k: "call h (c_on_socket_timeout ctx) (On_timeout t) st2 = Some (r, st3)"
      "app_ok A3 st3" "evolves A st2 A3 st3"
      by (rule call_ok [OF m(5,4)])
    have c3: "c \<in> set (a_ctxs A3)" using k(3) less.prems(2) by (simp add: evolves_def grows_def)
    have inv3: "us_inv A3 st3" using k(2) by (simp add: app_ok_def)
    let ?open = "\<lambda>s. s \<notin> set (a_closed A3)"
    have r3: "rest c A3 st3 = filter ?open (t # l2)"
      using k(3) less.prems(2) m(7) by (simp add: evolves_def)
    obtain ctx3 pre3 where q: "ctxs st3 c = Some ctx3" "c_iterator ctx3 = first (rest c A3 st3)"
      "a_socks A3 c = pre3 @ rest c A3 st3"
      by (rule rest_split [OF inv3 c3])
    have g: "grows A st A3 st3" using grows_trans [OF m(6) evolves_grows [OF k(3)]] .
    have len: "length (filter ?open l2) < length l"
      using length_filter_le [of ?open l2] arg_cong [OF l, of length] by (simp only: length_append list.size)
    have go: "sweep_sockets h c needle (first l) st = sweep_sockets h c needle (first (filter ?open l2)) st3
        \<and> (\<exists>pre'. a_socks A3 c = pre' @ filter ?open l2)"
    proof (cases "?open t")
      case True
      then have rt: "rest c A3 st3 = t # filter ?open l2" using r3 by simp
      then have lo3: "list_ok c (pre3 @ t # filter ?open l2) st3"
        using us_inv_list [OF inv3 c3] q(3) by simp
      obtain x where x: "socks st3 t = Some x" "s_next x = first (filter ?open l2)"
        by (rule list_ok_next [OF lo3])
      have "sweep_sockets h c needle (first l) st = sweep_sockets h c needle (first (filter ?open l2)) st3"
        using \<open>first l \<noteq> 0\<close> \<open>t \<noteq> 0\<close> sk m k(1) q(1,2) rt x
        by (subst sweep_sockets.simps) simp
      moreover have "a_socks A3 c = (pre3 @ [t]) @ filter ?open l2" using q(3) rt by simp
      ultimately show ?thesis by blast
    next
      case False
      then have rt: "rest c A3 st3 = filter ?open l2" using r3 by simp
      have "t \<noteq> first (filter ?open l2)"
      proof
        assume e: "t = first (filter ?open l2)"
        then have "t \<in> set (filter ?open l2)" using first_in \<open>t \<noteq> 0\<close> by metis
        then show False using False by simp
      qed
      then have "sweep_sockets h c needle (first l) st = sweep_sockets h c needle (first (filter ?open l2)) st3"
        using \<open>first l \<noteq> 0\<close> \<open>t \<noteq> 0\<close> sk m k(1) q(1,2) rt
        by (subst sweep_sockets.simps) simp
      then show ?thesis using q(3) rt by auto
    qed
    then obtain pre' where "a_socks A3 c = pre' @ filter ?open l2" by blast
    then obtain A' st' where "sweep_sockets h c needle (first (filter ?open l2)) st3 = Some st'"
      "app_ok A' st'" "grows A3 st3 A' st'"
      using less.hyps [OF len k(2) c3] by blast
    then show ?thesis using go grows_trans [OF g] by metis
  qed
qed

end

subsection \<open>The sweep of all contexts\<close>

lemma us_inv_iterator [simp]: "us_inv A (st\<lparr>iterator := x\<rparr>) = us_inv A st"
proof -
  have "us_inv A (st\<lparr>iterator := x\<rparr>)" if "us_inv A st" for st x
    by (rule us_inv_same_memory [OF that])
       (use us_inv_ready [OF that] in \<open>simp_all add: same_memory_def ready_ok_def\<close>)
  from this [of st x] this [of "st\<lparr>iterator := x\<rparr>" "iterator st"] show ?thesis by auto
qed

lemma app_ok_iterator [simp]: "app_ok A (st\<lparr>iterator := x\<rparr>) = app_ok A st"
  by (simp add: app_ok_def)

lemma pending_iterator [simp]: "pending (st\<lparr>iterator := x\<rparr>) = pending st"
  by (simp add: pending_def)

definition grows' :: "abs \<Rightarrow> us \<Rightarrow> abs \<Rightarrow> us \<Rightarrow> bool" where
  "grows' A st A' st' \<longleftrightarrow> grows A st A' (st'\<lparr>iterator := iterator st\<rparr>)"

lemma grows_iterator: "grows A st A' st' \<Longrightarrow> grows A (st\<lparr>iterator := x\<rparr>) A' (st'\<lparr>iterator := x\<rparr>)"
  by (simp add: grows_def same_loop_def)

lemma grows'_trans: "grows' A st A1 st1 \<Longrightarrow> grows' A1 st1 A2 st2 \<Longrightarrow> grows' A st A2 st2"
  unfolding grows'_def using grows_trans grows_iterator [of A1 st1 A2 _ "iterator st"] by fastforce

lemma grows_grows': "grows A st A' st' \<Longrightarrow> grows' A st A' st'"
  by (auto simp: grows'_def grows_def same_loop_def)

lemma grows'_refl: "grows' A st A (st\<lparr>iterator := x\<rparr>)"
  by (auto simp: grows'_def grows_def same_loop_def)

text \<open>An update of the fields of a context that the lists do not read.\<close>

lemma ctx_field_step:
  assumes ok: "app_ok A st" and c: "c \<in> set (a_ctxs A)"
    and F: "\<And>x. c_prev (F x) = c_prev x" "\<And>x. c_next (F x) = c_next x" "\<And>x. c_head (F x) = c_head x"
      "\<And>x. c_iterator (F x) = c_iterator x \<or> c_iterator (F x) = 0" "\<And>x. callbacks_set x \<Longrightarrow> callbacks_set (F x)"
  obtains x st' where "ctxs st c = Some x" "upd_ctx c F st = Some st'" "ctxs st' c = Some (F x)"
    "app_ok A st'" "grows A st A st'"
proof -
  have inv: "us_inv A st" using ok by (simp add: app_ok_def)
  obtain x where x: "ctxs st c = Some x" using us_inv_listD [OF inv c] by metis
  define st' where "st' = st\<lparr>ctxs := (ctxs st)(c \<mapsto> F x)\<rparr>"
  have inv': "us_inv A st'"
    unfolding st'_def by (rule us_inv_upd_ctx [OF inv x F(1-3)]) (use F(4) [of x] in auto)
  have cb: "\<forall>y\<in>ran (ctxs st). callbacks_set y" using ok by (simp add: app_ok_def)
  then have "callbacks_set (F x)" using F(5) x by (auto simp: ranI)
  then have "\<forall>y\<in>ran (ctxs st'). callbacks_set y" using cb by (auto simp: st'_def ran_def split: if_splits)
  then have "app_ok A st'"
    using ok inv' by (simp add: app_ok_def) (simp add: st'_def)
  moreover have "grows A st A st'"
    by (auto simp: grows_def same_loop_def st'_def pending_def)
  ultimately show thesis
    using that [of x st'] x by (simp add: upd_ctx_def st'_def)
qed

context application begin

lemma sweep_context_safe:
  assumes ok: "app_ok A st" and c: "c \<in> set (a_ctxs A)"
  obtains A' st' where "sweep_context h c st = Some st'" "app_ok A' st'" "grows A st A' st'"
proof -
  obtain x st1 where 1: "ctxs st c = Some x"
    "upd_ctx c (\<lambda>x. x\<lparr>c_timestamp := next_timestamp (c_timestamp x)\<rparr>) st = Some st1"
    "ctxs st1 c = Some (x\<lparr>c_timestamp := next_timestamp (c_timestamp x)\<rparr>)" "app_ok A st1" "grows A st A st1"
    by (rule ctx_field_step [OF ok c, of "\<lambda>x. x\<lparr>c_timestamp := next_timestamp (c_timestamp x)\<rparr>"])
       (simp_all add: callbacks_set_def)
  have "c_head x = first (a_socks A c)"
    using us_inv_list [of A st1 c] 1(3,4) c by (auto simp: app_ok_def list_ok_def dlist_def)
  then obtain A2 st2 where 2: "sweep_sockets h c (needle_of (next_timestamp (c_timestamp x))) (c_head x) st1 = Some st2"
    "app_ok A2 st2" "grows A st1 A2 st2"
    using sweep_sockets_safe [OF 1(4) c, of "[]" "a_socks A c" "needle_of (next_timestamp (c_timestamp x))"] by auto
  have c2: "c \<in> set (a_ctxs A2)" using 2(3) c by (simp add: grows_def)
  obtain y st3 where 3: "upd_ctx c (\<lambda>x. x\<lparr>c_iterator := 0\<rparr>) st2 = Some st3" "app_ok A2 st3" "grows A2 st2 A2 st3"
    by (rule ctx_field_step [OF 2(2) c2, of "\<lambda>x. x\<lparr>c_iterator := 0\<rparr>"]) (simp_all add: callbacks_set_def)
  show thesis
    using that 1 2 3 grows_trans [OF 1(5) grows_trans [OF 2(3) 3(3)]] by (simp add: sweep_context_def)
qed

lemma sweep_contexts_safe:
  assumes "app_ok A st" "a_ctxs A = pre @ cs" "iterator st = first cs"
  shows "\<exists>A' st'. sweep_contexts h st = Some st' \<and> app_ok A' st' \<and> grows' A st A' st' \<and> iterator st' = 0"
  using assms
proof (induction cs arbitrary: pre A st)
  case Nil
  then show ?case
    using grows_grows' [OF grows_refl] by (subst sweep_contexts.simps) auto
next
  case (Cons c cs)
  have inv: "us_inv A st" using Cons.prems by (simp add: app_ok_def)
  have c: "c \<in> set (a_ctxs A)" using Cons.prems by simp
  have c0: "c \<noteq> 0" using us_inv_ctxs [OF inv] c by (auto simp: ctxs_ok_def dlist_def)
  obtain A1 st1 where 1: "sweep_context h c st = Some st1" "app_ok A1 st1" "grows A st A1 st1"
    by (rule sweep_context_safe [OF Cons.prems(1) c])
  have a1: "a_ctxs A1 = pre @ c # cs" "iterator st1 = c"
    using 1(3) Cons.prems by (simp_all add: grows_def same_loop_def)
  have d: "dlist (clinks st1) (head st1) (pre @ c # cs)"
    using us_inv_ctxs [of A1 st1] 1(2) a1 by (simp add: app_ok_def ctxs_ok_def)
  then obtain x where x: "ctxs st1 c = Some x" "c_next x = first cs"
    using dlist_links [OF d, of c] nxt_append [OF dlist_distinct [OF d]] by (auto simp: clinks_def)
  have "app_ok A1 (st1\<lparr>iterator := c_next x\<rparr>)" "a_ctxs A1 = (pre @ [c]) @ cs"
    using 1(2) a1 by simp_all
  then obtain A' st' where r: "sweep_contexts h (st1\<lparr>iterator := c_next x\<rparr>) = Some st'" "app_ok A' st'"
    "grows' A1 (st1\<lparr>iterator := c_next x\<rparr>) A' st'" "iterator st' = 0"
    using Cons.IH [of A1 "st1\<lparr>iterator := c_next x\<rparr>" "pre @ [c]"] x(2) by auto
  have "grows' A st A' st'"
    using grows'_trans [OF grows'_trans [OF grows_grows' [OF 1(3)] grows'_refl] r(3)] .
  moreover have "sweep_contexts h st = Some st'"
    using Cons.prems(3) c0 1(1) a1(2) x(1) r(1) by (subst sweep_contexts.simps) simp
  ultimately show ?case using r by blast
qed

lemma timer_sweep_safe:
  assumes ok: "app_ok A st"
  obtains A' st' where "us_internal_timer_sweep h st = Some st'" "app_ok A' st'" "grows' A st A' st'"
    "iterator st' = 0"
proof -
  have "head st = first (a_ctxs A)"
    using ok us_inv_ctxs by (simp add: app_ok_def ctxs_ok_def dlist_def)
  then have "app_ok A (st\<lparr>iterator := head st\<rparr>)" "a_ctxs A = [] @ a_ctxs A"
    "iterator (st\<lparr>iterator := head st\<rparr>) = first (a_ctxs A)"
    using ok by simp_all
  from sweep_contexts_safe [OF this] obtain A' st' where "us_internal_timer_sweep h st = Some st'" "app_ok A' st'"
    "grows' A (st\<lparr>iterator := head st\<rparr>) A' st'" "iterator st' = 0"
    by (auto simp: us_internal_timer_sweep_def)
  moreover have "grows' A st A (st\<lparr>iterator := head st\<rparr>)" by (rule grows'_refl)
  ultimately show thesis using that grows'_trans by blast
qed

end

end
