(* ===== verification/UsDispatch.thy ===== *)
theory UsDispatch
  imports UsSweep
begin

text \<open>
  The rest of a loop iteration under the contract \<open>application\<close>: the low-priority queue, the
  release of the closed sockets, and the dispatch of a ready poll. Each returns and keeps the
  invariant.
\<close>

subsection \<open>The low-priority queue\<close>

definition set_low :: "2 word \<Rightarrow> ptr \<Rightarrow> us \<Rightarrow> us" where
  "set_low k s st = st\<lparr>socks := (socks st)(s := map_option (\<lambda>x. x\<lparr>s_low_prio_state := k\<rparr>) (socks st s))\<rparr>"

lemma link_set_low:
  assumes c: "ctxs st c = Some ctx" and h: "c_head ctx \<noteq> s" and x: "socks st s = Some x"
  shows "us_internal_socket_context_link c s (set_low k s st)
         = map_option (set_low k s) (us_internal_socket_context_link c s st)"
proof -
  let ?h = "c_head ctx"
  define x1 where "x1 = x\<lparr>s_context := c, s_next := ?h, s_prev := 0\<rparr>"
  define x2 where "x2 = x1\<lparr>s_low_prio_state := k\<rparr>"
  have x2: "(x\<lparr>s_low_prio_state := k\<rparr>)\<lparr>s_context := c, s_next := ?h, s_prev := 0\<rparr> = x2"
    by (simp add: x1_def x2_def)
  define C where "C = (ctxs st)(c \<mapsto> ctx\<lparr>c_head := s\<rparr>)"
  have l: "us_internal_socket_context_link c s st = (if ?h = 0 then Some (st\<lparr>socks := (socks st)(s \<mapsto> x1), ctxs := C\<rparr>)
      else map_option (\<lambda>y. st\<lparr>socks := (socks st)(s \<mapsto> x1, ?h \<mapsto> y\<lparr>s_prev := s\<rparr>), ctxs := C\<rparr>) (socks st ?h))"
    using c h x by (cases "socks st ?h")
      (simp_all add: us_internal_socket_context_link_def upd_sock_def upd_ctx_def x1_def C_def)
  have r: "us_internal_socket_context_link c s (set_low k s st) = (if ?h = 0 then Some (st\<lparr>socks := (socks st)(s \<mapsto> x2), ctxs := C\<rparr>)
      else map_option (\<lambda>y. st\<lparr>socks := (socks st)(s \<mapsto> x2, ?h \<mapsto> y\<lparr>s_prev := s\<rparr>), ctxs := C\<rparr>) (socks st ?h))"
    using c h x x2 by (cases "socks st ?h"; cases "?h = 0")
      (simp_all add: us_internal_socket_context_link_def upd_sock_def upd_ctx_def set_low_def C_def)
  have "set_low k s (st\<lparr>socks := (socks st)(s \<mapsto> x1), ctxs := C\<rparr>) = st\<lparr>socks := (socks st)(s \<mapsto> x2), ctxs := C\<rparr>"
    by (simp add: set_low_def x2_def)
  moreover have "set_low k s (st\<lparr>socks := (socks st)(s \<mapsto> x1, ?h \<mapsto> y\<lparr>s_prev := s\<rparr>), ctxs := C\<rparr>)
      = st\<lparr>socks := (socks st)(s \<mapsto> x2, ?h \<mapsto> y\<lparr>s_prev := s\<rparr>), ctxs := C\<rparr>" for y
    using h by (simp add: set_low_def x2_def fun_upd_twist [of ?h s])
  ultimately show ?thesis
    unfolding l r by (cases "socks st ?h") simp_all
qed

lemma poll_change_socks:
  "us_poll_change h p e (st\<lparr>socks := S\<rparr>) = map_option (\<lambda>t. t\<lparr>socks := S\<rparr>) (us_poll_change h p e st)"
  by (cases "polls st p"; cases "map_option poll_events_of (polls st p) = Some e")
     (simp_all add: us_poll_change_def us_poll_events_def us_poll_fd_def upd_poll_def sys_int_def emit_def Let_def)

lemma poll_change_frame:
  assumes "us_poll_change h p e st = Some st'" "polls st p = Some q"
  shows "\<exists>L. st' = st\<lparr>polls := (polls st)(p \<mapsto> if poll_events_of q = e then q else with_events e q), log := L\<rparr>"
proof (cases "poll_events_of q = e")
  case True
  then have "st' = st" "(polls st)(p \<mapsto> q) = polls st"
    using assms by (auto simp: us_poll_change_def us_poll_events_def)
  then show ?thesis using True by (intro exI [of _ "log st"]) simp
next
  case False
  then show ?thesis
    using assms
    by (intro exI [of _ "Epoll_ctl EPOLL_CTL_MOD (sint (p_fd q)) e p # log st"])
       (simp add: us_poll_change_def us_poll_events_def us_poll_fd_def upd_poll_def sys_int_def emit_def Let_def)
qed

lemma poll_change_total:
  assumes "polls st p = Some q"
  obtains L where "us_poll_change h p e st
    = Some (st\<lparr>polls := (polls st)(p \<mapsto> if poll_events_of q = e then q else with_events e q), log := L\<rparr>)"
proof -
  obtain st' where "us_poll_change h p e st = Some st'"
    using assms by (cases "poll_events_of q = e")
      (auto simp: us_poll_change_def us_poll_events_def us_poll_fd_def upd_poll_def)
  then show thesis
    using that poll_change_frame [OF _ assms] by blast
qed

lemma readable_or: "(e OR LIBUS_SOCKET_READABLE) AND LIBUS_SOCKET_READABLE \<noteq> 0"
  by (simp add: us_defs bit.conj_disj_distrib2 flip: bit.conj_disj_distrib)

lemma low_prio_chain:
  "m \<bind> f = Some y \<Longrightarrow> m \<bind> (\<lambda>z. f z \<bind> g) = g y"
  by (cases m) simp_all

definition a_low_done :: "ptr \<Rightarrow> ptr \<Rightarrow> abs \<Rightarrow> abs" where
  "a_low_done c s A = A\<lparr>a_low := removeAll s (a_low A), a_socks := (a_socks A)(c := s # a_socks A c)\<rparr>"

lemma low_prio_step_refines:
  assumes inv: "us_inv A st" and loose: "a_loose A = {}" and l: "a_low A = s # l" and x: "socks st s = Some x"
  obtains st' where "low_prio_step h s st = Some st'" "us_inv (a_low_done (s_context x) s A) st'"
    "same_loop st st'" "pending st' = pending st" "dom (polls st') = dom (polls st)"
    "map_option core (socks st' s) = Some (s_context x, s_timeout x, 2)"
    "\<exists>q. polls st' s = Some q \<and> poll_events_of q AND LIBUS_SOCKET_READABLE \<noteq> 0"
    "\<forall>d. map_option (c_head_update (\<lambda>_. 0)) (ctxs st' d) = map_option (c_head_update (\<lambda>_. 0)) (ctxs st d)"
proof -
  let ?c = "s_context x"
  have sl: "s \<in> set (a_low A)" using l by simp
  obtain x2 where "socks st s = Some x2" "s_low_prio_state x2 = 1"
    using us_inv_lowD(2) [OF inv sl] by blast
  then have low1: "s_low_prio_state x = 1" using x by simp
  have d: "dlist (slinks st) (low_prio_head st) (s # l)" using us_inv_lowD(1) [OF inv] l by simp
  have prev0: "s_prev x = 0" and dist: "s \<notin> set l"
    using dlist_links [OF d, of s] x dlist_distinct [OF d] by (auto simp: slinks_def)
  obtain S where S: "low_prio_unlink s st = Some (st\<lparr>low_prio_head := first (removeAll s (a_low A)), socks := S\<rparr>)"
    "us_inv (a_low_out s A) (st\<lparr>low_prio_head := first (removeAll s (a_low A)), socks := S\<rparr>)"
    "S s = Some (x\<lparr>s_prev := 0, s_next := 0, s_low_prio_state := 0\<rparr>)"
    using low_prio_unlink_refines [OF inv sl x] by blast
  define st1 where "st1 = st\<lparr>low_prio_head := first (removeAll s (a_low A)), socks := S\<rparr>"
  have inv1: "us_inv (a_low_out s A) st1" using S(2) by (simp add: st1_def)
  have x1: "socks st1 s = Some (x\<lparr>s_prev := 0, s_next := 0, s_low_prio_state := 0\<rparr>)" using S(3) by (simp add: st1_def)
  have c: "?c \<in> set (a_ctxs (a_low_out s A))" and sl1: "s \<in> a_loose (a_low_out s A)"
    using us_inv_sock_ctx(1) [OF inv x] by (simp_all add: a_low_out_def)
  obtain ctx where ctx: "ctxs st1 ?c = Some ctx" and cd: "dlist (slinks st1) (c_head ctx) (a_socks A ?c)"
    using us_inv_listD [OF inv1 c] by (metis a_low_out_def abs.select_convs(2) abs.surjective abs.update_convs(3,5))
  obtain st2 S2 C2 where st2: "us_internal_socket_context_link ?c s st1 = Some st2"
    "us_inv (a_link ?c s (a_low_out s A)) st2" "st2 = st1\<lparr>socks := S2, ctxs := C2\<rparr>"
    "map_option core (S2 s) = Some (?c, s_timeout x, 0)"
    "\<forall>d. map_option (c_head_update (\<lambda>_. 0)) (C2 d) = map_option (c_head_update (\<lambda>_. 0)) (ctxs st1 d)"
    using context_link_refines [OF inv1 c sl1 x1] by auto
  obtain q where q: "polls st s = Some q" using us_inv_sock_ctx(3) [OF inv x] by blast
  have q2: "polls st2 s = Some q" using q by (simp add: st2(3) st1_def)
  let ?e = "poll_events_of q OR LIBUS_SOCKET_READABLE"
  obtain L where pc: "us_poll_change h s ?e st2
      = Some (st2\<lparr>polls := (polls st2)(s \<mapsto> if poll_events_of q = ?e then q else with_events ?e q), log := L\<rparr>)"
    by (rule poll_change_total [OF q2])
  define st3 where "st3 = st2\<lparr>polls := (polls st2)(s \<mapsto> if poll_events_of q = ?e then q else with_events ?e q), log := L\<rparr>"
  obtain x2 where x2: "socks st2 s = Some x2" using st2(3,4) by auto
  have hs: "c_head ctx \<noteq> s"
    using dlist_head_in [OF cd] in_ctxs_disjoint(1) [OF inv] sl us_inv_sock_ctx(1,4) [OF inv x] by (auto simp: in_ctxs_def)
  have manual: "low_prio_step h s st = Some (set_low 2 s st3)"
  proof -
    have a: "us_internal_socket_context_link ?c s (set_low 1 s st1) = Some (set_low 1 s st2)"
      using link_set_low [OF ctx hs x1] st2(1) by simp
    have b: "us_poll_change h s ?e (set_low 1 s st2) = Some (set_low 1 s st3)"
      using pc by (simp add: set_low_def poll_change_socks st3_def)
    obtain E where E: "low_prio_unlink s st = Some E"
      "(if s_next x \<noteq> 0 then upd_sock (s_next x) (\<lambda>y. y\<lparr>s_prev := 0\<rparr>) (st\<lparr>low_prio_head := s_next x\<rparr>)
        else Some (st\<lparr>low_prio_head := s_next x\<rparr>)) \<bind> upd_sock s (\<lambda>y. y\<lparr>s_next := 0\<rparr>) = Some (set_low 1 s E)"
    proof -
      let ?x1 = "x\<lparr>s_prev := 0, s_next := 0, s_low_prio_state := 0\<rparr>"
      have xe: "?x1\<lparr>s_low_prio_state := 1\<rparr> = x\<lparr>s_next := 0\<rparr>"
        using prev0 low1 by (cases x) simp
      show thesis
      proof (cases "s_next x = 0")
        case True
        then show ?thesis
          using that x prev0 xe by (simp add: low_prio_unlink_def upd_sock_def set_low_def)
      next
        case False
        have n: "s_next x \<noteq> s" "s_next x \<in> set l"
          using dlist_links [OF d, of s] x False dist first_in by (cases l; auto simp: slinks_def)+
        then obtain y where "socks st (s_next x) = Some y"
          using us_inv_lowD(2) [OF inv, of "s_next x"] l by auto
        then show ?thesis
          using that x prev0 xe n False by (simp add: low_prio_unlink_def upd_sock_def set_low_def)
      qed
    qed
    have e: "E = st1" using E(1) S(1) by (simp add: st1_def)
    have xs1: "socks (set_low 1 s st1) s = Some (x\<lparr>s_prev := 0, s_next := 0, s_low_prio_state := 1\<rparr>)"
      using x1 by (simp add: set_low_def)
    have cx: "s_context (x\<lparr>s_prev := 0, s_next := 0, s_low_prio_state := 1\<rparr>) = ?c" by simp
    have ps3: "us_poll_events s (set_low 1 s st2) = Some (poll_events_of q)"
      using q2 by (simp add: us_poll_events_def set_low_def)
    have fin: "upd_sock s (\<lambda>y. y\<lparr>s_low_prio_state := 2\<rparr>) (set_low 1 s st3) = Some (set_low 2 s st3)"
      using x2 by (simp add: upd_sock_def set_low_def st3_def)
    show ?thesis
      unfolding low_prio_step_def Let_def
      by (simp only: x bind.bind_lunit low_prio_chain [OF E(2) [unfolded e]] xs1 cx a ps3 b fin)
  qed
  have done_eq: "a_link ?c s (a_low_out s A) = a_low_done ?c s A"
    using loose by (simp add: a_link_def a_low_out_def a_low_done_def)
  have cx2: "s_low_prio_state x2 = 0" "s_context x2 = ?c" "s_timeout x2 = s_timeout x"
    using st2(3,4) x2 by (auto simp: core_def)
  have inv3: "us_inv (a_low_done ?c s A) st3"
    by (rule us_inv_same_memory [of _ st2])
       (use st2(2) done_eq us_inv_ready [OF st2(2)] q2 in \<open>auto simp: same_memory_def st3_def\<close>)
  have "set_low 2 s st3 = st3\<lparr>socks := (socks st3)(s \<mapsto> x2\<lparr>s_low_prio_state := 2\<rparr>)\<rparr>"
    using x2 by (simp add: set_low_def st3_def)
  moreover have "us_inv (a_low_done ?c s A) (st3\<lparr>socks := (socks st3)(s \<mapsto> x2\<lparr>s_low_prio_state := 2\<rparr>)\<rparr>)"
    by (rule us_inv_upd_socket [OF inv3, of s x2]) (use x2 cx2 in \<open>simp_all add: st3_def\<close>)
  ultimately have inv': "us_inv (a_low_done ?c s A) (set_low 2 s st3)" by simp
  show thesis
  proof (rule that [OF manual inv'])
    show "\<exists>q'. polls (set_low 2 s st3) s = Some q' \<and> poll_events_of q' AND LIBUS_SOCKET_READABLE \<noteq> 0"
    proof (cases "poll_events_of q = ?e")
      case True
      then show ?thesis
        using readable_or [of "poll_events_of q"] by (simp add: set_low_def st3_def)
    next
      case False
      then show ?thesis
        using readable_or [of "poll_events_of q"]
        by (simp add: set_low_def st3_def poll_events_of_with_events us_defs and.assoc)
    qed
    show "dom (polls (set_low 2 s st3)) = dom (polls st)"
      using q by (auto simp: set_low_def st3_def st2(3) st1_def)
    show "map_option core (socks (set_low 2 s st3) s) = Some (?c, s_timeout x, 2)"
      using x2 cx2 by (simp add: set_low_def st3_def core_def)
  qed (use st2(5) in \<open>simp_all add: set_low_def st3_def st2(3) st1_def same_loop_def pending_def\<close>)
qed

lemma app_ok_budget [simp]:
  "app_ok A (st\<lparr>low_prio_budget := n\<rparr>) = app_ok A st"
proof -
  have "us_inv A (st\<lparr>low_prio_budget := n\<rparr>)" if "us_inv A st" for st n
    by (rule us_inv_same_memory [OF that])
       (use us_inv_ready [OF that] in \<open>simp_all add: same_memory_def\<close>)
  from this [of st n] this [of "st\<lparr>low_prio_budget := n\<rparr>" "low_prio_budget st"] show ?thesis
    by (auto simp: app_ok_def)
qed

lemma callbacks_set_head [simp]: "callbacks_set (x\<lparr>c_head := k\<rparr>) = callbacks_set x"
  by (simp add: callbacks_set_def)

lemma same_callbacks:
  assumes "\<forall>d. map_option (c_head_update (\<lambda>_. 0)) (C d) = map_option (c_head_update (\<lambda>_. 0)) (D d)"
    and "\<forall>x\<in>ran D. callbacks_set x"
  shows "\<forall>x\<in>ran C. callbacks_set x"
proof
  fix y assume "y \<in> ran C"
  then obtain d where d: "C d = Some y" by (auto simp: ran_def)
  then obtain x where x: "D d = Some x" "y\<lparr>c_head := 0\<rparr> = x\<lparr>c_head := 0\<rparr>"
    using assms(1) d by (cases "D d") (auto dest: spec [of _ d])
  then have "callbacks_set x" using assms(2) by (auto simp: ranI)
  then show "callbacks_set y"
    using x(2) callbacks_set_head by metis
qed

lemma low_prio_loop_safe:
  assumes "app_ok A st" "low_prio_budget st = int n" "s = low_prio_head st"
  shows "\<exists>A' st'. low_prio_loop h s st = Some st' \<and> app_ok A' st' \<and> a_low A' = drop n (a_low A)
     \<and> a_closed A' = a_closed A \<and> a_ctxs A' = a_ctxs A \<and> linked A' = linked A
     \<and> same_loop st (st'\<lparr>low_prio_budget := low_prio_budget st\<rparr>)
     \<and> low_prio_budget st' = int (n - length (a_low A))"
  using assms
proof (induction n arbitrary: A st s)
  case 0
  then show ?case by (subst low_prio_loop.simps) (auto simp: same_loop_def)
next
  case (Suc n)
  have inv: "us_inv A st" and loose: "a_loose A = {}" using Suc.prems by (auto simp: app_ok_def)
  have d: "dlist (slinks st) s (a_low A)" using us_inv_lowD(1) [OF inv] Suc.prems(3) by simp
  show ?case
  proof (cases "a_low A")
    case Nil
    then have "s = 0" using d by simp
    then have "low_prio_loop h s st = Some st" by (subst low_prio_loop.simps) simp
    then show ?thesis
      using Nil Suc.prems by (intro exI [of _ A] exI [of _ st]) (simp add: same_loop_def)
  next
    case (Cons s' l)
    then have s: "a_low A = s # l" "s \<noteq> 0" "s \<notin> set l"
      using d by (auto simp: dlist_def)
    obtain x where x: "socks st s = Some x"
      using us_inv_lowD(2) [OF inv, of s] s by auto
    obtain st1 where 1: "low_prio_step h s st = Some st1" "us_inv (a_low_done (s_context x) s A) st1"
      "same_loop st st1"
      "\<forall>d. map_option (c_head_update (\<lambda>_. 0)) (ctxs st1 d) = map_option (c_head_update (\<lambda>_. 0)) (ctxs st d)"
      by (rule low_prio_step_refines [OF inv loose s(1) x])
    let ?A = "a_low_done (s_context x) s A"
    have A: "a_low ?A = l" "a_closed ?A = a_closed A" "a_ctxs ?A = a_ctxs A" "a_loose ?A = {}"
      using s loose by (auto simp: a_low_done_def)
    have L: "linked ?A = linked A"
      using s us_inv_sock_ctx(1) [OF inv x] by (auto simp: linked_def a_low_done_def split: if_splits)
    have "app_ok ?A st1"
      using Suc.prems(1) 1(2,3) A(4) same_callbacks [OF 1(4)] by (simp add: app_ok_def same_loop_def)
    then have ok1: "app_ok ?A (st1\<lparr>low_prio_budget := int n\<rparr>)" by simp
    have b1: "low_prio_budget st1 = int (Suc n)" using 1(3) Suc.prems(2) by (simp add: same_loop_def)
    obtain A' st' where 2: "low_prio_loop h (low_prio_head st1) (st1\<lparr>low_prio_budget := int n\<rparr>) = Some st'"
      "app_ok A' st'" "a_low A' = drop n l" "a_closed A' = a_closed A" "a_ctxs A' = a_ctxs A" "linked A' = linked A"
      "same_loop (st1\<lparr>low_prio_budget := int n\<rparr>) (st'\<lparr>low_prio_budget := int n\<rparr>)"
      "low_prio_budget st' = int (n - length l)"
      using Suc.IH [OF ok1, of "low_prio_head st1"] A L by auto
    have "low_prio_loop h s st = Some st'"
      using s(2) Suc.prems(2) 1(1) b1 2(1) by (subst low_prio_loop.simps) simp
    moreover have "same_loop st (st'\<lparr>low_prio_budget := low_prio_budget st\<rparr>)"
      using 1(3) 2(7) by (simp add: same_loop_def)
    ultimately show ?thesis
      using 2 s(1) by auto
  qed
qed

subsection \<open>Releasing the closed sockets\<close>

lemma free_closed_step:
  assumes inv: "us_inv A st" and l: "a_closed A = s # l"
  obtains x st' where "socks st s = Some x" "s_next x = first l" "us_poll_free s st = Some st'"
    "us_inv (A\<lparr>a_closed := l\<rparr>) (st'\<lparr>closed_head := first l\<rparr>)" "ctxs st' = ctxs st" "cbs st' = cbs st"
    "pre_cb st' = pre_cb st" "post_cb st' = post_cb st" "num_polls st' = num_polls st - 1"
    "log st' = Free s # log st" "live st' = removeAll s (live st)"
    "socks st' = (socks st)(s := None)" "polls st' = (polls st)(s := None)"
proof -
  have cl: "closed_ok (a_ctxs A) (s # l) st" using us_inv_closed [OF inv] l by simp
  then obtain x where x: "socks st s = Some x" "s_next x = nxt (s # l) s" and d: "distinct (s # l)" "0 \<notin> set (s # l)"
    by (auto simp: closed_ok_def)
  have m: "heap_ok st" "dom (socks st) = linked A \<union> a_loose A" "linked A \<inter> a_loose A = {}"
    using us_inv_mem [OF inv] by (simp_all add: mem_ok_def)
  have sd: "s \<in> dom (socks st)" using x by auto
  then have hs: "s \<in> dom (polls st)" "s \<notin> dom (cbs st)"
    using m(1) unfolding heap_ok_def by blast+
  then have hs2: "s \<notin> dom (ctxs st)" "s \<in> set (live st)"
    using m(1) unfolding heap_ok_def by blast+
  have none: "(ctxs st)(s := None) = ctxs st" "(cbs st)(s := None) = cbs st"
    using hs hs2 by auto
  define st' where "st' = (emit (Free s) (st\<lparr>num_polls := num_polls st - 1\<rparr>))\<lparr>live := removeAll s (live st),
     polls := (polls st)(s := None), socks := (socks st)(s := None), listens := (listens st)(s := None),
     cbs := cbs st, ctxs := ctxs st, udps := (udps st)(s := None), pbufs := (pbufs st)(s := None)\<rparr>"
  let ?A = "A\<lparr>a_closed := l\<rparr>" and ?st = "st'\<lparr>closed_head := first l\<rparr>"
  have free: "us_poll_free s st = Some st'"
    using hs2 none by (simp add: us_poll_free_def free_def emit_def st'_def)
  have so: "socks ?st q = socks st q" if "q \<noteq> s" for q using that by (simp add: st'_def emit_def)
  have slinked: "s \<in> set (a_closed A)" using l by simp
  note disj = in_ctxs_disjoint [OF inv]
  have "us_inv ?A ?st"
    unfolding us_inv_def
  proof (intro conjI ballI)
    show "ctxs_ok (a_ctxs ?A) ?st"
      by (rule ctxs_ok_frame [of _ st]) (use us_inv_ctxs [OF inv] in \<open>simp_all add: st'_def emit_def clinks_def fun_eq_iff\<close>)
    show "list_ok c (a_socks ?A c) ?st" if "c \<in> set (a_ctxs ?A)" for c
    proof (rule list_ok_frame [of _ _ st])
      have c: "c \<in> set (a_ctxs A)" using that by simp
      then show "list_ok c (a_socks ?A c) st" using us_inv_list [OF inv] by simp
      show "ctxs ?st c = ctxs st c" by (simp add: st'_def)
      fix q assume "q \<in> set (a_socks ?A c)"
      then have "q \<in> in_ctxs A" using c by (auto simp: in_ctxs_def)
      then have "q \<noteq> s" using disj(2) slinked by auto
      then show "socks ?st q = socks st q" by (rule so)
    qed
    show "low_ok (a_ctxs ?A) (a_low ?A) ?st"
    proof (rule low_ok_frame [of _ _ st])
      show "low_ok (a_ctxs ?A) (a_low ?A) st" using us_inv_low [OF inv] by simp
      show "low_prio_head ?st = low_prio_head st" by (simp add: st'_def emit_def)
      fix q assume "q \<in> set (a_low ?A)"
      then have "q \<noteq> s" using disj(3) slinked by auto
      then show "socks ?st q = socks st q" by (rule so)
    qed
    have "\<exists>y. socks ?st p = Some y \<and> s_next y = nxt l p \<and> s_prev y = s_context y \<and> s_context y \<in> set (a_ctxs A)"
      if p: "p \<in> set l" for p
    proof -
      have "p \<noteq> s" using p d by auto
      moreover obtain y where "socks st p = Some y" "s_next y = nxt (s # l) p" "s_prev y = s_context y" "s_context y \<in> set (a_ctxs A)"
        using cl p unfolding closed_ok_def by fastforce
      ultimately show ?thesis using so by simp
    qed
    then show "closed_ok (a_ctxs ?A) (a_closed ?A) ?st"
      using d by (simp add: closed_ok_def)
    show "loose_ok (a_ctxs ?A) (a_loose ?A) ?st"
    proof (rule loose_ok_frame [of _ _ st])
      show "loose_ok (a_ctxs ?A) (a_loose ?A) st" using us_inv_loose [OF inv] by simp
      fix q assume "q \<in> a_loose ?A"
      then have "q \<noteq> s" using disj(6) slinked by auto
      then show "socks ?st q = socks st q" by (rule so)
    qed
    have lk: "linked A = insert s (linked ?A)" "s \<notin> linked ?A"
      using l d disj slinked by (auto simp: linked_in_ctxs)
    have doms: "dom (polls ?st) = dom (polls st) - {s}" "dom (socks ?st) = dom (socks st) - {s}"
      "cbs ?st = cbs st" "ctxs ?st = ctxs st" "set (live ?st) = set (live st) - {s}" "ready_ok ?st"
      using m(1) by (simp_all add: st'_def emit_def heap_ok_def ready_ok_def)
    have "heap_ok ?st"
      using m(1) hs(2) hs2(1) doms(6) unfolding heap_ok_def doms(1-5) by blast
    moreover have "s \<notin> a_loose A" using disj(6) slinked by auto
    then have "dom (socks ?st) = linked ?A \<union> a_loose ?A" "linked ?A \<inter> a_loose ?A = {}"
      using m(2,3) lk unfolding doms by auto
    ultimately show "mem_ok ?A ?st"
      by (simp add: mem_ok_def)
  qed
  moreover have "nxt (s # l) s = first l"
    by (cases l) simp_all
  ultimately show thesis
    by (intro that [of x st']) (simp_all add: x free, simp_all add: st'_def emit_def)
qed

text \<open>The loop frees exactly the closed sockets, each once, in the order of the list.\<close>

lemma poll_free_closed_head:
  "us_poll_free s (st\<lparr>closed_head := v\<rparr>) = map_option (\<lambda>t. t\<lparr>closed_head := v\<rparr>) (us_poll_free s st)"
  by (simp add: us_poll_free_def free_def emit_def)

lemma free_closed_loop_refines:
  assumes "us_inv A (st\<lparr>closed_head := first (a_closed A)\<rparr>)"
  shows "\<exists>st'. free_closed_loop (first (a_closed A)) st = Some st' \<and> us_inv (A\<lparr>a_closed := []\<rparr>) (st'\<lparr>closed_head := 0\<rparr>)
     \<and> log st' = rev (map Free (a_closed A)) @ log st \<and> ctxs st' = ctxs st \<and> cbs st' = cbs st
     \<and> pre_cb st' = pre_cb st \<and> post_cb st' = post_cb st
     \<and> num_polls st' = num_polls st - int (length (a_closed A))
     \<and> (\<forall>p. polls st' p = (if p \<in> set (a_closed A) then None else polls st p))
     \<and> (\<forall>p. socks st' p = (if p \<in> set (a_closed A) then None else socks st p))"
  using assms
proof (induction "a_closed A" arbitrary: A st)
  case Nil
  have "free_closed_loop 0 st = Some st" by (subst free_closed_loop.simps) simp
  moreover have eq: "A\<lparr>a_closed := []\<rparr> = A" using Nil.hyps by (cases A) simp
  ultimately show ?case unfolding eq using Nil by (intro exI [of _ st]) simp
next
  case (Cons t l)
  note l = Cons.hyps(2) [symmetric]
  let ?st = "st\<lparr>closed_head := t\<rparr>"
  have inv: "us_inv A ?st" using Cons.prems l by simp
  have t0: "t \<noteq> 0" using us_inv_closed [OF inv] l by (auto simp: closed_ok_def)
  obtain x st0 where 0: "socks ?st t = Some x" "s_next x = first l" "us_poll_free t ?st = Some st0"
    "us_inv (A\<lparr>a_closed := l\<rparr>) (st0\<lparr>closed_head := first l\<rparr>)" "ctxs st0 = ctxs ?st" "cbs st0 = cbs ?st"
    "pre_cb st0 = pre_cb ?st" "post_cb st0 = post_cb ?st" "num_polls st0 = num_polls ?st - 1"
    "log st0 = Free t # log ?st" "socks st0 = (socks ?st)(t := None)" "polls st0 = (polls ?st)(t := None)"
    by (rule free_closed_step [OF inv l]) blast
  obtain st1 where 1: "us_poll_free t st = Some st1" "st0 = st1\<lparr>closed_head := t\<rparr>"
    using 0(3) by (auto simp: poll_free_closed_head)
  have "l = a_closed (A\<lparr>a_closed := l\<rparr>)" "us_inv (A\<lparr>a_closed := l\<rparr>) (st1\<lparr>closed_head := first (a_closed (A\<lparr>a_closed := l\<rparr>))\<rparr>)"
    using 0(4) 1(2) by simp_all
  from Cons.hyps(1) [OF this] obtain st2 where
    2: "free_closed_loop (first l) st1 = Some st2"
    "us_inv (A\<lparr>a_closed := []\<rparr>) (st2\<lparr>closed_head := 0\<rparr>)" "log st2 = rev (map Free l) @ log st1"
    "ctxs st2 = ctxs st1" "cbs st2 = cbs st1" "pre_cb st2 = pre_cb st1" "post_cb st2 = post_cb st1"
    "num_polls st2 = num_polls st1 - int (length l)"
    "\<forall>p. polls st2 p = (if p \<in> set l then None else polls st1 p)"
    "\<forall>p. socks st2 p = (if p \<in> set l then None else socks st1 p)"
    by auto
  have "free_closed_loop t st = Some st2"
    using t0 0(1,2) 1(1) 2(1) by (subst free_closed_loop.simps) simp
  then show ?case
    using 2 0(5-) 1(2) l by (intro exI [of _ st2]) auto
qed

text \<open>The whole operation, with the invariant of the state between iterations.\<close>

lemma free_closed_refines:
  assumes inv: "us_inv A st"
  obtains st' where "us_internal_free_closed_sockets st = Some st'" "us_inv (A\<lparr>a_closed := []\<rparr>) st'"
    "log st' = rev (map Free (a_closed A)) @ log st" "ctxs st' = ctxs st" "cbs st' = cbs st"
    "pre_cb st' = pre_cb st" "post_cb st' = post_cb st"
    "num_polls st' = num_polls st - int (length (a_closed A))"
    "\<forall>p. socks st' p = (if p \<in> set (a_closed A) then None else socks st p)"
    "\<forall>p. polls st' p = (if p \<in> set (a_closed A) then None else polls st p)"
proof -
  have h: "closed_head st = first (a_closed A)" "0 \<notin> set (a_closed A)"
    using us_inv_closed [OF inv] by (simp_all add: closed_ok_def)
  have "st\<lparr>closed_head := first (a_closed A)\<rparr> = st" by (simp flip: h(1))
  then have "us_inv A (st\<lparr>closed_head := first (a_closed A)\<rparr>)" using inv by (simp only:)
  from free_closed_loop_refines [OF this] obtain st' where r:
    "free_closed_loop (first (a_closed A)) st = Some st'" "us_inv (A\<lparr>a_closed := []\<rparr>) (st'\<lparr>closed_head := 0\<rparr>)"
    "log st' = rev (map Free (a_closed A)) @ log st" "ctxs st' = ctxs st" "cbs st' = cbs st"
    "pre_cb st' = pre_cb st" "post_cb st' = post_cb st"
    "num_polls st' = num_polls st - int (length (a_closed A))"
    "\<forall>p. polls st' p = (if p \<in> set (a_closed A) then None else polls st p)"
    "\<forall>p. socks st' p = (if p \<in> set (a_closed A) then None else socks st p)" by blast
  show thesis
  proof (cases "a_closed A")
    case Nil
    then have eq: "A\<lparr>a_closed := []\<rparr> = A" by (cases A) simp
    show ?thesis
      using that [of st] Nil h(1) inv unfolding eq by (simp add: us_internal_free_closed_sockets_def)
  next
    case (Cons t l)
    then have "first (a_closed A) \<noteq> 0" using h(2) by auto
    then show ?thesis
      using that [of "st'\<lparr>closed_head := 0\<rparr>"] r h(1) by (simp add: us_internal_free_closed_sockets_def)
  qed
qed

end
