(* ===== verification/UsReady.thy ===== *)
theory UsReady
  imports UsDispatch
begin

text \<open>
  Dispatch of a ready poll under the contract \<open>application\<close>: an established socket
  (\<open>dispatch_socket\<close>), a connecting socket and a callback poll. Every path returns and keeps the
  invariant, whatever the callbacks do within the contract.
\<close>

subsection \<open>Polls change nothing in the lists\<close>

lemma app_ok_poll_log: "app_ok A st \<Longrightarrow> poll_log st st' \<Longrightarrow> app_ok A st' \<and> grows A st A st'"
  using poll_log_step evolves_grows by blast

lemma grows_step: "app_ok A st \<Longrightarrow> poll_log st st' \<Longrightarrow> grows A st' A' st'' \<Longrightarrow> grows A st A' st''"
  using app_ok_poll_log grows_trans by blast

lemma app_sock:
  assumes "app_ok A st" "s \<in> linked A"
  obtains x ctx q where "socks st s = Some x" "ctxs st (s_context x) = Some ctx" "sock_ctx s st = Some ctx"
    "polls st s = Some q" "callbacks_set ctx"
proof -
  have inv: "us_inv A st" and cb: "\<forall>x\<in>ran (ctxs st). callbacks_set x" using assms(1) by (auto simp: app_ok_def)
  obtain x where x: "socks st s = Some x" using us_inv_dom [OF inv] assms(2) by blast
  obtain ctx q where "ctxs st (s_context x) = Some ctx" "polls st s = Some q"
    using us_inv_sock_ctx [OF inv x] by blast
  then show thesis using that x cb by (auto simp: sock_ctx_def ranI)
qed

lemma linked_grows: "grows A st A' st' \<Longrightarrow> s \<in> linked A \<Longrightarrow> s \<in> linked A'"
  by (auto simp: grows_def)

lemma poll_change_ok:
  assumes ok: "app_ok A st" and q: "polls st s = Some q"
  obtains st' where "us_poll_change h s e st = Some st'" "app_ok A st'" "grows A st A st'"
proof -
  obtain L where "us_poll_change h s e st = Some (st\<lparr>polls := (polls st)(s \<mapsto> if poll_events_of q = e then q else with_events e q), log := L\<rparr>)"
    by (rule poll_change_total [OF q])
  then show thesis using that app_ok_poll_log [OF ok poll_log_change] by blast
qed

lemma shut_down_some: "polls st s = Some q \<Longrightarrow> \<exists>b. us_socket_is_shut_down s st = Some b"
  by (simp add: us_socket_is_shut_down_def us_internal_poll_type_def)

context application begin

lemma close_safe:
  assumes ok: "app_ok A st" and s: "s \<in> linked A"
  obtains r A' st' where "us_socket_close h s code st = Some (r, st')" "app_ok A' st'" "grows A st A' st'"
proof -
  obtain x where x: "socks st s = Some x" by (rule app_sock [OF ok s])
  show thesis
  proof (cases "is_closed x")
    case True
    then show ?thesis using that x ok grows_refl by (simp add: us_socket_close_def)
  next
    case False
    have inv: "us_inv A st" and l: "a_loose A = {}" using ok by (auto simp: app_ok_def)
    have so: "s \<in> open_in A" by (rule open_of_alloc [OF ok x False])
    obtain st1 y ctx where 1: "close_silently h s x st = Some st1" "sock_ctx s st1 = Some ctx"
      by (rule close_silently_refines [OF inv l x so])
    have ok1: "app_ok (a_close s A) st1" and g1: "grows A st (a_close s A) st1"
      using close_step [OF ok x False 1(1)] evolves_grows by auto
    have "c_on_close ctx \<noteq> Fn_null"
      using ok1 1(2) callbacks_setD(4) by (auto simp: app_ok_def sock_ctx_def ranI split: Option.bind_splits)
    then obtain r st' A' where "call h (c_on_close ctx) (On_close s code) st1 = Some (r, st')" "app_ok A' st'"
      "evolves (a_close s A) st1 A' st'"
      by (rule call_ok [OF ok1])
    then show ?thesis
      using that x False 1 grows_trans [OF g1 evolves_grows] by (simp add: us_socket_close_def)
  qed
qed

lemma recv_safe:
  assumes ok: "app_ok A st" and s: "s \<in> linked A"
  shows "\<exists>A' st'. dispatch_recv h s st = Some st' \<and> app_ok A' st' \<and> grows A st A' st'"
proof -
  obtain x ctx q where x: "socks st s = Some x" "ctxs st (s_context x) = Some ctx" "sock_ctx s st = Some ctx"
    "polls st s = Some q" "callbacks_set ctx"
    by (rule app_sock [OF ok s])
  define fd where "fd = sint (p_fd q)"
  define st1 where "st1 = emit (Recv fd LIBUS_RECV_BUFFER_LENGTH) st"
  define len where "len = k_int h (log st1)"
  have pl: "poll_log st st1" by (simp add: st1_def poll_log_emit)
  have ok1: "app_ok A st1" using app_ok_poll_log [OF ok pl] by simp
  have fd: "us_poll_fd s st = Some fd" using x(4) by (simp add: us_poll_fd_def fd_def)
  have rcv: "bsd_recv h fd LIBUS_RECV_BUFFER_LENGTH st = (len, k_bytes h (log st1), st1)"
    by (simp add: bsd_recv_def sys_int_def st1_def len_def Let_def)
  have x1: "sock_ctx s st1 = Some ctx" "polls st1 s = Some q"
    using x by (simp_all add: st1_def emit_def sock_ctx_def)
  have cl: "\<exists>A' st'. map_option snd (us_socket_close h s 0 st1) = Some st' \<and> app_ok A' st' \<and> grows A st A' st'"
  proof -
    obtain r A' st' where "us_socket_close h s 0 st1 = Some (r, st')" "app_ok A' st'" "grows A st1 A' st'"
      by (rule close_safe [OF ok1 s])
    then show ?thesis using grows_step [OF ok pl] by auto
  qed
  consider "len > 0" | "len = 0" | "len < 0" by linarith
  then show ?thesis
  proof cases
    case 1
    obtain r st' A' where "call h (c_on_data ctx) (On_data s (take (nat len) (k_bytes h (log st1)))) st1 = Some (r, st')"
      "app_ok A' st'" "evolves A st1 A' st'"
      by (rule call_ok [OF ok1 callbacks_setD(2) [OF x(5)]])
    then show ?thesis
      using 1 x(3) x1 fd rcv grows_step [OF ok pl evolves_grows] by (auto simp: dispatch_recv_def)
  next
    case 2
    obtain b where b: "us_socket_is_shut_down s st1 = Some b" using shut_down_some [OF x1(2)] by blast
    show ?thesis
    proof (cases b)
      case True
      then show ?thesis using 2 x(3) fd rcv b cl by (simp add: dispatch_recv_def)
    next
      case False
      let ?e = "poll_events_of q AND LIBUS_SOCKET_WRITABLE"
      obtain st2 where st2: "us_poll_change h s ?e st1 = Some st2" "app_ok A st2" "grows A st1 A st2"
        by (rule poll_change_ok [OF ok1 x1(2)])
      obtain x2 ctx2 where x2: "sock_ctx s st2 = Some ctx2" "callbacks_set ctx2"
        by (rule app_sock [OF st2(2) s])
      obtain r st' A' where "call h (c_on_end ctx2) (On_end s) st2 = Some (r, st')" "app_ok A' st'" "evolves A st2 A' st'"
        by (rule call_ok [OF st2(2) callbacks_setD(6) [OF x2(2)]])
      then show ?thesis
        using 2 False x(3) fd rcv b x1 x2 st2 grows_step [OF ok pl grows_trans [OF st2(3) evolves_grows]]
        by (auto simp: dispatch_recv_def us_poll_events_def)
    qed
  next
    case 3
    then show ?thesis
      using x(3) fd rcv cl app_ok_poll_log [OF ok pl]
      by (cases "len = LIBUS_SOCKET_ERROR \<and> \<not> bsd_would_block h st1") (auto simp: dispatch_recv_def)
  qed
qed

end

subsection \<open>Readable and writable sockets\<close>

text \<open>What one dispatch leaves: nothing is freed, closed sockets stay closed, the loop's own fields
  stay, and no ready entry comes to denote another poll.\<close>

definition later :: "abs \<Rightarrow> us \<Rightarrow> abs \<Rightarrow> us \<Rightarrow> bool" where
  "later A st A' st' \<longleftrightarrow> a_ctxs A' = a_ctxs A \<and> linked A \<subseteq> linked A' \<and> set (a_closed A) \<subseteq> set (a_closed A')
     \<and> same_loop st (st'\<lparr>low_prio_budget := low_prio_budget st, iterator := iterator st\<rparr>)
     \<and> pending st' \<subseteq> pending st \<union> {0} \<and> dom (polls st) \<subseteq> dom (polls st')"

lemma pending_budget [simp]: "pending (st\<lparr>low_prio_budget := x\<rparr>) = pending st"
  by (simp add: pending_def)

lemma grows_later: "grows A st A' st' \<Longrightarrow> later A st A' st'"
  by (simp add: grows_def later_def same_loop_def)

lemma grows'_later: "grows' A st A' st' \<Longrightarrow> later A st A' st'"
  by (simp add: grows'_def grows_def later_def same_loop_def)

lemma later_trans:
  assumes "later A st A1 st1" "later A1 st1 A2 st2"
  shows "later A st A2 st2"
proof -
  note a = assms [unfolded later_def]
  have "same_loop st (st2\<lparr>low_prio_budget := low_prio_budget st, iterator := iterator st\<rparr>)"
    using a by (simp add: same_loop_def)
  moreover have "dom (polls st) \<subseteq> dom (polls st2)" "linked A \<subseteq> linked A2"
    "set (a_closed A) \<subseteq> set (a_closed A2)"
    using a subset_trans by metis+
  moreover have "pending st1 \<subseteq> pending st \<union> {0}" "pending st2 \<subseteq> pending st1 \<union> {0}"
    using a by simp_all
  then have "pending st2 \<subseteq> pending st \<union> {0}"
    by auto
  ultimately show ?thesis
    using a by (simp only: later_def)
qed

lemma later_budget: "later A (st\<lparr>low_prio_budget := b\<rparr>) A' st' = later A st A' st'"
  by (simp add: later_def same_loop_def)

lemma app_okI:
  assumes "us_inv A' st'" "a_loose A' = {}" "app_ok A st" "pre_cb st' = pre_cb st" "post_cb st' = post_cb st"
    "\<forall>x\<in>ran (ctxs st'). callbacks_set x"
  shows "app_ok A' st'"
  using assms by (simp add: app_ok_def)

text \<open>Moving a socket from its context into the low-priority queue.\<close>

lemma enqueue_low_ok:
  assumes ok: "app_ok A st" and s: "s \<in> in_ctxs A" and x: "socks st s = Some x"
  obtains st1 st2 where "us_internal_socket_context_unlink (s_context x) s st = Some st1"
    "low_prio_link s st1 = Some st2" "app_ok (a_low_in s (a_unlink (s_context x) s A)) st2"
    "later A st (a_low_in s (a_unlink (s_context x) s A)) st2"
proof -
  let ?c = "s_context x" and ?A1 = "a_unlink (s_context x) s A"
  have inv: "us_inv A st" and l: "a_loose A = {}" and cb: "\<forall>x\<in>ran (ctxs st). callbacks_set x"
    using ok by (auto simp: app_ok_def)
  have c: "?c \<in> set (a_ctxs A)" and own: "s \<in> set (a_socks A ?c)"
    using us_inv_sock_ctx(1) [OF inv x] in_ctxs_own(1) [OF inv x s] by auto
  obtain ctx where ctx: "ctxs st ?c = Some ctx" using us_inv_listD [OF inv c] by metis
  obtain S C where 1: "us_internal_socket_context_unlink ?c s st = Some (st\<lparr>socks := S, ctxs := C\<rparr>)"
    "us_inv ?A1 (st\<lparr>socks := S, ctxs := C\<rparr>)" "S s = socks st s"
    "C = (ctxs st)(?c \<mapsto> ctx\<lparr>c_iterator := if c_iterator ctx = s then nxt (a_socks A ?c) s else c_iterator ctx,
               c_head := first (removeAll s (a_socks A ?c))\<rparr>)"
    using context_unlink_refines [OF inv c own ctx] by blast
  let ?st1 = "st\<lparr>socks := S, ctxs := C\<rparr>"
  have sl: "s \<in> a_loose ?A1" by (simp add: a_unlink_def)
  obtain S2 where 2: "low_prio_link s ?st1 = Some (?st1\<lparr>socks := S2, low_prio_head := s\<rparr>)"
    "us_inv (a_low_in s ?A1) (?st1\<lparr>socks := S2, low_prio_head := s\<rparr>)"
    using low_prio_link_refines [OF 1(2) sl, of x] 1(3) x by auto
  let ?st2 = "?st1\<lparr>socks := S2, low_prio_head := s\<rparr>"
  have "callbacks_set ctx" using cb ctx by (auto simp: ranI)
  then have "\<forall>x\<in>ran C. callbacks_set x"
    using cb by (auto simp: 1(4) ran_def callbacks_set_def split: if_splits)
  then have "app_ok (a_low_in s ?A1) ?st2"
    using l by (intro app_okI [OF 2(2) _ ok]) (simp_all add: a_low_in_def a_unlink_def)
  moreover have "linked A \<subseteq> linked (a_low_in s ?A1)"
    by (auto simp: linked_def a_low_in_def a_unlink_def)
  then have "later A st (a_low_in s ?A1) ?st2"
    by (auto simp: later_def same_loop_def pending_def a_low_in_def a_unlink_def)
  ultimately show thesis using that 1(1) 2(1) by blast
qed

context application begin

lemma readable_safe:
  assumes ok: "app_ok A st" and s: "s \<in> in_ctxs A"
  shows "\<exists>A' st'. dispatch_readable h s st = Some st' \<and> app_ok A' st' \<and> later A st A' st'"
proof -
  have sl: "s \<in> linked A" using s by (simp add: linked_in_ctxs)
  obtain x ctx q where x: "socks st s = Some x" "ctxs st (s_context x) = Some ctx" "sock_ctx s st = Some ctx"
    "polls st s = Some q" "callbacks_set ctx"
    by (rule app_sock [OF ok sl])
  obtain low where low: "call h (c_is_low_prio ctx) (Is_low_prio s) st
      = Some (low, emit (Callback (c_is_low_prio ctx) (Is_low_prio s)) st)"
    by (rule call_low_prio_pure [OF ok callbacks_setD(8) [OF x(5)]])
  define st1 where "st1 = emit (Callback (c_is_low_prio ctx) (Is_low_prio s)) st"
  have pl: "poll_log st st1" by (simp add: st1_def poll_log_emit)
  have ok1: "app_ok A st1" and g1: "grows A st A st1" using app_ok_poll_log [OF ok pl] by simp_all
  have x1: "socks st1 s = Some x" "sock_ctx s st1 = Some ctx" "polls st1 s = Some q"
    using x by (simp_all add: st1_def emit_def sock_ctx_def)
  have lat: "later A st A' st'" if "later A st1 A' st'" for A' st'
    using later_trans [OF grows_later [OF g1] that] .
  have recv: "\<exists>A' st'. dispatch_recv h s t = Some st' \<and> app_ok A' st' \<and> later A st A' st'"
    if "app_ok A t" "later A st1 A t" for t
    using recv_safe [OF that(1) sl] that(2) lat later_trans grows_later by meson
  consider "low = 0" | "low \<noteq> 0" "s_low_prio_state x = 2" | "low \<noteq> 0" "s_low_prio_state x \<noteq> 2" "low_prio_budget st1 > 0"
    | "low \<noteq> 0" "s_low_prio_state x \<noteq> 2" "\<not> low_prio_budget st1 > 0" by blast
  then show ?thesis
  proof cases
    case 1
    have "dispatch_readable h s st = dispatch_recv h s st1"
      using 1 x low by (simp add: dispatch_readable_def st1_def)
    then show ?thesis using recv [OF ok1 grows_later [OF grows_refl]] by simp
  next
    case 2
    let ?st2 = "st1\<lparr>socks := (socks st1)(s \<mapsto> x\<lparr>s_low_prio_state := 0\<rparr>)\<rparr>"
    have "us_inv A ?st2"
      using ok1 2 x1 by (intro us_inv_upd_socket [of _ _ s x]) (simp_all add: app_ok_def)
    then have "app_ok A ?st2"
      using ok1 by (intro app_okI [OF _ _ ok1]) (simp_all add: app_ok_def)
    moreover have "later A st1 A ?st2"
      by (auto simp: later_def same_loop_def pending_def)
    moreover have "dispatch_readable h s st = dispatch_recv h s ?st2"
      using 2 x low x1 by (simp add: dispatch_readable_def st1_def upd_sock_def)
    ultimately show ?thesis using recv by simp
  next
    case 3
    let ?st2 = "st1\<lparr>low_prio_budget := low_prio_budget st1 - 1\<rparr>"
    have "dispatch_readable h s st = dispatch_recv h s ?st2"
      using 3 x low x1 by (simp add: dispatch_readable_def st1_def)
    moreover have "later A st1 A ?st2"
      by (auto simp: later_def same_loop_def)
    ultimately show ?thesis using recv [of ?st2] ok1 by simp
  next
    case 4
    let ?e = "poll_events_of q AND LIBUS_SOCKET_WRITABLE"
    obtain st2 where st2: "us_poll_change h s ?e st1 = Some st2" "app_ok A st2" "grows A st1 A st2"
      by (rule poll_change_ok [OF ok1 x1(3)])
    have x2: "socks st2 s = Some x"
      using poll_change_frame [OF st2(1) x1(3)] x1(1) by auto
    obtain st3 st4 where "us_internal_socket_context_unlink (s_context x) s st2 = Some st3"
      "low_prio_link s st3 = Some st4" "app_ok (a_low_in s (a_unlink (s_context x) s A)) st4"
      "later A st2 (a_low_in s (a_unlink (s_context x) s A)) st4"
      by (rule enqueue_low_ok [OF st2(2) s x2])
    then show ?thesis
      using 4 x low x1 st2(1) lat [OF later_trans [OF grows_later [OF st2(3)]]]
      by (auto simp: dispatch_readable_def st1_def us_poll_events_def)
  qed
qed

end

lemma stays_in_ctxs:
  assumes ok: "app_ok A' st'" and g: "grows A st A' st'" and inv: "us_inv A st" and s: "s \<in> in_ctxs A"
    and x: "socks st' s = Some x" "\<not> is_closed x"
  shows "s \<in> in_ctxs A'"
proof -
  have "s \<in> open_in A'" by (rule open_of_alloc [OF ok x])
  moreover have "s \<notin> set (a_low A')"
    using g in_ctxs_disjoint(1) [OF inv] s by (auto simp: grows_def)
  ultimately show ?thesis by (simp add: open_in_def)
qed

context application begin

lemma writable_safe:
  assumes ok: "app_ok A st" and s: "s \<in> in_ctxs A"
  obtains A' st' r where "dispatch_writable h s st = Some (r, st')" "app_ok A' st'" "later A st A' st'"
    "r = None \<or> r = Some s \<and> s \<in> in_ctxs A'"
proof -
  have inv: "us_inv A st" using ok by (simp add: app_ok_def)
  have sl: "s \<in> linked A" using s by (simp add: linked_in_ctxs)
  obtain x ctx q where x: "socks st s = Some x" "sock_ctx s st = Some ctx" "callbacks_set ctx"
    by (rule app_sock [OF ok sl])
  let ?st1 = "st\<lparr>last_write_failed := False\<rparr>"
  have pl: "poll_log st ?st1" by (rule poll_log_failed)
  have ok1: "app_ok A ?st1" using app_ok_poll_log [OF ok pl] by simp
  obtain r st2 A2 where 2: "call h (c_on_writable ctx) (On_writable s) ?st1 = Some (r, st2)" "app_ok A2 st2"
    "evolves A ?st1 A2 st2"
    by (rule call_ok [OF ok1 callbacks_setD(3) [OF x(3)]])
  have r: "r = s" using call_writable_same [OF ok1 2(1)] callbacks_setD(9) [OF x(3)] by simp
  have g2: "grows A st A2 st2" by (rule grows_step [OF ok pl evolves_grows [OF 2(3)]])
  have sl2: "s \<in> linked A2" by (rule linked_grows [OF g2 sl])
  obtain x2 ctx2 q2 where x2: "socks st2 s = Some x2" "sock_ctx s st2 = Some ctx2" "polls st2 s = Some q2"
    by (rule app_sock [OF 2(2) sl2])
  obtain b where b: "us_socket_is_shut_down s st2 = Some b" using shut_down_some [OF x2(3)] by blast
  show thesis
  proof (cases "is_closed x2")
    case True
    then show ?thesis
      using that [of None st2 A2] x 2 r x2 grows_later [OF g2]
      by (simp add: dispatch_writable_def us_socket_is_closed_def Let_def)
  next
    case False
    then have s2: "s \<in> in_ctxs A2" using stays_in_ctxs [OF 2(2) g2 inv s x2(1)] by simp
    show ?thesis
    proof (cases "\<not> last_write_failed st2 \<or> b")
      case True
      obtain st3 where "us_poll_change h s (poll_events_of q2 AND LIBUS_SOCKET_READABLE) st2 = Some st3"
        "app_ok A2 st3" "grows A2 st2 A2 st3"
        by (rule poll_change_ok [OF 2(2) x2(3)])
      then show ?thesis
        using that [of "Some s" st3 A2] True False x 2 r x2 b s2 grows_later [OF grows_trans [OF g2]]
        by (simp add: dispatch_writable_def us_socket_is_closed_def us_poll_events_def Let_def)
    next
      case n: False
      then show ?thesis
        using that [of "Some s" st2 A2] False x 2 r x2 b s2 grows_later [OF g2]
        by (simp add: dispatch_writable_def us_socket_is_closed_def Let_def)
    qed
  qed
qed

lemma socket_safe:
  assumes ok: "app_ok A st" and s: "s \<in> in_ctxs A"
  shows "\<exists>A' st'. dispatch_socket h s error events st = Some st' \<and> app_ok A' st' \<and> later A st A' st'"
proof -
  have sl: "s \<in> linked A" using s by (simp add: linked_in_ctxs)
  show ?thesis
  proof (cases error)
    case True
    obtain r A' st' where "us_socket_close h s 0 st = Some (r, st')" "app_ok A' st'" "grows A st A' st'"
      by (rule close_safe [OF ok sl])
    then show ?thesis using True grows_later by (auto simp: dispatch_socket_def)
  next
    case False
    obtain A1 st1 r where 1: "(if events AND LIBUS_SOCKET_WRITABLE \<noteq> 0 then dispatch_writable h s st else Some (Some s, st))
        = Some (r, st1)" "app_ok A1 st1" "later A st A1 st1" "r = None \<or> r = Some s \<and> s \<in> in_ctxs A1"
    proof (cases "events AND LIBUS_SOCKET_WRITABLE \<noteq> 0")
      case True
      obtain A' st' r where "dispatch_writable h s st = Some (r, st')" "app_ok A' st'" "later A st A' st'"
        "r = None \<or> r = Some s \<and> s \<in> in_ctxs A'"
        by (rule writable_safe [OF ok s])
      then show ?thesis using that True by simp
    next
      case False
      then show ?thesis using that ok s grows_later [OF grows_refl] by simp
    qed
    show ?thesis
    proof (cases "r = Some s \<and> events AND LIBUS_SOCKET_READABLE \<noteq> 0")
      case True
      then obtain A' st' where "dispatch_readable h s st1 = Some st'" "app_ok A' st'" "later A1 st1 A' st'"
        using readable_safe [OF 1(2)] 1(4) by blast
      then show ?thesis
        using True False 1(1) later_trans [OF 1(3)] by (auto simp: dispatch_socket_def)
    next
      case n: False
      then show ?thesis
        using False 1 by (auto simp: dispatch_socket_def split: option.splits)
    qed
  qed
qed

lemma set_type_ok:
  assumes ok: "app_ok A st" and q: "polls st s = Some q"
  obtains st' where "us_internal_poll_set_type s t st = Some st'" "app_ok A st'" "grows A st A st'"
  using that app_ok_poll_log [OF ok poll_log_upd_poll] q
  by (auto simp: us_internal_poll_set_type_def upd_poll_def)

text \<open>A connecting socket: connected, or failed (closed without \<open>on_close\<close>).\<close>

lemma connect_safe:
  assumes ok: "app_ok A st" and s: "s \<in> in_ctxs A"
  shows "\<exists>A' st'. dispatch_connect h s error st = Some st' \<and> app_ok A' st' \<and> later A st A' st'"
proof -
  have inv: "us_inv A st" using ok by (simp add: app_ok_def)
  have sl: "s \<in> linked A" using s by (simp add: linked_in_ctxs)
  obtain x ctx q where x: "socks st s = Some x" "sock_ctx s st = Some ctx" "polls st s = Some q" "callbacks_set ctx"
    by (rule app_sock [OF ok sl])
  show ?thesis
  proof (cases error)
    case True
    obtain r st1 A1 where 1: "call h (c_on_connect_error ctx) (On_connect_error s 0) st = Some (r, st1)"
      "app_ok A1 st1" "evolves A st A1 st1"
      by (rule call_ok [OF ok callbacks_setD(7) [OF x(4)]])
    have g1: "grows A st A1 st1" by (rule evolves_grows [OF 1(3)])
    obtain x1 where x1: "socks st1 s = Some x1" by (rule app_sock [OF 1(2) linked_grows [OF g1 sl]])
    have inv1: "us_inv A1 st1" and l1: "a_loose A1 = {}" using 1(2) by (auto simp: app_ok_def)
    show ?thesis
    proof (cases "is_closed x1")
      case c: True
      then show ?thesis
        using True x 1 x1 grows_later [OF g1] by (auto simp: dispatch_connect_def us_socket_close_connecting_def)
    next
      case c: False
      have s1: "s \<in> in_ctxs A1" by (rule stays_in_ctxs [OF 1(2) g1 inv s x1 c])
      then have nl: "s_low_prio_state x1 \<noteq> 1"
        using low_state_iff [OF inv1 x1] in_ctxs_disjoint(1) [OF inv1] by (auto simp: open_in_def)
      obtain st2 where 2: "close_silently h s x1 st1 = Some st2"
        by (rule close_silently_refines [OF inv1 l1 x1, of h]) (use s1 in \<open>auto simp: open_in_def\<close>)
      have "app_ok (a_close s A1) st2" "grows A1 st1 (a_close s A1) st2"
        using close_step [OF 1(2) x1 c 2] evolves_grows by auto
      then show ?thesis
        using True x 1 x1 c 2 close_connecting_eq(1) [OF 1(2) x1 nl, of h] grows_later [OF grows_trans [OF g1]]
        by (auto simp: dispatch_connect_def)
    qed
  next
    case False
    obtain st1 where 1: "us_poll_change h s LIBUS_SOCKET_READABLE st = Some st1" "app_ok A st1" "grows A st A st1"
      by (rule poll_change_ok [OF ok x(3)])
    obtain q1 where q1: "polls st1 s = Some q1" by (rule app_sock [OF 1(2) sl])
    define st2 where "st2 = bsd_socket_nodelay h (sint (p_fd q1)) 1 st1"
    have pl: "poll_log st1 st2" unfolding st2_def bsd_socket_nodelay_def by (rule poll_log_sys)
    have 2: "app_ok A st2" "grows A st1 A st2" using app_ok_poll_log [OF 1(2) pl] by simp_all
    obtain q2 where q2: "polls st2 s = Some q2" by (rule app_sock [OF 2(1) sl])
    obtain st3 where 3: "us_internal_poll_set_type s POLL_TYPE_SOCKET st2 = Some st3" "app_ok A st3" "grows A st2 A st3"
      by (rule set_type_ok [OF 2(1) q2])
    obtain x3 where x3: "socks st3 s = Some x3" by (rule app_sock [OF 3(2) sl])
    then obtain st4 where t: "us_socket_timeout s 0 st3 = Some st4"
      by (simp add: us_socket_timeout_def upd_sock_def)
    have 4: "app_ok A st4" "grows A st3 A st4"
      using timeout_step [OF 3(2) t] evolves_grows by auto
    obtain ctx4 where x4: "sock_ctx s st4 = Some ctx4" "callbacks_set ctx4" by (rule app_sock [OF 4(1) sl])
    obtain r st5 A5 where 5: "call h (c_on_open ctx4) (On_open s True []) st4 = Some (r, st5)" "app_ok A5 st5" "evolves A st4 A5 st5"
      by (rule call_ok [OF 4(1) callbacks_setD(1) [OF x4(2)]])
    have "grows A st A5 st5"
      by (rule grows_trans [OF 1(3) grows_trans [OF 2(2) grows_trans [OF 3(3) grows_trans [OF 4(2) evolves_grows [OF 5(3)]]]]])
    moreover have "us_poll_fd s st1 = Some (sint (p_fd q1))" using q1 by (simp add: us_poll_fd_def)
    ultimately show ?thesis
      using False x 1(1) 3(1) t x4 5 grows_later by (auto simp: dispatch_connect_def st2_def [symmetric])
  qed
qed

end

end
