(* ===== verification/UsTimeout.thy ===== *)
theory UsTimeout
  imports UsReady
begin

text \<open>
  Timeouts: when a socket's timeout is due, and what a sweep reports. The timestamp of a context
  counts sweeps modulo \<open>2 ^ 13\<close>; a socket stores the timestamp at which it is due with bit 13 set,
  so that 0 is never a due time. The sweep reports exactly the due sockets, in the order of the
  list, when the callbacks leave the library alone.
\<close>

subsection \<open>When a timeout is due\<close>

lemma unat_next_timestamp: "unat (next_timestamp t) = (unat t + 1) mod 8192"
proof -
  have "next_timestamp t = take_bit 13 (t + 1)"
    by (simp add: next_timestamp_def take_bit_eq_mask mask_numeral)
  then have "unat (next_timestamp t) = take_bit 13 (unat (t + 1))"
    by (simp add: unsigned_take_bit_eq)
  also have "\<dots> = (unat t + 1) mod 8192"
    by (simp add: take_bit_eq_mod unat_word_ariths mod_mod_cancel)
  finally show ?thesis .
qed

lemma unat_next_timestamps:
  assumes "unat t < 8192"
  shows "unat ((next_timestamp ^^ k) t) = (unat t + k) mod 8192"
proof (induction k)
  case (Suc k)
  then show ?case by (simp add: unat_next_timestamp mod_Suc_eq)
qed (use assms in simp)

lemma or_0x2000_eq:
  fixes a b :: u16
  shows "0x2000 OR take_bit 13 a = 0x2000 OR take_bit 13 b \<longleftrightarrow> take_bit 13 a = take_bit 13 b"
proof
  assume "0x2000 OR take_bit 13 a = 0x2000 OR take_bit 13 b"
  then have "take_bit 13 (0x2000 OR take_bit 13 a) = take_bit 13 (0x2000 OR take_bit 13 b)"
    by (rule arg_cong)
  then show "take_bit 13 a = take_bit 13 b"
    by (simp add: take_bit_or)
qed simp

lemma ucast_timeout:
  "(ucast (ucast (0x2000 OR v :: u32) :: 14 word) :: u16) = 0x2000 OR take_bit 13 (ucast v)"
proof (rule bit_word_eqI)
  fix n assume "n < LENGTH(16)"
  show "bit (ucast (ucast (0x2000 OR v :: u32) :: 14 word) :: u16) n = bit (0x2000 OR take_bit 13 (ucast v) :: u16) n"
    using bit_exp_iff [where 'a = "u32", of 13 n] bit_exp_iff [where 'a = u16, of 13 n]
    by (auto simp: bit_simps numeral_eq_Suc)
qed

lemma needle_of_small: "unat u < 8192 \<Longrightarrow> needle_of u = 0x2000 OR take_bit 13 u"
proof -
  assume "unat u < 8192"
  then have "unat (take_bit 13 u) = unat u"
    by (simp add: unsigned_take_bit_eq take_bit_nat_eq_self)
  then have "take_bit 13 u = u" by (simp only: word_unat_eq_iff)
  then show ?thesis by (simp add: needle_of_def)
qed

lemma add_mod_cancel_left: "((t::nat) + k) mod m = (t + n) mod m \<longleftrightarrow> k mod m = n mod m"
proof -
  have "int ((t + k) mod m) = int ((t + n) mod m) \<longleftrightarrow> int (k mod m) = int (n mod m)"
    by (simp add: of_nat_mod mod_eq_dvd_iff)
  then show ?thesis by (simp only: of_nat_eq_iff)
qed

lemma timeout_due_iff:
  assumes t: "unat t < 8192"
  shows "needle_of ((next_timestamp ^^ k) t) = ucast (timeout_of t s)
         \<longleftrightarrow> k mod 8192 = (unat (s + 3) div 4) mod 8192"
proof -
  let ?u = "(next_timestamp ^^ k) t" and ?v = "ucast t + drop_bit 2 (s + 3) :: u32"
  have u: "unat ?u = (unat t + k) mod 8192" by (rule unat_next_timestamps [OF t])
  then have us: "unat ?u < 8192" by simp
  have "unat ?v = unat t + unat (s + 3) div 4"
  proof -
    have "unat (drop_bit 2 (s + 3)) = unat (s + 3) div 4"
      using unsigned_less [of "s + 3", where 'a = nat]
      by (subst unsigned_drop_bit_eq) (simp add: drop_bit_eq_div take_bit_nat_eq_self)
    moreover have "unat (s + 3) div 4 < 2 ^ 30"
      using unsigned_less [of "s + 3", where 'a = nat] by simp
    moreover have "unat (ucast t :: u32) = unat t"
      using t by (simp add: unsigned_ucast_eq take_bit_nat_eq_self)
    ultimately show ?thesis using t by (simp add: unat_word_ariths)
  qed
  moreover have "unat (take_bit 13 (ucast ?v :: u16)) = take_bit 13 (unat ?v)"
    by (simp add: unsigned_take_bit_eq unsigned_ucast_eq)
  ultimately have v: "unat (take_bit 13 (ucast ?v :: u16)) = (unat t + unat (s + 3) div 4) mod 8192"
    by (simp only: take_bit_eq_mod) simp
  have "needle_of ?u = ucast (timeout_of t s) \<longleftrightarrow> take_bit 13 ?u = take_bit 13 (ucast ?v :: u16)"
    unfolding needle_of_small [OF us] timeout_of_def ucast_timeout by (rule or_0x2000_eq)
  also have "\<dots> \<longleftrightarrow> unat (take_bit 13 ?u) = unat (take_bit 13 (ucast ?v :: u16))"
    by (simp add: word_unat_eq_iff)
  also have "unat (take_bit 13 ?u) = unat ?u"
    using us by (simp add: unsigned_take_bit_eq take_bit_nat_eq_self)
  finally show ?thesis
    unfolding u v add_mod_cancel_left .
qed

subsection \<open>What a sweep reports\<close>

lemma sweep_skip:
  assumes "socks st s = Some x" "needle \<noteq> ucast (s_timeout x)" "s \<noteq> 0"
  shows "sweep_sockets h c needle s st = sweep_sockets h c needle (s_next x) st"
proof -
  have "seek needle s st = (if s_next x = 0 then Some 0 else seek needle (s_next x) st)"
    using assms by (subst seek.simps) simp
  then show ?thesis
    using assms(3) by (subst (1 2) sweep_sockets.simps) simp
qed

definition clear_timeout :: "ptr \<Rightarrow> us \<Rightarrow> us" where
  "clear_timeout s st = st\<lparr>socks := (socks st)(s := map_option (\<lambda>x. x\<lparr>s_timeout := 0\<rparr>) (socks st s))\<rparr>"

definition timed_out :: "ptr \<Rightarrow> fnptr \<Rightarrow> ptr \<Rightarrow> us \<Rightarrow> us" where
  "timed_out c f s st = emit (Callback f (On_timeout s))
     ((clear_timeout s st)\<lparr>ctxs := (ctxs st)(c := map_option (\<lambda>x. x\<lparr>c_iterator := s\<rparr>) (ctxs st c))\<rparr>)"

lemma sweep_due:
  assumes quiet: "\<And>f cb st. \<exists>r. h_call h f cb st = Some (r, st)"
    and "socks st s = Some x" "needle = ucast (s_timeout x)" "s \<noteq> 0" "ctxs st c = Some ctx"
    "c_on_socket_timeout ctx \<noteq> Fn_null"
  shows "sweep_sockets h c needle s st
         = sweep_sockets h c needle (s_next x) (timed_out c (c_on_socket_timeout ctx) s st)"
proof -
  have sk: "seek needle s st = Some s" using assms by (subst seek.simps) simp
  define st2 where "st2 = (clear_timeout s st)\<lparr>ctxs := (ctxs st)(c \<mapsto> ctx\<lparr>c_iterator := s\<rparr>)\<rparr>"
  obtain r where "call h (c_on_socket_timeout ctx) (On_timeout s) st2 = Some (r, emit (Callback (c_on_socket_timeout ctx) (On_timeout s)) st2)"
    using quiet assms(6) by (fastforce simp: call_def Let_def)
  moreover have "upd_sock s (\<lambda>x. x\<lparr>s_timeout := 0\<rparr>) st = Some (clear_timeout s st)"
    using assms(2) by (simp add: upd_sock_def clear_timeout_def)
  moreover have "upd_ctx c (\<lambda>x. x\<lparr>c_iterator := s\<rparr>) (clear_timeout s st) = Some st2"
    using assms(5) by (simp add: upd_ctx_def clear_timeout_def st2_def)
  ultimately show ?thesis
    using assms(2,4,5) sk
    by (subst sweep_sockets.simps) (simp add: st2_def timed_out_def emit_def clear_timeout_def)
qed

lemma timed_out_inv:
  assumes "us_inv A st" "c \<in> set (a_ctxs A)" "s \<in> set (a_socks A c)" "socks st s = Some x" "ctxs st c = Some ctx"
  shows "us_inv A (timed_out c f s st)"
proof -
  have 1: "us_inv A (clear_timeout s st)"
    using us_inv_upd_socket [OF assms(1,4), of "x\<lparr>s_timeout := 0\<rparr>"] assms(4) by (simp add: clear_timeout_def)
  have 2: "us_inv A ((clear_timeout s st)\<lparr>ctxs := (ctxs (clear_timeout s st))(c \<mapsto> ctx\<lparr>c_iterator := s\<rparr>)\<rparr>)"
    by (rule us_inv_upd_ctx [OF 1]) (use assms(3,5) in \<open>simp_all add: clear_timeout_def\<close>)
  show ?thesis
    unfolding timed_out_def
    by (rule us_inv_same_memory [OF 2])
       (use us_inv_ready [OF 2] assms(5) in \<open>simp_all add: same_memory_def emit_def clear_timeout_def\<close>)
qed

lemma sweep_reports:
  assumes quiet: "\<And>f cb st. \<exists>r. h_call h f cb st = Some (r, st)"
    and "us_inv A st" "c \<in> set (a_ctxs A)" "a_socks A c = pre @ l" "ctxs st c = Some ctx"
    and f: "c_on_socket_timeout ctx = f" "f \<noteq> Fn_null" and needle: "needle \<noteq> 0"
  shows "\<exists>st'. sweep_sockets h c needle (first l) st = Some st'
     \<and> log st' = rev (map (\<lambda>s. Callback f (On_timeout s)) (filter (due needle st) l)) @ log st
     \<and> (\<forall>p. socks st' p = (if p \<in> set l \<and> due needle st p then map_option (\<lambda>x. x\<lparr>s_timeout := 0\<rparr>) (socks st p)
                          else socks st p))"
  using assms(2-6)
proof (induction l arbitrary: pre st ctx)
  case Nil
  then show ?case by (subst sweep_sockets.simps) simp
next
  case (Cons s l)
  have lo: "list_ok c (pre @ s # l) st" using us_inv_list [OF Cons.prems(1,2)] Cons.prems(3) by simp
  obtain x where x: "socks st s = Some x" "s_next x = first l" "s \<noteq> 0" by (rule list_ok_next [OF lo])
  have dist: "s \<notin> set l" using lo by (auto simp: list_ok_def dlist_def)
  have pre: "a_socks A c = (pre @ [s]) @ l" using Cons.prems(3) by simp
  show ?case
  proof (cases "needle = ucast (s_timeout x)")
    case False
    then have "\<not> due needle st s" using x by (simp add: due_def)
    then show ?thesis
      using Cons.IH [OF Cons.prems(1,2) pre Cons.prems(4,5)] sweep_skip [OF x(1) False x(3)] x(2) by auto
  next
    case True
    let ?st = "timed_out c f s st"
    have d: "due needle st s" using True x by (simp add: due_def)
    have inv: "us_inv A ?st"
      using timed_out_inv [OF Cons.prems(1,2) _ x(1) Cons.prems(4)] Cons.prems(3) by simp
    have so: "socks ?st = (socks st)(s \<mapsto> x\<lparr>s_timeout := 0\<rparr>)" "log ?st = Callback f (On_timeout s) # log st"
      "ctxs ?st c = Some (ctx\<lparr>c_iterator := s\<rparr>)"
      using x Cons.prems(4) by (simp_all add: timed_out_def clear_timeout_def emit_def)
    have du: "due needle ?st p = (p \<noteq> s \<and> due needle st p)" for p
      using needle so(1) by (auto simp: due_def)
    obtain st' where st': "sweep_sockets h c needle (first l) ?st = Some st'"
      "log st' = rev (map (\<lambda>s. Callback f (On_timeout s)) (filter (due needle ?st) l)) @ log ?st"
      "\<forall>p. socks st' p = (if p \<in> set l \<and> due needle ?st p then map_option (\<lambda>x. x\<lparr>s_timeout := 0\<rparr>) (socks ?st p)
                          else socks ?st p)"
      using Cons.IH [OF inv Cons.prems(2) pre so(3)] Cons.prems(5) by auto
    have "filter (due needle ?st) l = filter (due needle st) l"
      using dist by (intro filter_cong) (auto simp: du)
    then show ?thesis
      using st' sweep_due [OF quiet x(1) True x(3) Cons.prems(4)] Cons.prems(5) f(2) x so d dist
      by (intro exI [of _ st']) (auto simp: du)
  qed
qed

end
