(* ===== verification/UsHosts.thy ===== *)
theory UsHosts
  imports UsSweep
begin

text \<open>
  Hosts to run the library on: \<open>quiet_host\<close>, whose callbacks do nothing, and \<open>echo_host\<close>, an echo
  server that writes back what it receives and closes a socket that timed out or that the peer
  has finished. Both satisfy the contract \<open>application\<close>. \<open>ex_st\<close> is a loop with one context and
  two open sockets, for use with them.
\<close>

definition quiet_int :: "event list \<Rightarrow> int" where
  "quiet_int es = (case es of Send fd d m # _ \<Rightarrow> int (length d) | Accept fd # _ \<Rightarrow> -1 | _ \<Rightarrow> 0)"

definition quiet_call :: "fnptr \<Rightarrow> callback \<Rightarrow> us \<Rightarrow> (nat \<times> us) option" where
  "quiet_call f cb st = (case cb of On_writable s \<Rightarrow> Some (s, st) | _ \<Rightarrow> Some (0, st))"

definition quiet_host :: host where
  "quiet_host = \<lparr>k_int = quiet_int, k_bytes = (\<lambda>_. []), k_errno = (\<lambda>_. 11), k_ready = (\<lambda>_. []),
     k_addrinfo = (\<lambda>_. []), k_msgs = (\<lambda>_. []), k_malloc = (\<lambda>_ live. 16 * (1 + Max (set (0 # live)))),
     k_realloc = (\<lambda>_ _ p. p), h_call = quiet_call\<rparr>"

definition echo_call :: "fnptr \<Rightarrow> callback \<Rightarrow> us \<Rightarrow> (nat \<times> us) option" where
  "echo_call f cb st = (case cb of
       On_writable s \<Rightarrow> Some (s, st)
     | On_data s d \<Rightarrow> (case us_socket_write quiet_host s d False st of None \<Rightarrow> Some (s, st) | Some (_, st) \<Rightarrow> Some (s, st))
     | On_timeout s \<Rightarrow> (case us_socket_close quiet_host s 0 st of None \<Rightarrow> Some (s, st) | Some r \<Rightarrow> Some r)
     | On_end s \<Rightarrow> (case us_socket_close quiet_host s 0 st of None \<Rightarrow> Some (s, st) | Some r \<Rightarrow> Some r)
     | _ \<Rightarrow> Some (0, st))"

definition echo_host :: host where
  "echo_host = quiet_host\<lparr>h_call := echo_call\<rparr>"

text \<open>The operations that run no callback do not depend on \<open>h_call\<close>.\<close>

lemma h_call_sys_int [simp]: "sys_int (h\<lparr>h_call := g\<rparr>) = sys_int h"
  by (intro ext) (simp add: sys_int_def)

lemma h_call_poll [simp]:
  "us_poll_change (h\<lparr>h_call := g\<rparr>) = us_poll_change h"
  "us_poll_stop (h\<lparr>h_call := g\<rparr>) = us_poll_stop h"
  "bsd_send (h\<lparr>h_call := g\<rparr>) = bsd_send h"
  "bsd_close_socket (h\<lparr>h_call := g\<rparr>) = bsd_close_socket h"
  unfolding fun_eq_iff us_poll_change_def us_poll_stop_def bsd_send_def bsd_close_socket_def h_call_sys_int
  by simp_all

lemma h_call_write [simp]: "us_socket_write (h\<lparr>h_call := g\<rparr>) = us_socket_write h"
  by (intro ext, unfold us_socket_write_def h_call_poll, rule refl)

lemma h_call_mark [simp]: "close_and_mark (h\<lparr>h_call := g\<rparr>) = close_and_mark h"
  by (intro ext, unfold close_and_mark_def h_call_poll, rule refl)

lemma h_call_close [simp]: "close_silently (h\<lparr>h_call := g\<rparr>) = close_silently h"
  by (intro ext, unfold close_silently_def h_call_mark, rule refl)

lemma quiet_close_steps:
  assumes "us_socket_close quiet_host s code st = Some (r, st')"
  shows "(api_step (quiet_host\<lparr>h_call := g\<rparr>))\<^sup>*\<^sup>* st st'"
proof -
  obtain x where x: "socks st s = Some x"
    using assms by (auto simp: us_socket_close_def split: Option.bind_splits)
  show ?thesis
  proof (cases "is_closed x")
    case True
    then show ?thesis using assms x by (simp add: us_socket_close_def)
  next
    case False
    then obtain st1 f where c: "close_silently quiet_host s x st = Some st1"
      "call quiet_host f (On_close s code) st1 = Some (r, st')"
      using assms x by (auto simp: us_socket_close_def split: Option.bind_splits)
    have "api_step (quiet_host\<lparr>h_call := g\<rparr>) st st1"
      using Step_close [OF x False] c(1) by simp
    moreover have "st' = emit (Callback f (On_close s code)) st1"
      using c(2) by (auto simp: call_def quiet_host_def quiet_call_def Let_def split: if_splits)
    then have "api_step (quiet_host\<lparr>h_call := g\<rparr>) st1 st'"
      using Step_callback by simp
    ultimately show ?thesis by (meson converse_rtranclp_into_rtranclp r_into_rtranclp)
  qed
qed

lemma quiet_write_steps:
  "us_socket_write quiet_host s d m st = Some (n, st') \<Longrightarrow> (api_step (quiet_host\<lparr>h_call := g\<rparr>))\<^sup>*\<^sup>* st st'"
  using Step_write [of "quiet_host\<lparr>h_call := g\<rparr>" s d m st n st'] by auto

interpretation quiet: application quiet_host
proof
  show "\<exists>r st'. h_call quiet_host f cb st = Some (r, st')" for f cb st
    by (cases cb) (simp_all add: quiet_host_def quiet_call_def)
  show "(api_step quiet_host)\<^sup>*\<^sup>* st st'" if "h_call quiet_host f cb st = Some (r, st')" for f cb st r st'
    using that by (cases cb) (simp_all add: quiet_host_def quiet_call_def)
  show "r = s" if "h_call quiet_host f (On_writable s) st = Some (r, st')" for f s st r st'
    using that by (simp add: quiet_host_def quiet_call_def)
  show "st' = st" if "h_call quiet_host f (Is_low_prio s) st = Some (r, st')" for f s st r st'
    using that by (simp add: quiet_host_def quiet_call_def)
qed

interpretation echo: application echo_host
proof
  show "\<exists>r st'. h_call echo_host f cb st = Some (r, st')" for f cb st
    by (cases cb) (auto simp: echo_host_def echo_call_def split: option.splits)
  show "(api_step echo_host)\<^sup>*\<^sup>* st st'" if "h_call echo_host f cb st = Some (r, st')" for f cb st r st'
    using that quiet_write_steps quiet_close_steps
    by (cases cb) (auto simp: echo_host_def echo_call_def split: option.splits)
  show "r = s" if "h_call echo_host f (On_writable s) st = Some (r, st')" for f s st r st'
    using that by (simp add: echo_host_def echo_call_def)
  show "st' = st" if "h_call echo_host f (Is_low_prio s) st = Some (r, st')" for f s st r st'
    using that by (simp add: echo_host_def echo_call_def)
qed

subsection \<open>A concrete loop\<close>

definition ex_ctx :: us_socket_context_t where
  "ex_ctx = \<lparr>c_timestamp = 7, c_head = 48, c_iterator = 0, c_prev = 0, c_next = 0, c_on_open = Fn_user 0,
     c_on_data = Fn_user 1, c_on_writable = Fn_user 2, c_on_close = Fn_user 3, c_on_socket_timeout = Fn_user 4,
     c_on_end = Fn_user 5, c_on_connect_error = Fn_user 6, c_is_low_prio = Fn_default_is_low_prio_handler\<rparr>"

definition ex_sock :: "ptr \<Rightarrow> ptr \<Rightarrow> 14 word \<Rightarrow> us_socket_t" where
  "ex_sock p n t = \<lparr>s_context = 16, s_prev = p, s_next = n, s_timeout = t, s_low_prio_state = 0\<rparr>"

definition ex_poll :: "28 word \<Rightarrow> us_poll_t" where
  "ex_poll fd = \<lparr>p_fd = fd, p_poll_type = 8\<rparr>"

definition ex_st :: us where
  "ex_st = empty_us\<lparr>head := 16, pre_cb := Fn_user 7, post_cb := Fn_user 8, num_polls := 2,
     num_ready_polls := 1, ready_polls := [(48, 1)],
     polls := [32 \<mapsto> ex_poll 5, 48 \<mapsto> ex_poll 6],
     socks := [32 \<mapsto> ex_sock 48 0 0x2008, 48 \<mapsto> ex_sock 0 32 0x2009],
     ctxs := [16 \<mapsto> ex_ctx], live := [48, 32, 16]\<rparr>"

definition ex_abs :: abs where
  "ex_abs = \<lparr>a_ctxs = [16], a_socks = (\<lambda>c. if c = 16 then [48, 32] else []), a_low = [], a_closed = [],
     a_loose = {}\<rparr>"

lemma ex_inv: "us_inv ex_abs ex_st"
proof -
  have "ready_ok ex_st"
    by (simp add: ready_ok_def ex_st_def empty_us_def)
  moreover have "dlist (slinks ex_st) 48 [48, 32]"
    by (simp add: dlist_def slinks_def ex_st_def ex_sock_def)
  moreover have "dlist (clinks ex_st) 16 [16]"
    by (simp add: dlist_def clinks_def ex_st_def ex_ctx_def)
  ultimately show ?thesis
    by (auto simp: us_inv_def ctxs_ok_def list_ok_def low_ok_def closed_ok_def loose_ok_def mem_ok_def
        heap_ok_def linked_def ex_abs_def ex_st_def ex_ctx_def ex_sock_def empty_us_def)
qed

lemma ex_app_ok: "app_ok ex_abs ex_st"
  using ex_inv by (simp add: app_ok_def ex_abs_def ex_st_def ex_ctx_def callbacks_set_def)

text \<open>The same context with one open socket, one closed and one in the low-priority queue.\<close>

definition ex_st2 :: us where
  "ex_st2 = ex_st\<lparr>closed_head := 48, low_prio_head := 64, num_polls := 3, num_ready_polls := 0,
     polls := [32 \<mapsto> ex_poll 5, 48 \<mapsto> ex_poll 6, 64 \<mapsto> ex_poll 7],
     socks := [32 \<mapsto> ex_sock 0 0 0x2008, 48 \<mapsto> ex_sock 16 0 0, 64 \<mapsto> (ex_sock 0 0 0)\<lparr>s_low_prio_state := 1\<rparr>],
     ctxs := [16 \<mapsto> ex_ctx\<lparr>c_head := 32\<rparr>], live := [64, 48, 32, 16]\<rparr>"

definition ex_abs2 :: abs where
  "ex_abs2 = \<lparr>a_ctxs = [16], a_socks = (\<lambda>c. if c = 16 then [32] else []), a_low = [64], a_closed = [48],
     a_loose = {}\<rparr>"

lemma ex_inv2: "us_inv ex_abs2 ex_st2"
proof -
  have "ready_ok ex_st2"
    by (simp add: ready_ok_def ex_st2_def ex_st_def empty_us_def)
  moreover have "dlist (slinks ex_st2) 32 [32]" "dlist (slinks ex_st2) 64 [64]"
    by (simp_all add: dlist_def slinks_def ex_st2_def ex_sock_def)
  moreover have "dlist (clinks ex_st2) 16 [16]"
    by (simp add: dlist_def clinks_def ex_st2_def ex_ctx_def)
  ultimately show ?thesis
    by (auto simp: us_inv_def ctxs_ok_def list_ok_def low_ok_def closed_ok_def loose_ok_def mem_ok_def
        heap_ok_def linked_def ex_abs2_def ex_st2_def ex_st_def ex_ctx_def ex_sock_def empty_us_def)
qed

lemma ex_app_ok2: "app_ok ex_abs2 ex_st2"
  using ex_inv2 by (simp add: app_ok_def ex_abs2_def ex_st2_def ex_st_def ex_ctx_def callbacks_set_def)

end
