(* ===== verification/SniTree.thy ===== *)
theory SniTree
  imports Prelude "HOL-Library.AList"
begin

text \<open>
  The tree of server names of \<open>src/uSockets2/src/crypto/sni_tree.cpp\<close>. A node holds a context (\<open>0\<close> is
  null) and its children by label; the children are an association list, since only their order in the
  calls of the destructor would depend on the order of a \<open>std::map\<close>. The abstraction \<open>exact\<close> is the
  context of a sequence of labels; a look-up is the first hit in a list of patterns.
\<close>

declare neq0_conv [iff del]

datatype sni_node = Sni_node (sni_user: ptr) (sni_children: "(string \<times> sni_node) list")

definition sni_new :: sni_node where
  "sni_new = Sni_node 0 []"

section \<open>Labels\<close>

text \<open>The loop over the labels of a host name: each is what stands before the next dot.\<close>

function sni_labels :: "string \<Rightarrow> string list" where
  "sni_labels view =
     (if view = [] then []
      else let label = takeWhile (\<lambda>c. c \<noteq> CHR ''.'') view
           in label # sni_labels (drop (min (length view) (length label + 1)) view))"
  by auto

termination by (relation "measure length") auto

declare sni_labels.simps [simp del]

text \<open>Only ten labels are collected; a longer name is not looked up.\<close>

definition MAX_LABELS :: nat where
  "MAX_LABELS = 10"

definition collect_labels :: "string \<Rightarrow> string list option" where
  "collect_labels hostname =
     (let labels = sni_labels hostname in if length labels > MAX_LABELS then None else Some labels)"

section \<open>Operations\<close>

fun removeUser :: "sni_node \<Rightarrow> string list \<Rightarrow> ptr \<times> sni_node" where
  "removeUser (Sni_node u cs) [] = (u, Sni_node 0 cs)"
| "removeUser (Sni_node u cs) (label # labels) =
     (case map_of cs label of
        None \<Rightarrow> (0, Sni_node u cs)
      | Some c \<Rightarrow>
          (case removeUser c labels of (removed, c) \<Rightarrow>
             (removed, Sni_node u (if sni_children c = [] \<and> sni_user c = 0 then AList.delete label cs
                                   else AList.update label c cs))))"

fun getUser :: "sni_node \<Rightarrow> string list \<Rightarrow> ptr" where
  "getUser (Sni_node u cs) [] = u"
| "getUser (Sni_node u cs) (label # labels) =
     (let user = (case map_of cs label of None \<Rightarrow> 0 | Some c \<Rightarrow> getUser c labels)
      in if user \<noteq> 0 then user
         else (case map_of cs ''*'' of None \<Rightarrow> 0 | Some c \<Rightarrow> getUser c labels))"

fun addUser :: "sni_node \<Rightarrow> string list \<Rightarrow> ptr \<Rightarrow> int \<times> sni_node" where
  "addUser (Sni_node u cs) [] user = (if u \<noteq> 0 then (1, Sni_node u cs) else (0, Sni_node user cs))"
| "addUser (Sni_node u cs) (label # labels) user =
     (let c = (case map_of cs label of None \<Rightarrow> sni_new | Some c \<Rightarrow> c)
      in case addUser c labels user of (code, c) \<Rightarrow> (code, Sni_node u (AList.update label c cs)))"

definition sni_add :: "sni_node \<Rightarrow> string \<Rightarrow> ptr \<Rightarrow> int \<times> sni_node" where
  "sni_add sni hostname user = addUser sni (sni_labels hostname) user"

definition sni_remove :: "sni_node \<Rightarrow> string \<Rightarrow> ptr \<times> sni_node" where
  "sni_remove sni hostname =
     (case collect_labels hostname of None \<Rightarrow> (0, sni) | Some labels \<Rightarrow> removeUser sni labels)"

definition sni_find :: "sni_node \<Rightarrow> string \<Rightarrow> ptr" where
  "sni_find sni hostname =
     (case collect_labels hostname of None \<Rightarrow> 0 | Some labels \<Rightarrow> getUser sni labels)"

text \<open>
  The destructor calls \<open>sni_free_cb\<close> for the context of every child; the context of the node itself is its
  parent's business.
\<close>

fun sni_free :: "sni_node \<Rightarrow> ptr list" where
  "sni_free (Sni_node u cs) = concat (map (\<lambda>(l, c). (if sni_user c \<noteq> 0 then [sni_user c] else []) @ sni_free c) cs)"

section \<open>The contexts of names\<close>

fun exact :: "sni_node \<Rightarrow> string list \<Rightarrow> ptr" where
  "exact (Sni_node u cs) [] = u"
| "exact (Sni_node u cs) (label # labels) = (case map_of cs label of None \<Rightarrow> 0 | Some c \<Rightarrow> exact c labels)"

lemma exact_empty [simp]: "exact (Sni_node 0 []) ls = 0"
  by (cases ls) auto

lemma exact_new [simp]: "exact sni_new = (\<lambda>_. 0)"
  by (simp add: sni_new_def fun_eq_iff)

lemma sni_eta: "Sni_node (sni_user c) (sni_children c) = c"
  by (cases c) simp

lemma exact_addUser:
  "addUser n ls user = (code, n') \<Longrightarrow>
     code = (if exact n ls \<noteq> 0 then 1 else 0)
     \<and> exact n' = (if exact n ls \<noteq> 0 then exact n else (exact n)(ls := user))"
proof (induction n ls user arbitrary: code n' rule: addUser.induct)
  case (1 u cs user)
  have "exact (Sni_node user cs) ls = ((exact (Sni_node 0 cs))([] := user)) ls" for ls
    by (cases ls) auto
  then show ?case using 1 by (auto simp: fun_eq_iff split: if_splits)
next
  case (2 u cs label labels user)
  let ?c = "case map_of cs label of None \<Rightarrow> sni_new | Some c \<Rightarrow> c"
  obtain c' where c': "addUser ?c labels user = (code, c')" "n' = Sni_node u (AList.update label c' cs)"
    using 2(2) by (auto simp: Let_def split: prod.splits)
  have here: "exact ?c labels = exact (Sni_node u cs) (label # labels)"
    by (auto split: option.splits)
  have "exact n' ls = (if exact ?c labels \<noteq> 0 then exact (Sni_node u cs) ls
      else ((exact (Sni_node u cs))(label # labels := user)) ls)" for ls
    using 2(1) [OF refl c'(1)] by (cases ls) (auto simp: c'(2) update_conv' split: option.splits)
  then show ?case using 2(1) [OF refl c'(1)] here by (auto simp: fun_eq_iff)
qed

lemma exact_removeUser:
  "removeUser n ls = (old, n') \<Longrightarrow> old = exact n ls \<and> exact n' = (exact n)(ls := 0)"
proof (induction n ls arbitrary: old n' rule: removeUser.induct)
  case (1 u cs)
  have "exact (Sni_node 0 cs) ls = ((exact (Sni_node u cs))([] := 0)) ls" for ls
    by (cases ls) auto
  then show ?case using 1 by (auto simp: fun_eq_iff)
next
  case (2 u cs label labels)
  show ?case
  proof (cases "map_of cs label")
    case None
    then show ?thesis using 2(2) by (auto simp: fun_eq_iff)
  next
    case (Some c)
    obtain c' where c': "removeUser c labels = (old, c')"
      "n' = Sni_node u (if sni_children c' = [] \<and> sni_user c' = 0 then AList.delete label cs else AList.update label c' cs)"
      using 2(2) Some by (auto split: prod.splits)
    note IH = 2(1) [OF Some c'(1)]
    have "exact c' = (\<lambda>_. 0)" if "sni_children c' = [] \<and> sni_user c' = 0"
      using that exact_empty by (cases c') auto
    then have child: "exact n' (l # ls) = (if l = label then exact c' ls else exact (Sni_node u cs) (l # ls))" for l ls
      by (auto simp: c'(2) update_conv' delete_conv')
    have "exact n' ls = ((exact (Sni_node u cs))(label # labels := 0)) ls" for ls
      using IH Some by (cases ls) (simp add: c'(2), simp add: child)
    then show ?thesis using IH Some by (auto simp: fun_eq_iff)
  qed
qed

section \<open>Look-up by patterns\<close>

text \<open>The patterns that match a name, a label before the wildcard and the leftmost label first.\<close>

fun sni_patterns :: "string list \<Rightarrow> string list list" where
  "sni_patterns [] = [[]]"
| "sni_patterns (l # ls) = map (Cons l) (sni_patterns ls) @ map (Cons ''*'') (sni_patterns ls)"

fun first_user :: "ptr list \<Rightarrow> ptr" where
  "first_user [] = 0"
| "first_user (u # us) = (if u \<noteq> 0 then u else first_user us)"

lemma first_user_append: "first_user (us @ vs) = (if first_user us \<noteq> 0 then first_user us else first_user vs)"
  by (induction us) auto

lemma first_user_map_0 [simp]: "first_user (map (\<lambda>x. 0) xs) = 0"
  by (induction xs) auto

lemma first_user_child:
  "first_user (map (exact (Sni_node u cs)) (map (Cons l) ps))
   = (case map_of cs l of None \<Rightarrow> 0 | Some c \<Rightarrow> first_user (map (exact c) ps))"
  by (cases "map_of cs l") (simp_all add: comp_def)

lemma getUser_patterns: "getUser n ls = first_user (map (exact n) (sni_patterns ls))"
proof (induction ls arbitrary: n)
  case (Cons l ls)
  obtain u cs where n: "n = Sni_node u cs" by (cases n)
  have "(case map_of cs k of None \<Rightarrow> 0 | Some c \<Rightarrow> getUser c ls)
      = first_user (map (exact n) (map (Cons k) (sni_patterns ls)))" for k
    unfolding n first_user_child by (cases "map_of cs k") (simp_all add: Cons.IH)
  then show ?case by (simp add: n Let_def first_user_append del: map_map)
next
  case Nil
  show ?case by (cases n) simp
qed

lemma sni_patterns_iff: "p \<in> set (sni_patterns ls) \<longleftrightarrow> list_all2 (\<lambda>x l. x = l \<or> x = ''*'') p ls"
proof (induction ls arbitrary: p)
  case (Cons l ls)
  then show ?case by (cases p) auto
qed auto

section \<open>No empty nodes\<close>

fun sni_wf :: "sni_node \<Rightarrow> bool" where
  "sni_wf (Sni_node u cs) \<longleftrightarrow> distinct (map fst cs)
     \<and> (\<forall>(l, c) \<in> set cs. sni_wf c \<and> \<not> (sni_children c = [] \<and> sni_user c = 0))"

lemma sni_wf_new: "sni_wf sni_new"
  by (simp add: sni_new_def)

lemma set_update_subset: "set (AList.update k v al) \<subseteq> insert (k, v) (set al)"
  by (induction al) auto

lemma set_delete_subset: "set (AList.delete k al) \<subseteq> set al"
  by (auto simp: AList.delete_eq)

lemma addUser_wf:
  assumes "user \<noteq> 0" "sni_wf n" "addUser n ls user = (code, n')"
  shows "sni_wf n' \<and> (sni_user n' \<noteq> 0 \<or> sni_children n' \<noteq> [])"
  using assms
proof (induction n ls user arbitrary: code n' rule: addUser.induct)
  case (2 u cs label labels user)
  let ?c = "case map_of cs label of None \<Rightarrow> sni_new | Some c \<Rightarrow> c"
  obtain c' where c': "addUser ?c labels user = (code, c')" "n' = Sni_node u (AList.update label c' cs)"
    using 2(4) by (auto simp: Let_def split: prod.splits)
  have "sni_wf ?c" using 2(3) map_of_SomeD [of cs label] by (auto simp: sni_wf_new split: option.split)
  from 2(1) [OF refl 2(2) this c'(1)]
  show ?case using 2(3) set_update_subset [of label c' cs] by (auto simp: c'(2) distinct_update)
qed (auto split: if_splits)

lemma removeUser_wf:
  assumes "sni_wf n" "removeUser n ls = (old, n')"
  shows "sni_wf n'"
  using assms
proof (induction n ls arbitrary: old n' rule: removeUser.induct)
  case (2 u cs label labels)
  show ?case
  proof (cases "map_of cs label")
    case (Some c)
    obtain c' where c': "removeUser c labels = (old, c')"
      "n' = Sni_node u (if sni_children c' = [] \<and> sni_user c' = 0 then AList.delete label cs else AList.update label c' cs)"
      using 2(3) Some by (auto split: prod.splits)
    have "sni_wf c'" using 2(1) [OF Some _ c'(1)] 2(2) map_of_SomeD [OF Some] by auto
    then show ?thesis
      using 2(2) set_update_subset [of label c' cs] set_delete_subset [of label cs]
      by (auto simp: c'(2) distinct_update distinct_delete)
  qed (use 2(2,3) in auto)
qed auto

text \<open>A tree without empty nodes that holds no name is the empty tree: removal leaves nothing behind.\<close>

lemma sni_wf_occupied:
  "sni_wf n \<Longrightarrow> sni_user n \<noteq> 0 \<or> sni_children n \<noteq> [] \<Longrightarrow> \<exists>ls. exact n ls \<noteq> 0"
proof (induction n)
  case (Sni_node u cs)
  show ?case
  proof (cases "u = 0")
    case True
    then obtain l c cs' where cs: "cs = (l, c) # cs'" using Sni_node.prems(2) by (cases cs) auto
    have c: "(l, c) \<in> set cs" "c \<in> Basic_BNFs.snds (l, c)" by (simp_all add: cs)
    have "\<exists>ls. exact c ls \<noteq> 0"
      by (rule Sni_node.IH [OF c]) (use Sni_node.prems(1) in \<open>auto simp: cs\<close>)
    then obtain ls where "exact c ls \<noteq> 0" by blast
    then have "exact (Sni_node u cs) (l # ls) \<noteq> 0" by (simp add: cs)
    then show ?thesis by blast
  next
    case False
    then have "exact (Sni_node u cs) [] \<noteq> 0" by simp
    then show ?thesis by blast
  qed
qed

lemma sni_wf_no_names: "sni_wf n \<Longrightarrow> exact n = (\<lambda>_. 0) \<Longrightarrow> n = sni_new"
  using sni_wf_occupied [of n] by (cases n) (auto simp: sni_new_def)

section \<open>The destructor\<close>

text \<open>The names of a tree: the positions, below the root, that hold a context.\<close>

fun sni_names :: "sni_node \<Rightarrow> string list list" where
  "sni_names (Sni_node u cs) =
     concat (map (\<lambda>(l, c). (if sni_user c \<noteq> 0 then [[l]] else []) @ map (Cons l) (sni_names c)) cs)"

lemma exact_Nil: "exact n [] = sni_user n"
  by (cases n) simp

lemma sni_free_names: "sni_wf n \<Longrightarrow> sni_free n = map (exact n) (sni_names n)"
proof (induction n)
  case (Sni_node u cs)
  have dist: "distinct (map fst cs)" using Sni_node.prems by simp
  have "(if sni_user c \<noteq> 0 then [sni_user c] else []) @ sni_free c
      = map (exact (Sni_node u cs)) ((if sni_user c \<noteq> 0 then [[l]] else []) @ map (Cons l) (sni_names c))"
    if lc: "(l, c) \<in> set cs" for l c
  proof -
    have "map_of cs l = Some c" using dist lc by (rule map_of_is_SomeI)
    moreover have "sni_free c = map (exact c) (sni_names c)"
      by (rule Sni_node.IH [OF lc]) (use Sni_node.prems lc in auto)
    ultimately show ?thesis by (simp add: exact_Nil comp_def)
  qed
  then show ?case by (auto simp: map_concat comp_def split_beta intro!: arg_cong [of _ _ concat])
qed

lemma sni_names_iff: "sni_wf n \<Longrightarrow> ls \<in> set (sni_names n) \<longleftrightarrow> ls \<noteq> [] \<and> exact n ls \<noteq> 0"
proof (induction ls arbitrary: n)
  case Nil
  then show ?case by (cases n) auto
next
  case (Cons l ls)
  obtain u cs where n: "n = Sni_node u cs" by (cases n)
  have "l # ls \<in> set (sni_names n) \<longleftrightarrow> (\<exists>c. (l, c) \<in> set cs \<and> (ls = [] \<and> sni_user c \<noteq> 0 \<or> ls \<in> set (sni_names c)))"
    by (force simp: n split: if_splits)
  also have "\<dots> \<longleftrightarrow> (\<exists>c. (l, c) \<in> set cs \<and> exact c ls \<noteq> 0)"
  proof -
    have "sni_wf c" if "(l, c) \<in> set cs" for c using Cons.prems that by (auto simp: n)
    then have "ls \<in> set (sni_names c) \<longleftrightarrow> ls \<noteq> [] \<and> exact c ls \<noteq> 0" if "(l, c) \<in> set cs" for c
      using Cons.IH that by blast
    then show ?thesis by (metis exact_Nil)
  qed
  also have "\<dots> \<longleftrightarrow> exact n (l # ls) \<noteq> 0"
  proof -
    have "(l, c) \<in> set cs \<longleftrightarrow> map_of cs l = Some c" for c using Cons.prems by (simp add: n)
    then show ?thesis by (cases "map_of cs l") (simp_all add: n)
  qed
  finally show ?case by simp
qed

lemma distinct_sni_names: "sni_wf n \<Longrightarrow> distinct (sni_names n)"
proof (induction n)
  case (Sni_node u cs)
  have "distinct (map fst ds) \<Longrightarrow> set ds \<subseteq> set cs \<Longrightarrow> distinct (sni_names (Sni_node u ds))" for ds
  proof (induction ds)
    case (Cons d ds)
    obtain l c where d: "d = (l, c)" by (cases d)
    have lc: "(l, c) \<in> set cs" using Cons.prems(2) by (simp add: d)
    have wf: "sni_wf c" using Sni_node.prems lc by auto
    let ?A = "(if sni_user c \<noteq> 0 then [[l]] else []) @ map (Cons l) (sni_names c)" and ?B = "sni_names (Sni_node u ds)"
    have "distinct (sni_names c)" by (rule Sni_node.IH [OF lc]) (simp_all add: wf)
    then have A: "distinct ?A" using sni_names_iff [OF wf] by (auto simp: distinct_map)
    have B: "distinct ?B" using Cons.prems by (intro Cons.IH) (simp_all add: d)
    have "hd p \<noteq> l" if "p \<in> set ?B" for p
      using that Cons.prems(1) by (force simp: d split: if_splits)
    moreover have "hd p = l" if "p \<in> set ?A" for p
      using that by (auto split: if_splits)
    ultimately have "set ?A \<inter> set ?B = {}" by blast
    moreover have "sni_names (Sni_node u (d # ds)) = ?A @ ?B" by (simp add: d)
    ultimately show ?case using A B by (simp only: distinct_append)
  qed simp
  then show ?case using Sni_node.prems by auto
qed

section \<open>Sequences of calls\<close>

datatype sni_op = Op_sni_add string ptr | Op_sni_remove string | Op_sni_find string
datatype sni_result = Res_code int | Res_user ptr

fun sni_do :: "sni_op \<Rightarrow> sni_node \<Rightarrow> sni_result \<times> sni_node" where
  "sni_do (Op_sni_add hostname user) n = (case sni_add n hostname user of (code, n) \<Rightarrow> (Res_code code, n))"
| "sni_do (Op_sni_remove hostname) n = (case sni_remove n hostname of (user, n) \<Rightarrow> (Res_user user, n))"
| "sni_do (Op_sni_find hostname) n = (Res_user (sni_find n hostname), n)"

fun sni_run :: "sni_op list \<Rightarrow> sni_node \<Rightarrow> sni_result list \<times> sni_node" where
  "sni_run [] n = ([], n)"
| "sni_run (op # ops) n = (case sni_do op n of (r, n) \<Rightarrow> case sni_run ops n of (rs, n) \<Rightarrow> (r # rs, n))"

text \<open>The specification: a table of contexts by labels; a look-up takes the first pattern that has one.\<close>

fun spec_do :: "sni_op \<Rightarrow> (string list \<Rightarrow> ptr) \<Rightarrow> sni_result \<times> (string list \<Rightarrow> ptr)" where
  "spec_do (Op_sni_add hostname user) m =
     (let ls = sni_labels hostname in if m ls \<noteq> 0 then (Res_code 1, m) else (Res_code 0, m(ls := user)))"
| "spec_do (Op_sni_remove hostname) m =
     (let ls = sni_labels hostname in if length ls > 10 then (Res_user 0, m) else (Res_user (m ls), m(ls := 0)))"
| "spec_do (Op_sni_find hostname) m =
     (let ls = sni_labels hostname
      in (Res_user (if length ls > 10 then 0 else first_user (map m (sni_patterns ls))), m))"

fun spec_run :: "sni_op list \<Rightarrow> (string list \<Rightarrow> ptr) \<Rightarrow> sni_result list \<times> (string list \<Rightarrow> ptr)" where
  "spec_run [] m = ([], m)"
| "spec_run (op # ops) m = (case spec_do op m of (r, m) \<Rightarrow> case spec_run ops m of (rs, m) \<Rightarrow> (r # rs, m))"

lemma sni_do_spec: "spec_do op (exact n) = apsnd exact (sni_do op n)"
proof (cases op)
  case (Op_sni_add hostname user)
  obtain code n' where a: "sni_add n hostname user = (code, n')" by (cases "sni_add n hostname user")
  show ?thesis
    using exact_addUser [OF a [unfolded sni_add_def]] by (auto simp: Op_sni_add a Let_def)
next
  case (Op_sni_remove hostname)
  obtain old n' where a: "removeUser n (sni_labels hostname) = (old, n')" by (cases "removeUser n (sni_labels hostname)")
  show ?thesis
    using exact_removeUser [OF a]
    by (auto simp: Op_sni_remove sni_remove_def collect_labels_def MAX_LABELS_def a Let_def)
next
  case (Op_sni_find hostname)
  then show ?thesis by (simp add: sni_find_def collect_labels_def MAX_LABELS_def Let_def getUser_patterns)
qed

lemma sni_run_spec: "spec_run ops (exact n) = apsnd exact (sni_run ops n)"
proof (induction ops arbitrary: n)
  case (Cons op ops)
  obtain r n' where "sni_do op n = (r, n')" by (cases "sni_do op n")
  then show ?case using sni_do_spec [of op n] Cons [of n'] by (simp split: prod.split)
qed simp

definition adds_contexts :: "sni_op list \<Rightarrow> bool" where
  "adds_contexts ops \<longleftrightarrow> (\<forall>h. Op_sni_add h 0 \<notin> set ops)"

lemma sni_run_wf: "sni_wf n \<Longrightarrow> adds_contexts ops \<Longrightarrow> sni_wf (snd (sni_run ops n))"
proof (induction ops arbitrary: n)
  case (Cons op ops)
  have "sni_wf (snd (sni_do op n))"
  proof (cases op)
    case (Op_sni_add h user)
    then have "user \<noteq> 0" using Cons.prems(2) by (auto simp: adds_contexts_def)
    then show ?thesis
      using addUser_wf [OF _ Cons.prems(1)] by (auto simp: Op_sni_add sni_add_def split: prod.split)
  next
    case (Op_sni_remove h)
    then show ?thesis
      using removeUser_wf [OF Cons.prems(1)] Cons.prems(1) by (auto simp: sni_remove_def split: prod.split option.split)
  next
    case (Op_sni_find h)
    then show ?thesis using Cons.prems(1) by simp
  qed
  moreover have "adds_contexts ops" using Cons.prems(2) by (simp add: adds_contexts_def)
  ultimately have "sni_wf (snd (sni_run ops (snd (sni_do op n))))" by (rule Cons.IH)
  then show ?case by (simp add: split_beta)
qed simp

end
