(* ===== verification/SniSsl.thy ===== *)
theory SniSsl
  imports SniTree
begin

text \<open>
  The server names of a TLS context (\<open>src/uSockets2/src/crypto/openssl.c\<close>): which OpenSSL contexts the
  tree of names holds, their user data, and who frees them. An OpenSSL context is an address in \<open>sc_live\<close>
  with its user data; \<open>None\<close> is the use of a null pointer or of a freed context. Creating a context from
  options is OpenSSL's business: the new context, or null, is an argument.
\<close>

record ssl_context =
  sc_ssl_context :: ptr
  sc_on_server_name :: bool
  sc_sni :: sni_node
  sc_live :: "ptr \<rightharpoonup> ptr"

definition free_ssl_context :: "ptr \<Rightarrow> ssl_context \<Rightarrow> ssl_context option" where
  "free_ssl_context p st =
     (if p = 0 then Some st
      else if p \<in> dom (sc_live st) then Some (st\<lparr>sc_live := (sc_live st)(p := None)\<rparr>) else None)"

text \<open>The user data is attached before the new context is compared with null.\<close>

definition ssl_add_server_name :: "string \<Rightarrow> ptr \<Rightarrow> ptr \<Rightarrow> ssl_context \<Rightarrow> ssl_context option" where
  "ssl_add_server_name hostname_pattern new_context user st =
     (if new_context = 0 then None
      else let st = st\<lparr>sc_live := (sc_live st)(new_context \<mapsto> user)\<rparr>
           in case sni_add (sc_sni st) hostname_pattern new_context of (code, sni) \<Rightarrow>
                if code \<noteq> 0 then free_ssl_context new_context (st\<lparr>sc_sni := sni\<rparr>)
                else Some (st\<lparr>sc_sni := sni\<rparr>))"

definition ssl_remove_server_name :: "string \<Rightarrow> ssl_context \<Rightarrow> ssl_context option" where
  "ssl_remove_server_name hostname_pattern st =
     (case sni_remove (sc_sni st) hostname_pattern of (old, sni) \<Rightarrow> free_ssl_context old (st\<lparr>sc_sni := sni\<rparr>))"

definition ssl_find_server_name_userdata :: "string \<Rightarrow> ssl_context \<Rightarrow> ptr option" where
  "ssl_find_server_name_userdata hostname_pattern st =
     (let p = sni_find (sc_sni st) hostname_pattern in if p \<noteq> 0 then sc_live st p else Some 0)"

text \<open>\<open>missing\<close> is the callback for a name without a context.\<close>

definition resolve_context :: "(string \<Rightarrow> ssl_context \<Rightarrow> ssl_context) \<Rightarrow> string \<Rightarrow> ssl_context \<Rightarrow> ptr \<times> ssl_context" where
  "resolve_context missing hostname st =
     (let user = sni_find (sc_sni st) hostname
      in if user = 0
         then if \<not> sc_on_server_name st then (0, st)
              else let st = missing hostname st in (sni_find (sc_sni st) hostname, st)
         else (user, st))"

datatype tlsext_result = SSL_TLSEXT_ERR_OK | SSL_TLSEXT_ERR_NOACK

text \<open>The context of the connection, \<open>ssl\<close>, is replaced when one is found for the name the peer sent.\<close>

definition sni_cb ::
    "(string \<Rightarrow> ssl_context \<Rightarrow> ssl_context) \<Rightarrow> ptr option \<Rightarrow> string option \<Rightarrow> ssl_context
     \<Rightarrow> tlsext_result \<times> ptr option \<times> ssl_context" where
  "sni_cb missing ssl hostname st =
     (case ssl of
        None \<Rightarrow> (SSL_TLSEXT_ERR_NOACK, None, st)
      | Some current \<Rightarrow>
          (case hostname of
             None \<Rightarrow> (SSL_TLSEXT_ERR_OK, Some current, st)
           | Some name \<Rightarrow>
               if name = [] then (SSL_TLSEXT_ERR_OK, Some current, st)
               else (case resolve_context missing name st of (p, st) \<Rightarrow>
                       (SSL_TLSEXT_ERR_OK, Some (if p \<noteq> 0 then p else current), st))))"

fun free_all :: "ptr list \<Rightarrow> ssl_context \<Rightarrow> ssl_context option" where
  "free_all [] st = Some st"
| "free_all (p # ps) st = do { st \<leftarrow> free_ssl_context p st; free_all ps st }"

definition ssl_context_free :: "ssl_context \<Rightarrow> ssl_context option" where
  "ssl_context_free st =
     do {
       st \<leftarrow> free_ssl_context (sc_ssl_context st) st;
       st \<leftarrow> free_all (sni_free (sc_sni st)) st;
       Some (st\<lparr>sc_sni := sni_new\<rparr>)
     }"

section \<open>Contexts are owned by one name\<close>

definition ssl_ok :: "ssl_context \<Rightarrow> bool" where
  "ssl_ok st \<longleftrightarrow> sni_wf (sc_sni st)
     \<and> sc_ssl_context st \<noteq> 0 \<and> sc_ssl_context st \<in> dom (sc_live st)
     \<and> (\<forall>ls. exact (sc_sni st) ls \<noteq> 0 \<longrightarrow> exact (sc_sni st) ls \<in> dom (sc_live st) \<and> exact (sc_sni st) ls \<noteq> sc_ssl_context st)
     \<and> (\<forall>ls ls'. exact (sc_sni st) ls \<noteq> 0 \<longrightarrow> exact (sc_sni st) ls = exact (sc_sni st) ls' \<longrightarrow> ls = ls')"

lemma ssl_okD:
  assumes "ssl_ok st"
  shows "sni_wf (sc_sni st)" "sc_ssl_context st \<noteq> 0" "sc_ssl_context st \<in> dom (sc_live st)"
    and "exact (sc_sni st) ls \<noteq> 0 \<Longrightarrow> exact (sc_sni st) ls \<in> dom (sc_live st)"
    and "exact (sc_sni st) ls \<noteq> 0 \<Longrightarrow> exact (sc_sni st) ls \<noteq> sc_ssl_context st"
    and "exact (sc_sni st) ls \<noteq> 0 \<Longrightarrow> exact (sc_sni st) ls = exact (sc_sni st) ls' \<Longrightarrow> ls = ls'"
  using assms unfolding ssl_ok_def by blast+

lemma ssl_okI:
  assumes "sni_wf (sc_sni st)" "sc_ssl_context st \<noteq> 0" "sc_ssl_context st \<in> dom (sc_live st)"
    and "\<And>ls. exact (sc_sni st) ls \<noteq> 0 \<Longrightarrow> exact (sc_sni st) ls \<in> dom (sc_live st) \<and> exact (sc_sni st) ls \<noteq> sc_ssl_context st"
    and "\<And>ls ls'. exact (sc_sni st) ls \<noteq> 0 \<Longrightarrow> exact (sc_sni st) ls = exact (sc_sni st) ls' \<Longrightarrow> ls = ls'"
  shows "ssl_ok st"
  using assms unfolding ssl_ok_def by blast

text \<open>Adding a name takes the new context over, or frees it when the name is taken.\<close>

lemma ssl_add_server_name_ok:
  assumes ok: "ssl_ok st" and new: "new \<noteq> 0" "sc_live st new = None"
  shows "\<exists>st'. ssl_add_server_name h new user st = Some st' \<and> ssl_ok st'
           \<and> exact (sc_sni st') = (let ls = sni_labels h in if exact (sc_sni st) ls \<noteq> 0 then exact (sc_sni st) else (exact (sc_sni st))(ls := new))
           \<and> sc_live st' = (if exact (sc_sni st) (sni_labels h) \<noteq> 0 then sc_live st else (sc_live st)(new \<mapsto> user))"
proof -
  obtain code sni where a: "sni_add (sc_sni st) h new = (code, sni)" by (cases "sni_add (sc_sni st) h new")
  note exact = exact_addUser [OF a [unfolded sni_add_def]]
  have wf: "sni_wf sni" using addUser_wf [OF new(1) ssl_okD(1) [OF ok]] a by (simp add: sni_add_def)
  have fresh: "exact (sc_sni st) ls \<noteq> new" "sc_ssl_context st \<noteq> new" for ls
    using ssl_okD(3,4) [OF ok] new by (metis domIff)+
  have "ssl_ok (st\<lparr>sc_live := (sc_live st)(new \<mapsto> user), sc_sni := sni\<rparr>)" if "exact (sc_sni st) (sni_labels h) = 0"
    using that exact wf fresh ssl_okD(2-6) [OF ok] unfolding ssl_ok_def by (auto split: if_splits)
  moreover have "ssl_ok (st\<lparr>sc_sni := sni\<rparr>)" if "exact (sc_sni st) (sni_labels h) \<noteq> 0"
    using that exact wf ssl_okD(2-6) [OF ok] unfolding ssl_ok_def by (auto split: if_splits)
  moreover have "(sc_live st)(new := None) = sc_live st" using new(2) by auto
  ultimately show ?thesis
    using exact new a by (auto simp: ssl_add_server_name_def free_ssl_context_def Let_def)
qed

text \<open>Removing a name frees its context, and only that.\<close>

lemma ssl_remove_server_name_ok:
  assumes ok: "ssl_ok st"
  shows "\<exists>st'. ssl_remove_server_name h st = Some st' \<and> ssl_ok st'
           \<and> (length (sni_labels h) \<le> 10 \<longrightarrow> exact (sc_sni st') = (exact (sc_sni st))(sni_labels h := 0))"
proof (cases "length (sni_labels h) \<le> 10")
  case False
  then show ?thesis
    using ok by (auto simp: ssl_remove_server_name_def sni_remove_def collect_labels_def MAX_LABELS_def free_ssl_context_def Let_def)
next
  case True
  let ?ls = "sni_labels h"
  obtain old sni where a: "removeUser (sc_sni st) ?ls = (old, sni)" by (cases "removeUser (sc_sni st) ?ls")
  note exact = exact_removeUser [OF a]
  have r: "sni_remove (sc_sni st) h = (old, sni)"
    using True a by (simp add: sni_remove_def collect_labels_def MAX_LABELS_def Let_def)
  have wf: "sni_wf sni" by (rule removeUser_wf [OF ssl_okD(1) [OF ok] a])
  have other: "exact (sc_sni st) ls \<noteq> old" if "ls \<noteq> ?ls" "exact (sc_sni st) ls \<noteq> 0" for ls
    using that ssl_okD(6) [OF ok, of ls ?ls] exact by auto
  show ?thesis
  proof (cases "old = 0")
    case True
    then have "ssl_ok (st\<lparr>sc_sni := sni\<rparr>)"
      using exact wf ssl_okD(2-6) [OF ok] unfolding ssl_ok_def by (auto split: if_splits)
    then show ?thesis
      using exact True r by (simp add: ssl_remove_server_name_def free_ssl_context_def)
  next
    case False
    have live: "old \<in> dom (sc_live st)" "old \<noteq> sc_ssl_context st"
      using False exact ssl_okD(4,5) [OF ok, of ?ls] by auto
    have e: "exact sni ls \<noteq> 0 \<Longrightarrow> exact sni ls = exact (sc_sni st) ls \<and> ls \<noteq> ?ls" for ls
      using exact by (auto split: if_splits)
    have "ssl_ok (st\<lparr>sc_sni := sni, sc_live := (sc_live st)(old := None)\<rparr>)"
    proof (rule ssl_okI, goal_cases)
      case (4 ls)
      then have "exact sni ls = exact (sc_sni st) ls" "ls \<noteq> ?ls" "exact (sc_sni st) ls \<noteq> 0" using e [of ls] by auto
      then show ?case using ssl_okD(4,5) [OF ok, of ls] other [of ls] by simp
    next
      case (5 ls ls')
      then have "exact (sc_sni st) ls = exact (sc_sni st) ls'" "exact (sc_sni st) ls \<noteq> 0" using e [of ls] e [of ls'] by auto
      then show ?case using ssl_okD(6) [OF ok] by blast
    qed (use wf ssl_okD(2,3) [OF ok] live in auto)
    then show ?thesis
      using exact False r live by (auto simp: ssl_remove_server_name_def free_ssl_context_def)
  qed
qed

lemma first_user_in: "first_user us \<noteq> 0 \<Longrightarrow> first_user us \<in> set us"
  by (induction us) (auto split: if_splits)

text \<open>A look-up never returns a freed context.\<close>

lemma sni_find_live:
  assumes "ssl_ok st" "sni_find (sc_sni st) h \<noteq> 0"
  shows "sni_find (sc_sni st) h \<in> dom (sc_live st)"
proof -
  have "sni_find (sc_sni st) h \<in> range (exact (sc_sni st))"
    using assms(2) first_user_in by (fastforce simp: sni_find_def getUser_patterns split: option.splits)
  then show ?thesis using ssl_okD(4) [OF assms(1)] assms(2) by force
qed

lemma ssl_find_userdata_safe: "ssl_ok st \<Longrightarrow> ssl_find_server_name_userdata h st \<noteq> None"
  using sni_find_live [of st h] by (auto simp: ssl_find_server_name_userdata_def Let_def)

lemma resolve_context_live:
  assumes "ssl_ok st" "\<And>h st. ssl_ok st \<Longrightarrow> ssl_ok (missing h st)" "resolve_context missing h st = (p, st')"
  shows "ssl_ok st' \<and> (p \<noteq> 0 \<longrightarrow> p \<in> dom (sc_live st'))"
  using assms(1,3) assms(2) [of st h] sni_find_live by (auto simp: resolve_context_def Let_def split: if_splits)

section \<open>The end of a context\<close>

lemma restrict_upd_None: "(m(p := None)) |` (- S) = m |` (- insert p S)"
  by (auto simp: restrict_map_def fun_eq_iff)

lemma free_all_live:
  assumes "distinct ps" "set ps \<subseteq> dom (sc_live st)" "0 \<notin> set ps"
  shows "free_all ps st = Some (st\<lparr>sc_live := sc_live st |` (- set ps)\<rparr>)"
  using assms
proof (induction ps arbitrary: st)
  case (Cons p ps)
  let ?st = "st\<lparr>sc_live := (sc_live st)(p := None)\<rparr>"
  have "free_all ps ?st = Some (?st\<lparr>sc_live := sc_live ?st |` (- set ps)\<rparr>)"
    by (rule Cons.IH) (use Cons.prems in auto)
  moreover have "sc_live ?st |` (- set ps) = sc_live st |` (- set (p # ps))"
    by (simp only: list.set, subst restrict_upd_None [symmetric], simp)
  moreover have "free_ssl_context p st = Some ?st"
    using Cons.prems by (auto simp: free_ssl_context_def)
  ultimately show ?case by simp
qed (simp add: restrict_map_def)

text \<open>
  Freeing a context frees its own OpenSSL context and the one of every name, each once; only a context
  that was added under the empty name, which sits at the root of the tree, stays.
\<close>

lemma ssl_context_free_all:
  assumes ok: "ssl_ok st"
  shows "\<exists>st'. ssl_context_free st = Some st'
     \<and> sc_live st' = sc_live st |` (- insert (sc_ssl_context st) {exact (sc_sni st) ls | ls. ls \<noteq> [] \<and> exact (sc_sni st) ls \<noteq> 0})"
proof -
  let ?e = "exact (sc_sni st)" and ?c = "sc_ssl_context st" and ?names = "sni_names (sc_sni st)"
  let ?st = "st\<lparr>sc_live := (sc_live st)(?c := None)\<rparr>"
  have names: "set ?names = {ls. ls \<noteq> [] \<and> ?e ls \<noteq> 0}"
    using sni_names_iff [OF ssl_okD(1) [OF ok]] by auto
  have "distinct (map ?e ?names)"
    using distinct_sni_names [OF ssl_okD(1) [OF ok]] ssl_okD(6) [OF ok] names by (auto simp: distinct_map inj_on_def)
  moreover have "set (map ?e ?names) \<subseteq> dom (sc_live ?st)"
    using ssl_okD(4,5) [OF ok] names by auto
  moreover have "0 \<notin> set (map ?e ?names)"
  proof -
    have "?e ls \<noteq> 0" if "ls \<in> set ?names" for ls using that names by simp
    then show ?thesis by (metis imageE list.set_map)
  qed
  ultimately have "free_all (sni_free (sc_sni st)) ?st = Some (?st\<lparr>sc_live := sc_live ?st |` (- set (map ?e ?names))\<rparr>)"
    using free_all_live [of "map ?e ?names" ?st] sni_free_names [OF ssl_okD(1) [OF ok]] by simp
  moreover have "sc_live ?st |` (- set (map ?e ?names)) = sc_live st |` (- insert ?c {?e ls | ls. ls \<noteq> [] \<and> ?e ls \<noteq> 0})"
  proof -
    have "set (map ?e ?names) = {?e ls | ls. ls \<noteq> [] \<and> ?e ls \<noteq> 0}" using names by auto
    then show ?thesis by (subst restrict_upd_None [symmetric]) simp
  qed
  moreover have "free_ssl_context ?c st = Some ?st"
    using ssl_okD(2,3) [OF ok] by (simp add: free_ssl_context_def)
  ultimately show ?thesis by (simp add: ssl_context_free_def)
qed

text \<open>
  Looking up the user data of a name that was not added finds that of a wildcard that matches it,
  although only an exact match is asked for.
\<close>

lemma find_userdata_by_wildcard:
  assumes "ssl_ok st" "exact (sc_sni st) [''*'', ''b''] = p" "p \<noteq> 0" "exact (sc_sni st) [''a'', ''b''] = 0" "exact (sc_sni st) [''a'', ''*''] = 0"
  shows "ssl_find_server_name_userdata ''a.b'' st = sc_live st p"
  using assms(2-)
  by (simp add: ssl_find_server_name_userdata_def sni_find_def collect_labels_def MAX_LABELS_def sni_labels.simps
      getUser_patterns Let_def)

section \<open>The tree of names refines a table\<close>

text \<open>
  C17. Whatever names are added, removed and looked up, the tree of server names answers like a table from
  labels to contexts, in which a look-up takes the first pattern that has a context: literal labels
  before wildcards, from the left.
\<close>

theorem sni_tree_refines:
  "fst (sni_run ops sni_new) = fst (spec_run ops (\<lambda>_. 0)) \<and> exact (snd (sni_run ops sni_new)) = snd (spec_run ops (\<lambda>_. 0))"
  using sni_run_spec [of ops sni_new] by simp

end
