(* ===== verification/HashCore.thy ===== *)
theory HashCore
  imports Prelude
begin

text \<open>
  What the hash classes of \<open>src/hashlibrary\<close> share. \<open>MD5\<close>, \<open>SHA1\<close>, \<open>SHA256\<close>, \<open>Keccak\<close> and \<open>SHA3\<close>
  have the same members and the same text of \<open>add\<close>, with their own \<open>processBlock\<close> and block size; the
  first three also share \<open>processBuffer\<close> and \<open>getHash\<close> up to the byte order. That text is modelled
  once here, with \<open>processBlock\<close> and the block size as arguments; the theory of a class instantiates it.

  The locale \<open>block_hash\<close> holds what a class promises of \<open>add\<close>: the state is determined by the
  message that has been added so far, however it was cut into pieces.
\<close>

section \<open>The members of a hash object\<close>

text \<open>\<open>m_buffer\<close> has a fixed size; its first \<open>m_bufferSize\<close> bytes are the ones not processed yet.\<close>

record 'h digest =
  m_hash :: 'h
  m_numBytes :: "64 word"
  m_bufferSize :: nat
  m_buffer :: "byte list"

definition push_byte :: "byte \<Rightarrow> ('h, 'm) digest_scheme \<Rightarrow> ('h, 'm) digest_scheme" where
  "push_byte x d = d\<lparr>m_buffer := (m_buffer d)[m_bufferSize d := x], m_bufferSize := m_bufferSize d + 1\<rparr>"

section \<open>\<open>add\<close>\<close>

text \<open>The loop that fills a partly filled buffer; it returns the bytes it did not take.\<close>

fun fill :: "nat \<Rightarrow> byte list \<Rightarrow> ('h, 'm) digest_scheme \<Rightarrow> byte list \<times> ('h, 'm) digest_scheme" where
  "fill bs [] d = ([], d)"
| "fill bs (x # xs) d = (if m_bufferSize d < bs then fill bs xs (push_byte x d) else (x # xs, d))"

text \<open>The loop over full blocks, which are processed where they are.\<close>

function full_blocks ::
    "('h \<Rightarrow> byte list \<Rightarrow> 'h) \<Rightarrow> nat \<Rightarrow> byte list \<Rightarrow> ('h, 'm) digest_scheme \<Rightarrow> byte list \<times> ('h, 'm) digest_scheme" where
  "full_blocks process bs xs d =
     (if 0 < bs \<and> bs \<le> length xs
      then full_blocks process bs (drop bs xs)
             (d\<lparr>m_hash := process (m_hash d) (take bs xs), m_numBytes := m_numBytes d + of_nat bs\<rparr>)
      else (xs, d))"
  by pat_completeness auto
termination
  by (relation "measure (\<lambda>(_, bs, xs, _). length xs)") auto

declare full_blocks.simps [simp del]

text \<open>The loop that keeps the remaining bytes.\<close>

fun keep :: "byte list \<Rightarrow> ('h, 'm) digest_scheme \<Rightarrow> ('h, 'm) digest_scheme" where
  "keep [] d = d"
| "keep (x # xs) d = keep xs (push_byte x d)"

definition hash_add ::
    "('h \<Rightarrow> byte list \<Rightarrow> 'h) \<Rightarrow> nat \<Rightarrow> byte list \<Rightarrow> ('h, 'm) digest_scheme \<Rightarrow> ('h, 'm) digest_scheme" where
  "hash_add process bs xs d =
     (let (xs, d) = (if m_bufferSize d > 0 then fill bs xs d else (xs, d));
          d = (if m_bufferSize d = bs
               then d\<lparr>m_hash := process (m_hash d) (take bs (m_buffer d)),
                      m_numBytes := m_numBytes d + of_nat bs, m_bufferSize := 0\<rparr>
               else d)
      in if xs = [] then d
         else let (xs, d) = full_blocks process bs xs d in keep xs d)"

section \<open>The padding of MD5, SHA1 and SHA256\<close>

text \<open>The length of the padded buffer without the 8 bytes of the message length, computed in bits.\<close>

definition padded_length :: "nat \<Rightarrow> nat" where
  "padded_length bufferSize =
     (let paddedLength = bufferSize * 8 + 1;
          lower11Bits = paddedLength mod 512
      in (if lower11Bits \<le> 448 then paddedLength + (448 - lower11Bits)
          else paddedLength + (512 + 448 - lower11Bits)) div 8)"

fun store_at :: "'a list \<Rightarrow> nat \<Rightarrow> 'a list \<Rightarrow> 'a list" where
  "store_at b i [] = b"
| "store_at b i (x # xs) = store_at (b[i := x]) (i + 1) xs"

text \<open>
  \<open>processBuffer\<close>, with the byte order of the message length as an argument. The local array \<open>extra\<close>
  is not initialised in the code; when it is processed, all its bytes have been written.
\<close>

definition process_buffer ::
    "('h \<Rightarrow> byte list \<Rightarrow> 'h) \<Rightarrow> (64 word \<Rightarrow> byte list) \<Rightarrow> ('h, 'm) digest_scheme \<Rightarrow> ('h, 'm) digest_scheme" where
  "process_buffer process len_bytes d =
     (let n = m_bufferSize d;
          paddedLength = padded_length n;
          extra = replicate 64 0;
          (buf, extra) = (if n < 64 then ((m_buffer d)[n := 128], extra) else (m_buffer d, extra[0 := 128]));
          buf = foldl (\<lambda>b i. b[i := 0]) buf [n + 1..<64];
          extra = foldl (\<lambda>b i. b[i - 64 := 0]) extra [max (n + 1) 64..<paddedLength];
          msgBits = 8 * (m_numBytes d + of_nat n);
          (buf, extra) = (if paddedLength < 64 then (store_at buf paddedLength (len_bytes msgBits), extra)
                          else (buf, store_at extra (paddedLength - 64) (len_bytes msgBits)));
          h = process (m_hash d) buf;
          h = (if paddedLength > 64 then process h extra else h)
      in d\<lparr>m_hash := h, m_buffer := buf\<rparr>)"

text \<open>\<open>getHash\<close>: the bytes of the hash after the padding; \<open>m_hash\<close> is restored.\<close>

definition get_hash ::
    "('w list \<Rightarrow> byte list \<Rightarrow> 'w list) \<Rightarrow> (64 word \<Rightarrow> byte list) \<Rightarrow> ('w \<Rightarrow> byte list)
     \<Rightarrow> ('w list, 'm) digest_scheme \<Rightarrow> byte list \<times> ('w list, 'm) digest_scheme" where
  "get_hash process len_bytes word_bytes d =
     (let d' = process_buffer process len_bytes d
      in (concat (map word_bytes (m_hash d')), d'\<lparr>m_hash := m_hash d\<rparr>))"

section \<open>Bytes of words\<close>

definition bytes_le32 :: "u32 \<Rightarrow> byte list" where
  "bytes_le32 x = map (\<lambda>k. ucast (drop_bit k x AND 0xFF)) [0, 8, 16, 24]"

definition bytes_be32 :: "u32 \<Rightarrow> byte list" where
  "bytes_be32 x = map (\<lambda>k. ucast (drop_bit k x AND 0xFF)) [24, 16, 8, 0]"

definition bytes_le64 :: "64 word \<Rightarrow> byte list" where
  "bytes_le64 x = map (\<lambda>k. ucast (drop_bit k x AND 0xFF)) [0, 8, 16, 24, 32, 40, 48, 56]"

definition bytes_be64 :: "64 word \<Rightarrow> byte list" where
  "bytes_be64 x = map (\<lambda>k. ucast (drop_bit k x AND 0xFF)) [56, 48, 40, 32, 24, 16, 8, 0]"

text \<open>A block read through a \<open>uint32_t*\<close> or \<open>uint64_t*\<close> on a little-endian machine.\<close>

definition word32_at :: "byte list \<Rightarrow> nat \<Rightarrow> u32" where
  "word32_at b i = ucast (b ! (4 * i)) OR push_bit 8 (ucast (b ! (4 * i + 1)))
     OR push_bit 16 (ucast (b ! (4 * i + 2))) OR push_bit 24 (ucast (b ! (4 * i + 3)))"

definition word64_at :: "byte list \<Rightarrow> nat \<Rightarrow> 64 word" where
  "word64_at b i = foldr (\<lambda>k w. push_bit 8 w OR ucast (b ! (8 * i + k))) [0, 1, 2, 3, 4, 5, 6, 7] 0"

definition swap32 :: "u32 \<Rightarrow> u32" where
  "swap32 x = drop_bit 24 x OR (drop_bit 8 x AND 0x0000FF00) OR (push_bit 8 x AND 0x00FF0000) OR push_bit 24 x"

definition dec2hex :: string where
  "dec2hex = ''0123456789abcdef''"

definition hex_of_byte :: "byte \<Rightarrow> string" where
  "hex_of_byte x = [dec2hex ! unat (drop_bit 4 x AND 15), dec2hex ! unat (x AND 15)]"

definition hex_string :: "byte list \<Rightarrow> string" where
  "hex_string bs = concat (map hex_of_byte bs)"

text \<open>The \<open>rotate\<close> functions of the classes are rotations.\<close>

lemma rotate_left_eq:
  fixes x :: "'a::len word"
  assumes "s < LENGTH('a)"
  shows "push_bit s x OR drop_bit (LENGTH('a) - s) x = word_rotl s x"
proof (rule bit_word_eqI)
  fix n assume n: "n < LENGTH('a)"
  have m: "(n + LENGTH('a) - s) mod LENGTH('a) = (if s \<le> n then n - s else n + LENGTH('a) - s)"
  proof (cases "s \<le> n")
    case True
    then have "n + LENGTH('a) - s = (n - s) + LENGTH('a)" "n - s < LENGTH('a)" using n by simp_all
    then show ?thesis using True by (simp only: mod_add_self2 mod_less) simp
  next
    case False
    then show ?thesis using assms n by simp
  qed
  show "bit (push_bit s x OR drop_bit (LENGTH('a) - s) x) n = bit (word_rotl s x) n"
    using assms n by (auto simp: bit_simps bit_word_rotl_iff m add.commute dest: bit_imp_le_length)
qed

lemma rotate_right_eq:
  fixes x :: "'a::len word"
  assumes "s < LENGTH('a)"
  shows "drop_bit s x OR push_bit (LENGTH('a) - s) x = word_rotr s x"
proof (rule bit_word_eqI)
  fix n assume n: "n < LENGTH('a)"
  have m: "(n + s) mod LENGTH('a) = (if n + s < LENGTH('a) then n + s else n + s - LENGTH('a))"
    using assms n by (simp add: mod_if)
  show "bit (drop_bit s x OR push_bit (LENGTH('a) - s) x) n = bit (word_rotr s x) n"
    using assms n by (auto simp: bit_simps bit_word_rotr_iff m add.commute not_less dest: bit_imp_le_length)
qed

lemma length_bytes [simp]:
  "length (bytes_le32 x) = 4" "length (bytes_be32 x) = 4" "length (bytes_le64 y) = 8" "length (bytes_be64 y) = 8"
  by (simp_all add: bytes_le32_def bytes_be32_def bytes_le64_def bytes_be64_def)

text \<open>The big-endian word that FIPS 180 reads from a block.\<close>

definition word32_be :: "byte list \<Rightarrow> nat \<Rightarrow> u32" where
  "word32_be b i = push_bit 24 (ucast (b ! (4 * i))) OR push_bit 16 (ucast (b ! (4 * i + 1)))
     OR push_bit 8 (ucast (b ! (4 * i + 2))) OR ucast (b ! (4 * i + 3))"

lemma mask_bits:
  "bit (0xFF00 :: int) n \<longleftrightarrow> 8 \<le> n \<and> n < 16"
  "bit (0xFF0000 :: int) n \<longleftrightarrow> 16 \<le> n \<and> n < 24"
proof -
  have m: "(0xFF00 :: int) = push_bit 8 (mask 8)" "(0xFF0000 :: int) = push_bit 16 (mask 8)"
    by (simp_all add: mask_eq_exp_minus_1 push_bit_eq_mult)
  show "bit (0xFF00 :: int) n \<longleftrightarrow> 8 \<le> n \<and> n < 16" unfolding m by (auto simp: bit_simps)
  show "bit (0xFF0000 :: int) n \<longleftrightarrow> 16 \<le> n \<and> n < 24" unfolding m by (auto simp: bit_simps)
qed

lemma bit_byte: "8 \<le> k \<Longrightarrow> \<not> bit (x :: byte) k"
  using bit_imp_le_length [of x k] by auto

lemma swap32_word32_at: "swap32 (word32_at b i) = word32_be b i"
proof (rule bit_word_eqI)
  fix n assume "n < LENGTH(32)"
  then consider "n < 8" | "8 \<le> n" "n < 16" | "16 \<le> n" "n < 24" | "24 \<le> n" "n < 32" by force
  then show "bit (swap32 (word32_at b i)) n = bit (word32_be b i) n"
    by cases (simp_all add: swap32_def word32_at_def word32_be_def bit_simps mask_bits bit_byte)
qed

section \<open>What \<open>add\<close> does to the state\<close>

text \<open>The full blocks of a message; an incomplete last block is left out.\<close>

function chunks :: "nat \<Rightarrow> 'a list \<Rightarrow> 'a list list" where
  "chunks bs xs = (if 0 < bs \<and> bs \<le> length xs then take bs xs # chunks bs (drop bs xs) else [])"
  by pat_completeness auto
termination
  by (relation "measure (\<lambda>(bs, xs). length xs)") auto

declare chunks.simps [simp del]

lemma chunks_short [simp]: "length xs < bs \<Longrightarrow> chunks bs xs = []"
  by (simp add: chunks.simps)

lemma chunks_block: "0 < bs \<Longrightarrow> length b = bs \<Longrightarrow> chunks bs (b @ xs) = b # chunks bs xs"
  by (subst chunks.simps) simp

lemma chunks_append:
  assumes "0 < bs" "bs dvd length xs"
  shows "chunks bs (xs @ ys) = chunks bs xs @ chunks bs ys"
  using assms
proof (induction bs xs rule: chunks.induct)
  case (1 bs xs)
  show ?case
  proof (cases "xs = []")
    case True
    then show ?thesis using 1 by simp
  next
    case False
    then have le: "bs \<le> length xs" using 1 by (simp add: dvd_imp_le)
    then have "chunks bs (drop bs xs @ ys) = chunks bs (drop bs xs) @ chunks bs ys"
      using 1 by simp
    then show ?thesis
      using 1 le by (subst chunks.simps, subst (2) chunks.simps) simp
  qed
qed

lemma fill_eq:
  "m_bufferSize d \<le> bs \<Longrightarrow> bs \<le> length (m_buffer d) \<Longrightarrow>
   fill bs xs d = (let k = min (length xs) (bs - m_bufferSize d); n = m_bufferSize d
     in (drop k xs, d\<lparr>m_bufferSize := n + k, m_buffer := take n (m_buffer d) @ take k xs @ drop (n + k) (m_buffer d)\<rparr>))"
proof (induction bs xs d rule: fill.induct)
  case (1 bs d)
  then show ?case by simp
next
  case (2 bs x xs d)
  show ?case
  proof (cases "m_bufferSize d < bs")
    case True
    then have "m_bufferSize d < length (m_buffer d)" using 2 by simp
    then have "take (Suc (m_bufferSize d)) ((m_buffer d)[m_bufferSize d := x]) = take (m_bufferSize d) (m_buffer d) @ [x]"
      by (simp add: take_Suc_conv_app_nth)
    moreover have "min (Suc (length xs)) (bs - m_bufferSize d) = Suc (min (length xs) (bs - Suc (m_bufferSize d)))"
      using True by arith
    ultimately show ?thesis using True 2 by (simp add: push_byte_def Let_def)
  next
    case False
    then have "m_bufferSize d = bs" using 2 by simp
    then show ?thesis using False by simp
  qed
qed

lemma keep_eq:
  "m_bufferSize d + length xs \<le> length (m_buffer d) \<Longrightarrow>
   keep xs d = d\<lparr>m_bufferSize := m_bufferSize d + length xs,
     m_buffer := take (m_bufferSize d) (m_buffer d) @ xs @ drop (m_bufferSize d + length xs) (m_buffer d)\<rparr>"
proof (induction xs d rule: keep.induct)
  case (1 d)
  then show ?case by simp
next
  case (2 x xs d)
  then have "m_bufferSize d < length (m_buffer d)" by simp
  then have "take (Suc (m_bufferSize d)) ((m_buffer d)[m_bufferSize d := x]) = take (m_bufferSize d) (m_buffer d) @ [x]"
    by (simp add: take_Suc_conv_app_nth)
  then show ?case using 2 by (simp add: push_byte_def)
qed

lemma full_blocks_eq:
  "0 < bs \<Longrightarrow> full_blocks process bs xs d =
     (drop (length xs div bs * bs) xs,
      d\<lparr>m_hash := foldl process (m_hash d) (chunks bs xs), m_numBytes := m_numBytes d + of_nat (length xs div bs * bs)\<rparr>)"
proof (induction process bs xs d rule: full_blocks.induct)
  case (1 process bs xs d)
  show ?case
  proof (cases "bs \<le> length xs")
    case True
    then have l: "length xs div bs = Suc ((length xs - bs) div bs)"
      using 1(2) by (simp add: le_div_geq)
    show ?thesis
      by (subst full_blocks.simps, subst chunks.simps)
         (simp add: 1 True l algebra_simps)
  next
    case False
    then show ?thesis by (subst full_blocks.simps) simp
  qed
qed

lemma length_push_byte [simp]: "length (m_buffer (push_byte x d)) = length (m_buffer d)"
  by (simp add: push_byte_def)

lemma length_fill [simp]: "length (m_buffer (snd (fill bs xs d))) = length (m_buffer d)"
  by (induction bs xs d rule: fill.induct) simp_all

lemma length_keep [simp]: "length (m_buffer (keep xs d)) = length (m_buffer d)"
  by (induction xs d rule: keep.induct) simp_all

lemma length_full_blocks [simp]: "length (m_buffer (snd (full_blocks process bs xs d))) = length (m_buffer d)"
  by (induction process bs xs d rule: full_blocks.induct) (subst full_blocks.simps, simp)

lemma length_hash_add [simp]: "length (m_buffer (hash_add process bs xs d)) = length (m_buffer d)"
proof -
  obtain ys e where 1: "(if m_bufferSize d > 0 then fill bs xs d else (xs, d)) = (ys, e)" by (meson surj_pair)
  then have "length (m_buffer e) = length (m_buffer d)"
    using length_fill [of bs xs d] by (cases "m_bufferSize d > 0") simp_all
  moreover define e' where "e' = (if m_bufferSize e = bs
     then e\<lparr>m_hash := process (m_hash e) (take bs (m_buffer e)), m_numBytes := m_numBytes e + of_nat bs, m_bufferSize := 0\<rparr> else e)"
  moreover have "hash_add process bs xs d
      = (if ys = [] then e' else let (xs, d) = full_blocks process bs ys e' in keep xs d)"
    unfolding hash_add_def 1 e'_def by (simp add: Let_def)
  ultimately show ?thesis
    using length_full_blocks [of process bs ys e'] by (simp add: case_prod_beta)
qed

text \<open>The members of a class with more members stay.\<close>

lemma more_push_byte [simp]: "digest.more (push_byte x d) = digest.more d"
  by (simp add: push_byte_def)

lemma more_fill [simp]: "digest.more (snd (fill bs xs d)) = digest.more d"
  by (induction bs xs d rule: fill.induct) simp_all

lemma more_keep [simp]: "digest.more (keep xs d) = digest.more d"
  by (induction xs d rule: keep.induct) simp_all

lemma more_full_blocks [simp]: "digest.more (snd (full_blocks process bs xs d)) = digest.more d"
  by (induction process bs xs d rule: full_blocks.induct) (subst full_blocks.simps, simp)

lemma more_hash_add [simp]: "digest.more (hash_add process bs xs d) = digest.more d"
proof -
  obtain ys e where 1: "(if m_bufferSize d > 0 then fill bs xs d else (xs, d)) = (ys, e)" by (meson surj_pair)
  then have "digest.more e = digest.more d"
    using more_fill [of bs xs d] by (cases "m_bufferSize d > 0") simp_all
  moreover define e' where "e' = (if m_bufferSize e = bs
     then e\<lparr>m_hash := process (m_hash e) (take bs (m_buffer e)), m_numBytes := m_numBytes e + of_nat bs, m_bufferSize := 0\<rparr> else e)"
  moreover have "hash_add process bs xs d
      = (if ys = [] then e' else let (xs, d) = full_blocks process bs ys e' in keep xs d)"
    unfolding hash_add_def 1 e'_def by (simp add: Let_def)
  ultimately show ?thesis
    using more_full_blocks [of process bs ys e'] by (simp add: case_prod_beta)
qed

section \<open>The promise of \<open>add\<close>\<close>

text \<open>
  \<open>absorbed process bs h0 msg d\<close>: the object \<open>d\<close> was started with \<open>h0\<close> and has taken the message
  \<open>msg\<close>. Its full blocks are in \<open>m_hash\<close>, the rest is in the buffer.
\<close>

definition absorbed :: "('h \<Rightarrow> byte list \<Rightarrow> 'h) \<Rightarrow> nat \<Rightarrow> 'h \<Rightarrow> byte list \<Rightarrow> ('h, 'm) digest_scheme \<Rightarrow> bool" where
  "absorbed process bs h0 msg d \<longleftrightarrow>
     (let full = length msg div bs * bs
      in m_hash d = foldl process h0 (chunks bs msg) \<and> m_numBytes d = of_nat full
         \<and> m_bufferSize d = length msg mod bs \<and> take (length msg mod bs) (m_buffer d) = drop full msg
         \<and> bs \<le> length (m_buffer d))"

locale block_hash =
  fixes process :: "'h \<Rightarrow> byte list \<Rightarrow> 'h" and bs :: nat
  assumes block_size: "0 < bs"
begin

lemma absorbed_split:
  "absorbed process bs h0 msg d \<longleftrightarrow>
     (\<exists>full rest. msg = full @ rest \<and> bs dvd length full \<and> length rest < bs
        \<and> m_hash d = foldl process h0 (chunks bs full) \<and> m_numBytes d = of_nat (length full)
        \<and> m_bufferSize d = length rest \<and> take (length rest) (m_buffer d) = rest \<and> bs \<le> length (m_buffer d))"
  (is "?L \<longleftrightarrow> (\<exists>full rest. ?R full rest)")
proof
  assume L: ?L
  let ?n = "length msg div bs * bs"
  have n: "?n \<le> length msg" "length msg - ?n = length msg mod bs" "length msg mod bs < bs"
    using block_size by (simp_all add: minus_div_mult_eq_mod)
  have "chunks bs (take ?n msg @ drop ?n msg) = chunks bs (take ?n msg)"
    using n by (subst chunks_append) (simp_all add: block_size min_absorb2)
  then have "?R (take ?n msg) (drop ?n msg)"
    using L n by (simp add: absorbed_def Let_def min_absorb2)
  then show "\<exists>full rest. ?R full rest" by blast
next
  assume "\<exists>full rest. ?R full rest"
  then obtain full rest where R: "?R full rest" by blast
  then obtain k where k: "length full = k * bs" by (metis dvd_def mult.commute)
  have "length msg div bs * bs = length full" "length msg mod bs = length rest"
    using R k block_size by simp_all
  moreover have "chunks bs msg = chunks bs full"
    using R by (simp add: chunks_append [OF block_size])
  ultimately show ?L using R by (simp add: absorbed_def Let_def)
qed

lemma absorbed_start:
  "m_hash d = h0 \<Longrightarrow> m_numBytes d = 0 \<Longrightarrow> m_bufferSize d = 0 \<Longrightarrow> bs \<le> length (m_buffer d) \<Longrightarrow>
   absorbed process bs h0 [] d"
  using block_size by (simp add: absorbed_def)

lemma absorbed_bounds:
  "absorbed process bs h0 msg d \<Longrightarrow> m_bufferSize d < bs \<and> bs \<le> length (m_buffer d)"
  using block_size by (simp add: absorbed_def Let_def)

text \<open>Once the buffer is empty, the full blocks of the input are processed and its rest is kept.\<close>

lemma absorbed_direct:
  assumes "bs dvd length full" "m_hash d = foldl process h0 (chunks bs full)" "m_numBytes d = of_nat (length full)"
    "m_bufferSize d = 0" "bs \<le> length (m_buffer d)"
  shows "absorbed process bs h0 (full @ xs) (let (xs, d) = full_blocks process bs xs d in keep xs d)"
proof -
  let ?n = "length xs div bs * bs"
  have n: "?n \<le> length xs" "length xs - ?n = length xs mod bs" "length xs mod bs < bs"
    using block_size by (simp_all add: minus_div_mult_eq_mod)
  have c: "chunks bs (take ?n xs @ drop ?n xs) = chunks bs (take ?n xs)"
    using n by (subst chunks_append) (simp_all add: block_size min_absorb2)
  have k: "m_bufferSize d + length (drop ?n xs) \<le> length (m_buffer d)"
    using n assms(4,5) by simp
  show ?thesis
    unfolding absorbed_split
  proof (rule exI [of _ "full @ take ?n xs"], rule exI [of _ "drop ?n xs"], intro conjI)
    show "full @ xs = (full @ take ?n xs) @ drop ?n xs" by simp
    have "length (take ?n xs) = ?n" using n(1) by (simp add: min_absorb2)
    then show "bs dvd length (full @ take ?n xs)" using assms(1) by (simp only: length_append dvd_add dvd_triv_right)
    show "length (drop ?n xs) < bs" using n by simp
  qed (use n c k assms in \<open>simp_all add: full_blocks_eq [OF block_size] keep_eq chunks_append [OF block_size]
          min_absorb2\<close>)
qed

lemma absorbed_add:
  assumes "absorbed process bs h0 msg d"
  shows "absorbed process bs h0 (msg @ xs) (hash_add process bs xs d)"
proof -
  obtain full rest where R: "msg = full @ rest" "bs dvd length full" "length rest < bs"
    "m_hash d = foldl process h0 (chunks bs full)" "m_numBytes d = of_nat (length full)"
    "m_bufferSize d = length rest" "take (length rest) (m_buffer d) = rest" "bs \<le> length (m_buffer d)"
    using assms unfolding absorbed_split by blast
  show ?thesis
  proof (cases "rest = []")
    case True
    have ne: "m_bufferSize d \<noteq> bs" using R block_size by simp
    show ?thesis
    proof (cases "xs = []")
      case True
      then show ?thesis using assms ne R \<open>rest = []\<close> by (simp add: hash_add_def)
    next
      case False
      then show ?thesis
        using absorbed_direct [OF R(2,4,5) _ R(8), of xs] R True ne
        by (simp add: hash_add_def)
    qed
  next
    case False
    let ?k = "min (length xs) (bs - length rest)"
    let ?d = "d\<lparr>m_bufferSize := length rest + ?k, m_buffer := rest @ take ?k xs @ drop (length rest + ?k) (m_buffer d)\<rparr>"
    have f: "fill bs xs d = (drop ?k xs, ?d)"
      using R by (subst fill_eq) (simp_all add: Let_def)
    have pos: "0 < m_bufferSize d" using False R by simp
    show ?thesis
    proof (cases "length xs < bs - length rest")
      case True
      have "absorbed process bs h0 (full @ rest @ xs) ?d"
        unfolding absorbed_split
        by (rule exI [of _ full], rule exI [of _ "rest @ xs"]) (use R True in simp)
      moreover have "length rest + length xs \<noteq> bs" using True by simp
      ultimately show ?thesis
        using True pos f R by (simp add: hash_add_def)
    next
      case False
      then have k: "?k = bs - length rest" by simp
      let ?b = "rest @ take ?k xs"
      let ?e = "?d\<lparr>m_hash := process (m_hash d) ?b, m_numBytes := m_numBytes d + of_nat bs, m_bufferSize := 0\<rparr>"
      have b: "length ?b = bs" using False R k by simp
      have tb: "take bs (m_buffer ?d) = ?b" using b by simp
      have len: "bs \<le> length (m_buffer ?d)" using R k False by simp
      have "chunks bs (full @ ?b) = chunks bs full @ [?b]"
        using chunks_append [OF block_size R(2)] chunks_block [OF block_size b, of "[]"] block_size by simp
      then have e: "m_hash ?e = foldl process h0 (chunks bs (full @ ?b))" "m_numBytes ?e = of_nat (length (full @ ?b))"
        "bs dvd length (full @ ?b)" "m_bufferSize ?e = 0" "bs \<le> length (m_buffer ?e)"
        using R b len by simp_all
      have m: "msg @ xs = (full @ ?b) @ drop ?k xs" using R by simp
      have a: "hash_add process bs xs d =
        (if drop ?k xs = [] then ?e else let (xs, d) = full_blocks process bs (drop ?k xs) ?e in keep xs d)"
        using pos f k b tb False by (simp add: hash_add_def)
      show ?thesis
      proof (cases "drop ?k xs = []")
        case True
        have "absorbed process bs h0 (full @ ?b) ?e"
          unfolding absorbed_split
          by (rule exI [of _ "full @ ?b"], rule exI [of _ "[]"]) (use e block_size in simp)
        then show ?thesis unfolding m a using True by simp
      next
        case False
        show ?thesis
          unfolding m a using absorbed_direct [OF e(3,1,2,4,5), of "drop ?k xs"] False by simp
      qed
    qed
  qed
qed

lemma absorbed_adds:
  "absorbed process bs h0 msg d \<Longrightarrow> absorbed process bs h0 (msg @ concat xss) (foldl (\<lambda>d xs. hash_add process bs xs d) d xss)"
proof (induction xss arbitrary: msg d)
  case (Cons xs xss)
  then show ?case using absorbed_add [of h0 msg d xs] by fastforce
qed simp

end

section \<open>The padded message\<close>

text \<open>
  The padding of RFC 1321 and FIPS 180: a 1 bit, zeros up to 448 bits modulo 512, and the length of
  the message in bits as a 64-bit number.
\<close>

definition padded :: "(64 word \<Rightarrow> byte list) \<Rightarrow> byte list \<Rightarrow> byte list" where
  "padded len_bytes msg =
     msg @ [128] @ replicate ((119 - length msg mod 64) mod 64) 0 @ len_bytes (of_nat (8 * length msg))"

lemma zeros_short: "n \<le> 55 \<Longrightarrow> (119 - n) mod 64 = 55 - (n::nat)"
proof -
  assume "n \<le> 55"
  then have "119 - n = (55 - n) + 64" "55 - n < 64" by simp_all
  then show ?thesis by (simp only: mod_add_self2 mod_less)
qed

lemma zeros_long: "55 < n \<Longrightarrow> (119 - n) mod 64 = 119 - (n::nat)"
  by (rule mod_less) simp

lemma padded_length_eq: "n < 64 \<Longrightarrow> padded_length n = (if n \<le> 55 then 56 else 120)"
  by (auto simp: padded_length_def Let_def)

lemma store_at_eq: "i + length xs \<le> length b \<Longrightarrow> store_at b i xs = take i b @ xs @ drop (i + length xs) b"
proof (induction b i xs rule: store_at.induct)
  case (2 b i x xs)
  then have "take (Suc i) (b[i := x]) = take i b @ [x]" by (simp add: take_Suc_conv_app_nth)
  then show ?case using 2 by simp
qed simp

lemma foldl_zero_eq: "i \<le> j \<Longrightarrow> j \<le> length b \<Longrightarrow>
  foldl (\<lambda>b i. b[i := 0]) b [i..<j] = take i b @ replicate (j - i) 0 @ drop j b"
proof (induction "j - i" arbitrary: i b)
  case 0
  then show ?case by simp
next
  case (Suc k)
  then have "take (Suc i) (b[i := 0]) = take i b @ [0]" by (simp add: take_Suc_conv_app_nth)
  moreover have "j - i = Suc (j - Suc i)" using Suc by simp
  ultimately show ?case using Suc by (simp add: upt_conv_Cons)
qed

lemma replicate_update [simp]: "(replicate n x)[i := x] = replicate n x"
  by (cases "i < n") (auto intro!: nth_equalityI simp: nth_list_update)

lemma process_buffer_short:
  assumes "m_bufferSize d = n" "n \<le> 55" "length (m_buffer d) = 64" "\<And>x. length (len_bytes x) = 8"
  shows "process_buffer process len_bytes d =
    (let buf = take n (m_buffer d) @ [128] @ replicate (55 - n) 0 @ len_bytes (8 * (m_numBytes d + of_nat n))
     in d\<lparr>m_hash := process (m_hash d) buf, m_buffer := buf\<rparr>)"
proof -
  have "take (Suc n) ((m_buffer d)[n := 128]) = take n (m_buffer d) @ [128]"
    using assms by (simp add: take_Suc_conv_app_nth)
  then have "foldl (\<lambda>b i. b[i := 0]) ((m_buffer d)[n := 128]) [Suc n..<64]
      = take n (m_buffer d) @ [128] @ replicate (63 - n) 0"
    using assms by (simp add: foldl_zero_eq)
  moreover have "56 - n = Suc (55 - n)" using assms by simp
  then have "take (56 - n) (128 # replicate (63 - n) (0::byte)) = 128 # replicate (55 - n) 0"
    by (simp add: min_absorb1)
  ultimately show ?thesis
    using assms by (simp add: process_buffer_def padded_length_eq store_at_eq Let_def)
qed

lemma process_buffer_long:
  assumes "m_bufferSize d = n" "55 < n" "n < 64" "length (m_buffer d) = 64" "\<And>x. length (len_bytes x) = 8"
  shows "process_buffer process len_bytes d =
    (let buf = take n (m_buffer d) @ [128] @ replicate (63 - n) 0
     in d\<lparr>m_hash := process (process (m_hash d) buf) (replicate 56 0 @ len_bytes (8 * (m_numBytes d + of_nat n))),
          m_buffer := buf\<rparr>)"
proof -
  have "take (Suc n) ((m_buffer d)[n := 128]) = take n (m_buffer d) @ [128]"
    using assms by (simp add: take_Suc_conv_app_nth)
  then have "foldl (\<lambda>b i. b[i := 0]) ((m_buffer d)[n := 128]) [Suc n..<64]
      = take n (m_buffer d) @ [128] @ replicate (63 - n) 0"
    using assms by (simp add: foldl_zero_eq)
  then show ?thesis
    using assms by (simp add: process_buffer_def padded_length_eq store_at_eq Let_def)
qed

lemma process_buffer_frame:
  assumes "m_bufferSize d < 64" "length (m_buffer d) = 64" "\<And>x. length (len_bytes x) = 8"
  shows "m_bufferSize (process_buffer process len_bytes d) = m_bufferSize d"
    and "m_numBytes (process_buffer process len_bytes d) = m_numBytes d"
    and "take (m_bufferSize d) (m_buffer (process_buffer process len_bytes d)) = take (m_bufferSize d) (m_buffer d)"
    and "length (m_buffer (process_buffer process len_bytes d)) = 64"
  using process_buffer_short [OF refl _ assms(2,3), of process] process_buffer_long [OF refl _ assms(1,2,3), of process] assms
  by (cases "m_bufferSize d \<le> 55"; simp add: Let_def)+

text \<open>
  A class that pads this way: \<open>getHash\<close> gives the hash of the padded message, and leaves the object
  as it was, so that it can be asked again and more can be added.
\<close>

locale padded_hash =
  block_hash process 64 for process :: "'w list \<Rightarrow> byte list \<Rightarrow> 'w list" +
  fixes len_bytes :: "64 word \<Rightarrow> byte list"
  assumes length_len_bytes: "length (len_bytes x) = 8"
begin

lemma process_buffer_hash:
  assumes "absorbed process 64 h0 msg d" "length (m_buffer d) = 64"
  shows "m_hash (process_buffer process len_bytes d) = foldl process h0 (chunks 64 (padded len_bytes msg))"
proof -
  let ?f = "length msg div 64 * 64" and ?n = "length msg mod 64"
  let ?full = "take ?f msg" and ?rest = "drop ?f msg"
  have a: "m_hash d = foldl process h0 (chunks 64 msg)" "m_numBytes d = of_nat ?f" "m_bufferSize d = ?n"
    "take ?n (m_buffer d) = ?rest"
    using assms(1) by (simp_all add: absorbed_def Let_def)
  have n: "?n < 64" "length ?full = ?f" "length ?rest = ?n"
    by (simp_all add: min_absorb2 minus_div_mult_eq_mod)
  have bits: "8 * (m_numBytes d + of_nat ?n) = of_nat (8 * length msg)"
  proof -
    have "length msg = ?f + ?n" by simp
    then have "(of_nat (8 * length msg) :: 64 word) = 8 * (of_nat ?f + of_nat ?n)"
      by (metis of_nat_add of_nat_mult of_nat_numeral)
    then show ?thesis using a(2) by simp
  qed
  have cut: "chunks 64 (?full @ xs) = chunks 64 ?full @ chunks 64 xs" for xs
    by (rule chunks_append) (use n in simp_all)
  have full: "m_hash d = foldl process h0 (chunks 64 ?full)"
    using cut [of ?rest] n a(1) by simp
  show ?thesis
  proof (cases "?n \<le> 55")
    case True
    then have z: "(119 - ?n) mod 64 = 55 - ?n" by (rule zeros_short)
    let ?b = "?rest @ [128] @ replicate (55 - ?n) 0 @ len_bytes (of_nat (8 * length msg))"
    have "padded len_bytes msg = ?full @ ?b" using z by (simp add: padded_def)
    moreover have "chunks 64 ?b = [?b]"
      using chunks_block [of 64 ?b "[]"] n True length_len_bytes by simp
    ultimately show ?thesis
      using process_buffer_short [OF a(3) True assms(2), where len_bytes = len_bytes] a(4) bits
      by (simp add: length_len_bytes Let_def full cut del: append_Cons append_assoc)
  next
    case False
    then have z: "(119 - ?n) mod 64 = 119 - ?n" by (intro zeros_long) simp
    let ?b = "?rest @ [128] @ replicate (63 - ?n) 0"
    let ?e = "replicate 56 0 @ len_bytes (of_nat (8 * length msg))"
    have "119 - ?n = (63 - ?n) + 56" using False n by simp
    then have "replicate (119 - ?n) (0::byte) = replicate (63 - ?n) 0 @ replicate 56 0"
      by (simp only: replicate_add)
    then have "padded len_bytes msg = ?full @ ?b @ ?e"
      unfolding padded_def z by (metis append.assoc append_take_drop_id)
    moreover have "chunks 64 (?b @ ?e) = [?b, ?e]"
      using chunks_block [of 64 ?b ?e] chunks_block [of 64 ?e "[]"] n False length_len_bytes by simp
    ultimately show ?thesis
      using process_buffer_long [OF a(3) _ n(1) assms(2), where len_bytes = len_bytes] False a(4) bits
      by (simp add: length_len_bytes Let_def full cut del: append_Cons append_assoc)
  qed
qed

lemma process_buffer_keeps:
  assumes "absorbed process 64 h0 msg d" "length (m_buffer d) = 64"
  shows "absorbed process 64 h0 msg ((process_buffer process len_bytes d)\<lparr>m_hash := m_hash d\<rparr>)"
    and "length (m_buffer (process_buffer process len_bytes d)) = 64"
proof -
  have n: "m_bufferSize d < 64" using absorbed_bounds [OF assms(1)] by simp
  note f = process_buffer_frame [OF n assms(2) length_len_bytes, of process]
  have d: "m_bufferSize d = length msg mod 64" using assms(1) by (simp add: absorbed_def Let_def)
  show "absorbed process 64 h0 msg ((process_buffer process len_bytes d)\<lparr>m_hash := m_hash d\<rparr>)"
    using assms(1) f d unfolding absorbed_def Let_def by simp
  show "length (m_buffer (process_buffer process len_bytes d)) = 64" by (rule f)
qed

text \<open>The whole contract: any sequence of \<open>add\<close> and \<open>getHash\<close>.\<close>

lemma get_hash_value:
  assumes "absorbed process 64 h0 msg d" "length (m_buffer d) = 64"
  shows "fst (get_hash process len_bytes word_bytes d)
         = concat (map word_bytes (foldl process h0 (chunks 64 (padded len_bytes msg))))"
    and "absorbed process 64 h0 msg (snd (get_hash process len_bytes word_bytes d))"
    and "length (m_buffer (snd (get_hash process len_bytes word_bytes d))) = 64"
  using process_buffer_hash [OF assms] process_buffer_keeps [OF assms] by (simp_all add: get_hash_def Let_def)

end

end
