(* ===== verification/HashObject.thy ===== *)
theory HashObject
  imports HashCore
begin

text \<open>
  The interface of a hash class as its users see it (\<open>src/hashlibrary/hash.h\<close>): \<open>reset\<close>, \<open>add\<close> and
  \<open>getHash\<close> in any order. The locale \<open>hash_object\<close> states the contract of one class; the classes
  interpret it in their own theories. \<open>hmac\<close> (\<open>src/hashlibrary/hmac.h\<close>) is a client: it is a template
  over the class, and it is proved once here to be the HMAC of RFC 2104.
\<close>

section \<open>A sequence of calls\<close>

datatype hash_op = Op_reset | Op_add "byte list" | Op_get

text \<open>The outputs of the calls of \<open>getHash\<close>, for an object and for the mathematical hash function.\<close>

fun run_object ::
    "('d \<Rightarrow> 'd) \<Rightarrow> (byte list \<Rightarrow> 'd \<Rightarrow> 'd) \<Rightarrow> ('d \<Rightarrow> 'o \<times> 'd) \<Rightarrow> hash_op list \<Rightarrow> 'd \<Rightarrow> 'o list" where
  "run_object reset add get [] d = []"
| "run_object reset add get (Op_reset # ops) d = run_object reset add get ops (reset d)"
| "run_object reset add get (Op_add xs # ops) d = run_object reset add get ops (add xs d)"
| "run_object reset add get (Op_get # ops) d = fst (get d) # run_object reset add get ops (snd (get d))"

fun spec_object :: "(byte list \<Rightarrow> 'o) \<Rightarrow> hash_op list \<Rightarrow> byte list \<Rightarrow> 'o list" where
  "spec_object H [] msg = []"
| "spec_object H (Op_reset # ops) msg = spec_object H ops []"
| "spec_object H (Op_add xs # ops) msg = spec_object H ops (msg @ xs)"
| "spec_object H (Op_get # ops) msg = H msg # spec_object H ops msg"

section \<open>HMAC\<close>

definition hmac ::
    "nat \<Rightarrow> 'd \<Rightarrow> ('d \<Rightarrow> 'd) \<Rightarrow> (byte list \<Rightarrow> 'd \<Rightarrow> 'd) \<Rightarrow> ('d \<Rightarrow> byte list \<times> 'd) \<Rightarrow> ('d \<Rightarrow> string \<times> 'd)
     \<Rightarrow> byte list \<Rightarrow> byte list \<Rightarrow> string" where
  "hmac BlockSize fresh reset add getHash getHash_hex data key =
     (let usedKey = replicate BlockSize 0;
          usedKey = (if length key \<le> BlockSize then store_at usedKey 0 key
                     else store_at usedKey 0 (fst (getHash (add key (reset fresh)))));
          usedKey = map (\<lambda>x. x XOR 0x36) usedKey;
          inside = fst (getHash (add data (add usedKey (reset fresh))));
          usedKey = map (\<lambda>x. x XOR (0x5C XOR 0x36)) usedKey
      in fst (getHash_hex (add inside (add usedKey (reset fresh)))))"

text \<open>RFC 2104 for the hash function \<open>H\<close> with blocks of \<open>b\<close> bytes.\<close>

definition rfc2104_key :: "(byte list \<Rightarrow> byte list) \<Rightarrow> nat \<Rightarrow> byte list \<Rightarrow> byte list" where
  "rfc2104_key H b key = (let k = (if length key \<le> b then key else H key) in k @ replicate (b - length k) 0)"

definition rfc2104 :: "(byte list \<Rightarrow> byte list) \<Rightarrow> nat \<Rightarrow> byte list \<Rightarrow> byte list \<Rightarrow> byte list" where
  "rfc2104 H b key text =
     (let k = rfc2104_key H b key; ipad = replicate b 0x36; opad = replicate b 0x5C
      in H (map2 (XOR) k opad @ H (map2 (XOR) k ipad @ text)))"

section \<open>The contract\<close>

locale hash_object =
  fixes holds :: "byte list \<Rightarrow> 'd \<Rightarrow> bool"
    and reset :: "'d \<Rightarrow> 'd" and add :: "byte list \<Rightarrow> 'd \<Rightarrow> 'd"
    and get :: "'d \<Rightarrow> 'o \<times> 'd" and H :: "byte list \<Rightarrow> 'o"
    and raw :: "'d \<Rightarrow> bool"
  assumes reset_holds: "raw d \<Longrightarrow> holds [] (reset d)"
    and holds_raw: "holds msg d \<Longrightarrow> raw d"
    and add_holds: "holds msg d \<Longrightarrow> holds (msg @ xs) (add xs d)"
    and get_value: "holds msg d \<Longrightarrow> fst (get d) = H msg"
    and get_holds: "holds msg d \<Longrightarrow> holds msg (snd (get d))"
begin

lemma object_refines: "holds msg d \<Longrightarrow> run_object reset add get ops d = spec_object H ops msg"
proof (induction ops arbitrary: msg d)
  case (Cons op ops)
  then show ?case
    by (cases op) (auto simp: get_value intro: reset_holds holds_raw add_holds get_holds)
qed simp

lemma object_from_start:
  "raw d \<Longrightarrow> run_object reset add get ops (reset d) = spec_object H ops []"
  by (rule object_refines) (rule reset_holds)

lemma one_shot: "raw d \<Longrightarrow> fst (get (add xs (reset d))) = H xs"
  using get_value [OF add_holds [OF reset_holds]] by force

lemma two_adds: "raw d \<Longrightarrow> fst (get (add ys (add xs (reset d)))) = H (xs @ ys)"
  using get_value [OF add_holds [OF add_holds [OF reset_holds]]] by force

lemma adds_holds: "holds msg d \<Longrightarrow> holds (msg @ concat xss) (foldl (\<lambda>d xs. add xs d) d xss)"
proof (induction xss arbitrary: msg d)
  case (Cons xs xss)
  then show ?case using Cons.IH [OF add_holds [OF Cons.prems, of xs]] by simp
qed simp

lemma any_pieces: "raw d \<Longrightarrow> fst (get (foldl (\<lambda>d xs. add xs d) (reset d) xss)) = H (concat xss)"
  using get_value [OF adds_holds [OF reset_holds]] by force

end

text \<open>A class that \<open>hmac\<close> can be used with: its raw hash fits into a block.\<close>

lemma length_store_at [simp]: "length (store_at b i xs) = length b"
  by (induction b i xs rule: store_at.induct) simp_all

lemma map_xor_eq: "length k = b \<Longrightarrow> map2 (XOR) k (replicate b (c::byte)) = map (\<lambda>x. x XOR c) k"
  by (induction k arbitrary: b) auto

locale keyed_hash =
  hash_object holds reset add get H raw
  for holds and reset :: "'d \<Rightarrow> 'd" and add and get :: "'d \<Rightarrow> byte list \<times> 'd" and H and raw +
  fixes b :: nat
  assumes hash_fits: "length (H msg) \<le> b"
begin

lemma hmac_eq:
  assumes "raw fresh" "\<And>d. get_hex d = map_prod f id (get d)"
  shows "hmac b fresh reset add get get_hex text key = f (rfc2104 H b key text)"
proof -
  let ?k = "rfc2104_key H b key"
  have k: "(if length key \<le> b then store_at (replicate b 0) 0 key
            else store_at (replicate b 0) 0 (fst (get (add key (reset fresh))))) = ?k"
    using hash_fits by (simp add: one_shot [OF assms(1)] rfc2104_key_def store_at_eq Let_def)
  have len: "length ?k = b"
    using hash_fits [of key] by (simp add: rfc2104_key_def Let_def)
  have xx: "map (\<lambda>x. x XOR (0x5C XOR 0x36)) (map (\<lambda>x. x XOR 0x36) ys) = map (\<lambda>x. x XOR 0x5C) ys" for ys :: "byte list"
    by (induction ys) (simp_all add: xor.assoc)
  show ?thesis
    unfolding hmac_def k Let_def xx rfc2104_def
    by (simp add: map_xor_eq [OF len] two_adds [OF assms(1)] assms(2))
qed

end

end
