(* ===== verification/Md5.thy ===== *)
theory Md5
  imports HashObject
begin

text \<open>
  The class \<open>MD5\<close> (\<open>src/hashlibrary/md5.cpp\<close>). \<open>MD5_processBlock\<close> is the unrolled code; \<open>md5_block\<close>
  is the loop of RFC 1321, and the two are equal. The object is the streaming form of MD5.
\<close>

definition MD5_BlockSize :: nat where "MD5_BlockSize = 64"

definition MD5_reset :: "u32 list digest \<Rightarrow> u32 list digest" where
  "MD5_reset d = d\<lparr>m_numBytes := 0, m_bufferSize := 0,
     m_hash := [0x67452301, 0xefcdab89, 0x98badcfe, 0x10325476]\<rparr>"

definition MD5_f1 :: "u32 \<Rightarrow> u32 \<Rightarrow> u32 \<Rightarrow> u32" where
  "MD5_f1 b c d = d XOR (b AND (c XOR d))"

definition MD5_f2 :: "u32 \<Rightarrow> u32 \<Rightarrow> u32 \<Rightarrow> u32" where
  "MD5_f2 b c d = c XOR (d AND (b XOR c))"

definition MD5_f3 :: "u32 \<Rightarrow> u32 \<Rightarrow> u32 \<Rightarrow> u32" where
  "MD5_f3 b c d = b XOR c XOR d"

definition MD5_f4 :: "u32 \<Rightarrow> u32 \<Rightarrow> u32 \<Rightarrow> u32" where
  "MD5_f4 b c d = c XOR (b OR NOT d)"

definition MD5_rotate :: "u32 \<Rightarrow> nat \<Rightarrow> u32" where
  "MD5_rotate a c = push_bit c a OR drop_bit (32 - c) a"

definition MD5_processBlock :: "u32 list \<Rightarrow> byte list \<Rightarrow> u32 list" where
  "MD5_processBlock h data =
     (let a = h ! 0;
          b = h ! 1;
          c = h ! 2;
          d = h ! 3;
          word0 = word32_at data 0;
          a = MD5_rotate (a + MD5_f1 b c d + word0 + 0xd76aa478) 7 + b;
          word1 = word32_at data 1;
          d = MD5_rotate (d + MD5_f1 a b c + word1 + 0xe8c7b756) 12 + a;
          word2 = word32_at data 2;
          c = MD5_rotate (c + MD5_f1 d a b + word2 + 0x242070db) 17 + d;
          word3 = word32_at data 3;
          b = MD5_rotate (b + MD5_f1 c d a + word3 + 0xc1bdceee) 22 + c;
          word4 = word32_at data 4;
          a = MD5_rotate (a + MD5_f1 b c d + word4 + 0xf57c0faf) 7 + b;
          word5 = word32_at data 5;
          d = MD5_rotate (d + MD5_f1 a b c + word5 + 0x4787c62a) 12 + a;
          word6 = word32_at data 6;
          c = MD5_rotate (c + MD5_f1 d a b + word6 + 0xa8304613) 17 + d;
          word7 = word32_at data 7;
          b = MD5_rotate (b + MD5_f1 c d a + word7 + 0xfd469501) 22 + c;
          word8 = word32_at data 8;
          a = MD5_rotate (a + MD5_f1 b c d + word8 + 0x698098d8) 7 + b;
          word9 = word32_at data 9;
          d = MD5_rotate (d + MD5_f1 a b c + word9 + 0x8b44f7af) 12 + a;
          word10 = word32_at data 10;
          c = MD5_rotate (c + MD5_f1 d a b + word10 + 0xffff5bb1) 17 + d;
          word11 = word32_at data 11;
          b = MD5_rotate (b + MD5_f1 c d a + word11 + 0x895cd7be) 22 + c;
          word12 = word32_at data 12;
          a = MD5_rotate (a + MD5_f1 b c d + word12 + 0x6b901122) 7 + b;
          word13 = word32_at data 13;
          d = MD5_rotate (d + MD5_f1 a b c + word13 + 0xfd987193) 12 + a;
          word14 = word32_at data 14;
          c = MD5_rotate (c + MD5_f1 d a b + word14 + 0xa679438e) 17 + d;
          word15 = word32_at data 15;
          b = MD5_rotate (b + MD5_f1 c d a + word15 + 0x49b40821) 22 + c;
          a = MD5_rotate (a + MD5_f2 b c d + word1 + 0xf61e2562) 5 + b;
          d = MD5_rotate (d + MD5_f2 a b c + word6 + 0xc040b340) 9 + a;
          c = MD5_rotate (c + MD5_f2 d a b + word11 + 0x265e5a51) 14 + d;
          b = MD5_rotate (b + MD5_f2 c d a + word0 + 0xe9b6c7aa) 20 + c;
          a = MD5_rotate (a + MD5_f2 b c d + word5 + 0xd62f105d) 5 + b;
          d = MD5_rotate (d + MD5_f2 a b c + word10 + 0x02441453) 9 + a;
          c = MD5_rotate (c + MD5_f2 d a b + word15 + 0xd8a1e681) 14 + d;
          b = MD5_rotate (b + MD5_f2 c d a + word4 + 0xe7d3fbc8) 20 + c;
          a = MD5_rotate (a + MD5_f2 b c d + word9 + 0x21e1cde6) 5 + b;
          d = MD5_rotate (d + MD5_f2 a b c + word14 + 0xc33707d6) 9 + a;
          c = MD5_rotate (c + MD5_f2 d a b + word3 + 0xf4d50d87) 14 + d;
          b = MD5_rotate (b + MD5_f2 c d a + word8 + 0x455a14ed) 20 + c;
          a = MD5_rotate (a + MD5_f2 b c d + word13 + 0xa9e3e905) 5 + b;
          d = MD5_rotate (d + MD5_f2 a b c + word2 + 0xfcefa3f8) 9 + a;
          c = MD5_rotate (c + MD5_f2 d a b + word7 + 0x676f02d9) 14 + d;
          b = MD5_rotate (b + MD5_f2 c d a + word12 + 0x8d2a4c8a) 20 + c;
          a = MD5_rotate (a + MD5_f3 b c d + word5 + 0xfffa3942) 4 + b;
          d = MD5_rotate (d + MD5_f3 a b c + word8 + 0x8771f681) 11 + a;
          c = MD5_rotate (c + MD5_f3 d a b + word11 + 0x6d9d6122) 16 + d;
          b = MD5_rotate (b + MD5_f3 c d a + word14 + 0xfde5380c) 23 + c;
          a = MD5_rotate (a + MD5_f3 b c d + word1 + 0xa4beea44) 4 + b;
          d = MD5_rotate (d + MD5_f3 a b c + word4 + 0x4bdecfa9) 11 + a;
          c = MD5_rotate (c + MD5_f3 d a b + word7 + 0xf6bb4b60) 16 + d;
          b = MD5_rotate (b + MD5_f3 c d a + word10 + 0xbebfbc70) 23 + c;
          a = MD5_rotate (a + MD5_f3 b c d + word13 + 0x289b7ec6) 4 + b;
          d = MD5_rotate (d + MD5_f3 a b c + word0 + 0xeaa127fa) 11 + a;
          c = MD5_rotate (c + MD5_f3 d a b + word3 + 0xd4ef3085) 16 + d;
          b = MD5_rotate (b + MD5_f3 c d a + word6 + 0x04881d05) 23 + c;
          a = MD5_rotate (a + MD5_f3 b c d + word9 + 0xd9d4d039) 4 + b;
          d = MD5_rotate (d + MD5_f3 a b c + word12 + 0xe6db99e5) 11 + a;
          c = MD5_rotate (c + MD5_f3 d a b + word15 + 0x1fa27cf8) 16 + d;
          b = MD5_rotate (b + MD5_f3 c d a + word2 + 0xc4ac5665) 23 + c;
          a = MD5_rotate (a + MD5_f4 b c d + word0 + 0xf4292244) 6 + b;
          d = MD5_rotate (d + MD5_f4 a b c + word7 + 0x432aff97) 10 + a;
          c = MD5_rotate (c + MD5_f4 d a b + word14 + 0xab9423a7) 15 + d;
          b = MD5_rotate (b + MD5_f4 c d a + word5 + 0xfc93a039) 21 + c;
          a = MD5_rotate (a + MD5_f4 b c d + word12 + 0x655b59c3) 6 + b;
          d = MD5_rotate (d + MD5_f4 a b c + word3 + 0x8f0ccc92) 10 + a;
          c = MD5_rotate (c + MD5_f4 d a b + word10 + 0xffeff47d) 15 + d;
          b = MD5_rotate (b + MD5_f4 c d a + word1 + 0x85845dd1) 21 + c;
          a = MD5_rotate (a + MD5_f4 b c d + word8 + 0x6fa87e4f) 6 + b;
          d = MD5_rotate (d + MD5_f4 a b c + word15 + 0xfe2ce6e0) 10 + a;
          c = MD5_rotate (c + MD5_f4 d a b + word6 + 0xa3014314) 15 + d;
          b = MD5_rotate (b + MD5_f4 c d a + word13 + 0x4e0811a1) 21 + c;
          a = MD5_rotate (a + MD5_f4 b c d + word4 + 0xf7537e82) 6 + b;
          d = MD5_rotate (d + MD5_f4 a b c + word11 + 0xbd3af235) 10 + a;
          c = MD5_rotate (c + MD5_f4 d a b + word2 + 0x2ad7d2bb) 15 + d;
          b = MD5_rotate (b + MD5_f4 c d a + word9 + 0xeb86d391) 21 + c
      in [h ! 0 + a, h ! 1 + b, h ! 2 + c, h ! 3 + d])"

definition MD5_add :: "byte list \<Rightarrow> u32 list digest \<Rightarrow> u32 list digest" where
  "MD5_add = hash_add MD5_processBlock MD5_BlockSize"

definition MD5_processBuffer :: "u32 list digest \<Rightarrow> u32 list digest" where
  "MD5_processBuffer = process_buffer MD5_processBlock bytes_le64"

text \<open>The two overloads of \<open>getHash\<close>: raw bytes, and the hexadecimal string.\<close>

definition MD5_getHash :: "u32 list digest \<Rightarrow> byte list \<times> u32 list digest" where
  "MD5_getHash = get_hash MD5_processBlock bytes_le64 bytes_le32"

definition MD5_getHash_hex :: "u32 list digest \<Rightarrow> string \<times> u32 list digest" where
  "MD5_getHash_hex d = (let (rawHash, d) = MD5_getHash d in (hex_string rawHash, d))"

definition MD5_compute :: "byte list \<Rightarrow> u32 list digest \<Rightarrow> string \<times> u32 list digest" where
  "MD5_compute data d = MD5_getHash_hex (MD5_add data (MD5_reset d))"

section \<open>RFC 1321\<close>

text \<open>The parameters of step \<open>i\<close>: the round, the index of the word, the shift and the constant.\<close>

definition md5_K :: "u32 list" where
  "md5_K = [
     0xd76aa478, 0xe8c7b756, 0x242070db, 0xc1bdceee, 0xf57c0faf, 0x4787c62a, 0xa8304613, 0xfd469501,
     0x698098d8, 0x8b44f7af, 0xffff5bb1, 0x895cd7be, 0x6b901122, 0xfd987193, 0xa679438e, 0x49b40821,
     0xf61e2562, 0xc040b340, 0x265e5a51, 0xe9b6c7aa, 0xd62f105d, 0x02441453, 0xd8a1e681, 0xe7d3fbc8,
     0x21e1cde6, 0xc33707d6, 0xf4d50d87, 0x455a14ed, 0xa9e3e905, 0xfcefa3f8, 0x676f02d9, 0x8d2a4c8a,
     0xfffa3942, 0x8771f681, 0x6d9d6122, 0xfde5380c, 0xa4beea44, 0x4bdecfa9, 0xf6bb4b60, 0xbebfbc70,
     0x289b7ec6, 0xeaa127fa, 0xd4ef3085, 0x04881d05, 0xd9d4d039, 0xe6db99e5, 0x1fa27cf8, 0xc4ac5665,
     0xf4292244, 0x432aff97, 0xab9423a7, 0xfc93a039, 0x655b59c3, 0x8f0ccc92, 0xffeff47d, 0x85845dd1,
     0x6fa87e4f, 0xfe2ce6e0, 0xa3014314, 0x4e0811a1, 0xf7537e82, 0xbd3af235, 0x2ad7d2bb, 0xeb86d391]"

definition md5_step_params :: "nat \<Rightarrow> nat \<times> nat \<times> nat \<times> u32" where
  "md5_step_params i = (i div 16,
     [i, 5 * i + 1, 3 * i + 5, 7 * i] ! (i div 16) mod 16,
     [[7, 12, 17, 22], [5, 9, 14, 20], [4, 11, 16, 23], [6, 10, 15, 21]] ! (i div 16) ! (i mod 4),
     md5_K ! i)"

definition md5_F :: "nat \<Rightarrow> u32 \<Rightarrow> u32 \<Rightarrow> u32 \<Rightarrow> u32" where
  "md5_F r x y z =
     (if r = 0 then (x AND y) OR (NOT x AND z)
      else if r = 1 then (x AND z) OR (y AND NOT z)
      else if r = 2 then x XOR y XOR z
      else y XOR (x OR NOT z))"

fun md5_step :: "byte list \<Rightarrow> u32 \<times> u32 \<times> u32 \<times> u32 \<Rightarrow> nat \<times> nat \<times> nat \<times> u32 \<Rightarrow> u32 \<times> u32 \<times> u32 \<times> u32" where
  "md5_step block (a, b, c, d) (r, g, s, k) =
     (d, word_rotl s (a + md5_F r b c d + word32_at block g + k) + b, b, c)"

fun md5_sum :: "u32 list \<Rightarrow> u32 \<times> u32 \<times> u32 \<times> u32 \<Rightarrow> u32 list" where
  "md5_sum h (a, b, c, d) = [h ! 0 + a, h ! 1 + b, h ! 2 + c, h ! 3 + d]"

definition md5_block :: "u32 list \<Rightarrow> byte list \<Rightarrow> u32 list" where
  "md5_block h block =
     md5_sum h (foldl (md5_step block) (h ! 0, h ! 1, h ! 2, h ! 3) (map md5_step_params [0..<64]))"

section \<open>The unrolled code is the loop of the RFC\<close>

lemma MD5_f1_eq: "MD5_f1 b c d = md5_F 0 b c d"
  unfolding MD5_f1_def md5_F_def by (rule bit_word_eqI) (auto simp: bit_simps)

lemma MD5_f2_eq: "MD5_f2 b c d = md5_F 1 b c d"
  unfolding MD5_f2_def md5_F_def by (rule bit_word_eqI) (auto simp: bit_simps)

lemma MD5_f3_eq: "MD5_f3 b c d = md5_F 2 b c d"
  by (simp add: MD5_f3_def md5_F_def)

lemma MD5_f4_eq: "MD5_f4 b c d = md5_F 3 b c d"
  by (simp add: MD5_f4_def md5_F_def)

lemma MD5_rotate_eq: "s < 32 \<Longrightarrow> MD5_rotate x s = word_rotl s x"
  using rotate_left_eq [of s x] by (simp add: MD5_rotate_def)

lemma md5_schedule: "map md5_step_params [0..<64] = [(0, 0, 7, 0xd76aa478), (0, 1, 12, 0xe8c7b756), (0, 2, 17, 0x242070db), (0, 3, 22, 0xc1bdceee), (0, 4, 7, 0xf57c0faf), (0, 5, 12, 0x4787c62a), (0, 6, 17, 0xa8304613), (0, 7, 22, 0xfd469501), (0, 8, 7, 0x698098d8), (0, 9, 12, 0x8b44f7af), (0, 10, 17, 0xffff5bb1), (0, 11, 22, 0x895cd7be), (0, 12, 7, 0x6b901122), (0, 13, 12, 0xfd987193), (0, 14, 17, 0xa679438e), (0, 15, 22, 0x49b40821), (1, 1, 5, 0xf61e2562), (1, 6, 9, 0xc040b340), (1, 11, 14, 0x265e5a51), (1, 0, 20, 0xe9b6c7aa), (1, 5, 5, 0xd62f105d), (1, 10, 9, 0x02441453), (1, 15, 14, 0xd8a1e681), (1, 4, 20, 0xe7d3fbc8), (1, 9, 5, 0x21e1cde6), (1, 14, 9, 0xc33707d6), (1, 3, 14, 0xf4d50d87), (1, 8, 20, 0x455a14ed), (1, 13, 5, 0xa9e3e905), (1, 2, 9, 0xfcefa3f8), (1, 7, 14, 0x676f02d9), (1, 12, 20, 0x8d2a4c8a), (2, 5, 4, 0xfffa3942), (2, 8, 11, 0x8771f681), (2, 11, 16, 0x6d9d6122), (2, 14, 23, 0xfde5380c), (2, 1, 4, 0xa4beea44), (2, 4, 11, 0x4bdecfa9), (2, 7, 16, 0xf6bb4b60), (2, 10, 23, 0xbebfbc70), (2, 13, 4, 0x289b7ec6), (2, 0, 11, 0xeaa127fa), (2, 3, 16, 0xd4ef3085), (2, 6, 23, 0x04881d05), (2, 9, 4, 0xd9d4d039), (2, 12, 11, 0xe6db99e5), (2, 15, 16, 0x1fa27cf8), (2, 2, 23, 0xc4ac5665), (3, 0, 6, 0xf4292244), (3, 7, 10, 0x432aff97), (3, 14, 15, 0xab9423a7), (3, 5, 21, 0xfc93a039), (3, 12, 6, 0x655b59c3), (3, 3, 10, 0x8f0ccc92), (3, 10, 15, 0xffeff47d), (3, 1, 21, 0x85845dd1), (3, 8, 6, 0x6fa87e4f), (3, 15, 10, 0xfe2ce6e0), (3, 6, 15, 0xa3014314), (3, 13, 21, 0x4e0811a1), (3, 4, 6, 0xf7537e82), (3, 11, 10, 0xbd3af235), (3, 2, 15, 0x2ad7d2bb), (3, 9, 21, 0xeb86d391)]"
  by (simp add: upt_rec md5_step_params_def md5_K_def)

text \<open>One step of the loop as a \<open>let\<close> of the code, for each of the four rounds.\<close>

lemma md5_step_let:
  "s < 32 \<Longrightarrow> foldl (md5_step blk) (a, b, c, d) ((0, g, s, k) # ps) =
     (let x = MD5_rotate (a + MD5_f1 b c d + word32_at blk g + k) s + b in foldl (md5_step blk) (d, x, b, c) ps)"
  "s < 32 \<Longrightarrow> foldl (md5_step blk) (a, b, c, d) ((1, g, s, k) # ps) =
     (let x = MD5_rotate (a + MD5_f2 b c d + word32_at blk g + k) s + b in foldl (md5_step blk) (d, x, b, c) ps)"
  "s < 32 \<Longrightarrow> foldl (md5_step blk) (a, b, c, d) ((2, g, s, k) # ps) =
     (let x = MD5_rotate (a + MD5_f3 b c d + word32_at blk g + k) s + b in foldl (md5_step blk) (d, x, b, c) ps)"
  "s < 32 \<Longrightarrow> foldl (md5_step blk) (a, b, c, d) ((3, g, s, k) # ps) =
     (let x = MD5_rotate (a + MD5_f4 b c d + word32_at blk g + k) s + b in foldl (md5_step blk) (d, x, b, c) ps)"
  by (simp_all add: Let_def MD5_rotate_eq MD5_f1_eq MD5_f2_eq MD5_f3_eq MD5_f4_eq)

lemma md5_sum_let: "md5_sum h (Let x f) = Let x (\<lambda>y. md5_sum h (f y))"
  by (simp add: Let_def)

lemma let_word32_at: "Let (word32_at b i) f = f (word32_at b i)"
  by (simp add: Let_def)

lemma let_nth: "Let (xs ! i) f = f (xs ! i)"
  by (simp add: Let_def)

lemma md5_shifts: "(4::nat) < 32" "(5::nat) < 32" "(6::nat) < 32" "(7::nat) < 32" "(9::nat) < 32" "(10::nat) < 32"
  "(11::nat) < 32" "(12::nat) < 32" "(14::nat) < 32" "(15::nat) < 32" "(16::nat) < 32" "(17::nat) < 32"
  "(20::nat) < 32" "(21::nat) < 32" "(22::nat) < 32" "(23::nat) < 32"
  by simp_all

lemma MD5_processBlock_eq: "MD5_processBlock h block = md5_block h block"
  unfolding MD5_processBlock_def md5_block_def md5_schedule
  by (simp only: let_word32_at let_nth md5_step_let md5_shifts foldl.simps(1) md5_sum_let md5_sum.simps)

section \<open>The object computes MD5\<close>

definition md5_iv :: "u32 list" where
  "md5_iv = [0x67452301, 0xefcdab89, 0x98badcfe, 0x10325476]"

definition md5_digest :: "byte list \<Rightarrow> byte list" where
  "md5_digest msg = concat (map bytes_le32 (foldl md5_block md5_iv (chunks 64 (padded bytes_le64 msg))))"

lemma length_md5_block [simp]: "length (md5_block h b) = 4"
  by (cases "foldl (md5_step b) (h ! 0, h ! 1, h ! 2, h ! 3) (map md5_step_params [0..<64])")
     (simp add: md5_block_def)

lemma length_md5_digest: "length (md5_digest msg) = 16"
proof -
  have "length (foldl md5_block h bs) = 4" if "length h = 4" for h bs
    using that by (induction bs arbitrary: h) simp_all
  then have "length (foldl md5_block md5_iv (chunks 64 (padded bytes_le64 msg))) = 4"
    by (simp add: md5_iv_def)
  then show ?thesis
    by (simp add: md5_digest_def length_concat comp_def sum_list_triv)
qed

lemma MD5_processBlock_fun: "MD5_processBlock = md5_block"
  by (intro ext) (rule MD5_processBlock_eq)

interpretation md5_pad: padded_hash MD5_processBlock bytes_le64
  by unfold_locales simp_all

definition md5_holds :: "byte list \<Rightarrow> u32 list digest \<Rightarrow> bool" where
  "md5_holds msg d \<longleftrightarrow> absorbed MD5_processBlock 64 md5_iv msg d \<and> length (m_buffer d) = 64"

lemma MD5_reset_holds: "length (m_buffer d) = 64 \<Longrightarrow> md5_holds [] (MD5_reset d)"
  unfolding md5_holds_def
  by (auto simp: MD5_reset_def md5_iv_def intro: md5_pad.absorbed_start)

lemma MD5_add_holds: "md5_holds msg d \<Longrightarrow> md5_holds (msg @ xs) (MD5_add xs d)"
  unfolding md5_holds_def MD5_add_def MD5_BlockSize_def by (simp add: md5_pad.absorbed_add)

lemma MD5_getHash_holds:
  assumes "md5_holds msg d"
  shows "fst (MD5_getHash d) = md5_digest msg" "md5_holds msg (snd (MD5_getHash d))"
  using md5_pad.get_hash_value [where word_bytes = bytes_le32] assms
  unfolding md5_holds_def MD5_getHash_def md5_digest_def MD5_processBlock_fun by blast+

lemma MD5_getHash_hex_eq: "MD5_getHash_hex d = map_prod hex_string id (MD5_getHash d)"
  by (simp add: MD5_getHash_hex_def case_prod_beta map_prod_def)

interpretation md5: keyed_hash md5_holds MD5_reset MD5_add MD5_getHash md5_digest "\<lambda>d. length (m_buffer d) = 64" 64
  by unfold_locales
     (simp_all add: MD5_reset_holds MD5_add_holds MD5_getHash_holds length_md5_digest, simp add: md5_holds_def)

interpretation md5_hex: hash_object md5_holds MD5_reset MD5_add MD5_getHash_hex "hex_string \<circ> md5_digest"
    "\<lambda>d. length (m_buffer d) = 64"
  by unfold_locales
     (simp_all add: MD5_reset_holds MD5_add_holds MD5_getHash_holds MD5_getHash_hex_eq, simp add: md5_holds_def)

end
