(* ===== verification/Sha1.thy ===== *)
theory Sha1
  imports HashObject
begin

text \<open>
  The class \<open>SHA1\<close> (\<open>src/hashlibrary/sha1.cpp\<close>). The code takes five steps of the compression function
  in one pass of a loop, with the roles of the five variables rotated instead of their values;
  \<open>sha1_block\<close> is the loop of 80 steps of FIPS 180-4, and the two are equal.
\<close>

definition SHA1_BlockSize :: nat where "SHA1_BlockSize = 64"

definition SHA1_reset :: "u32 list digest \<Rightarrow> u32 list digest" where
  "SHA1_reset d = d\<lparr>m_numBytes := 0, m_bufferSize := 0,
     m_hash := [0x67452301, 0xefcdab89, 0x98badcfe, 0x10325476, 0xc3d2e1f0]\<rparr>"

definition SHA1_f1 :: "u32 \<Rightarrow> u32 \<Rightarrow> u32 \<Rightarrow> u32" where
  "SHA1_f1 b c d = d XOR (b AND (c XOR d))"

definition SHA1_f2 :: "u32 \<Rightarrow> u32 \<Rightarrow> u32 \<Rightarrow> u32" where
  "SHA1_f2 b c d = b XOR c XOR d"

definition SHA1_f3 :: "u32 \<Rightarrow> u32 \<Rightarrow> u32 \<Rightarrow> u32" where
  "SHA1_f3 b c d = (b AND c) OR (b AND d) OR (c AND d)"

definition SHA1_rotate :: "u32 \<Rightarrow> nat \<Rightarrow> u32" where
  "SHA1_rotate a c = push_bit c a OR drop_bit (32 - c) a"

text \<open>\<open>words[80]\<close>, filled in the order of the index.\<close>

definition SHA1_extend :: "u32 list \<Rightarrow> nat \<Rightarrow> u32 list" where
  "SHA1_extend words i =
     words @ [SHA1_rotate (words ! (i - 3) XOR words ! (i - 8) XOR words ! (i - 14) XOR words ! (i - 16)) 1]"

definition SHA1_words :: "byte list \<Rightarrow> u32 list" where
  "SHA1_words data = foldl SHA1_extend (map (\<lambda>i. swap32 (word32_at data i)) [0..<16]) [16..<80]"

type_synonym sha1_regs = "u32 \<times> u32 \<times> u32 \<times> u32 \<times> u32"

definition SHA1_round1 :: "u32 list \<Rightarrow> sha1_regs \<Rightarrow> nat \<Rightarrow> sha1_regs" where
  "SHA1_round1 words = (\<lambda>(a, b, c, d, e) i.
     (let offset = 5 * i;
          e = e + (SHA1_rotate a 5 + SHA1_f1 b c d + words ! offset + 0x5a827999); b = SHA1_rotate b 30;
          d = d + (SHA1_rotate e 5 + SHA1_f1 a b c + words ! (offset + 1) + 0x5a827999); a = SHA1_rotate a 30;
          c = c + (SHA1_rotate d 5 + SHA1_f1 e a b + words ! (offset + 2) + 0x5a827999); e = SHA1_rotate e 30;
          b = b + (SHA1_rotate c 5 + SHA1_f1 d e a + words ! (offset + 3) + 0x5a827999); d = SHA1_rotate d 30;
          a = a + (SHA1_rotate b 5 + SHA1_f1 c d e + words ! (offset + 4) + 0x5a827999); c = SHA1_rotate c 30
      in (a, b, c, d, e)))"

definition SHA1_round2 :: "u32 list \<Rightarrow> sha1_regs \<Rightarrow> nat \<Rightarrow> sha1_regs" where
  "SHA1_round2 words = (\<lambda>(a, b, c, d, e) i.
     (let offset = 5 * i;
          e = e + (SHA1_rotate a 5 + SHA1_f2 b c d + words ! offset + 0x6ed9eba1); b = SHA1_rotate b 30;
          d = d + (SHA1_rotate e 5 + SHA1_f2 a b c + words ! (offset + 1) + 0x6ed9eba1); a = SHA1_rotate a 30;
          c = c + (SHA1_rotate d 5 + SHA1_f2 e a b + words ! (offset + 2) + 0x6ed9eba1); e = SHA1_rotate e 30;
          b = b + (SHA1_rotate c 5 + SHA1_f2 d e a + words ! (offset + 3) + 0x6ed9eba1); d = SHA1_rotate d 30;
          a = a + (SHA1_rotate b 5 + SHA1_f2 c d e + words ! (offset + 4) + 0x6ed9eba1); c = SHA1_rotate c 30
      in (a, b, c, d, e)))"

definition SHA1_round3 :: "u32 list \<Rightarrow> sha1_regs \<Rightarrow> nat \<Rightarrow> sha1_regs" where
  "SHA1_round3 words = (\<lambda>(a, b, c, d, e) i.
     (let offset = 5 * i;
          e = e + (SHA1_rotate a 5 + SHA1_f3 b c d + words ! offset + 0x8f1bbcdc); b = SHA1_rotate b 30;
          d = d + (SHA1_rotate e 5 + SHA1_f3 a b c + words ! (offset + 1) + 0x8f1bbcdc); a = SHA1_rotate a 30;
          c = c + (SHA1_rotate d 5 + SHA1_f3 e a b + words ! (offset + 2) + 0x8f1bbcdc); e = SHA1_rotate e 30;
          b = b + (SHA1_rotate c 5 + SHA1_f3 d e a + words ! (offset + 3) + 0x8f1bbcdc); d = SHA1_rotate d 30;
          a = a + (SHA1_rotate b 5 + SHA1_f3 c d e + words ! (offset + 4) + 0x8f1bbcdc); c = SHA1_rotate c 30
      in (a, b, c, d, e)))"

definition SHA1_round4 :: "u32 list \<Rightarrow> sha1_regs \<Rightarrow> nat \<Rightarrow> sha1_regs" where
  "SHA1_round4 words = (\<lambda>(a, b, c, d, e) i.
     (let offset = 5 * i;
          e = e + (SHA1_rotate a 5 + SHA1_f2 b c d + words ! offset + 0xca62c1d6); b = SHA1_rotate b 30;
          d = d + (SHA1_rotate e 5 + SHA1_f2 a b c + words ! (offset + 1) + 0xca62c1d6); a = SHA1_rotate a 30;
          c = c + (SHA1_rotate d 5 + SHA1_f2 e a b + words ! (offset + 2) + 0xca62c1d6); e = SHA1_rotate e 30;
          b = b + (SHA1_rotate c 5 + SHA1_f2 d e a + words ! (offset + 3) + 0xca62c1d6); d = SHA1_rotate d 30;
          a = a + (SHA1_rotate b 5 + SHA1_f2 c d e + words ! (offset + 4) + 0xca62c1d6); c = SHA1_rotate c 30
      in (a, b, c, d, e)))"

definition SHA1_processBlock :: "u32 list \<Rightarrow> byte list \<Rightarrow> u32 list" where
  "SHA1_processBlock h data =
     (let words = SHA1_words data;
          regs = (h ! 0, h ! 1, h ! 2, h ! 3, h ! 4);
          regs = foldl (SHA1_round1 words) regs [0..<4];
          regs = foldl (SHA1_round2 words) regs [4..<8];
          regs = foldl (SHA1_round3 words) regs [8..<12];
          (a, b, c, d, e) = foldl (SHA1_round4 words) regs [12..<16]
      in [h ! 0 + a, h ! 1 + b, h ! 2 + c, h ! 3 + d, h ! 4 + e])"

definition SHA1_add :: "byte list \<Rightarrow> u32 list digest \<Rightarrow> u32 list digest" where
  "SHA1_add = hash_add SHA1_processBlock SHA1_BlockSize"

definition SHA1_processBuffer :: "u32 list digest \<Rightarrow> u32 list digest" where
  "SHA1_processBuffer = process_buffer SHA1_processBlock bytes_be64"

definition SHA1_getHash :: "u32 list digest \<Rightarrow> byte list \<times> u32 list digest" where
  "SHA1_getHash = get_hash SHA1_processBlock bytes_be64 bytes_be32"

definition SHA1_getHash_hex :: "u32 list digest \<Rightarrow> string \<times> u32 list digest" where
  "SHA1_getHash_hex d = (let (rawHash, d) = SHA1_getHash d in (hex_string rawHash, d))"

definition SHA1_compute :: "byte list \<Rightarrow> u32 list digest \<Rightarrow> string \<times> u32 list digest" where
  "SHA1_compute data d = SHA1_getHash_hex (SHA1_add data (SHA1_reset d))"

section \<open>FIPS 180-4\<close>

definition sha1_W :: "byte list \<Rightarrow> u32 list" where
  "sha1_W block = foldl (\<lambda>W t. W @ [word_rotl 1 (W ! (t - 3) XOR W ! (t - 8) XOR W ! (t - 14) XOR W ! (t - 16))])
     (map (word32_be block) [0..<16]) [16..<80]"

definition sha1_f :: "nat \<Rightarrow> u32 \<Rightarrow> u32 \<Rightarrow> u32 \<Rightarrow> u32" where
  "sha1_f r x y z =
     (if r = 0 then (x AND y) XOR (NOT x AND z)
      else if r = 2 then (x AND y) XOR (x AND z) XOR (y AND z)
      else x XOR y XOR z)"

definition sha1_K :: "u32 list" where
  "sha1_K = [0x5a827999, 0x6ed9eba1, 0x8f1bbcdc, 0xca62c1d6]"

fun sha1_step :: "sha1_regs \<Rightarrow> nat \<times> u32 \<Rightarrow> sha1_regs" where
  "sha1_step (a, b, c, d, e) (r, w) =
     (word_rotl 5 a + sha1_f r b c d + e + sha1_K ! r + w, a, word_rotl 30 b, c, d)"

fun sha1_sum :: "u32 list \<Rightarrow> sha1_regs \<Rightarrow> u32 list" where
  "sha1_sum h (a, b, c, d, e) = [h ! 0 + a, h ! 1 + b, h ! 2 + c, h ! 3 + d, h ! 4 + e]"

definition sha1_block :: "u32 list \<Rightarrow> byte list \<Rightarrow> u32 list" where
  "sha1_block h block =
     sha1_sum h (foldl sha1_step (h ! 0, h ! 1, h ! 2, h ! 3, h ! 4) (map (\<lambda>t. (t div 20, sha1_W block ! t)) [0..<80]))"

section \<open>The code is the loop of the standard\<close>

lemma SHA1_f1_eq: "SHA1_f1 b c d = sha1_f 0 b c d"
  unfolding SHA1_f1_def sha1_f_def by (rule bit_word_eqI) (auto simp: bit_simps)

lemma SHA1_f2_eq: "SHA1_f2 b c d = sha1_f 1 b c d" "SHA1_f2 b c d = sha1_f 3 b c d"
  by (simp_all add: SHA1_f2_def sha1_f_def)

lemma SHA1_f3_eq: "SHA1_f3 b c d = sha1_f 2 b c d"
  unfolding SHA1_f3_def sha1_f_def by (rule bit_word_eqI) (auto simp: bit_simps)

lemma SHA1_rotate_eq: "s < 32 \<Longrightarrow> SHA1_rotate x s = word_rotl s x"
  using rotate_left_eq [of s x] by (simp add: SHA1_rotate_def)

lemma SHA1_words_eq: "SHA1_words block = sha1_W block"
  unfolding SHA1_words_def sha1_W_def
  by (intro arg_cong2 [where f = "\<lambda>f x. foldl f x [16..<80]"] ext)
     (simp_all add: SHA1_extend_def SHA1_rotate_eq swap32_word32_at)

lemma sha1_step_let:
  "foldl sha1_step (a, b, c, d, e) ((0, w) # ps) =
     (let e = e + (SHA1_rotate a 5 + SHA1_f1 b c d + w + 0x5a827999); b = SHA1_rotate b 30
      in foldl sha1_step (e, a, b, c, d) ps)"
  "foldl sha1_step (a, b, c, d, e) ((1, w) # ps) =
     (let e = e + (SHA1_rotate a 5 + SHA1_f2 b c d + w + 0x6ed9eba1); b = SHA1_rotate b 30
      in foldl sha1_step (e, a, b, c, d) ps)"
  "foldl sha1_step (a, b, c, d, e) ((2, w) # ps) =
     (let e = e + (SHA1_rotate a 5 + SHA1_f3 b c d + w + 0x8f1bbcdc); b = SHA1_rotate b 30
      in foldl sha1_step (e, a, b, c, d) ps)"
  "foldl sha1_step (a, b, c, d, e) ((3, w) # ps) =
     (let e = e + (SHA1_rotate a 5 + SHA1_f2 b c d + w + 0xca62c1d6); b = SHA1_rotate b 30
      in foldl sha1_step (e, a, b, c, d) ps)"
  by (simp_all add: Let_def SHA1_rotate_eq SHA1_f1_eq SHA1_f2_eq [symmetric] SHA1_f3_eq sha1_K_def ac_simps)
     (simp_all add: SHA1_f2_def sha1_f_def ac_simps)

lemma let_five: "Let (5 * i :: nat) f = f (5 * i)"
  by (simp add: Let_def)

lemma SHA1_round_eq:
  "SHA1_round1 W st i = foldl sha1_step st (map (\<lambda>j. (0, W ! j)) [5 * i, 5 * i + 1, 5 * i + 2, 5 * i + 3, 5 * i + 4])"
  "SHA1_round2 W st i = foldl sha1_step st (map (\<lambda>j. (1, W ! j)) [5 * i, 5 * i + 1, 5 * i + 2, 5 * i + 3, 5 * i + 4])"
  "SHA1_round3 W st i = foldl sha1_step st (map (\<lambda>j. (2, W ! j)) [5 * i, 5 * i + 1, 5 * i + 2, 5 * i + 3, 5 * i + 4])"
  "SHA1_round4 W st i = foldl sha1_step st (map (\<lambda>j. (3, W ! j)) [5 * i, 5 * i + 1, 5 * i + 2, 5 * i + 3, 5 * i + 4])"
  by (cases st; simp only: SHA1_round1_def SHA1_round2_def SHA1_round3_def SHA1_round4_def prod.case list.map
        sha1_step_let let_five foldl.simps(1))+

lemma foldl_blocks:
  "foldl (\<lambda>st i. foldl f st (g i)) st xs = foldl f st (concat (map g xs))"
  by (induction xs arbitrary: st) simp_all

lemma sha1_schedule:
  fixes W :: "u32 list"
  defines "g \<equiv> \<lambda>r i. map (\<lambda>j. (r, W ! j)) [5 * i, 5 * i + 1, 5 * i + 2, 5 * i + 3, 5 * i + 4]"
  shows "map (\<lambda>t. (t div 20, W ! t)) [0..<80] =
    concat (map (g 0) [0..<4]) @ concat (map (g 1) [4..<8]) @ concat (map (g 2) [8..<12]) @ concat (map (g 3) [12..<16])"
proof -
  let ?h = "\<lambda>r i. map (Pair r) [5 * i, 5 * i + 1, 5 * i + 2, 5 * i + 3, 5 * i + 4]"
  have "map (\<lambda>t. (t div 20, t)) [0..<80] =
    concat (map (?h 0) [0..<4]) @ concat (map (?h 1) [4..<8]) @ concat (map (?h 2) [8..<12]) @ concat (map (?h (3::nat)) [12..<16])"
    by code_simp
  then have "map (\<lambda>(r, t). (r, W ! t)) (map (\<lambda>t. (t div 20, t)) [0..<80]) =
    map (\<lambda>(r, t). (r, W ! t)) (concat (map (?h 0) [0..<4]) @ concat (map (?h 1) [4..<8]) @ concat (map (?h 2) [8..<12])
      @ concat (map (?h 3) [12..<16]))"
    by (rule arg_cong)
  then show ?thesis
    by (simp only: map_map map_append map_concat comp_def prod.case g_def list.map)
qed

lemma SHA1_processBlock_eq: "SHA1_processBlock h block = sha1_block h block"
proof -
  let ?W = "sha1_W block"
  let ?g = "\<lambda>r i. map (\<lambda>j. (r, ?W ! j)) [5 * i, 5 * i + 1, 5 * i + 2, 5 * i + 3, 5 * i + 4]"
  have "map (\<lambda>t. (t div 20, ?W ! t)) [0..<80] =
      concat (map (?g 0) [0..<4]) @ concat (map (?g 1) [4..<8]) @ concat (map (?g 2) [8..<12]) @ concat (map (?g 3) [12..<16])"
    by (rule sha1_schedule)
  then have "foldl sha1_step (h ! 0, h ! 1, h ! 2, h ! 3, h ! 4) (map (\<lambda>t. (t div 20, ?W ! t)) [0..<80]) =
      foldl (SHA1_round4 ?W) (foldl (SHA1_round3 ?W) (foldl (SHA1_round2 ?W) (foldl (SHA1_round1 ?W)
        (h ! 0, h ! 1, h ! 2, h ! 3, h ! 4) [0..<4]) [4..<8]) [8..<12]) [12..<16]"
    by (simp only: foldl_append foldl_blocks [symmetric] SHA1_round_eq [abs_def])
  then show ?thesis
    by (simp only: SHA1_processBlock_def sha1_block_def SHA1_words_eq Let_def)
       (cases "foldl (SHA1_round4 ?W) (foldl (SHA1_round3 ?W) (foldl (SHA1_round2 ?W) (foldl (SHA1_round1 ?W)
        (h ! 0, h ! 1, h ! 2, h ! 3, h ! 4) [0..<4]) [4..<8]) [8..<12]) [12..<16]", simp)
qed

section \<open>The object computes SHA-1\<close>

definition sha1_iv :: "u32 list" where
  "sha1_iv = [0x67452301, 0xefcdab89, 0x98badcfe, 0x10325476, 0xc3d2e1f0]"

definition sha1_digest :: "byte list \<Rightarrow> byte list" where
  "sha1_digest msg = concat (map bytes_be32 (foldl sha1_block sha1_iv (chunks 64 (padded bytes_be64 msg))))"

lemma length_sha1_block [simp]: "length (sha1_block h b) = 5"
  by (cases "foldl sha1_step (h ! 0, h ! 1, h ! 2, h ! 3, h ! 4) (map (\<lambda>t. (t div 20, sha1_W b ! t)) [0..<80])")
     (simp add: sha1_block_def)

lemma length_sha1_digest: "length (sha1_digest msg) = 20"
proof -
  have "length (foldl sha1_block h bs) = 5" if "length h = 5" for h bs
    using that by (induction bs arbitrary: h) simp_all
  then have "length (foldl sha1_block sha1_iv (chunks 64 (padded bytes_be64 msg))) = 5"
    by (simp add: sha1_iv_def)
  then show ?thesis
    by (simp add: sha1_digest_def length_concat comp_def sum_list_triv)
qed

lemma SHA1_processBlock_fun: "SHA1_processBlock = sha1_block"
  by (intro ext) (rule SHA1_processBlock_eq)

interpretation sha1_pad: padded_hash SHA1_processBlock bytes_be64
  by unfold_locales simp_all

definition sha1_holds :: "byte list \<Rightarrow> u32 list digest \<Rightarrow> bool" where
  "sha1_holds msg d \<longleftrightarrow> absorbed SHA1_processBlock 64 sha1_iv msg d \<and> length (m_buffer d) = 64"

lemma SHA1_reset_holds: "length (m_buffer d) = 64 \<Longrightarrow> sha1_holds [] (SHA1_reset d)"
  unfolding sha1_holds_def
  by (auto simp: SHA1_reset_def sha1_iv_def intro: sha1_pad.absorbed_start)

lemma SHA1_add_holds: "sha1_holds msg d \<Longrightarrow> sha1_holds (msg @ xs) (SHA1_add xs d)"
  unfolding sha1_holds_def SHA1_add_def SHA1_BlockSize_def by (simp add: sha1_pad.absorbed_add)

lemma SHA1_getHash_holds:
  assumes "sha1_holds msg d"
  shows "fst (SHA1_getHash d) = sha1_digest msg" "sha1_holds msg (snd (SHA1_getHash d))"
  using sha1_pad.get_hash_value [where word_bytes = bytes_be32] assms
  unfolding sha1_holds_def SHA1_getHash_def sha1_digest_def SHA1_processBlock_fun by blast+

lemma SHA1_getHash_hex_eq: "SHA1_getHash_hex d = map_prod hex_string id (SHA1_getHash d)"
  by (simp add: SHA1_getHash_hex_def case_prod_beta map_prod_def)

interpretation sha1: keyed_hash sha1_holds SHA1_reset SHA1_add SHA1_getHash sha1_digest "\<lambda>d. length (m_buffer d) = 64" 64
  by unfold_locales
     (simp_all add: SHA1_reset_holds SHA1_add_holds SHA1_getHash_holds length_sha1_digest, simp add: sha1_holds_def)

interpretation sha1_hex: hash_object sha1_holds SHA1_reset SHA1_add SHA1_getHash_hex "hex_string \<circ> sha1_digest"
    "\<lambda>d. length (m_buffer d) = 64"
  by unfold_locales
     (simp_all add: SHA1_reset_holds SHA1_add_holds SHA1_getHash_holds SHA1_getHash_hex_eq, simp add: sha1_holds_def)

end
