(* ===== verification/Sha256.thy ===== *)
theory Sha256
  imports HashObject
begin

text \<open>
  The class \<open>SHA256\<close> (\<open>src/hashlibrary/sha256.cpp\<close>, built without \<open>SHA2_224_SEED_VECTOR\<close>). The code
  unrolls the 64 steps and extends the message schedule by eight words before every eight steps;
  \<open>sha256_block\<close> is the loop of FIPS 180-4, and the two are equal.
\<close>

definition SHA256_BlockSize :: nat where "SHA256_BlockSize = 64"

definition SHA256_reset :: "u32 list digest \<Rightarrow> u32 list digest" where
  "SHA256_reset d = d\<lparr>m_numBytes := 0, m_bufferSize := 0,
     m_hash := [0x6a09e667, 0xbb67ae85, 0x3c6ef372, 0xa54ff53a, 0x510e527f, 0x9b05688c, 0x1f83d9ab, 0x5be0cd19]\<rparr>"

definition SHA256_rotate :: "u32 \<Rightarrow> nat \<Rightarrow> u32" where
  "SHA256_rotate a c = drop_bit c a OR push_bit (32 - c) a"

definition SHA256_f1 :: "u32 \<Rightarrow> u32 \<Rightarrow> u32 \<Rightarrow> u32" where
  "SHA256_f1 e f g =
     (let term1 = SHA256_rotate e 6 XOR SHA256_rotate e 11 XOR SHA256_rotate e 25;
          term2 = (e AND f) XOR (NOT e AND g)
      in term1 + term2)"

definition SHA256_f2 :: "u32 \<Rightarrow> u32 \<Rightarrow> u32 \<Rightarrow> u32" where
  "SHA256_f2 a b c =
     (let term1 = SHA256_rotate a 2 XOR SHA256_rotate a 13 XOR SHA256_rotate a 22;
          term2 = ((a OR b) AND c) OR (a AND b)
      in term1 + term2)"

text \<open>The body of the loops that extend \<open>words[64]\<close>, which is filled in the order of the index.\<close>

definition SHA256_extend :: "u32 list \<Rightarrow> nat \<Rightarrow> u32 list" where
  "SHA256_extend words i =
     words @ [words ! (i - 16) +
       (SHA256_rotate (words ! (i - 15)) 7 XOR SHA256_rotate (words ! (i - 15)) 18 XOR drop_bit 3 (words ! (i - 15))) +
       words ! (i - 7) +
       (SHA256_rotate (words ! (i - 2)) 17 XOR SHA256_rotate (words ! (i - 2)) 19 XOR drop_bit 10 (words ! (i - 2)))]"

definition SHA256_processBlock :: "u32 list \<Rightarrow> byte list \<Rightarrow> u32 list" where
  "SHA256_processBlock hs data =
     (let a = hs ! 0; b = hs ! 1; c = hs ! 2; d = hs ! 3;
          e = hs ! 4; f = hs ! 5; g = hs ! 6; h = hs ! 7;
          words = map (\<lambda>i. swap32 (word32_at data i)) [0..<16];
          x = h + SHA256_f1 e f g + 0x428a2f98 + words ! 0; y = SHA256_f2 a b c; d = d + x; h = x + y;
          x = g + SHA256_f1 d e f + 0x71374491 + words ! 1; y = SHA256_f2 h a b; c = c + x; g = x + y;
          x = f + SHA256_f1 c d e + 0xb5c0fbcf + words ! 2; y = SHA256_f2 g h a; b = b + x; f = x + y;
          x = e + SHA256_f1 b c d + 0xe9b5dba5 + words ! 3; y = SHA256_f2 f g h; a = a + x; e = x + y;
          x = d + SHA256_f1 a b c + 0x3956c25b + words ! 4; y = SHA256_f2 e f g; h = h + x; d = x + y;
          x = c + SHA256_f1 h a b + 0x59f111f1 + words ! 5; y = SHA256_f2 d e f; g = g + x; c = x + y;
          x = b + SHA256_f1 g h a + 0x923f82a4 + words ! 6; y = SHA256_f2 c d e; f = f + x; b = x + y;
          x = a + SHA256_f1 f g h + 0xab1c5ed5 + words ! 7; y = SHA256_f2 b c d; e = e + x; a = x + y;
          x = h + SHA256_f1 e f g + 0xd807aa98 + words ! 8; y = SHA256_f2 a b c; d = d + x; h = x + y;
          x = g + SHA256_f1 d e f + 0x12835b01 + words ! 9; y = SHA256_f2 h a b; c = c + x; g = x + y;
          x = f + SHA256_f1 c d e + 0x243185be + words ! 10; y = SHA256_f2 g h a; b = b + x; f = x + y;
          x = e + SHA256_f1 b c d + 0x550c7dc3 + words ! 11; y = SHA256_f2 f g h; a = a + x; e = x + y;
          x = d + SHA256_f1 a b c + 0x72be5d74 + words ! 12; y = SHA256_f2 e f g; h = h + x; d = x + y;
          x = c + SHA256_f1 h a b + 0x80deb1fe + words ! 13; y = SHA256_f2 d e f; g = g + x; c = x + y;
          x = b + SHA256_f1 g h a + 0x9bdc06a7 + words ! 14; y = SHA256_f2 c d e; f = f + x; b = x + y;
          x = a + SHA256_f1 f g h + 0xc19bf174 + words ! 15; y = SHA256_f2 b c d; e = e + x; a = x + y;
          words = foldl SHA256_extend words [16..<24];
          x = h + SHA256_f1 e f g + 0xe49b69c1 + words ! 16; y = SHA256_f2 a b c; d = d + x; h = x + y;
          x = g + SHA256_f1 d e f + 0xefbe4786 + words ! 17; y = SHA256_f2 h a b; c = c + x; g = x + y;
          x = f + SHA256_f1 c d e + 0x0fc19dc6 + words ! 18; y = SHA256_f2 g h a; b = b + x; f = x + y;
          x = e + SHA256_f1 b c d + 0x240ca1cc + words ! 19; y = SHA256_f2 f g h; a = a + x; e = x + y;
          x = d + SHA256_f1 a b c + 0x2de92c6f + words ! 20; y = SHA256_f2 e f g; h = h + x; d = x + y;
          x = c + SHA256_f1 h a b + 0x4a7484aa + words ! 21; y = SHA256_f2 d e f; g = g + x; c = x + y;
          x = b + SHA256_f1 g h a + 0x5cb0a9dc + words ! 22; y = SHA256_f2 c d e; f = f + x; b = x + y;
          x = a + SHA256_f1 f g h + 0x76f988da + words ! 23; y = SHA256_f2 b c d; e = e + x; a = x + y;
          words = foldl SHA256_extend words [24..<32];
          x = h + SHA256_f1 e f g + 0x983e5152 + words ! 24; y = SHA256_f2 a b c; d = d + x; h = x + y;
          x = g + SHA256_f1 d e f + 0xa831c66d + words ! 25; y = SHA256_f2 h a b; c = c + x; g = x + y;
          x = f + SHA256_f1 c d e + 0xb00327c8 + words ! 26; y = SHA256_f2 g h a; b = b + x; f = x + y;
          x = e + SHA256_f1 b c d + 0xbf597fc7 + words ! 27; y = SHA256_f2 f g h; a = a + x; e = x + y;
          x = d + SHA256_f1 a b c + 0xc6e00bf3 + words ! 28; y = SHA256_f2 e f g; h = h + x; d = x + y;
          x = c + SHA256_f1 h a b + 0xd5a79147 + words ! 29; y = SHA256_f2 d e f; g = g + x; c = x + y;
          x = b + SHA256_f1 g h a + 0x06ca6351 + words ! 30; y = SHA256_f2 c d e; f = f + x; b = x + y;
          x = a + SHA256_f1 f g h + 0x14292967 + words ! 31; y = SHA256_f2 b c d; e = e + x; a = x + y;
          words = foldl SHA256_extend words [32..<40];
          x = h + SHA256_f1 e f g + 0x27b70a85 + words ! 32; y = SHA256_f2 a b c; d = d + x; h = x + y;
          x = g + SHA256_f1 d e f + 0x2e1b2138 + words ! 33; y = SHA256_f2 h a b; c = c + x; g = x + y;
          x = f + SHA256_f1 c d e + 0x4d2c6dfc + words ! 34; y = SHA256_f2 g h a; b = b + x; f = x + y;
          x = e + SHA256_f1 b c d + 0x53380d13 + words ! 35; y = SHA256_f2 f g h; a = a + x; e = x + y;
          x = d + SHA256_f1 a b c + 0x650a7354 + words ! 36; y = SHA256_f2 e f g; h = h + x; d = x + y;
          x = c + SHA256_f1 h a b + 0x766a0abb + words ! 37; y = SHA256_f2 d e f; g = g + x; c = x + y;
          x = b + SHA256_f1 g h a + 0x81c2c92e + words ! 38; y = SHA256_f2 c d e; f = f + x; b = x + y;
          x = a + SHA256_f1 f g h + 0x92722c85 + words ! 39; y = SHA256_f2 b c d; e = e + x; a = x + y;
          words = foldl SHA256_extend words [40..<48];
          x = h + SHA256_f1 e f g + 0xa2bfe8a1 + words ! 40; y = SHA256_f2 a b c; d = d + x; h = x + y;
          x = g + SHA256_f1 d e f + 0xa81a664b + words ! 41; y = SHA256_f2 h a b; c = c + x; g = x + y;
          x = f + SHA256_f1 c d e + 0xc24b8b70 + words ! 42; y = SHA256_f2 g h a; b = b + x; f = x + y;
          x = e + SHA256_f1 b c d + 0xc76c51a3 + words ! 43; y = SHA256_f2 f g h; a = a + x; e = x + y;
          x = d + SHA256_f1 a b c + 0xd192e819 + words ! 44; y = SHA256_f2 e f g; h = h + x; d = x + y;
          x = c + SHA256_f1 h a b + 0xd6990624 + words ! 45; y = SHA256_f2 d e f; g = g + x; c = x + y;
          x = b + SHA256_f1 g h a + 0xf40e3585 + words ! 46; y = SHA256_f2 c d e; f = f + x; b = x + y;
          x = a + SHA256_f1 f g h + 0x106aa070 + words ! 47; y = SHA256_f2 b c d; e = e + x; a = x + y;
          words = foldl SHA256_extend words [48..<56];
          x = h + SHA256_f1 e f g + 0x19a4c116 + words ! 48; y = SHA256_f2 a b c; d = d + x; h = x + y;
          x = g + SHA256_f1 d e f + 0x1e376c08 + words ! 49; y = SHA256_f2 h a b; c = c + x; g = x + y;
          x = f + SHA256_f1 c d e + 0x2748774c + words ! 50; y = SHA256_f2 g h a; b = b + x; f = x + y;
          x = e + SHA256_f1 b c d + 0x34b0bcb5 + words ! 51; y = SHA256_f2 f g h; a = a + x; e = x + y;
          x = d + SHA256_f1 a b c + 0x391c0cb3 + words ! 52; y = SHA256_f2 e f g; h = h + x; d = x + y;
          x = c + SHA256_f1 h a b + 0x4ed8aa4a + words ! 53; y = SHA256_f2 d e f; g = g + x; c = x + y;
          x = b + SHA256_f1 g h a + 0x5b9cca4f + words ! 54; y = SHA256_f2 c d e; f = f + x; b = x + y;
          x = a + SHA256_f1 f g h + 0x682e6ff3 + words ! 55; y = SHA256_f2 b c d; e = e + x; a = x + y;
          words = foldl SHA256_extend words [56..<64];
          x = h + SHA256_f1 e f g + 0x748f82ee + words ! 56; y = SHA256_f2 a b c; d = d + x; h = x + y;
          x = g + SHA256_f1 d e f + 0x78a5636f + words ! 57; y = SHA256_f2 h a b; c = c + x; g = x + y;
          x = f + SHA256_f1 c d e + 0x84c87814 + words ! 58; y = SHA256_f2 g h a; b = b + x; f = x + y;
          x = e + SHA256_f1 b c d + 0x8cc70208 + words ! 59; y = SHA256_f2 f g h; a = a + x; e = x + y;
          x = d + SHA256_f1 a b c + 0x90befffa + words ! 60; y = SHA256_f2 e f g; h = h + x; d = x + y;
          x = c + SHA256_f1 h a b + 0xa4506ceb + words ! 61; y = SHA256_f2 d e f; g = g + x; c = x + y;
          x = b + SHA256_f1 g h a + 0xbef9a3f7 + words ! 62; y = SHA256_f2 c d e; f = f + x; b = x + y;
          x = a + SHA256_f1 f g h + 0xc67178f2 + words ! 63; y = SHA256_f2 b c d; e = e + x; a = x + y
      in [hs ! 0 + a, hs ! 1 + b, hs ! 2 + c, hs ! 3 + d, hs ! 4 + e, hs ! 5 + f, hs ! 6 + g, hs ! 7 + h])"

definition SHA256_add :: "byte list \<Rightarrow> u32 list digest \<Rightarrow> u32 list digest" where
  "SHA256_add = hash_add SHA256_processBlock SHA256_BlockSize"

definition SHA256_processBuffer :: "u32 list digest \<Rightarrow> u32 list digest" where
  "SHA256_processBuffer = process_buffer SHA256_processBlock bytes_be64"

definition SHA256_getHash :: "u32 list digest \<Rightarrow> byte list \<times> u32 list digest" where
  "SHA256_getHash = get_hash SHA256_processBlock bytes_be64 bytes_be32"

definition SHA256_getHash_hex :: "u32 list digest \<Rightarrow> string \<times> u32 list digest" where
  "SHA256_getHash_hex d = (let (rawHash, d) = SHA256_getHash d in (hex_string rawHash, d))"

definition SHA256_compute :: "byte list \<Rightarrow> u32 list digest \<Rightarrow> string \<times> u32 list digest" where
  "SHA256_compute data d = SHA256_getHash_hex (SHA256_add data (SHA256_reset d))"

section \<open>FIPS 180-4\<close>

definition sha256_K :: "u32 list" where
  "sha256_K = concat [
     [0x428a2f98, 0x71374491, 0xb5c0fbcf, 0xe9b5dba5], [0x3956c25b, 0x59f111f1, 0x923f82a4, 0xab1c5ed5],
     [0xd807aa98, 0x12835b01, 0x243185be, 0x550c7dc3], [0x72be5d74, 0x80deb1fe, 0x9bdc06a7, 0xc19bf174],
     [0xe49b69c1, 0xefbe4786, 0x0fc19dc6, 0x240ca1cc], [0x2de92c6f, 0x4a7484aa, 0x5cb0a9dc, 0x76f988da],
     [0x983e5152, 0xa831c66d, 0xb00327c8, 0xbf597fc7], [0xc6e00bf3, 0xd5a79147, 0x06ca6351, 0x14292967],
     [0x27b70a85, 0x2e1b2138, 0x4d2c6dfc, 0x53380d13], [0x650a7354, 0x766a0abb, 0x81c2c92e, 0x92722c85],
     [0xa2bfe8a1, 0xa81a664b, 0xc24b8b70, 0xc76c51a3], [0xd192e819, 0xd6990624, 0xf40e3585, 0x106aa070],
     [0x19a4c116, 0x1e376c08, 0x2748774c, 0x34b0bcb5], [0x391c0cb3, 0x4ed8aa4a, 0x5b9cca4f, 0x682e6ff3],
     [0x748f82ee, 0x78a5636f, 0x84c87814, 0x8cc70208], [0x90befffa, 0xa4506ceb, 0xbef9a3f7, 0xc67178f2]]"

definition sha256_Ch :: "u32 \<Rightarrow> u32 \<Rightarrow> u32 \<Rightarrow> u32" where
  "sha256_Ch x y z = (x AND y) XOR (NOT x AND z)"

definition sha256_Maj :: "u32 \<Rightarrow> u32 \<Rightarrow> u32 \<Rightarrow> u32" where
  "sha256_Maj x y z = (x AND y) XOR (x AND z) XOR (y AND z)"

definition sha256_Sigma0 :: "u32 \<Rightarrow> u32" where
  "sha256_Sigma0 x = word_rotr 2 x XOR word_rotr 13 x XOR word_rotr 22 x"

definition sha256_Sigma1 :: "u32 \<Rightarrow> u32" where
  "sha256_Sigma1 x = word_rotr 6 x XOR word_rotr 11 x XOR word_rotr 25 x"

definition sha256_sigma0 :: "u32 \<Rightarrow> u32" where
  "sha256_sigma0 x = word_rotr 7 x XOR word_rotr 18 x XOR drop_bit 3 x"

definition sha256_sigma1 :: "u32 \<Rightarrow> u32" where
  "sha256_sigma1 x = word_rotr 17 x XOR word_rotr 19 x XOR drop_bit 10 x"

definition sha256_W :: "byte list \<Rightarrow> u32 list" where
  "sha256_W block =
     foldl (\<lambda>W t. W @ [sha256_sigma1 (W ! (t - 2)) + W ! (t - 7) + sha256_sigma0 (W ! (t - 15)) + W ! (t - 16)])
       (map (word32_be block) [0..<16]) [16..<64]"

type_synonym sha256_regs = "u32 \<times> u32 \<times> u32 \<times> u32 \<times> u32 \<times> u32 \<times> u32 \<times> u32"

fun sha256_step :: "sha256_regs \<Rightarrow> u32 \<times> u32 \<Rightarrow> sha256_regs" where
  "sha256_step (a, b, c, d, e, f, g, h) (k, w) =
     (let T1 = h + sha256_Sigma1 e + sha256_Ch e f g + k + w;
          T2 = sha256_Sigma0 a + sha256_Maj a b c
      in (T1 + T2, a, b, c, d + T1, e, f, g))"

fun sha256_sum :: "u32 list \<Rightarrow> sha256_regs \<Rightarrow> u32 list" where
  "sha256_sum hs (a, b, c, d, e, f, g, h) =
     [hs ! 0 + a, hs ! 1 + b, hs ! 2 + c, hs ! 3 + d, hs ! 4 + e, hs ! 5 + f, hs ! 6 + g, hs ! 7 + h]"

definition sha256_block :: "u32 list \<Rightarrow> byte list \<Rightarrow> u32 list" where
  "sha256_block hs block =
     sha256_sum hs (foldl sha256_step (hs ! 0, hs ! 1, hs ! 2, hs ! 3, hs ! 4, hs ! 5, hs ! 6, hs ! 7)
       (zip sha256_K (sha256_W block)))"

section \<open>The code is the loop of the standard\<close>

lemma SHA256_rotate_eq: "s < 32 \<Longrightarrow> SHA256_rotate x s = word_rotr s x"
  using rotate_right_eq [of s x] by (simp add: SHA256_rotate_def)

lemma SHA256_f1_eq: "SHA256_f1 e f g = sha256_Sigma1 e + sha256_Ch e f g"
  by (simp add: SHA256_f1_def SHA256_rotate_eq sha256_Sigma1_def sha256_Ch_def)

lemma SHA256_f2_eq: "SHA256_f2 a b c = sha256_Sigma0 a + sha256_Maj a b c"
proof -
  have "((a OR b) AND c) OR (a AND b) = sha256_Maj a b c"
    unfolding sha256_Maj_def by (rule bit_word_eqI) (auto simp: bit_simps)
  then show ?thesis
    by (simp add: SHA256_f2_def SHA256_rotate_eq sha256_Sigma0_def)
qed

text \<open>The schedule as far as index \<open>n\<close>.\<close>

definition sha256_words :: "byte list \<Rightarrow> nat \<Rightarrow> u32 list" where
  "sha256_words data n = foldl SHA256_extend (map (\<lambda>i. swap32 (word32_at data i)) [0..<16]) [16..<n]"

lemma sha256_words_64: "sha256_words block 64 = sha256_W block"
  unfolding sha256_words_def sha256_W_def
  by (intro arg_cong2 [where f = "\<lambda>f x. foldl f x [16..<64]"] ext)
     (simp_all add: SHA256_extend_def SHA256_rotate_eq swap32_word32_at sha256_sigma0_def sha256_sigma1_def ac_simps)

lemma sha256_words_start: "map (\<lambda>i. swap32 (word32_at data i)) [0..<16] = sha256_words data 16"
  by (simp add: sha256_words_def)

lemma foldl_extend_words:
  assumes "16 \<le> m" "m \<le> n"
  shows "foldl SHA256_extend (sha256_words data m) [m..<n] = sha256_words data n"
proof -
  have "[16..<n] = [16..<m] @ [m..<n]" using upt_add_eq_append [OF assms(1), of "n - m"] assms(2) by simp
  then show ?thesis by (simp only: sha256_words_def foldl_append)
qed

lemma foldl_SHA256_extend: "\<exists>zs. foldl SHA256_extend ws is = ws @ zs \<and> length zs = length is"
proof (induction "is" arbitrary: ws)
  case (Cons i "is")
  obtain z where "SHA256_extend ws i = ws @ [z]" by (simp add: SHA256_extend_def)
  moreover obtain zs where "foldl SHA256_extend (ws @ [z]) is = (ws @ [z]) @ zs" "length zs = length is"
    using Cons by blast
  ultimately show ?case by simp
qed simp

lemma length_sha256_words: "16 \<le> n \<Longrightarrow> length (sha256_words data n) = n"
  using foldl_SHA256_extend [of "map (\<lambda>i. swap32 (word32_at data i)) [0..<16]" "[16..<n]"]
  by (auto simp: sha256_words_def simp del: upt_conv_Cons)

lemma sha256_words_nth:
  assumes "16 \<le> n" "n \<le> 64" "j < n"
  shows "sha256_words data n ! j = sha256_W data ! j"
proof -
  have "sha256_W data = foldl SHA256_extend (sha256_words data n) [n..<64]"
    using foldl_extend_words [OF assms(1,2)] by (simp add: sha256_words_64)
  then obtain zs where "sha256_W data = sha256_words data n @ zs"
    using foldl_SHA256_extend by metis
  then show ?thesis
    using assms(3) length_sha256_words [OF assms(1)] by (simp add: nth_append)
qed

lemma sha256_words_nths: 
  "sha256_words data 16 ! 0 = sha256_W data ! 0" 
  "sha256_words data 16 ! 1 = sha256_W data ! 1" 
  "sha256_words data 16 ! 2 = sha256_W data ! 2" 
  "sha256_words data 16 ! 3 = sha256_W data ! 3" 
  "sha256_words data 16 ! 4 = sha256_W data ! 4" 
  "sha256_words data 16 ! 5 = sha256_W data ! 5" 
  "sha256_words data 16 ! 6 = sha256_W data ! 6" 
  "sha256_words data 16 ! 7 = sha256_W data ! 7" 
  "sha256_words data 16 ! 8 = sha256_W data ! 8" 
  "sha256_words data 16 ! 9 = sha256_W data ! 9" 
  "sha256_words data 16 ! 10 = sha256_W data ! 10" 
  "sha256_words data 16 ! 11 = sha256_W data ! 11" 
  "sha256_words data 16 ! 12 = sha256_W data ! 12" 
  "sha256_words data 16 ! 13 = sha256_W data ! 13" 
  "sha256_words data 16 ! 14 = sha256_W data ! 14" 
  "sha256_words data 16 ! 15 = sha256_W data ! 15" 
  "sha256_words data 24 ! 16 = sha256_W data ! 16" 
  "sha256_words data 24 ! 17 = sha256_W data ! 17" 
  "sha256_words data 24 ! 18 = sha256_W data ! 18" 
  "sha256_words data 24 ! 19 = sha256_W data ! 19" 
  "sha256_words data 24 ! 20 = sha256_W data ! 20" 
  "sha256_words data 24 ! 21 = sha256_W data ! 21" 
  "sha256_words data 24 ! 22 = sha256_W data ! 22" 
  "sha256_words data 24 ! 23 = sha256_W data ! 23" 
  "sha256_words data 32 ! 24 = sha256_W data ! 24" 
  "sha256_words data 32 ! 25 = sha256_W data ! 25" 
  "sha256_words data 32 ! 26 = sha256_W data ! 26" 
  "sha256_words data 32 ! 27 = sha256_W data ! 27" 
  "sha256_words data 32 ! 28 = sha256_W data ! 28" 
  "sha256_words data 32 ! 29 = sha256_W data ! 29" 
  "sha256_words data 32 ! 30 = sha256_W data ! 30" 
  "sha256_words data 32 ! 31 = sha256_W data ! 31" 
  "sha256_words data 40 ! 32 = sha256_W data ! 32" 
  "sha256_words data 40 ! 33 = sha256_W data ! 33" 
  "sha256_words data 40 ! 34 = sha256_W data ! 34" 
  "sha256_words data 40 ! 35 = sha256_W data ! 35" 
  "sha256_words data 40 ! 36 = sha256_W data ! 36" 
  "sha256_words data 40 ! 37 = sha256_W data ! 37" 
  "sha256_words data 40 ! 38 = sha256_W data ! 38" 
  "sha256_words data 40 ! 39 = sha256_W data ! 39" 
  "sha256_words data 48 ! 40 = sha256_W data ! 40" 
  "sha256_words data 48 ! 41 = sha256_W data ! 41" 
  "sha256_words data 48 ! 42 = sha256_W data ! 42" 
  "sha256_words data 48 ! 43 = sha256_W data ! 43" 
  "sha256_words data 48 ! 44 = sha256_W data ! 44" 
  "sha256_words data 48 ! 45 = sha256_W data ! 45" 
  "sha256_words data 48 ! 46 = sha256_W data ! 46" 
  "sha256_words data 48 ! 47 = sha256_W data ! 47" 
  "sha256_words data 56 ! 48 = sha256_W data ! 48" 
  "sha256_words data 56 ! 49 = sha256_W data ! 49" 
  "sha256_words data 56 ! 50 = sha256_W data ! 50" 
  "sha256_words data 56 ! 51 = sha256_W data ! 51" 
  "sha256_words data 56 ! 52 = sha256_W data ! 52" 
  "sha256_words data 56 ! 53 = sha256_W data ! 53" 
  "sha256_words data 56 ! 54 = sha256_W data ! 54" 
  "sha256_words data 56 ! 55 = sha256_W data ! 55" 
  "sha256_words data 64 ! 56 = sha256_W data ! 56" 
  "sha256_words data 64 ! 57 = sha256_W data ! 57" 
  "sha256_words data 64 ! 58 = sha256_W data ! 58" 
  "sha256_words data 64 ! 59 = sha256_W data ! 59" 
  "sha256_words data 64 ! 60 = sha256_W data ! 60" 
  "sha256_words data 64 ! 61 = sha256_W data ! 61" 
  "sha256_words data 64 ! 62 = sha256_W data ! 62" 
  "sha256_words data 64 ! 63 = sha256_W data ! 63"
  by (rule sha256_words_nth; simp)+

lemma sha256_extends:
  "foldl SHA256_extend (sha256_words data 16) [16..<24] = sha256_words data 24"
  "foldl SHA256_extend (sha256_words data 24) [24..<32] = sha256_words data 32"
  "foldl SHA256_extend (sha256_words data 32) [32..<40] = sha256_words data 40"
  "foldl SHA256_extend (sha256_words data 40) [40..<48] = sha256_words data 48"
  "foldl SHA256_extend (sha256_words data 48) [48..<56] = sha256_words data 56"
  "foldl SHA256_extend (sha256_words data 56) [56..<64] = sha256_words data 64"
  by (rule foldl_extend_words; simp)+

lemma sha256_step_let:
  "foldl sha256_step (a, b, c, d, e, f, g, h) ((k, w) # ps) =
     (let x = h + SHA256_f1 e f g + k + w; y = SHA256_f2 a b c; d = d + x; h = x + y
      in foldl sha256_step (h, a, b, c, d, e, f, g) ps)"
  by (simp add: Let_def SHA256_f1_eq SHA256_f2_eq ac_simps)

lemma sha256_sum_let: "sha256_sum hs (Let x f) = Let x (\<lambda>y. sha256_sum hs (f y))"
  by (simp add: Let_def)

lemma let_words: "Let (sha256_words data n) f = f (sha256_words data n)" "Let (xs ! i) g = g (xs ! i)"
  by (simp_all add: Let_def)

lemma length_sha256_W: "length (sha256_W data) = 64"
  using length_sha256_words [of 64 data] by (simp add: sha256_words_64)

lemma sha256_zip: "zip sha256_K (sha256_W block) = [(0x428a2f98, sha256_W block ! 0), (0x71374491, sha256_W block ! 1), (0xb5c0fbcf, sha256_W block ! 2), (0xe9b5dba5, sha256_W block ! 3), (0x3956c25b, sha256_W block ! 4), (0x59f111f1, sha256_W block ! 5), (0x923f82a4, sha256_W block ! 6), (0xab1c5ed5, sha256_W block ! 7), (0xd807aa98, sha256_W block ! 8), (0x12835b01, sha256_W block ! 9), (0x243185be, sha256_W block ! 10), (0x550c7dc3, sha256_W block ! 11), (0x72be5d74, sha256_W block ! 12), (0x80deb1fe, sha256_W block ! 13), (0x9bdc06a7, sha256_W block ! 14), (0xc19bf174, sha256_W block ! 15), (0xe49b69c1, sha256_W block ! 16), (0xefbe4786, sha256_W block ! 17), (0x0fc19dc6, sha256_W block ! 18), (0x240ca1cc, sha256_W block ! 19), (0x2de92c6f, sha256_W block ! 20), (0x4a7484aa, sha256_W block ! 21), (0x5cb0a9dc, sha256_W block ! 22), (0x76f988da, sha256_W block ! 23), (0x983e5152, sha256_W block ! 24), (0xa831c66d, sha256_W block ! 25), (0xb00327c8, sha256_W block ! 26), (0xbf597fc7, sha256_W block ! 27), (0xc6e00bf3, sha256_W block ! 28), (0xd5a79147, sha256_W block ! 29), (0x06ca6351, sha256_W block ! 30), (0x14292967, sha256_W block ! 31), (0x27b70a85, sha256_W block ! 32), (0x2e1b2138, sha256_W block ! 33), (0x4d2c6dfc, sha256_W block ! 34), (0x53380d13, sha256_W block ! 35), (0x650a7354, sha256_W block ! 36), (0x766a0abb, sha256_W block ! 37), (0x81c2c92e, sha256_W block ! 38), (0x92722c85, sha256_W block ! 39), (0xa2bfe8a1, sha256_W block ! 40), (0xa81a664b, sha256_W block ! 41), (0xc24b8b70, sha256_W block ! 42), (0xc76c51a3, sha256_W block ! 43), (0xd192e819, sha256_W block ! 44), (0xd6990624, sha256_W block ! 45), (0xf40e3585, sha256_W block ! 46), (0x106aa070, sha256_W block ! 47), (0x19a4c116, sha256_W block ! 48), (0x1e376c08, sha256_W block ! 49), (0x2748774c, sha256_W block ! 50), (0x34b0bcb5, sha256_W block ! 51), (0x391c0cb3, sha256_W block ! 52), (0x4ed8aa4a, sha256_W block ! 53), (0x5b9cca4f, sha256_W block ! 54), (0x682e6ff3, sha256_W block ! 55), (0x748f82ee, sha256_W block ! 56), (0x78a5636f, sha256_W block ! 57), (0x84c87814, sha256_W block ! 58), (0x8cc70208, sha256_W block ! 59), (0x90befffa, sha256_W block ! 60), (0xa4506ceb, sha256_W block ! 61), (0xbef9a3f7, sha256_W block ! 62), (0xc67178f2, sha256_W block ! 63)]"
proof -
  have "sha256_W block = map ((!) (sha256_W block)) [0..<64]"
    using map_nth [of "sha256_W block"] by (simp add: length_sha256_W)
  moreover have "[0..<64] = [0, 1, 2, 3, 4, 5, 6, 7, 8, 9, 10, 11, 12, 13, 14, 15, 16, 17, 18, 19, 20, 21, 22, 23, 24, 25, 26, 27, 28, 29, 30, 31, 32, 33, 34, 35, 36, 37, 38, 39, 40, 41, 42, 43, 44, 45, 46, 47, 48, 49, 50, 51, 52, 53, 54, 55, 56, 57, 58, 59, 60, 61, 62, 63]" by code_simp
  ultimately have "sha256_W block = map ((!) (sha256_W block)) [0, 1, 2, 3, 4, 5, 6, 7, 8, 9, 10, 11, 12, 13, 14, 15, 16, 17, 18, 19, 20, 21, 22, 23, 24, 25, 26, 27, 28, 29, 30, 31, 32, 33, 34, 35, 36, 37, 38, 39, 40, 41, 42, 43, 44, 45, 46, 47, 48, 49, 50, 51, 52, 53, 54, 55, 56, 57, 58, 59, 60, 61, 62, 63]" by simp
  then have "zip sha256_K (sha256_W block) = zip sha256_K (map ((!) (sha256_W block)) [0, 1, 2, 3, 4, 5, 6, 7, 8, 9, 10, 11, 12, 13, 14, 15, 16, 17, 18, 19, 20, 21, 22, 23, 24, 25, 26, 27, 28, 29, 30, 31, 32, 33, 34, 35, 36, 37, 38, 39, 40, 41, 42, 43, 44, 45, 46, 47, 48, 49, 50, 51, 52, 53, 54, 55, 56, 57, 58, 59, 60, 61, 62, 63])"
    by (rule arg_cong)
  then show ?thesis
    by (simp only: sha256_K_def concat.simps append.simps list.map zip_Cons_Cons zip.simps(1))
qed

lemma SHA256_processBlock_eq: "SHA256_processBlock hs block = sha256_block hs block"
  unfolding SHA256_processBlock_def sha256_block_def sha256_zip sha256_words_start
  by (simp only: let_words sha256_extends sha256_words_nths sha256_step_let foldl.simps(1) sha256_sum_let sha256_sum.simps)

section \<open>The object computes SHA-256\<close>

definition sha256_iv :: "u32 list" where
  "sha256_iv = [0x6a09e667, 0xbb67ae85, 0x3c6ef372, 0xa54ff53a, 0x510e527f, 0x9b05688c, 0x1f83d9ab, 0x5be0cd19]"

definition sha256_digest :: "byte list \<Rightarrow> byte list" where
  "sha256_digest msg = concat (map bytes_be32 (foldl sha256_block sha256_iv (chunks 64 (padded bytes_be64 msg))))"

lemma length_sha256_sum [simp]: "length (sha256_sum h r) = 8"
  by (cases "(h, r)" rule: sha256_sum.cases) simp

lemma length_sha256_block [simp]: "length (sha256_block h b) = 8"
  by (simp add: sha256_block_def)

lemma length_sha256_digest: "length (sha256_digest msg) = 32"
proof -
  have "length (foldl sha256_block h bs) = 8" if "length h = 8" for h bs
    using that by (induction bs arbitrary: h) simp_all
  then have "length (foldl sha256_block sha256_iv (chunks 64 (padded bytes_be64 msg))) = 8"
    by (simp add: sha256_iv_def)
  then show ?thesis
    by (simp add: sha256_digest_def length_concat comp_def sum_list_triv)
qed

lemma SHA256_processBlock_fun: "SHA256_processBlock = sha256_block"
  by (intro ext) (rule SHA256_processBlock_eq)

interpretation sha256_pad: padded_hash SHA256_processBlock bytes_be64
  by unfold_locales simp_all

definition sha256_holds :: "byte list \<Rightarrow> u32 list digest \<Rightarrow> bool" where
  "sha256_holds msg d \<longleftrightarrow> absorbed SHA256_processBlock 64 sha256_iv msg d \<and> length (m_buffer d) = 64"

lemma SHA256_reset_holds: "length (m_buffer d) = 64 \<Longrightarrow> sha256_holds [] (SHA256_reset d)"
  unfolding sha256_holds_def
  by (auto simp: SHA256_reset_def sha256_iv_def intro: sha256_pad.absorbed_start)

lemma SHA256_add_holds: "sha256_holds msg d \<Longrightarrow> sha256_holds (msg @ xs) (SHA256_add xs d)"
  unfolding sha256_holds_def SHA256_add_def SHA256_BlockSize_def by (simp add: sha256_pad.absorbed_add)

lemma SHA256_getHash_holds:
  assumes "sha256_holds msg d"
  shows "fst (SHA256_getHash d) = sha256_digest msg" "sha256_holds msg (snd (SHA256_getHash d))"
  using sha256_pad.get_hash_value [where word_bytes = bytes_be32] assms
  unfolding sha256_holds_def SHA256_getHash_def sha256_digest_def SHA256_processBlock_fun by blast+

lemma SHA256_getHash_hex_eq: "SHA256_getHash_hex d = map_prod hex_string id (SHA256_getHash d)"
  by (simp add: SHA256_getHash_hex_def case_prod_beta map_prod_def)

interpretation sha256: keyed_hash sha256_holds SHA256_reset SHA256_add SHA256_getHash sha256_digest "\<lambda>d. length (m_buffer d) = 64" 64
  by unfold_locales
     (simp_all add: SHA256_reset_holds SHA256_add_holds SHA256_getHash_holds length_sha256_digest, simp add: sha256_holds_def)

interpretation sha256_hex: hash_object sha256_holds SHA256_reset SHA256_add SHA256_getHash_hex "hex_string \<circ> sha256_digest"
    "\<lambda>d. length (m_buffer d) = 64"
  by unfold_locales
     (simp_all add: SHA256_reset_holds SHA256_add_holds SHA256_getHash_holds SHA256_getHash_hex_eq, simp add: sha256_holds_def)

end
