(* ===== verification/Keccak.thy ===== *)
theory Keccak
  imports HashObject
begin

text \<open>
  The classes \<open>Keccak\<close> and \<open>SHA3\<close> (\<open>src/hashlibrary/keccak.cpp\<close>, \<open>sha3.cpp\<close>). They have the same
  permutation, written for a state of 25 words that is updated in place, and differ in the first
  byte of the padding. The steps of the permutation are proved equal to the maps of FIPS 202 on the
  5 by 5 array of lanes, and the round constants to the output of its feedback shift register.
\<close>

section \<open>The permutation\<close>

definition keccak_Rounds :: nat where "keccak_Rounds = 24"

definition XorMasks :: "64 word list" where
  "XorMasks = [
     0x0000000000000001, 0x0000000000008082, 0x800000000000808a,
     0x8000000080008000, 0x000000000000808b, 0x0000000080000001,
     0x8000000080008081, 0x8000000000008009, 0x000000000000008a,
     0x0000000000000088, 0x0000000080008009, 0x000000008000000a,
     0x000000008000808b, 0x800000000000008b, 0x8000000000008089,
     0x8000000000008003, 0x8000000000008002, 0x8000000000000080,
     0x000000000000800a, 0x800000008000000a, 0x8000000080008081,
     0x8000000000008080, 0x0000000080000001, 0x8000000080008008]"

definition rotateLeft :: "64 word \<Rightarrow> nat \<Rightarrow> 64 word" where
  "rotateLeft x numBits = push_bit numBits x OR drop_bit (64 - numBits) x"

definition mod5 :: "nat \<Rightarrow> nat" where
  "mod5 x = (if x < 5 then x else x - 5)"

text \<open>Mixing a block of data into the state, read through a \<open>uint64_t*\<close>.\<close>

definition keccak_mix :: "nat \<Rightarrow> 64 word list \<Rightarrow> byte list \<Rightarrow> 64 word list" where
  "keccak_mix blockSize h data = foldl (\<lambda>h i. h[i := h ! i XOR word64_at data i]) h [0..<blockSize div 8]"

definition keccak_theta :: "64 word list \<Rightarrow> 64 word list" where
  "keccak_theta h =
     (let coefficients = map (\<lambda>i. h ! i XOR h ! (i + 5) XOR h ! (i + 10) XOR h ! (i + 15) XOR h ! (i + 20)) [0..<5]
      in foldl (\<lambda>h i.
           let one = coefficients ! mod5 (i + 4) XOR rotateLeft (coefficients ! mod5 (i + 1)) 1;
               h = h[i := h ! i XOR one];
               h = h[i + 5 := h ! (i + 5) XOR one];
               h = h[i + 10 := h ! (i + 10) XOR one];
               h = h[i + 15 := h ! (i + 15) XOR one]
           in h[i + 20 := h ! (i + 20) XOR one]) h [0..<5])"

definition keccak_rho_pi :: "64 word list \<Rightarrow> 64 word list" where
  "keccak_rho_pi h =
     (let last = h ! 1;
          one = h ! 10; h = h[10 := rotateLeft last 1]; last = one;
          one = h ! 7; h = h[7 := rotateLeft last 3]; last = one;
          one = h ! 11; h = h[11 := rotateLeft last 6]; last = one;
          one = h ! 17; h = h[17 := rotateLeft last 10]; last = one;
          one = h ! 18; h = h[18 := rotateLeft last 15]; last = one;
          one = h ! 3; h = h[3 := rotateLeft last 21]; last = one;
          one = h ! 5; h = h[5 := rotateLeft last 28]; last = one;
          one = h ! 16; h = h[16 := rotateLeft last 36]; last = one;
          one = h ! 8; h = h[8 := rotateLeft last 45]; last = one;
          one = h ! 21; h = h[21 := rotateLeft last 55]; last = one;
          one = h ! 24; h = h[24 := rotateLeft last 2]; last = one;
          one = h ! 4; h = h[4 := rotateLeft last 14]; last = one;
          one = h ! 15; h = h[15 := rotateLeft last 27]; last = one;
          one = h ! 23; h = h[23 := rotateLeft last 41]; last = one;
          one = h ! 19; h = h[19 := rotateLeft last 56]; last = one;
          one = h ! 13; h = h[13 := rotateLeft last 8]; last = one;
          one = h ! 12; h = h[12 := rotateLeft last 25]; last = one;
          one = h ! 2; h = h[2 := rotateLeft last 43]; last = one;
          one = h ! 20; h = h[20 := rotateLeft last 62]; last = one;
          one = h ! 14; h = h[14 := rotateLeft last 18]; last = one;
          one = h ! 22; h = h[22 := rotateLeft last 39]; last = one;
          one = h ! 9; h = h[9 := rotateLeft last 61]; last = one;
          one = h ! 6; h = h[6 := rotateLeft last 20]; last = one
      in h[1 := rotateLeft last 44])"

definition keccak_chi :: "64 word list \<Rightarrow> 64 word list" where
  "keccak_chi h = foldl (\<lambda>h j.
     let one = h ! j;
         two = h ! (j + 1);
         h = h[j := h ! j XOR (h ! (j + 2) AND NOT two)];
         h = h[j + 1 := h ! (j + 1) XOR (h ! (j + 3) AND NOT (h ! (j + 2)))];
         h = h[j + 2 := h ! (j + 2) XOR (h ! (j + 4) AND NOT (h ! (j + 3)))];
         h = h[j + 3 := h ! (j + 3) XOR (one AND NOT (h ! (j + 4)))]
     in h[j + 4 := h ! (j + 4) XOR (two AND NOT one)]) h [0, 5, 10, 15, 20]"

definition keccak_iota :: "64 word list \<Rightarrow> nat \<Rightarrow> 64 word list" where
  "keccak_iota h round = h[0 := h ! 0 XOR XorMasks ! round]"

definition keccak_round :: "64 word list \<Rightarrow> nat \<Rightarrow> 64 word list" where
  "keccak_round h round = keccak_iota (keccak_chi (keccak_rho_pi (keccak_theta h))) round"

definition Keccak_processBlock :: "nat \<Rightarrow> 64 word list \<Rightarrow> byte list \<Rightarrow> 64 word list" where
  "Keccak_processBlock blockSize h data = foldl keccak_round (keccak_mix blockSize h data) [0..<keccak_Rounds]"

text \<open>The body of \<open>SHA3::processBlock\<close> is a copy of it.\<close>

definition SHA3_processBlock :: "nat \<Rightarrow> 64 word list \<Rightarrow> byte list \<Rightarrow> 64 word list" where
  "SHA3_processBlock blockSize h data = foldl keccak_round (keccak_mix blockSize h data) [0..<keccak_Rounds]"

section \<open>The objects\<close>

text \<open>Both classes have the members of a digest, \<open>m_blockSize\<close> and \<open>m_bits\<close>.\<close>

record sponge = "64 word list digest" +
  m_blockSize :: nat
  m_bits :: nat

definition keccak_StateSize :: nat where "keccak_StateSize = 25"
definition keccak_MaxBlockSize :: nat where "keccak_MaxBlockSize = 200 - 2 * (224 div 8)"

definition Keccak_reset :: "sponge \<Rightarrow> sponge" where
  "Keccak_reset d = d\<lparr>m_hash := replicate keccak_StateSize 0, m_numBytes := 0, m_bufferSize := 0\<rparr>"

definition Keccak_init :: "nat \<Rightarrow> sponge \<Rightarrow> sponge" where
  "Keccak_init bits d = Keccak_reset (d\<lparr>m_blockSize := 200 - 2 * (bits div 8), m_bits := bits\<rparr>)"

definition Keccak_add :: "byte list \<Rightarrow> sponge \<Rightarrow> sponge" where
  "Keccak_add xs d = hash_add (Keccak_processBlock (m_blockSize d)) (m_blockSize d) xs d"

definition Keccak_processBuffer :: "sponge \<Rightarrow> sponge" where
  "Keccak_processBuffer d =
     (let blockSize = 200 - 2 * (m_bits d div 8);
          offset = m_bufferSize d;
          buf = (m_buffer d)[offset := 1];
          buf = foldl (\<lambda>b i. b[i := 0]) buf [offset + 1..<blockSize];
          buf = buf[blockSize - 1 := buf ! (blockSize - 1) OR 0x80]
      in d\<lparr>m_buffer := buf,
           m_hash := Keccak_processBlock (m_blockSize d) (m_hash d) (take (m_blockSize d) buf)\<rparr>)"

text \<open>
  The output loops of \<open>getHash\<close>: all bytes of the first \<open>bits / 64\<close> words, then the low bytes of the
  next word for the rest.
\<close>

definition sponge_output :: "nat \<Rightarrow> 64 word list \<Rightarrow> string" where
  "sponge_output bits h =
     (let hashLength = bits div 64;
          remainder = bits - hashLength * 64
      in concat (map (\<lambda>i. concat (map (\<lambda>j. hex_of_byte (ucast (drop_bit (8 * j) (h ! i)))) [0..<8])) [0..<hashLength])
         @ concat (map (\<lambda>k. hex_of_byte (ucast (drop_bit (8 * k) (h ! hashLength)))) [0..<(remainder + 7) div 8]))"

definition Keccak_getHash :: "sponge \<Rightarrow> string \<times> sponge" where
  "Keccak_getHash d =
     (let d' = Keccak_processBuffer d
      in (sponge_output (m_bits d) (m_hash d'), d'\<lparr>m_hash := m_hash d\<rparr>))"

definition Keccak_compute :: "byte list \<Rightarrow> sponge \<Rightarrow> string \<times> sponge" where
  "Keccak_compute data d = Keccak_getHash (Keccak_add data (Keccak_reset d))"

definition SHA3_reset :: "sponge \<Rightarrow> sponge" where
  "SHA3_reset d = d\<lparr>m_hash := replicate keccak_StateSize 0, m_numBytes := 0, m_bufferSize := 0\<rparr>"

definition SHA3_init :: "nat \<Rightarrow> sponge \<Rightarrow> sponge" where
  "SHA3_init bits d = SHA3_reset (d\<lparr>m_blockSize := 200 - 2 * (bits div 8), m_bits := bits\<rparr>)"

definition SHA3_add :: "byte list \<Rightarrow> sponge \<Rightarrow> sponge" where
  "SHA3_add xs d = hash_add (SHA3_processBlock (m_blockSize d)) (m_blockSize d) xs d"

definition SHA3_processBuffer :: "sponge \<Rightarrow> sponge" where
  "SHA3_processBuffer d =
     (let offset = m_bufferSize d;
          buf = (m_buffer d)[offset := 0x06];
          buf = foldl (\<lambda>b i. b[i := 0]) buf [offset + 1..<m_blockSize d];
          offset = max (offset + 1) (m_blockSize d);
          buf = buf[offset - 1 := buf ! (offset - 1) OR 0x80]
      in d\<lparr>m_buffer := buf,
           m_hash := SHA3_processBlock (m_blockSize d) (m_hash d) (take (m_blockSize d) buf)\<rparr>)"

definition SHA3_getHash :: "sponge \<Rightarrow> string \<times> sponge" where
  "SHA3_getHash d =
     (let d' = SHA3_processBuffer d
      in (sponge_output (m_bits d) (m_hash d'), d'\<lparr>m_hash := m_hash d\<rparr>))"

definition SHA3_compute :: "byte list \<Rightarrow> sponge \<Rightarrow> string \<times> sponge" where
  "SHA3_compute data d = SHA3_getHash (SHA3_add data (SHA3_reset d))"

section \<open>FIPS 202\<close>

definition lane :: "64 word list \<Rightarrow> nat \<Rightarrow> nat \<Rightarrow> 64 word" where
  "lane h x y = h ! (x mod 5 + 5 * (y mod 5))"

definition of_lanes :: "(nat \<Rightarrow> nat \<Rightarrow> 64 word) \<Rightarrow> 64 word list" where
  "of_lanes f = map (\<lambda>i. f (i mod 5) (i div 5)) [0..<25]"

definition fips_theta :: "64 word list \<Rightarrow> 64 word list" where
  "fips_theta h =
     (let C = \<lambda>x. lane h x 0 XOR lane h x 1 XOR lane h x 2 XOR lane h x 3 XOR lane h x 4;
          D = \<lambda>x. C (x + 4) XOR word_rotl 1 (C (x + 1))
      in of_lanes (\<lambda>x y. lane h x y XOR D x))"

text \<open>The walk over the lanes that defines the offsets of the rotations.\<close>

fun rho_walk :: "nat \<Rightarrow> nat \<times> nat \<Rightarrow> nat \<Rightarrow> ((nat \<times> nat) \<times> nat) list" where
  "rho_walk 0 p t = []"
| "rho_walk (Suc n) (x, y) t =
     ((x, y), ((t + 1) * (t + 2) div 2) mod 64) # rho_walk n (y, (2 * x + 3 * y) mod 5) (t + 1)"

definition rho_offset :: "nat \<Rightarrow> nat \<Rightarrow> nat" where
  "rho_offset x y = (case map_of (rho_walk 24 (1, 0) 0) (x, y) of Some r \<Rightarrow> r | None \<Rightarrow> 0)"

definition fips_rho :: "64 word list \<Rightarrow> 64 word list" where
  "fips_rho h = of_lanes (\<lambda>x y. word_rotl (rho_offset x y) (lane h x y))"

definition fips_pi :: "64 word list \<Rightarrow> 64 word list" where
  "fips_pi h = of_lanes (\<lambda>x y. lane h (x + 3 * y) x)"

definition fips_chi :: "64 word list \<Rightarrow> 64 word list" where
  "fips_chi h = of_lanes (\<lambda>x y. lane h x y XOR (NOT (lane h (x + 1) y) AND lane h (x + 2) y))"

text \<open>The shift register of the round constants, and its first \<open>n\<close> output bits.\<close>

definition lfsr_step :: "bool list \<Rightarrow> bool list" where
  "lfsr_step r = (let r = False # r in [r ! 0 \<noteq> r ! 8, r ! 1, r ! 2, r ! 3, r ! 4 \<noteq> r ! 8, r ! 5 \<noteq> r ! 8, r ! 6 \<noteq> r ! 8, r ! 7])"

fun rc_stream :: "nat \<Rightarrow> bool list \<Rightarrow> bool list" where
  "rc_stream 0 r = []"
| "rc_stream (Suc n) r = r ! 0 # rc_stream n (lfsr_step r)"

text \<open>Bit \<open>2^j - 1\<close> of the constant of round \<open>i\<close> is output \<open>7 i + j\<close>.\<close>

definition fips_RC :: "nat \<Rightarrow> 64 word" where
  "fips_RC i = foldr (\<lambda>j w. (if rc_stream 168 [True, False, False, False, False, False, False, False] ! (7 * i + j)
     then push_bit (2 ^ j - 1) 1 else 0) OR w) [0..<7] 0"

definition fips_iota :: "64 word list \<Rightarrow> nat \<Rightarrow> 64 word list" where
  "fips_iota h i = h[0 := h ! 0 XOR fips_RC i]"

definition fips_round :: "64 word list \<Rightarrow> nat \<Rightarrow> 64 word list" where
  "fips_round h i = fips_iota (fips_chi (fips_pi (fips_rho (fips_theta h)))) i"

definition keccak_f :: "64 word list \<Rightarrow> 64 word list" where
  "keccak_f h = foldl fips_round h [0..<24]"

definition sponge_absorb :: "nat \<Rightarrow> 64 word list \<Rightarrow> byte list \<Rightarrow> 64 word list" where
  "sponge_absorb bs h block = keccak_f (map (\<lambda>i. if i < bs div 8 then h ! i XOR word64_at block i else h ! i) [0..<25])"

definition sponge_pad :: "byte \<Rightarrow> nat \<Rightarrow> byte list \<Rightarrow> byte list" where
  "sponge_pad sep bs msg =
     (let q = bs - length msg mod bs
      in msg @ (if q = 1 then [sep OR 0x80] else sep # replicate (q - 2) 0 @ [0x80]))"

definition sponge_digest :: "byte \<Rightarrow> nat \<Rightarrow> byte list \<Rightarrow> byte list" where
  "sponge_digest sep bits msg =
     (let bs = 200 - 2 * (bits div 8)
      in take (bits div 8) (concat (map bytes_le64
           (foldl (sponge_absorb bs) (replicate 25 0) (chunks bs (sponge_pad sep bs msg))))))"

section \<open>The permutation is the one of the standard\<close>

lemma rotateLeft_eq: "s < 64 \<Longrightarrow> rotateLeft x s = word_rotl s x"
  using rotate_left_eq [of s x] by (simp add: rotateLeft_def)

lemma word_rotl_none: "word_rotl 0 (x :: 64 word) = x"
  by (rule bit_word_eqI) (simp add: bit_word_rotl_iff)

lemma upt_25: "[0..<25] = [0, 1, 2, 3, 4, 5, 6, 7, 8, 9, 10, 11, 12, 13, 14, 15, 16, 17, 18, 19, 20, 21, 22, 23, 24]"
  by code_simp

lemma list25_cases:
  assumes "length h = 25"
  obtains a0 a1 a2 a3 a4 a5 a6 a7 a8 a9 a10 a11 a12 a13 a14 a15 a16 a17 a18 a19 a20 a21 a22 a23 a24
  where "h = [a0, a1, a2, a3, a4, a5, a6, a7, a8, a9, a10, a11, a12, a13, a14, a15, a16, a17, a18, a19, a20, a21, a22, a23, a24]"
proof -
  have "h = map ((!) h) [0..<25]" using map_nth [of h] assms by simp
  then have "h = [h ! 0, h ! 1, h ! 2, h ! 3, h ! 4, h ! 5, h ! 6, h ! 7, h ! 8, h ! 9, h ! 10, h ! 11, h ! 12, h ! 13, h ! 14, h ! 15, h ! 16, h ! 17, h ! 18, h ! 19, h ! 20, h ! 21, h ! 22, h ! 23, h ! 24]"
    by (simp only: upt_25 list.map)
  then show thesis by (rule that)
qed

lemma of_lanes_eq:
  "of_lanes f = [f 0 0, f 1 0, f 2 0, f 3 0, f 4 0, f 0 1, f 1 1, f 2 1, f 3 1, f 4 1, f 0 2, f 1 2, f 2 2, f 3 2, f 4 2,
     f 0 3, f 1 3, f 2 3, f 3 3, f 4 3, f 0 4, f 1 4, f 2 4, f 3 4, f 4 4]"
  by (simp add: of_lanes_def upt_25)

lemma length_of_lanes [simp]: "length (of_lanes f) = 25"
  by (simp add: of_lanes_def)

lemma upt_5: "[0..<5] = [0, 1, 2, 3, 4]"
  by code_simp

lemma keccak_theta_eq:
  assumes "length h = 25"
  shows "keccak_theta h = fips_theta h"
  using assms
  by (rule list25_cases)
     (simp add: keccak_theta_def fips_theta_def of_lanes_eq lane_def upt_5 mod5_def rotateLeft_eq Let_def)

lemma rho_offsets:
  "map (\<lambda>i. rho_offset (i mod 5) (i div 5)) [0..<25] =
    [0, 1, 62, 28, 27, 36, 44, 6, 55, 20, 3, 10, 43, 25, 39, 41, 45, 15, 21, 8, 18, 2, 61, 56, 14]"
  by code_simp

lemma keccak_rho_pi_eq:
  assumes "length h = 25"
  shows "keccak_rho_pi h = fips_pi (fips_rho h)"
proof -
  have "fips_rho h = map2 (\<lambda>r x. word_rotl r x) (map (\<lambda>i. rho_offset (i mod 5) (i div 5)) [0..<25]) (map ((!) h) [0..<25])"
    unfolding fips_rho_def of_lanes_def lane_def
    by (rule nth_equalityI) (simp_all add: mod_less_eq_dividend)
  also have "map ((!) h) [0..<25] = h" using map_nth [of h] assms by simp
  finally have *: "fips_rho h = map2 (\<lambda>r x. word_rotl r x)
     [0, 1, 62, 28, 27, 36, 44, 6, 55, 20, 3, 10, 43, 25, 39, 41, 45, 15, 21, 8, 18, 2, 61, 56, 14] h"
    unfolding rho_offsets .
  show ?thesis
    unfolding *
    using assms by (rule list25_cases) (simp add: keccak_rho_pi_def fips_pi_def of_lanes_eq lane_def rotateLeft_eq word_rotl_none Let_def)
qed

lemma keccak_chi_eq:
  assumes "length h = 25"
  shows "keccak_chi h = fips_chi h"
  using assms
  by (rule list25_cases)
     (simp add: keccak_chi_def fips_chi_def of_lanes_eq lane_def Let_def and.commute)

lemma XorMasks_eq: "XorMasks = map fips_RC [0..<24]"
  by code_simp

lemma keccak_round_eq:
  assumes "length h = 25" "i < 24"
  shows "keccak_round h i = fips_round h i"
  using assms
  by (simp add: keccak_round_def fips_round_def keccak_theta_eq keccak_rho_pi_eq keccak_chi_eq fips_theta_def
      fips_pi_def Let_def keccak_iota_def fips_iota_def XorMasks_eq)

lemma length_fips_round [simp]: "length (fips_round h i) = 25"
  by (simp add: fips_round_def fips_iota_def fips_chi_def)

lemma foldl_round_eq:
  "length h = 25 \<Longrightarrow> \<forall>i \<in> set is. i < 24 \<Longrightarrow> foldl keccak_round h is = foldl fips_round h is"
  by (induction "is" arbitrary: h) (simp_all add: keccak_round_eq)

lemma length_keccak_f: "length h = 25 \<Longrightarrow> length (keccak_f h) = 25"
proof -
  have "length h = 25 \<Longrightarrow> length (foldl fips_round h is) = 25" for "is" and h
    by (induction "is" arbitrary: h) simp_all
  then show "length h = 25 \<Longrightarrow> ?thesis" by (simp add: keccak_f_def)
qed

lemma keccak_mix_eq:
  assumes "length h = 25" "n \<le> 25"
  shows "foldl (\<lambda>h i. h[i := h ! i XOR word64_at data i]) h [0..<n]
    = map (\<lambda>i. if i < n then h ! i XOR word64_at data i else h ! i) [0..<25]"
  using assms(2)
proof (induction n)
  case 0
  then show ?case using map_nth [of h] assms(1) by simp
next
  case (Suc n)
  then show ?case
    by (auto intro!: nth_equalityI simp: nth_list_update)
qed

lemma Keccak_processBlock_eq:
  assumes "length h = 25" "bs \<le> 200"
  shows "Keccak_processBlock bs h block = sponge_absorb bs h block"
proof -
  have n: "bs div 8 \<le> 25" using assms(2) by simp
  show ?thesis
    unfolding Keccak_processBlock_def sponge_absorb_def keccak_f_def keccak_mix_def keccak_mix_eq [OF assms(1) n] keccak_Rounds_def
    by (rule foldl_round_eq) simp_all
qed

lemma SHA3_processBlock_eq: "SHA3_processBlock = Keccak_processBlock"
  by (intro ext) (simp add: SHA3_processBlock_def Keccak_processBlock_def)

section \<open>The objects compute the sponge functions\<close>

lemma length_sponge_absorb [simp]: "length (sponge_absorb bs h b) = 25"
  by (simp add: sponge_absorb_def length_keccak_f)

lemma foldl_process_eq:
  "length h = 25 \<Longrightarrow> bs \<le> 200 \<Longrightarrow> foldl (Keccak_processBlock bs) h bl = foldl (sponge_absorb bs) h bl"
  by (induction bl arbitrary: h) (simp_all add: Keccak_processBlock_eq)

lemma length_foldl_absorb: "length h = 25 \<Longrightarrow> length (foldl (sponge_absorb bs) h bl) = 25"
  by (induction bl arbitrary: h) simp_all

subsection \<open>The output\<close>

lemma ucast_low_byte: "ucast (x AND 0xFF :: 64 word) = (ucast x :: byte)"
proof -
  have m: "(0xFF :: 64 word) = mask 8" by (simp add: mask_eq_exp_minus_1)
  show ?thesis unfolding m by (intro bit_word_eqI) (simp add: bit_simps)
qed

lemma bytes_le64_eq: "bytes_le64 x = map (\<lambda>j. ucast (drop_bit (8 * j) x)) [0..<8]"
proof -
  have "[0..<8] = [0, 1, 2, 3, 4, 5, 6, 7]" by code_simp
  then show ?thesis by (simp add: bytes_le64_def ucast_low_byte)
qed

lemma take_concat_words:
  "n < length h \<Longrightarrow> r \<le> 8 \<Longrightarrow>
   take (8 * n + r) (concat (map bytes_le64 h)) = concat (map bytes_le64 (take n h)) @ take r (bytes_le64 (h ! n))"
proof (induction n arbitrary: h)
  case 0
  then show ?case by (cases h) simp_all
next
  case (Suc n)
  then obtain x h' where h: "h = x # h'" by (cases h) auto
  have "8 * Suc n + r = length (bytes_le64 x) + (8 * n + r)" by simp
  then show ?case using Suc h by (simp only: h list.map concat.simps take_append) simp
qed

lemma hex_string_append: "hex_string (xs @ ys) = hex_string xs @ hex_string ys"
  by (simp add: hex_string_def)

lemma hex_string_words: "n \<le> length h \<Longrightarrow>
  hex_string (concat (map bytes_le64 (take n h)))
  = concat (map (\<lambda>i. concat (map (\<lambda>j. hex_of_byte (ucast (drop_bit (8 * j) (h ! i)))) [0..<8])) [0..<n])"
proof (induction n)
  case (Suc n)
  then show ?case
    by (simp add: take_Suc_conv_app_nth hex_string_append bytes_le64_eq hex_string_def comp_def del: upt_rec_numeral)
qed (simp add: hex_string_def)

lemma sponge_output_eq:
  assumes "length h = 25" "bits \<in> {224, 256, 384, 512}"
  shows "sponge_output bits h = hex_string (take (bits div 8) (concat (map bytes_le64 h)))"
proof -
  define n r where "n = bits div 64" and "r = (bits + 7 - n * 64) div 8"
  have nr: "bits div 8 = 8 * n + r" "n < 25" "r \<le> 8" using assms(2) by (auto simp: n_def r_def)
  have "[0..<r] = take r [0..<8]" using nr by (simp add: take_upt)
  then have t: "take r (bytes_le64 x) = map (\<lambda>j. ucast (drop_bit (8 * j) x)) [0..<r]" for x
    by (simp add: bytes_le64_eq take_map)
  show ?thesis
    unfolding nr(1) using nr assms(1)
    by (subst take_concat_words)
       (simp_all add: sponge_output_def Let_def n_def [symmetric] r_def [symmetric] hex_string_append hex_string_words t,
        simp add: hex_string_def comp_def)
qed

subsection \<open>The padding\<close>

lemma sponge_buffer:
  fixes sep :: byte
  assumes "n < bs" "bs \<le> length b"
  shows "(let b = foldl (\<lambda>b i. b[i := 0]) (b[n := sep]) [n + 1..<bs]
          in take bs (b[bs - 1 := b ! (bs - 1) OR 0x80]))
         = take n b @ (if bs - n = 1 then [sep OR 0x80] else sep # replicate (bs - n - 2) 0 @ [0x80])"
proof -
  have "take (Suc n) (b[n := sep]) = take n b @ [sep]" using assms by (simp add: take_Suc_conv_app_nth)
  then have z: "foldl (\<lambda>b i. b[i := 0]) (b[n := sep]) [n + 1..<bs] = take n b @ sep # replicate (bs - Suc n) 0 @ drop bs b"
    using assms by (simp add: foldl_zero_eq)
  show ?thesis
  proof (cases "bs - n = 1")
    case True
    then have "bs = Suc n" using assms by simp
    then show ?thesis using z assms by (simp add: nth_append list_update_append min_absorb2)
  next
    case False
    define k where "k = bs - n - 2"
    then have k: "bs = Suc (Suc (n + k))" using False assms by simp
    have "replicate (Suc k) (0::byte) = replicate k 0 @ [0]" by (simp add: replicate_append_same)
    then have "foldl (\<lambda>b i. b[i := 0]) (b[n := sep]) [n + 1..<bs] = (take n b @ sep # replicate k 0) @ 0 # drop bs b"
      using z k by simp
    moreover have "length (take n b @ sep # replicate k 0) = bs - 1" using k assms by simp
    ultimately have "(let b = foldl (\<lambda>b i. b[i := 0]) (b[n := sep]) [n + 1..<bs]
          in take bs (b[bs - 1 := b ! (bs - 1) OR 0x80])) = (take n b @ sep # replicate k 0) @ [0x80]"
      using k by (simp add: Let_def nth_append list_update_append)
    then show ?thesis using k by simp
  qed
qed

subsection \<open>The classes\<close>

lemma sponge_members:
  "digest.more (d :: sponge) = digest.more e \<Longrightarrow> m_blockSize d = m_blockSize e \<and> m_bits d = m_bits e"
  by (cases d; cases e) simp

text \<open>The variants of the classes; \<open>m_buffer\<close> has room for the largest block.\<close>

definition sponge_ok :: "nat \<Rightarrow> sponge \<Rightarrow> bool" where
  "sponge_ok bits d \<longleftrightarrow> bits \<in> {224, 256, 384, 512} \<and> m_bits d = bits \<and> m_blockSize d = 200 - 2 * (bits div 8)
     \<and> length (m_buffer d) = keccak_MaxBlockSize"

definition sponge_holds :: "nat \<Rightarrow> byte list \<Rightarrow> sponge \<Rightarrow> bool" where
  "sponge_holds bits msg d \<longleftrightarrow> sponge_ok bits d
     \<and> absorbed (Keccak_processBlock (m_blockSize d)) (m_blockSize d) (replicate 25 0) msg d"

lemma sponge_ok_bounds: "sponge_ok bits d \<Longrightarrow> 0 < m_blockSize d \<and> m_blockSize d \<le> length (m_buffer d) \<and> m_blockSize d \<le> 200"
  by (auto simp: sponge_ok_def keccak_MaxBlockSize_def)

lemma sponge_block_hash: "sponge_ok bits d \<Longrightarrow> block_hash (m_blockSize d)"
  using sponge_ok_bounds [of bits d] by (simp add: block_hash_def)

lemma sponge_add_holds:
  assumes "sponge_holds bits msg d"
  shows "sponge_holds bits (msg @ xs) (Keccak_add xs d)"
proof -
  let ?e = "hash_add (Keccak_processBlock (m_blockSize d)) (m_blockSize d) xs d"
  have ok: "sponge_ok bits d" using assms by (simp add: sponge_holds_def)
  have m: "m_blockSize ?e = m_blockSize d" "m_bits ?e = m_bits d"
    using sponge_members [of ?e d] by simp_all
  have "sponge_ok bits ?e" using ok m by (simp add: sponge_ok_def)
  moreover have "absorbed (Keccak_processBlock (m_blockSize d)) (m_blockSize d) (replicate 25 0) (msg @ xs) ?e"
    by (rule block_hash.absorbed_add [OF sponge_block_hash [OF ok]]) (use assms in \<open>simp add: sponge_holds_def\<close>)
  ultimately show ?thesis
    using m by (simp add: sponge_holds_def Keccak_add_def)
qed

lemma sponge_reset_holds:
  assumes "sponge_ok bits d"
  shows "sponge_holds bits [] (Keccak_reset d)"
proof -
  let ?e = "Keccak_reset d"
  have e: "sponge_ok bits ?e" "m_blockSize ?e = m_blockSize d"
    using assms by (simp_all add: Keccak_reset_def sponge_ok_def)
  have "absorbed (Keccak_processBlock (m_blockSize ?e)) (m_blockSize ?e) (replicate 25 0) [] ?e"
    by (rule block_hash.absorbed_start [OF sponge_block_hash [OF e(1)]])
       (use sponge_ok_bounds [OF e(1)] in \<open>simp_all add: Keccak_reset_def keccak_StateSize_def\<close>)
  then show ?thesis using e by (simp add: sponge_holds_def)
qed

text \<open>The padded buffer, for the first byte of either class.\<close>

lemma sponge_final:
  fixes sep :: byte
  assumes "sponge_holds bits msg d"
  defines "bs \<equiv> m_blockSize d" and "n \<equiv> m_bufferSize d"
  defines "buf \<equiv> (let b = foldl (\<lambda>b i. b[i := 0]) ((m_buffer d)[n := sep]) [n + 1..<bs] in b[bs - 1 := b ! (bs - 1) OR 0x80])"
  shows "Keccak_processBlock bs (m_hash d) (take bs buf)
         = foldl (sponge_absorb bs) (replicate 25 0) (chunks bs (sponge_pad sep bs msg))"
    and "length buf = length (m_buffer d)" and "take n buf = take n (m_buffer d)" and "n < bs"
proof -
  have ok: "0 < bs" "bs \<le> length (m_buffer d)" "bs \<le> 200"
    using sponge_ok_bounds assms(1) unfolding sponge_holds_def bs_def by blast+
  have a: "m_hash d = foldl (Keccak_processBlock bs) (replicate 25 0) (chunks bs msg)" "n = length msg mod bs"
    "take n (m_buffer d) = drop (length msg div bs * bs) msg"
    using assms(1) by (simp_all add: sponge_holds_def absorbed_def Let_def bs_def n_def)
  show n: "n < bs" using a(2) ok by simp
  let ?full = "take (length msg div bs * bs) msg" and ?rest = "drop (length msg div bs * bs) msg"
  let ?p = "if bs - n = 1 then [sep OR 0x80] else sep # replicate (bs - n - 2) 0 @ [0x80]"
  have buf: "take bs buf = ?rest @ ?p"
    using sponge_buffer [OF n ok(2), of sep] a(3) by (simp add: buf_def Let_def)
  have len: "length ?full = length msg div bs * bs" "length ?rest = n"
    using a(2) by (simp_all add: min_absorb2 minus_div_mult_eq_mod)
  have cut: "chunks bs (?full @ xs) = chunks bs ?full @ chunks bs xs" for xs
    by (rule chunks_append) (use len ok in simp_all)
  have "length ?p = bs - n" using n by auto
  then have "length (?rest @ ?p) = bs" unfolding length_append len(2) using n by simp
  then have "chunks bs (?rest @ ?p) = [?rest @ ?p]"
    using chunks_block [OF ok(1), of "?rest @ ?p" "[]"] ok by simp
  moreover have "chunks bs msg = chunks bs ?full" using cut [of ?rest] len n by simp
  moreover have "sponge_pad sep bs msg = ?full @ ?rest @ ?p" by (simp add: sponge_pad_def a(2) Let_def)
  ultimately have "foldl (Keccak_processBlock bs) (replicate 25 0) (chunks bs (sponge_pad sep bs msg))
      = Keccak_processBlock bs (m_hash d) (take bs buf)"
    using cut [of "?rest @ ?p"] a(1) buf by simp
  then show "Keccak_processBlock bs (m_hash d) (take bs buf)
         = foldl (sponge_absorb bs) (replicate 25 0) (chunks bs (sponge_pad sep bs msg))"
    using foldl_process_eq [of "replicate 25 0" bs] ok by simp
  have z: "length (foldl (\<lambda>b i. b[i := 0]) b is) = length b" for b :: "byte list" and "is"
    by (induction "is" arbitrary: b) simp_all
  show l: "length buf = length (m_buffer d)" by (simp add: buf_def Let_def z)
  have "take n (take bs buf) = ?rest" unfolding buf using len by simp
  then show "take n buf = take n (m_buffer d)" using n a(3) by (simp add: min_absorb1)
qed

lemma sponge_finish_holds:
  assumes "sponge_holds bits msg d" "length buf = length (m_buffer d)"
    "take (m_bufferSize d) buf = take (m_bufferSize d) (m_buffer d)"
  shows "sponge_holds bits msg (d\<lparr>m_buffer := buf\<rparr>)"
proof -
  have "sponge_ok bits (d\<lparr>m_buffer := buf\<rparr>)" using assms(1,2) by (simp add: sponge_holds_def sponge_ok_def)
  moreover have "absorbed (Keccak_processBlock (m_blockSize d)) (m_blockSize d) (replicate 25 0) msg (d\<lparr>m_buffer := buf\<rparr>)"
    using assms unfolding sponge_holds_def absorbed_def Let_def by simp
  ultimately show ?thesis by (simp add: sponge_holds_def)
qed

lemma sponge_value:
  assumes "sponge_holds bits msg d"
  shows "sponge_output (m_bits d) (foldl (sponge_absorb (m_blockSize d)) (replicate 25 0)
           (chunks (m_blockSize d) (sponge_pad sep (m_blockSize d) msg))) = hex_string (sponge_digest sep bits msg)"
  using assms sponge_output_eq [of "foldl (sponge_absorb (m_blockSize d)) (replicate 25 0)
      (chunks (m_blockSize d) (sponge_pad sep (m_blockSize d) msg))" bits]
  by (simp add: sponge_holds_def sponge_ok_def sponge_digest_def Let_def length_foldl_absorb)

lemma Keccak_getHash_holds:
  assumes "sponge_holds bits msg d"
  shows "fst (Keccak_getHash d) = hex_string (sponge_digest 1 bits msg)" "sponge_holds bits msg (snd (Keccak_getHash d))"
proof -
  have b: "200 - 2 * (m_bits d div 8) = m_blockSize d"
    using assms by (simp add: sponge_holds_def sponge_ok_def)
  note f = sponge_final(1,2,3) [OF assms, where sep = 1]
  show "fst (Keccak_getHash d) = hex_string (sponge_digest 1 bits msg)"
    using f(1) sponge_value [OF assms, where sep = 1] by (simp add: Keccak_getHash_def Keccak_processBuffer_def b Let_def)
  show "sponge_holds bits msg (snd (Keccak_getHash d))"
    using sponge_finish_holds [OF assms f(2,3)] by (simp add: Keccak_getHash_def Keccak_processBuffer_def b Let_def)
qed

lemma SHA3_getHash_holds:
  assumes "sponge_holds bits msg d"
  shows "fst (SHA3_getHash d) = hex_string (sponge_digest 6 bits msg)" "sponge_holds bits msg (snd (SHA3_getHash d))"
proof -
  note f = sponge_final(1,2,3) [OF assms, where sep = 6]
  have b: "max (m_bufferSize d + 1) (m_blockSize d) = m_blockSize d" using sponge_final(4) [OF assms] by simp
  show "fst (SHA3_getHash d) = hex_string (sponge_digest 6 bits msg)"
    using f(1) sponge_value [OF assms, where sep = 6] unfolding SHA3_getHash_def SHA3_processBuffer_def Let_def b
    by (simp add: SHA3_processBlock_eq)
  show "sponge_holds bits msg (snd (SHA3_getHash d))"
    using sponge_finish_holds [OF assms f(2,3)] unfolding SHA3_getHash_def SHA3_processBuffer_def Let_def b by simp
qed

lemma SHA3_same: "SHA3_reset = Keccak_reset" "SHA3_add = Keccak_add"
  by (simp_all add: fun_eq_iff SHA3_reset_def Keccak_reset_def SHA3_add_def Keccak_add_def SHA3_processBlock_eq)

interpretation keccak: hash_object "sponge_holds bits" Keccak_reset Keccak_add Keccak_getHash
    "\<lambda>msg. hex_string (sponge_digest 1 bits msg)" "sponge_ok bits" for bits
  by unfold_locales
     (simp_all add: sponge_reset_holds sponge_add_holds Keccak_getHash_holds, simp add: sponge_holds_def)

interpretation sha3: hash_object "sponge_holds bits" SHA3_reset SHA3_add SHA3_getHash
    "\<lambda>msg. hex_string (sponge_digest 6 bits msg)" "sponge_ok bits" for bits
  by unfold_locales
     (simp_all add: SHA3_same sponge_reset_holds sponge_add_holds SHA3_getHash_holds, simp add: sponge_holds_def)

lemma sponge_init_ok:
  "bits \<in> {224, 256, 384, 512} \<Longrightarrow> length (m_buffer d) = 144 \<Longrightarrow> sponge_ok bits (Keccak_init bits d)"
  by (simp add: Keccak_init_def Keccak_reset_def sponge_ok_def keccak_MaxBlockSize_def)

end
