(* ===== verification/Crc32.thy ===== *)
theory Crc32
  imports Crc32Table
begin

text \<open>
  The class \<open>CRC32\<close> (\<open>src/hashlibrary/crc32.cpp\<close>). \<open>CRC32_add\<close> takes eight bytes at a time through the
  eight tables (slicing-by-8) and the rest byte by byte; it is proved to be the division of the
  message by the polynomial, one bit at a time.
\<close>

section \<open>The class\<close>

text \<open>The object is its only member \<open>m_hash\<close>.\<close>

definition CRC32_reset :: "u32 \<Rightarrow> u32" where
  "CRC32_reset m = 0"

text \<open>The body of the first loop, on a little-endian machine.\<close>

definition crc32_eight :: "u32 \<Rightarrow> byte list \<Rightarrow> u32" where
  "crc32_eight crc current =
     (let one = word32_at current 0 XOR crc;
          two = word32_at current 1
      in crc32Lookup ! 7 ! unat (one AND 0xFF) XOR
         crc32Lookup ! 6 ! unat (drop_bit 8 one AND 0xFF) XOR
         crc32Lookup ! 5 ! unat (drop_bit 16 one AND 0xFF) XOR
         crc32Lookup ! 4 ! unat (drop_bit 24 one) XOR
         crc32Lookup ! 3 ! unat (two AND 0xFF) XOR
         crc32Lookup ! 2 ! unat (drop_bit 8 two AND 0xFF) XOR
         crc32Lookup ! 1 ! unat (drop_bit 16 two AND 0xFF) XOR
         crc32Lookup ! 0 ! unat (drop_bit 24 two))"

text \<open>The body of the second loop.\<close>

definition crc32_one :: "u32 \<Rightarrow> byte \<Rightarrow> u32" where
  "crc32_one crc x = drop_bit 8 crc XOR crc32Lookup ! 0 ! unat ((crc AND 0xFF) XOR ucast x)"

fun crc32_loops :: "u32 \<Rightarrow> byte list \<Rightarrow> u32" where
  "crc32_loops crc (b0 # b1 # b2 # b3 # b4 # b5 # b6 # b7 # rest) =
     crc32_loops (crc32_eight crc [b0, b1, b2, b3, b4, b5, b6, b7]) rest"
| "crc32_loops crc rest = foldl crc32_one crc rest"

definition CRC32_add :: "byte list \<Rightarrow> u32 \<Rightarrow> u32" where
  "CRC32_add data m = NOT (crc32_loops (NOT m) data)"

definition CRC32_getHash :: "u32 \<Rightarrow> string \<times> u32" where
  "CRC32_getHash m = (map (\<lambda>k. dec2hex ! unat (drop_bit k m AND 15)) [28, 24, 20, 16, 12, 8, 4, 0], m)"

definition CRC32_getHash_bytes :: "u32 \<Rightarrow> byte list \<times> u32" where
  "CRC32_getHash_bytes m = (bytes_be32 m, m)"

definition CRC32_compute :: "byte list \<Rightarrow> u32 \<Rightarrow> string \<times> u32" where
  "CRC32_compute data m = CRC32_getHash (CRC32_add data (CRC32_reset m))"

section \<open>The division\<close>

text \<open>Bit by bit: the bytes enter at the low end, and the register starts and ends inverted.\<close>

definition crc32 :: "byte list \<Rightarrow> u32" where
  "crc32 msg = NOT (foldl (\<lambda>crc x. (crc32_shift ^^ 8) (crc XOR ucast x)) (NOT 0) msg)"

abbreviation crc32_bytes :: "u32 \<Rightarrow> byte list \<Rightarrow> u32" where
  "crc32_bytes \<equiv> foldl (\<lambda>crc x. crc32_shift8 (crc XOR ucast x))"

text \<open>A register whose low bits are zero is only shifted.\<close>

lemma crc32_shift_pow_high:
  assumes "\<And>i. i < n \<Longrightarrow> \<not> bit x i"
  shows "(crc32_shift ^^ n) x = drop_bit n x"
  using assms
proof (induction n arbitrary: x)
  case (Suc n)
  have "crc32_shift x = drop_bit 1 x" using Suc.prems [of 0] by (simp add: crc32_shift_eq)
  moreover have "(crc32_shift ^^ n) (drop_bit 1 x) = drop_bit n (drop_bit 1 x)"
    by (rule Suc.IH) (use Suc.prems in \<open>simp add: bit_drop_bit_eq\<close>)
  ultimately show ?case by (simp add: funpow_swap1 funpow_Suc_right del: funpow.simps)
qed simp

lemma crc32_shift8_high: "(\<And>i. i < 8 \<Longrightarrow> \<not> bit x i) \<Longrightarrow> crc32_shift8 x = drop_bit 8 x"
  unfolding crc32_shift8_def by (rule crc32_shift_pow_high)

lemma low_byte_split: "(x :: u32) = (x AND 0xFF) XOR push_bit 8 (drop_bit 8 x)"
proof -
  have m: "(0xFF :: u32) = mask 8" by (simp add: mask_eq_exp_minus_1)
  show ?thesis unfolding m by (rule bit_word_eqI) (auto simp: bit_simps)
qed

lemma crc32_shift8_step: "crc32_shift8 x = crc32_shift8 (x AND 0xFF) XOR drop_bit 8 x"
proof -
  have "crc32_shift8 x = crc32_shift8 (x AND 0xFF) XOR crc32_shift8 (push_bit 8 (drop_bit 8 x))"
    by (subst low_byte_split) (simp only: crc32_shift8_xor)
  also have "crc32_shift8 (push_bit 8 (drop_bit 8 x)) = drop_bit 8 (push_bit 8 (drop_bit 8 x))"
    by (rule crc32_shift8_high) (simp add: bit_simps)
  also have "\<dots> = drop_bit 8 x" by (rule bit_word_eqI) (auto simp: bit_simps dest: bit_imp_le_length)
  finally show ?thesis .
qed

section \<open>The tables\<close>

lemma crc32Lookup_nth:
  assumes "unat x < 256"
  shows "crc32Lookup ! 0 ! unat x = crc32_shift8 x"
    "crc32Lookup ! 1 ! unat x = (crc32_shift8 ^^ 2) x"
    "crc32Lookup ! 2 ! unat x = (crc32_shift8 ^^ 3) x"
    "crc32Lookup ! 3 ! unat x = (crc32_shift8 ^^ 4) x"
    "crc32Lookup ! 4 ! unat x = (crc32_shift8 ^^ 5) x"
    "crc32Lookup ! 5 ! unat x = (crc32_shift8 ^^ 6) x"
    "crc32Lookup ! 6 ! unat x = (crc32_shift8 ^^ 7) x"
    "crc32Lookup ! 7 ! unat x = (crc32_shift8 ^^ 8) x"
  using assms by (simp_all add: crc32Lookup_eq del: funpow.simps upt_rec_numeral) (simp_all add: numeral_2_eq_2)

lemma unat_low_byte: "unat (x AND 0xFF :: u32) < 256"
proof -
  have "x AND 0xFF = take_bit 8 x" by (simp add: take_bit_eq_mask mask_eq_exp_minus_1)
  then show ?thesis
    using take_bit_nat_less_exp [of 8 "unat x"] by (simp add: unsigned_take_bit_eq)
qed

lemma crc32_one_eq: "crc32_one crc x = crc32_shift8 (crc XOR ucast x)"
proof -
  let ?i = "(crc AND 0xFF) XOR ucast x :: u32"
  have m: "(0xFF :: u32) = mask 8" by (simp add: mask_eq_exp_minus_1)
  have i: "?i = (crc XOR ucast x) AND 0xFF"
    unfolding m by (rule bit_word_eqI) (auto simp: bit_simps dest: bit_imp_le_length)
  have "crc32_one crc x = drop_bit 8 crc XOR crc32_shift8 ((crc XOR ucast x) AND 0xFF)"
    unfolding crc32_one_def i by (simp only: crc32Lookup_nth(1) [OF unat_low_byte])
  moreover have "drop_bit 8 (crc XOR ucast x) = drop_bit 8 crc"
    by (rule bit_word_eqI) (auto simp: bit_simps dest: bit_imp_le_length)
  ultimately show ?thesis
    using crc32_shift8_step [of "crc XOR ucast x"] by (simp only: xor.commute)
qed

section \<open>Eight bytes at once\<close>

text \<open>Four bytes are a 32-bit word that goes through four bytes of shifts.\<close>

lemma pow_eqs: "(f ^^ 2) x = f (f x)" "(f ^^ 3) x = f (f (f x))" "(f ^^ 4) x = f (f (f (f x)))"
  by (simp_all add: numeral_eq_Suc)

lemma crc32_four:
  "crc32_bytes crc [b0, b1, b2, b3] = (crc32_shift8 ^^ 4) (crc XOR word32_at [b0, b1, b2, b3] 0)"
proof -
  have sh: "crc32_shift8 (push_bit 8 (ucast x)) = ucast x" "crc32_shift8 (push_bit 16 (ucast x)) = push_bit 8 (ucast x)"
    "crc32_shift8 (push_bit 24 (ucast x)) = push_bit 16 (ucast x)" for x :: byte
    by (subst crc32_shift8_high; (rule bit_word_eqI)?; auto simp: bit_simps dest: bit_imp_le_length)+
  have "word32_at [b0, b1, b2, b3] 0 = ucast b0 XOR push_bit 8 (ucast b1) XOR push_bit 16 (ucast b2) XOR push_bit 24 (ucast b3)"
    unfolding word32_at_def by (rule bit_word_eqI) (auto simp: bit_simps dest: bit_imp_le_length)
  then show ?thesis
    by (simp only: foldl.simps pow_eqs crc32_shift8_xor sh xor.assoc)
qed

text \<open>Conversely, a word is the sum of its four bytes, each through its own number of shifts.\<close>

lemma crc32_shift8_4:
  "(crc32_shift8 ^^ 4) x = (crc32_shift8 ^^ 4) (x AND 0xFF) XOR (crc32_shift8 ^^ 3) (drop_bit 8 x AND 0xFF)
     XOR (crc32_shift8 ^^ 2) (drop_bit 16 x AND 0xFF) XOR crc32_shift8 (drop_bit 24 x)"
proof -
  have "drop_bit 8 (drop_bit 24 x) = 0"
    by (rule bit_word_eqI) (auto simp: bit_simps dest: bit_imp_le_length)
  moreover have "drop_bit 8 (drop_bit 8 x) = drop_bit 16 x" "drop_bit 8 (drop_bit 16 x) = drop_bit 24 x"
    by simp_all
  ultimately have s: "crc32_shift8 (drop_bit 24 x AND 0xFF) = crc32_shift8 (drop_bit 24 x)"
    "crc32_shift8 (drop_bit 16 x) = crc32_shift8 (drop_bit 16 x AND 0xFF) XOR drop_bit 24 x"
    "crc32_shift8 (drop_bit 8 x) = crc32_shift8 (drop_bit 8 x AND 0xFF) XOR drop_bit 16 x"
    "crc32_shift8 x = crc32_shift8 (x AND 0xFF) XOR drop_bit 8 x"
    using crc32_shift8_step [of "drop_bit 24 x"] crc32_shift8_step [of "drop_bit 16 x"]
      crc32_shift8_step [of "drop_bit 8 x"] crc32_shift8_step [of x] by (simp_all only: xor.right_neutral)
  have "(crc32_shift8 ^^ 4) x = crc32_shift8 (crc32_shift8 (crc32_shift8 (crc32_shift8 (x AND 0xFF) XOR drop_bit 8 x)))"
    unfolding pow_eqs by (subst s(4)) (rule refl)
  then show ?thesis
    by (simp only: pow_eqs crc32_shift8_xor s(2,3) xor.assoc)
qed

lemma crc32_eight_eq:
  "crc32_eight crc [b0, b1, b2, b3, b4, b5, b6, b7] = crc32_bytes crc [b0, b1, b2, b3, b4, b5, b6, b7]"
proof -
  define one where "one = word32_at [b0, b1, b2, b3] 0 XOR crc"
  define two where "two = word32_at [b4, b5, b6, b7] 0"
  have "(drop_bit 24 x :: u32) = drop_bit 24 x AND 0xFF" for x :: u32
  proof -
    have m: "(0xFF :: u32) = mask 8" by (simp add: mask_eq_exp_minus_1)
    show ?thesis unfolding m by (rule bit_word_eqI) (auto simp: bit_simps dest: bit_imp_le_length)
  qed
  then have hi: "unat (drop_bit 24 x :: u32) < 256" for x :: u32
    using unat_low_byte by metis
  have l: "crc32_eight crc [b0, b1, b2, b3, b4, b5, b6, b7] =
      (crc32_shift8 ^^ 8) (one AND 0xFF) XOR (crc32_shift8 ^^ 7) (drop_bit 8 one AND 0xFF)
      XOR (crc32_shift8 ^^ 6) (drop_bit 16 one AND 0xFF) XOR (crc32_shift8 ^^ 5) (drop_bit 24 one)
      XOR (crc32_shift8 ^^ 4) (two AND 0xFF) XOR (crc32_shift8 ^^ 3) (drop_bit 8 two AND 0xFF)
      XOR (crc32_shift8 ^^ 2) (drop_bit 16 two AND 0xFF) XOR crc32_shift8 (drop_bit 24 two)"
  proof -
    have w: "word32_at [b0, b1, b2, b3, b4, b5, b6, b7] 0 XOR crc = one" "word32_at [b0, b1, b2, b3, b4, b5, b6, b7] 1 = two"
      by (simp_all add: one_def two_def word32_at_def)
    show ?thesis
      by (simp only: crc32_eight_def Let_def w crc32Lookup_nth [OF unat_low_byte] crc32Lookup_nth [OF hi])
  qed
  have "(crc32_shift8 ^^ 8) x = (crc32_shift8 ^^ 4) ((crc32_shift8 ^^ 4) x)"
    "(crc32_shift8 ^^ 7) x = (crc32_shift8 ^^ 4) ((crc32_shift8 ^^ 3) x)"
    "(crc32_shift8 ^^ 6) x = (crc32_shift8 ^^ 4) ((crc32_shift8 ^^ 2) x)"
    "(crc32_shift8 ^^ 5) x = (crc32_shift8 ^^ 4) (crc32_shift8 x)" for x
    by (simp_all add: numeral_eq_Suc)
  then have "crc32_eight crc [b0, b1, b2, b3, b4, b5, b6, b7]
      = (crc32_shift8 ^^ 4) ((crc32_shift8 ^^ 4) one) XOR (crc32_shift8 ^^ 4) two"
    unfolding l by (subst crc32_shift8_4 [of one], subst crc32_shift8_4 [of two])
      (simp only: crc32_shift8_pow_xor xor.assoc)
  also have "\<dots> = (crc32_shift8 ^^ 4) ((crc32_shift8 ^^ 4) one XOR two)"
    by (simp only: crc32_shift8_pow_xor)
  also have "\<dots> = crc32_bytes (crc32_bytes crc [b0, b1, b2, b3]) [b4, b5, b6, b7]"
    unfolding crc32_four one_def two_def by (simp only: xor.commute)
  finally show ?thesis by simp
qed

lemma crc32_loops_eq: "crc32_loops crc data = crc32_bytes crc data"
proof (induction crc data rule: crc32_loops.induct)
  case (1 crc b0 b1 b2 b3 b4 b5 b6 b7 rest)
  then show ?case using crc32_eight_eq [of crc b0 b1 b2 b3 b4 b5 b6 b7] by simp
qed (simp_all add: crc32_one_eq)

section \<open>The object computes the CRC\<close>

definition crc32_holds :: "byte list \<Rightarrow> u32 \<Rightarrow> bool" where
  "crc32_holds msg m \<longleftrightarrow> m = crc32 msg"

lemma CRC32_add_holds: "crc32_holds msg m \<Longrightarrow> crc32_holds (msg @ xs) (CRC32_add xs m)"
  by (simp add: crc32_holds_def crc32_def CRC32_add_def crc32_loops_eq crc32_shift8_def)

definition crc32_hex :: "u32 \<Rightarrow> string" where
  "crc32_hex m = hex_string (bytes_be32 m)"

lemma unat_ucast_byte: "unat (ucast (x :: byte) :: u32) = unat x"
  using unsigned_less [of x, where 'a = nat] by (simp add: unsigned_ucast_eq take_bit_nat_eq_self)

lemma CRC32_getHash_eq: "CRC32_getHash m = (crc32_hex m, m)"
proof -
  have m: "(0xFF :: u32) = mask 8" "(15 :: byte) = mask 4" "(15 :: u32) = mask 4" by (simp_all add: mask_eq_exp_minus_1)
  have n: "unat (drop_bit 4 (ucast (drop_bit k m AND 0xFF) :: byte) AND 15) = unat (drop_bit (k + 4) m AND 15)"
    "unat ((ucast (drop_bit k m AND 0xFF) :: byte) AND 15) = unat (drop_bit k m AND 15)" for k
  proof -
    have "ucast (drop_bit 4 (ucast (drop_bit k m AND 0xFF) :: byte) AND 15) = drop_bit (k + 4) m AND 15"
      "ucast ((ucast (drop_bit k m AND 0xFF) :: byte) AND 15) = drop_bit k m AND 15"
      unfolding m by (rule bit_word_eqI; auto simp: bit_simps ac_simps)+
    then show "unat (drop_bit 4 (ucast (drop_bit k m AND 0xFF) :: byte) AND 15) = unat (drop_bit (k + 4) m AND 15)"
      "unat ((ucast (drop_bit k m AND 0xFF) :: byte) AND 15) = unat (drop_bit k m AND 15)"
      by (metis unat_ucast_byte)+
  qed
  show ?thesis
    using n n [of 0]
    by (simp add: CRC32_getHash_def crc32_hex_def hex_string_def hex_of_byte_def bytes_be32_def)
qed

interpretation crc32: hash_object crc32_holds CRC32_reset CRC32_add CRC32_getHash "\<lambda>msg. crc32_hex (crc32 msg)" "\<lambda>_. True"
  by unfold_locales
     (simp_all add: CRC32_add_holds CRC32_getHash_eq, simp_all add: crc32_holds_def crc32_def CRC32_reset_def)

end
