(* ===== verification/HashProps.thy ===== *)
theory HashProps
  imports Md5 Sha1 Sha256 Keccak Crc32
begin

text \<open>
  The properties of the hash library (\<open>src/hashlibrary\<close>): every class computes its hash function for
  any sequence of calls, its compression function is the one of the standard, and \<open>hmac\<close> is HMAC.
\<close>

definition ex_digest :: "u32 list digest" where
  "ex_digest = \<lparr>m_hash = [], m_numBytes = 0, m_bufferSize = 0, m_buffer = replicate 64 0\<rparr>"

definition ex_sponge :: "sponge" where
  "ex_sponge = \<lparr>m_hash = [], m_numBytes = 0, m_bufferSize = 0, m_buffer = replicate 144 0, m_blockSize = 0, m_bits = 0\<rparr>"

definition ex_ops :: "hash_op list" where
  "ex_ops = [Op_add [97, 98], Op_get, Op_add [99], Op_get, Op_reset, Op_get]"

lemma ex_buffers [simp]: "length (m_buffer ex_digest) = 64" "length (m_buffer ex_sponge) = 144"
  by (simp_all add: ex_digest_def ex_sponge_def)

section \<open>The objects\<close>

text \<open>
  C18. An \<open>MD5\<close> object that is reset, fed with \<open>add\<close> in pieces of any size and asked with \<open>getHash\<close> in
  any order answers every \<open>getHash\<close> with the RFC 1321 hash of the bytes added since the last \<open>reset\<close>,
  in hexadecimal; asking does not disturb what follows.
\<close>

theorem MD5_object:
  assumes "length (m_buffer d) = MD5_BlockSize"
  shows "run_object MD5_reset MD5_add MD5_getHash_hex ops (MD5_reset d) = spec_object (hex_string \<circ> md5_digest) ops []"
  by (rule md5_hex.object_from_start) (use assms in \<open>simp add: MD5_BlockSize_def\<close>)

theorem MD5_object_witness:
  "run_object MD5_reset MD5_add MD5_getHash_hex ex_ops (MD5_reset ex_digest)
   = [hex_string (md5_digest [97, 98]), hex_string (md5_digest [97, 98, 99]), hex_string (md5_digest [])]"
  using MD5_object [of ex_digest ex_ops] by (simp add: MD5_BlockSize_def) (simp add: ex_ops_def)

text \<open>The same for \<open>SHA1\<close> and FIPS 180-4 SHA-1.\<close>

theorem SHA1_object:
  assumes "length (m_buffer d) = SHA1_BlockSize"
  shows "run_object SHA1_reset SHA1_add SHA1_getHash_hex ops (SHA1_reset d) = spec_object (hex_string \<circ> sha1_digest) ops []"
  by (rule sha1_hex.object_from_start) (use assms in \<open>simp add: SHA1_BlockSize_def\<close>)

theorem SHA1_object_witness:
  "run_object SHA1_reset SHA1_add SHA1_getHash_hex ex_ops (SHA1_reset ex_digest)
   = [hex_string (sha1_digest [97, 98]), hex_string (sha1_digest [97, 98, 99]), hex_string (sha1_digest [])]"
  using SHA1_object [of ex_digest ex_ops] by (simp add: SHA1_BlockSize_def) (simp add: ex_ops_def)

text \<open>C19. The same for \<open>SHA256\<close> and FIPS 180-4 SHA-256.\<close>

theorem SHA256_object:
  assumes "length (m_buffer d) = SHA256_BlockSize"
  shows "run_object SHA256_reset SHA256_add SHA256_getHash_hex ops (SHA256_reset d)
         = spec_object (hex_string \<circ> sha256_digest) ops []"
  by (rule sha256_hex.object_from_start) (use assms in \<open>simp add: SHA256_BlockSize_def\<close>)

theorem SHA256_object_witness:
  "run_object SHA256_reset SHA256_add SHA256_getHash_hex ex_ops (SHA256_reset ex_digest)
   = [hex_string (sha256_digest [97, 98]), hex_string (sha256_digest [97, 98, 99]), hex_string (sha256_digest [])]"
  using SHA256_object [of ex_digest ex_ops] by (simp add: SHA256_BlockSize_def) (simp add: ex_ops_def)

text \<open>
  C20. The same for \<open>SHA3\<close> in its four variants and the FIPS 202 sponge with the separation bits \<open>01\<close>
  (first padding byte 6).
\<close>

theorem SHA3_object:
  assumes "bits \<in> {224, 256, 384, 512}" "length (m_buffer d) = keccak_MaxBlockSize"
  shows "run_object SHA3_reset SHA3_add SHA3_getHash ops (SHA3_init bits d)
         = spec_object (\<lambda>msg. hex_string (sponge_digest 6 bits msg)) ops []"
proof -
  let ?d = "d\<lparr>m_blockSize := 200 - 2 * (bits div 8), m_bits := bits\<rparr>"
  have "sponge_ok bits ?d" using assms by (simp add: sponge_ok_def)
  then show ?thesis unfolding SHA3_init_def by (rule sha3.object_from_start)
qed

theorem SHA3_object_witness:
  "run_object SHA3_reset SHA3_add SHA3_getHash ex_ops (SHA3_init 224 ex_sponge)
   = [hex_string (sponge_digest 6 224 [97, 98]), hex_string (sponge_digest 6 224 [97, 98, 99]), hex_string (sponge_digest 6 224 [])]"
  using SHA3_object [of 224 ex_sponge ex_ops] by (simp add: keccak_MaxBlockSize_def) (simp add: ex_ops_def)

text \<open>The same for \<open>Keccak\<close>, with the padding of the original submission (first padding byte 1).\<close>

theorem Keccak_object:
  assumes "bits \<in> {224, 256, 384, 512}" "length (m_buffer d) = keccak_MaxBlockSize"
  shows "run_object Keccak_reset Keccak_add Keccak_getHash ops (Keccak_init bits d)
         = spec_object (\<lambda>msg. hex_string (sponge_digest 1 bits msg)) ops []"
proof -
  let ?d = "d\<lparr>m_blockSize := 200 - 2 * (bits div 8), m_bits := bits\<rparr>"
  have "sponge_ok bits ?d" using assms by (simp add: sponge_ok_def)
  then show ?thesis unfolding Keccak_init_def by (rule keccak.object_from_start)
qed

theorem Keccak_object_witness:
  "run_object Keccak_reset Keccak_add Keccak_getHash ex_ops (Keccak_init 512 ex_sponge)
   = [hex_string (sponge_digest 1 512 [97, 98]), hex_string (sponge_digest 1 512 [97, 98, 99]), hex_string (sponge_digest 1 512 [])]"
  using Keccak_object [of 512 ex_sponge ex_ops] by (simp add: keccak_MaxBlockSize_def) (simp add: ex_ops_def)

text \<open>
  C21. A \<open>CRC32\<close> object, which takes eight bytes at a time through eight tables, answers with the
  remainder of the bitwise division of everything that was added since the last \<open>reset\<close>.
\<close>

theorem CRC32_object:
  "run_object CRC32_reset CRC32_add CRC32_getHash ops (CRC32_reset m) = spec_object (\<lambda>msg. crc32_hex (crc32 msg)) ops []"
  by (rule crc32.object_from_start) simp

section \<open>The compression functions\<close>

text \<open>The unrolled \<open>MD5::processBlock\<close> is the loop of 64 steps of RFC 1321.\<close>

theorem MD5_block_rfc: "MD5_processBlock h block = md5_block h block"
  by (rule MD5_processBlock_eq)

text \<open>
  \<open>SHA1::processBlock\<close>, which takes five steps in a pass and rotates the roles of its variables, is
  the loop of 80 steps of FIPS 180-4 on the big-endian words of the block.
\<close>

theorem SHA1_block_fips: "SHA1_processBlock h block = sha1_block h block"
  by (rule SHA1_processBlock_eq)

text \<open>
  The unrolled \<open>SHA256::processBlock\<close>, which extends its schedule as it goes, is the loop of 64 steps
  of FIPS 180-4.
\<close>

theorem SHA256_block_fips: "SHA256_processBlock h block = sha256_block h block"
  by (rule SHA256_processBlock_eq)

text \<open>
  \<open>processBlock\<close> of \<open>Keccak\<close> and \<open>SHA3\<close>, which updates its 25 words in place along one cycle, mixes in
  the block and applies the permutation Keccak-f[1600] of FIPS 202, its five maps written on the
  5 by 5 array of lanes and its constants taken from the shift register.
\<close>

theorem SHA3_block_fips:
  assumes "length h = keccak_StateSize" "blockSize \<le> 200"
  shows "SHA3_processBlock blockSize h block = sponge_absorb blockSize h block
       \<and> Keccak_processBlock blockSize h block = sponge_absorb blockSize h block"
  unfolding SHA3_processBlock_eq
  using Keccak_processBlock_eq [of h blockSize block] assms by (simp add: keccak_StateSize_def)

theorem SHA3_block_fips_witness:
  "SHA3_processBlock 136 (replicate 25 0) (replicate 136 1) = sponge_absorb 136 (replicate 25 0) (replicate 136 1)"
  using SHA3_block_fips [of "replicate 25 0" 136 "replicate 136 1"] by (simp add: keccak_StateSize_def)

text \<open>
  The eight transcribed tables of \<open>crc32.cpp\<close>, 2048 constants, are the ones of the generator in the
  comment: entry \<open>i\<close> of table \<open>k\<close> is \<open>i\<close> after \<open>k + 1\<close> bytes of division steps.
\<close>

theorem crc32_tables:
  "crc32Lookup = map (\<lambda>k. map (\<lambda>i. (crc32_shift8 ^^ Suc k) (of_nat i)) [0..<256]) [0, 1, 2, 3, 4, 5, 6, 7]"
  by (rule crc32Lookup_eq)

section \<open>HMAC\<close>

text \<open>
  C22. \<open>hmac<MD5>\<close>, \<open>hmac<SHA1>\<close> and \<open>hmac<SHA256>\<close> compute the HMAC of RFC 2104, with keys longer than a
  block replaced by their hash.
\<close>

theorem hmac_rfc2104:
  assumes "length (m_buffer fresh) = 64"
  shows "hmac MD5_BlockSize fresh MD5_reset MD5_add MD5_getHash MD5_getHash_hex text key
           = hex_string (rfc2104 md5_digest 64 key text)
       \<and> hmac SHA1_BlockSize fresh SHA1_reset SHA1_add SHA1_getHash SHA1_getHash_hex text key
           = hex_string (rfc2104 sha1_digest 64 key text)
       \<and> hmac SHA256_BlockSize fresh SHA256_reset SHA256_add SHA256_getHash SHA256_getHash_hex text key
           = hex_string (rfc2104 sha256_digest 64 key text)"
  unfolding MD5_BlockSize_def SHA1_BlockSize_def SHA256_BlockSize_def
  by (intro conjI md5.hmac_eq sha1.hmac_eq sha256.hmac_eq assms MD5_getHash_hex_eq SHA1_getHash_hex_eq SHA256_getHash_hex_eq)

theorem hmac_rfc2104_witness:
  "hmac MD5_BlockSize ex_digest MD5_reset MD5_add MD5_getHash MD5_getHash_hex [1, 2] (replicate 65 3)
     = hex_string (rfc2104 md5_digest 64 (replicate 65 3) [1, 2])"
  using hmac_rfc2104 [of ex_digest "[1, 2]" "replicate 65 3"] by simp

end
