(* ===== verification/Framing.thy ===== *)
theory Framing
  imports Prelude
begin

text \<open>
  The wire formats of \<open>src/Utils/Utils.cpp\<close> and \<open>src/Utils/Utils.h\<close>: integers in network byte order, the
  headers of the framework's packets, length-prefixed strings, the query string of a URL, and the
  argument lists of \<open>src/inc/templatefuncs.h\<close>.

  A \<open>std::string\<close>, a \<open>string_view\<close> and a \<open>span\<close> are the list of their bytes. An operation that takes a
  \<open>std::string&\<close> returns the new contents; an output parameter that a failing operation leaves alone is
  returned as it was given. \<open>None\<close> is a failed \<open>assert\<close> or an access out of bounds. The host is little
  endian (\<open>mem16\<close>, \<open>mem32\<close>); Base64 (\<open>cppcodec\<close>) and JSON (\<open>iguana\<close>) are parameters.
\<close>

type_synonym u64 = "64 word"

lemma unat_of_nat_lt: "n < 2 ^ LENGTH('a) \<Longrightarrow> unat (of_nat n :: 'a::len word) = n"
  by (simp add: unsigned_of_nat take_bit_nat_eq_self)

section \<open>Network byte order\<close>

definition htons :: "u16 \<Rightarrow> u16" where
  "htons x = push_bit 8 x OR drop_bit 8 x"

definition htonl :: "u32 \<Rightarrow> u32" where
  "htonl x = push_bit 24 x OR (push_bit 8 x AND 0x00FF0000) OR (drop_bit 8 x AND 0x0000FF00) OR drop_bit 24 x"

abbreviation ntohs :: "u16 \<Rightarrow> u16" where "ntohs \<equiv> htons"
abbreviation ntohl :: "u32 \<Rightarrow> u32" where "ntohl \<equiv> htonl"

text \<open>The bytes of an integer in memory, and the integer at the start of some memory.\<close>

definition mem16 :: "u16 \<Rightarrow> byte list" where
  "mem16 x = [ucast x, ucast (drop_bit 8 x)]"

definition mem32 :: "u32 \<Rightarrow> byte list" where
  "mem32 x = [ucast x, ucast (drop_bit 8 x), ucast (drop_bit 16 x), ucast (drop_bit 24 x)]"

definition load16 :: "byte list \<Rightarrow> u16" where
  "load16 bs = ucast (bs ! 0) OR push_bit 8 (ucast (bs ! 1))"

definition load32 :: "byte list \<Rightarrow> u32" where
  "load32 bs = ucast (bs ! 0) OR push_bit 8 (ucast (bs ! 1)) OR push_bit 16 (ucast (bs ! 2)) OR push_bit 24 (ucast (bs ! 3))"

text \<open>What goes over the wire: the most significant byte first.\<close>

definition be16 :: "u16 \<Rightarrow> byte list" where
  "be16 x = [ucast (drop_bit 8 x), ucast x]"

definition be32 :: "u32 \<Rightarrow> byte list" where
  "be32 x = [ucast (drop_bit 24 x), ucast (drop_bit 16 x), ucast (drop_bit 8 x), ucast x]"

lemma length_be [simp]: "length (be16 x) = 2" "length (be32 y) = 4"
  by (simp_all add: be16_def be32_def)

lemma be_ne [simp]: "be16 x \<noteq> []" "be32 y \<noteq> []"
  by (simp_all add: be16_def be32_def)

lemma length_mem [simp]: "length (mem16 x) = 2" "length (mem32 y) = 4"
  by (simp_all add: mem16_def mem32_def)

lemma mem16_htons [simp]: "mem16 (htons x) = be16 x"
  unfolding mem16_def be16_def htons_def list.inject
  by (intro conjI bit_word_eqI refl) (auto simp: bit_simps)

lemma bit_ff0000: "bit (0x00FF0000 :: u32) n \<longleftrightarrow> 16 \<le> n \<and> n < 24"
proof -
  have eq: "(0x00FF0000 :: u32) = push_bit 16 (mask 8)" by (simp add: mask_eq_exp_minus_1 push_bit_eq_mult)
  show ?thesis unfolding eq bit_push_bit_iff bit_mask_iff by auto
qed

lemma bit_ff00: "bit (0x0000FF00 :: u32) n \<longleftrightarrow> 8 \<le> n \<and> n < 16"
proof -
  have eq: "(0x0000FF00 :: u32) = push_bit 8 (mask 8)" by (simp add: mask_eq_exp_minus_1 push_bit_eq_mult)
  show ?thesis unfolding eq bit_push_bit_iff bit_mask_iff by auto
qed

lemma bit_htonl:
  "bit (htonl x) n \<longleftrightarrow> n < 32 \<and>
     (if n < 8 then bit x (n + 24) else if n < 16 then bit x (n + 8) else if n < 24 then bit x (n - 8) else bit x (n - 24))"
  unfolding htonl_def bit_or_iff bit_and_iff bit_ff0000 bit_ff00
  by (auto simp: bit_push_bit_iff bit_drop_bit_eq ac_simps dest: bit_imp_le_length)

lemma mem32_htonl [simp]: "mem32 (htonl x) = be32 x"
  unfolding mem32_def be32_def list.inject
  by (intro conjI bit_word_eqI refl) (auto simp: bit_unsigned_iff bit_drop_bit_eq bit_htonl ac_simps)

lemma load16_append [simp]: "length bs = 2 \<Longrightarrow> load16 (bs @ rest) = load16 bs"
  by (simp add: load16_def nth_append)

lemma load32_append [simp]: "length bs = 4 \<Longrightarrow> load32 (bs @ rest) = load32 bs"
  by (simp add: load32_def nth_append)

lemma load16_mem [simp]: "load16 (mem16 x) = x"
  unfolding load16_def mem16_def by (rule bit_word_eqI) (auto simp: bit_simps)

lemma load32_mem [simp]: "load32 (mem32 x) = x"
proof (rule bit_word_eqI)
  fix n assume n: "n < LENGTH(32)"
  consider "n < 8" | "8 \<le> n" "n < 16" | "16 \<le> n" "n < 24" | "24 \<le> n" by linarith
  then show "bit (load32 (mem32 x)) n = bit x n"
    using n by cases (auto simp: load32_def mem32_def bit_or_iff bit_push_bit_iff bit_unsigned_iff bit_drop_bit_eq)
qed

lemma htons_htons [simp]: "htons (htons x) = x"
  unfolding htons_def by (rule bit_word_eqI) (auto simp: bit_simps)

lemma htonl_htonl [simp]: "htonl (htonl x) = x"
proof (rule bit_word_eqI)
  fix n assume n: "n < LENGTH(32)"
  consider "n < 8" | "8 \<le> n" "n < 16" | "16 \<le> n" "n < 24" | "24 \<le> n" by linarith
  then show "bit (htonl (htonl x)) n = bit x n"
  proof cases
    case 3
    then obtain k where "n = 16 + k" "k < 8" by (auto simp: le_iff_add)
    then show ?thesis by (simp add: bit_htonl)
  next
    case 4
    with n have "n - 24 < 8" "n - 24 + 24 = n" by auto
    with 4 n show ?thesis by (simp add: bit_htonl)
  qed (simp_all add: bit_htonl)
qed

lemma load16_be [simp]: "ntohs (load16 (be16 x)) = x"
  using load16_mem [of "htons x"] by simp

lemma load32_be [simp]: "ntohl (load32 (be32 x)) = x"
  using load32_mem [of "htonl x"] by simp

section \<open>Packing and unpacking integers\<close>

definition packuint16 :: "byte list \<Rightarrow> u16 \<Rightarrow> byte list" where
  "packuint16 dst src = foldl (\<lambda>d b. d @ [b]) dst (mem16 (htons src))"

definition packuint32 :: "byte list \<Rightarrow> u32 \<Rightarrow> byte list" where
  "packuint32 dst src = foldl (\<lambda>d b. d @ [b]) dst (mem32 (htonl src))"

text \<open>The overloads for a \<open>span\<close> overwrite it; its size is asserted.\<close>

definition packuint16_span :: "byte list \<Rightarrow> u16 \<Rightarrow> byte list option" where
  "packuint16_span dst src = (if length dst = 2 then Some (mem16 (htons src)) else None)"

definition packuint32_span :: "byte list \<Rightarrow> u32 \<Rightarrow> byte list option" where
  "packuint32_span dst src = (if length dst = 4 then Some (mem32 (htonl src)) else None)"

text \<open>\<open>(ok, src, dst)\<close>: the source without the bytes that were read.\<close>

definition unpackuint16 :: "byte list \<Rightarrow> u16 \<Rightarrow> bool \<times> byte list \<times> u16" where
  "unpackuint16 src dst = (if length src < 2 then (False, src, dst) else (True, drop 2 src, ntohs (load16 (take 2 src))))"

definition unpackuint32 :: "byte list \<Rightarrow> u32 \<Rightarrow> bool \<times> byte list \<times> u32" where
  "unpackuint32 src dst = (if length src < 4 then (False, src, dst) else (True, drop 4 src, ntohl (load32 (take 4 src))))"

text \<open>The overloads for a \<open>string_view\<close> return the view of the rest, an empty one on failure.\<close>

definition unpackuint16_view :: "byte list \<Rightarrow> u16 \<Rightarrow> bool \<times> byte list \<times> u16" where
  "unpackuint16_view src dst = (if length src < 2 then (False, [], dst) else (True, drop 2 src, ntohs (load16 src)))"

definition unpackuint32_view :: "byte list \<Rightarrow> u32 \<Rightarrow> bool \<times> byte list \<times> u32" where
  "unpackuint32_view src dst = (if length src < 4 then (False, [], dst) else (True, drop 4 src, ntohl (load32 src)))"

lemma foldl_push_back: "foldl (\<lambda>d b. d @ [b]) dst bs = dst @ bs"
  by (induction bs arbitrary: dst) auto

lemma packuint16_eq [simp]: "packuint16 dst x = dst @ be16 x"
  by (simp add: packuint16_def foldl_push_back)

lemma packuint32_eq [simp]: "packuint32 dst x = dst @ be32 x"
  by (simp add: packuint32_def foldl_push_back)

lemma packuint16_span_eq: "packuint16_span dst x = (if length dst = 2 then Some (be16 x) else None)"
  by (simp add: packuint16_span_def)

lemma packuint32_span_eq: "packuint32_span dst x = (if length dst = 4 then Some (be32 x) else None)"
  by (simp add: packuint32_span_def)

lemma unpackuint16_be [simp]: "unpackuint16 (be16 x @ rest) d = (True, rest, x)"
  by (simp add: unpackuint16_def)

lemma unpackuint32_be [simp]: "unpackuint32 (be32 x @ rest) d = (True, rest, x)"
  by (simp add: unpackuint32_def)

lemma unpackuint16_view_be [simp]: "unpackuint16_view (be16 x @ rest) d = (True, rest, x)"
  by (simp add: unpackuint16_view_def)

lemma unpackuint32_view_be [simp]: "unpackuint32_view (be32 x @ rest) d = (True, rest, x)"
  by (simp add: unpackuint32_view_def)

lemma unpack_be_only [simp]:
  "unpackuint32 (be32 x) d = (True, [], x)" "unpackuint32_view (be32 x) d = (True, [], x)"
  by (simp_all add: unpackuint32_def unpackuint32_view_def)

lemma unpack_short [simp]:
  "length src < 2 \<Longrightarrow> unpackuint16 src d16 = (False, src, d16)"
  "length src < 4 \<Longrightarrow> unpackuint32 src d = (False, src, d)"
  "length src < 2 \<Longrightarrow> unpackuint16_view src d16 = (False, [], d16)"
  "length src < 4 \<Longrightarrow> unpackuint32_view src d = (False, [], d)"
  by (simp_all add: unpackuint16_def unpackuint32_def unpackuint16_view_def unpackuint32_view_def)

lemma be16_load16: "be16 (ntohs (load16 [a, b])) = [a, b]"
proof -
  have "load16 [a, b] = ucast a OR push_bit 8 (ucast b)" by (simp add: load16_def)
  moreover have "mem16 (load16 [a, b]) = [a, b]"
    unfolding mem16_def load16_def list.inject
    by (intro conjI bit_word_eqI refl) (auto simp: bit_simps dest: bit_imp_le_length)
  ultimately show ?thesis
    using mem16_htons [of "htons (load16 [a, b])"] by simp
qed

lemma be32_load32: "be32 (ntohl (load32 [a, b, c, d])) = [a, b, c, d]"
proof -
  have "mem32 (load32 [a, b, c, d]) = [a, b, c, d]"
    unfolding mem32_def load32_def list.inject
    by (intro conjI bit_word_eqI refl)
       (auto simp: bit_or_iff bit_push_bit_iff bit_unsigned_iff bit_drop_bit_eq numeral_2_eq_2 numeral_3_eq_3 dest: bit_imp_le_length)
  then show ?thesis
    using mem32_htonl [of "htonl (load32 [a, b, c, d])"] by simp
qed

lemma take_4: "4 \<le> length xs \<Longrightarrow> take 4 xs = [xs ! 0, xs ! 1, xs ! 2, xs ! 3]"
  by (rule nth_equalityI) (auto simp: less_Suc_eq numeral_eq_Suc)

text \<open>Any string of at least four bytes is a packed number and a rest.\<close>

lemma be32_ex:
  assumes "4 \<le> length src"
  shows "\<exists>x body. src = be32 x @ body"
proof -
  have "be32 (ntohl (load32 [src ! 0, src ! 1, src ! 2, src ! 3])) = take 4 src"
    using assms be32_load32 by (simp add: take_4)
  then show ?thesis by (metis append_take_drop_id)
qed

lemma be16_ex:
  assumes "2 \<le> length src"
  shows "\<exists>x body. src = be16 x @ body"
proof -
  have "take 2 src = [src ! 0, src ! 1]"
    using assms by (intro nth_equalityI) (auto simp: less_Suc_eq numeral_eq_Suc)
  then have "be16 (ntohs (load16 [src ! 0, src ! 1])) = take 2 src"
    using be16_load16 by simp
  then show ?thesis by (metis append_take_drop_id)
qed

section \<open>Packet headers\<close>

text \<open>
  The commands: \<open>enum class MainCmd\<close> has the type \<open>int\<close>, and the code casts any integer to it. Below,
  the overloads of \<open>packmaincmd3\<close> and \<open>uppackmaincmd3\<close> are told apart by what their header holds.
\<close>

type_synonym main_cmd = "32 word"

definition MainCmdBegin :: main_cmd where "MainCmdBegin = 1"
definition MainCmd_NoMainAss :: main_cmd where "MainCmd_NoMainAss = 2"
definition MainCmd_DefaultMain :: main_cmd where "MainCmd_DefaultMain = 3"
definition MainCmd_Echo :: main_cmd where "MainCmd_Echo = 4"

definition packmaincmd3_main :: "main_cmd \<Rightarrow> u32 \<Rightarrow> byte list \<Rightarrow> byte list \<Rightarrow> byte list" where
  "packmaincmd3_main mainc assc ret msg =
     (let ret = packuint16 ret (ucast mainc);
          ret = packuint16 ret (ucast assc);
          ret = packuint32 ret (of_nat (length msg))
      in ret @ msg)"

definition packmaincmd3_seq :: "u32 \<Rightarrow> main_cmd \<Rightarrow> u32 \<Rightarrow> byte list \<Rightarrow> byte list \<Rightarrow> byte list" where
  "packmaincmd3_seq seqnum mainc assc ret msg =
     (let ret = packuint32 ret seqnum;
          ret = packuint16 ret (ucast mainc);
          ret = packuint16 ret (ucast assc);
          ret = packuint32 ret (of_nat (length msg))
      in ret @ msg)"

definition packmaincmd3_assc :: "u16 \<Rightarrow> byte list \<Rightarrow> byte list \<Rightarrow> byte list" where
  "packmaincmd3_assc assc ret msg = packuint32 (packuint16 ret assc) (of_nat (length msg)) @ msg"

definition packmaincmd3_len :: "byte list \<Rightarrow> byte list \<Rightarrow> byte list" where
  "packmaincmd3_len ret msg = packuint32 ret (of_nat (length msg)) @ msg"

text \<open>
  The overloads for a \<open>std::string&\<close> take the header off the source and append the rest of it to the
  message; a source that is too short is left without the fields that were read before. The result
  holds the output parameters, or \<open>None\<close> for \<open>false\<close>.
\<close>

definition uppackmaincmd3_seq ::
    "byte list \<Rightarrow> byte list \<Rightarrow> byte list \<times> (u32 \<times> main_cmd \<times> u16 \<times> u64 \<times> byte list) option" where
  "uppackmaincmd3_seq src msg =
     (case unpackuint32 src 0 of
        (False, src, _) \<Rightarrow> (src, None)
      | (True, src, iseqnum) \<Rightarrow>
     (case unpackuint16 src 0 of
        (False, src, _) \<Rightarrow> (src, None)
      | (True, src, imainc) \<Rightarrow>
     (case unpackuint16 src 0 of
        (False, src, _) \<Rightarrow> (src, None)
      | (True, src, iassc) \<Rightarrow>
     (case unpackuint32 src 0 of
        (False, src, _) \<Rightarrow> (src, None)
      | (True, src, imsglen) \<Rightarrow>
          (src, Some (iseqnum, ucast imainc, iassc, ucast imsglen, msg @ src))))))"

definition uppackmaincmd3_seq_view ::
    "byte list \<Rightarrow> byte list \<Rightarrow> (u32 \<times> main_cmd \<times> u16 \<times> u64 \<times> byte list) option" where
  "uppackmaincmd3_seq_view src msg =
     (case unpackuint32_view src 0 of
        (False, _, _) \<Rightarrow> None
      | (True, t0, iseq) \<Rightarrow>
     (case unpackuint16_view t0 0 of
        (False, _, _) \<Rightarrow> None
      | (True, t1, imainc) \<Rightarrow>
     (case unpackuint16_view t1 0 of
        (False, _, _) \<Rightarrow> None
      | (True, t2, iassc) \<Rightarrow>
     (case unpackuint32_view t2 0 of
        (False, _, _) \<Rightarrow> None
      | (True, t3, imsglen) \<Rightarrow> Some (iseq, ucast imainc, iassc, ucast imsglen, msg @ t3)))))"

definition uppackmaincmd3_len :: "byte list \<Rightarrow> byte list \<Rightarrow> byte list \<times> (u64 \<times> byte list) option" where
  "uppackmaincmd3_len src msg =
     (case unpackuint32 src 0 of
        (False, src, _) \<Rightarrow> (src, None)
      | (True, src, imsglen) \<Rightarrow> (src, Some (ucast imsglen, msg @ src)))"

definition uppackmaincmd3_len_view :: "byte list \<Rightarrow> byte list \<Rightarrow> (u64 \<times> byte list) option" where
  "uppackmaincmd3_len_view src msg =
     (case unpackuint32_view src 0 of
        (False, _, _) \<Rightarrow> None
      | (True, t3, imsglen) \<Rightarrow> Some (ucast imsglen, msg @ t3))"

definition uppackmaincmd3_assc :: "byte list \<Rightarrow> byte list \<Rightarrow> byte list \<times> (u64 \<times> u16 \<times> byte list) option" where
  "uppackmaincmd3_assc src msg =
     (case unpackuint16 src 0xFFFF of
        (False, src, _) \<Rightarrow> (src, None)
      | (True, src, asscc) \<Rightarrow>
     (case unpackuint32 src 0 of
        (False, src, _) \<Rightarrow> (src, None)
      | (True, src, imsglen) \<Rightarrow> (src, Some (ucast imsglen, asscc, msg @ src))))"

text \<open>
  The last overload reads the length from \<open>src\<close> again and not from the view \<open>t2\<close> behind the first
  field; it also sets \<open>assc\<close> when it fails afterwards, which the second component holds.
\<close>

definition uppackmaincmd3_assc_view ::
    "u16 \<Rightarrow> byte list \<Rightarrow> byte list \<Rightarrow> (u64 \<times> byte list) option \<times> u16" where
  "uppackmaincmd3_assc_view assc src msg =
     (case unpackuint16_view src assc of
        (False, _, assc) \<Rightarrow> (None, assc)
      | (True, t2, assc) \<Rightarrow>
     (case unpackuint32_view src 0 of
        (False, _, _) \<Rightarrow> (None, assc)
      | (True, t3, imsglen) \<Rightarrow> (Some (ucast imsglen, msg @ t3), assc)))"

lemma packmaincmd3_eqs:
  "packmaincmd3_main mainc assc ret msg = ret @ be16 (ucast mainc) @ be16 (ucast assc) @ be32 (of_nat (length msg)) @ msg"
  "packmaincmd3_seq seqnum mainc assc ret msg
   = ret @ be32 seqnum @ be16 (ucast mainc) @ be16 (ucast assc) @ be32 (of_nat (length msg)) @ msg"
  "packmaincmd3_assc a ret msg = ret @ be16 a @ be32 (of_nat (length msg)) @ msg"
  "packmaincmd3_len ret msg = ret @ be32 (of_nat (length msg)) @ msg"
  by (simp_all add: packmaincmd3_main_def packmaincmd3_seq_def packmaincmd3_assc_def packmaincmd3_len_def Let_def)

text \<open>What the unpacking functions do with a string that holds a header.\<close>

lemma uppackmaincmd3_header:
  "uppackmaincmd3_seq (be32 s @ be16 m @ be16 a @ be32 l @ body) msg = (body, Some (s, ucast m, a, ucast l, msg @ body))"
  "uppackmaincmd3_seq_view (be32 s @ be16 m @ be16 a @ be32 l @ body) msg = Some (s, ucast m, a, ucast l, msg @ body)"
  "uppackmaincmd3_len (be32 l @ body) msg = (body, Some (ucast l, msg @ body))"
  "uppackmaincmd3_len_view (be32 l @ body) msg = Some (ucast l, msg @ body)"
  "uppackmaincmd3_assc (be16 a @ be32 l @ body) msg = (body, Some (ucast l, a, msg @ body))"
  by (simp_all add: uppackmaincmd3_seq_def uppackmaincmd3_seq_view_def uppackmaincmd3_len_def
      uppackmaincmd3_len_view_def uppackmaincmd3_assc_def)

text \<open>The header of a request, of 12 bytes, is found exactly where it fits.\<close>

lemma be_header_cases:
  assumes "12 \<le> length src"
  obtains s m a l body where "src = be32 s @ be16 m @ be16 a @ be32 l @ body"
proof -
  obtain s b1 where s: "src = be32 s @ b1" using assms be32_ex [of src] by auto
  obtain m b2 where m: "b1 = be16 m @ b2" using assms s be16_ex [of b1] by auto
  obtain a b3 where a: "b2 = be16 a @ b3" using assms s m be16_ex [of b2] by auto
  obtain l b4 where l: "b3 = be32 l @ b4" using assms s m a be32_ex [of b3] by auto
  show ?thesis by (rule that [of s m a l b4]) (use s m a l in simp)
qed

lemma uppackmaincmd3_seq_short:
  assumes "length src < 12"
  shows "snd (uppackmaincmd3_seq src msg) = None" "uppackmaincmd3_seq_view src msg = None"
  using assms by (auto simp: uppackmaincmd3_seq_def uppackmaincmd3_seq_view_def unpackuint32_def unpackuint16_def
      unpackuint32_view_def unpackuint16_view_def split: prod.splits if_splits)

lemma uppackmaincmd3_seq_iff:
  "uppackmaincmd3_seq_view src msg = snd (uppackmaincmd3_seq src msg)"
proof (cases "12 \<le> length src")
  case True
  then obtain s m a l body where "src = be32 s @ be16 m @ be16 a @ be32 l @ body" by (rule be_header_cases)
  then show ?thesis by (simp add: uppackmaincmd3_header)
next
  case False
  then show ?thesis by (simp add: uppackmaincmd3_seq_short)
qed

end
