(* ===== verification/UtilsOps.thy ===== *)
theory UtilsOps
  imports Framing
begin

text \<open>
  The rest of \<open>src/Utils/Utils.cpp\<close>: Base64 command headers, length-prefixed strings and the argument
  lists built on them (\<open>src/inc/templatefuncs.h\<close>), query strings, and the tables of command names.
\<close>

section \<open>Base64 headers\<close>

text \<open>
  \<open>enc\<close> and \<open>dec\<close> stand for \<open>base64::encode\<close> and \<open>base64::decode\<close>; \<open>dec\<close> returns \<open>None\<close> where the library
  throws. \<open>sizeof_u_long\<close> is 4 on Windows and 8 on 64-bit Linux: \<open>parsecmd\<close> reads a whole \<open>u_long\<close>, of
  which \<open>ntohl\<close> takes the low 32 bits.
\<close>

record cmdhead =
  head_mainc :: main_cmd
  head_assc :: u16
  head_len :: u32

record cmdsubhead =
  sub_assc :: u16
  sub_len :: u32

definition cmdhead_init :: cmdhead where
  "cmdhead_init = \<lparr>head_mainc = MainCmdBegin, head_assc = 0, head_len = 0\<rparr>"

definition cmdsubhead_init :: cmdsubhead where
  "cmdsubhead_init = \<lparr>sub_assc = 0, sub_len = 0\<rparr>"

definition packlen :: "(byte list \<Rightarrow> byte list) \<Rightarrow> u64 \<Rightarrow> byte list" where
  "packlen enc l = enc (mem32 (htonl (ucast l)))"

definition packheads :: "(byte list \<Rightarrow> byte list) \<Rightarrow> u16 \<Rightarrow> u16 \<Rightarrow> byte list" where
  "packheads enc mainc assc = enc (mem16 (htons mainc) @ mem16 (htons assc))"

definition packcmdrep :: "(byte list \<Rightarrow> byte list) \<Rightarrow> main_cmd \<Rightarrow> u16 \<Rightarrow> u64 \<Rightarrow> byte list" where
  "packcmdrep enc mainc assc l =
     (let ilen = (ucast l :: u32);
          mc = htons (ucast mainc);
          ac = htons assc;
          lc = htonl ilen
      in enc (mem16 mc @ mem16 ac @ mem32 lc))"

definition load_u_long :: "nat \<Rightarrow> byte list \<Rightarrow> nat \<Rightarrow> u32 option" where
  "load_u_long sizeof_u_long bs i = (if i + sizeof_u_long \<le> length bs then Some (load32 (drop i bs)) else None)"

definition parsecmd :: "nat \<Rightarrow> (byte list \<Rightarrow> byte list option) \<Rightarrow> byte list \<Rightarrow> cmdhead option" where
  "parsecmd sizeof_u_long dec header =
     (case dec header of
        None \<Rightarrow> Some cmdhead_init
      | Some decodex \<Rightarrow>
          if length decodex \<noteq> 8 then Some cmdhead_init
          else map_option (\<lambda>l. \<lparr>head_mainc = ucast (ntohs (load16 decodex)), head_assc = ntohs (load16 (drop 2 decodex)), head_len = ntohl l\<rparr>)
                 (load_u_long sizeof_u_long decodex 4))"

definition parsesubcmd :: "nat \<Rightarrow> (byte list \<Rightarrow> byte list option) \<Rightarrow> byte list \<Rightarrow> cmdsubhead option" where
  "parsesubcmd sizeof_u_long dec header =
     (case dec header of
        None \<Rightarrow> Some cmdsubhead_init
      | Some decodex \<Rightarrow>
          if length decodex \<noteq> 6 then Some cmdsubhead_init
          else map_option (\<lambda>l. \<lparr>sub_assc = ntohs (load16 decodex), sub_len = ntohl l\<rparr>)
                 (load_u_long sizeof_u_long decodex 2))"

lemma parsecmd_packcmdrep:
  assumes "\<And>bs. dec (enc bs) = Some bs"
  shows "parsecmd 4 dec (packcmdrep enc m a l) = Some \<lparr>head_mainc = ucast (ucast m :: u16), head_assc = a, head_len = ucast l\<rparr>"
proof -
  have "parsecmd 4 dec (packcmdrep enc m a l)
        = Some \<lparr>head_mainc = ucast (ntohs (load16 (be16 (ucast m)))), head_assc = ntohs (load16 (be16 a)), head_len = ntohl (load32 (be32 (ucast l)))\<rparr>"
    by (simp add: parsecmd_def packcmdrep_def assms load_u_long_def Let_def)
  then show ?thesis by (simp only: load16_be load32_be)
qed

text \<open>With a \<open>u_long\<close> of 8 bytes a well-formed header makes \<open>parsecmd\<close> read behind the decoded bytes.\<close>

lemma parsecmd_lp64:
  assumes "dec header = Some bs" "length bs = 8"
  shows "parsecmd 8 dec header = None"
  using assms by (simp add: parsecmd_def load_u_long_def)

section \<open>Length-prefixed strings\<close>

definition packstring :: "byte list \<Rightarrow> byte list" where
  "packstring msg = packuint32 [] (of_nat (length msg)) @ msg"

definition unpackstring :: "byte list \<Rightarrow> byte list" where
  "unpackstring msg =
     (case unpackuint32_view msg 0 of (ok, rest, l) \<Rightarrow>
        if \<not> ok \<or> ucast l + 4 > (of_nat (length msg) :: u64) then []
        else take (unat l) rest)"

lemma length_packstring [simp]: "length (packstring msg) = 4 + length msg"
  by (simp add: packstring_def)

lemma ucast_add_4: "unat (ucast (l :: u32) + 4 :: u64) = unat l + 4"
proof -
  have "unat l < 2 ^ 32" using unsigned_less [of l, where 'a = nat] by simp
  then show ?thesis by (simp add: unat_word_ariths unsigned_ucast_eq take_bit_nat_eq_self)
qed

lemma unpackstring_eq:
  assumes "length msg < 2 ^ 64"
  shows "unpackstring msg =
    (if length msg < 4 then []
     else let l = unat (ntohl (load32 msg)) in if l + 4 \<le> length msg then take l (drop 4 msg) else [])"
proof -
  have len: "unat (of_nat (length msg) :: u64) = length msg"
    using assms by (simp add: unat_of_nat_lt)
  show ?thesis
    by (auto simp: unpackstring_def unpackuint32_view_def Let_def word_less_nat_alt len ucast_add_4)
qed

lemma unpackstring_packstring:
  assumes "length msg < 2 ^ 32" "length msg + 4 + length rest < 2 ^ 64"
  shows "unpackstring (packstring msg @ rest) = msg"
proof -
  have "unat (of_nat (length msg) :: u32) = length msg"
    using assms(1) by (simp add: unat_of_nat_lt)
  then show ?thesis
    using assms(2) by (subst unpackstring_eq) (simp_all add: packstring_def)
qed

text \<open>
  The arguments of a handler, \<open>packArgs\<close> and \<open>unpackArgs\<close>. \<open>ser\<close> writes an argument as JSON, a parser reads
  one over the value it has; a handler's argument types are the list of its parsers. \<open>for_each\<close> is given
  a callable that returns nothing, so it never stops early: after a failure the other arguments are
  still read, at the offset of the one that failed, and the last result is the one that is returned.
\<close>

type_synonym 'a parser = "byte list \<Rightarrow> 'a \<Rightarrow> bool \<times> 'a"

fun packArgs :: "('a \<Rightarrow> byte list) \<Rightarrow> byte list \<Rightarrow> 'a list \<Rightarrow> byte list" where
  "packArgs ser ret [] = ret"
| "packArgs ser ret [arg] = (if ret = [] then ser arg else ret @ packstring (ser arg))"
| "packArgs ser ret (arg # args) = packArgs ser (ret @ packstring (ser arg)) args"

fun unpack_each :: "byte list \<Rightarrow> nat \<Rightarrow> bool \<Rightarrow> ('a parser \<times> 'a) list \<Rightarrow> (bool \<times> 'a list) option" where
  "unpack_each msg offset bret [] = Some (bret, [])"
| "unpack_each msg offset bret ((parse, arg) # args) =
     (if length msg < offset then None
      else let strparam = unpackstring (drop offset msg);
               (bret, arg) = parse strparam arg;
               offset = (if bret then offset + length strparam + 4 else offset)
           in map_option (\<lambda>(b, as). (b, arg # as)) (unpack_each msg offset bret args))"

definition unpackArgs :: "byte list \<Rightarrow> ('a parser \<times> 'a) list \<Rightarrow> (bool \<times> 'a list) option" where
  "unpackArgs msg args =
     (case args of
        [(parse, arg)] \<Rightarrow> (let (bret, arg) = parse msg arg in Some (bret, [arg]))
      | _ \<Rightarrow> unpack_each msg 0 True args)"

lemma packArgs_concat:
  "ret \<noteq> [] \<or> 2 \<le> length args \<Longrightarrow> packArgs ser ret args = ret @ concat (map (\<lambda>a. packstring (ser a)) args)"
proof (induction ser ret args rule: packArgs.induct)
  case (3 ser ret arg a as)
  have "ret @ packstring (ser arg) \<noteq> []" by (simp add: packstring_def be32_def)
  then show ?case using 3 by simp
qed auto

lemma unpack_each_packed:
  assumes "length (concat (map (\<lambda>x. packstring (ser (fst x))) args)) + length pre < 2 ^ 64"
    and "\<forall>x \<in> set args. fst (snd x) (ser (fst x)) (snd (snd x)) = (True, fst x) \<and> length (ser (fst x)) < 2 ^ 32" and "b"
  shows "unpack_each (pre @ concat (map (\<lambda>x. packstring (ser (fst x))) args)) (length pre) b (map snd args)
         = Some (True, map fst args)"
  using assms
proof (induction args arbitrary: pre b)
  case (Cons x args)
  obtain a p d where x: "x = (a, p, d)" by (cases x)
  let ?rest = "concat (map (\<lambda>x. packstring (ser (fst x))) args)"
  have len: "length (ser a) + 4 + length ?rest < 2 ^ 64" using Cons.prems(1) x by simp
  have p: "p (ser a) d = (True, a)" "length (ser a) < 2 ^ 32" using Cons.prems(2) x by auto
  have up: "unpackstring (packstring (ser a) @ ?rest) = ser a"
    by (rule unpackstring_packstring [OF p(2)]) (use len in simp)
  have IH: "unpack_each (pre @ packstring (ser a) @ ?rest) (length pre + length (ser a) + 4) True (map snd args)
        = Some (True, map fst args)"
    using Cons.IH [of "pre @ packstring (ser a)" True] Cons.prems(1,2) x by (simp add: ac_simps)
  have "map snd (x # args) = (p, d) # map snd args"
    "concat (map (\<lambda>x. packstring (ser (fst x))) (x # args)) = packstring (ser a) @ ?rest"
    "map fst (x # args) = a # map fst args"
    by (simp_all add: x)
  moreover have "b" by (rule Cons.prems(3))
  ultimately show ?case
    using p up IH by (simp del: list.map concat.simps)
qed simp

text \<open>The round trip: what \<open>packArgs\<close> packs for two or more arguments, \<open>unpackArgs\<close> reads back.\<close>

lemma unpackArgs_packArgs:
  assumes "2 \<le> length args"
    and "length (packArgs ser [] (map fst args)) < 2 ^ 64"
    and "\<forall>x \<in> set args. fst (snd x) (ser (fst x)) (snd (snd x)) = (True, fst x) \<and> length (ser (fst x)) < 2 ^ 32"
  shows "unpackArgs (packArgs ser [] (map fst args)) (map snd args) = Some (True, map fst args)"
proof -
  have eq: "packArgs ser [] (map fst args) = concat (map (\<lambda>x. packstring (ser (fst x))) args)"
    using assms(1) packArgs_concat [of "[]" "map fst args" ser] by (simp add: comp_def)
  have "unpackArgs msg (map snd args) = unpack_each msg 0 True (map snd args)" for msg
    using assms(1) by (auto simp: unpackArgs_def split: list.split)
  then show ?thesis
    using unpack_each_packed [of ser args "[]" True] assms(2,3) eq by simp
qed

section \<open>Query strings\<close>

definition ch_amp :: byte where "ch_amp = 38"
definition ch_eq :: byte where "ch_eq = 61"

text \<open>\<open>std::string::find\<close>; \<open>None\<close> is \<open>npos\<close>.\<close>

fun find_byte :: "byte \<Rightarrow> byte list \<Rightarrow> nat option" where
  "find_byte c [] = None"
| "find_byte c (x # xs) = (if x = c then Some 0 else map_option Suc (find_byte c xs))"

text \<open>The first loop of \<open>parseQueryString\<close> cuts the string at every ampersand.\<close>

function query_parts :: "byte list \<Rightarrow> byte list list" where
  "query_parts str =
     (if str = [] then []
      else case find_byte ch_amp str of
        Some pos \<Rightarrow> take pos str # query_parts (drop (pos + 1) str)
      | None \<Rightarrow> [str])"
  by pat_completeness auto
termination
  by (relation "measure length") auto

declare query_parts.simps [simp del]

text \<open>The second loop; \<open>std::map::insert\<close> keeps a value that is already there.\<close>

definition map_insert :: "'k \<Rightarrow> 'v \<Rightarrow> ('k \<rightharpoonup> 'v) \<Rightarrow> ('k \<rightharpoonup> 'v)" where
  "map_insert k v m = (if k \<in> dom m then m else m(k \<mapsto> v))"

definition query_insert :: "byte list \<Rightarrow> (byte list \<rightharpoonup> byte list) \<Rightarrow> (byte list \<rightharpoonup> byte list)" where
  "query_insert it ret =
     (case find_byte ch_eq it of
        Some pos \<Rightarrow> map_insert (take pos it) (take (length it - pos - 1) (drop (pos + 1) it)) ret
      | None \<Rightarrow> map_insert it [] ret)"

definition parseQueryString :: "byte list \<Rightarrow> (byte list \<rightharpoonup> byte list)" where
  "parseQueryString str = fold query_insert (query_parts str) Map.empty"

definition parseQuery :: "byte list \<Rightarrow> (byte list \<rightharpoonup> byte list)" where
  "parseQuery query = Map.empty"

text \<open>The query string of a list of pairs.\<close>

fun query_string :: "(byte list \<times> byte list) list \<Rightarrow> byte list" where
  "query_string [] = []"
| "query_string [(k, v)] = k @ ch_eq # v"
| "query_string ((k, v) # kvs) = k @ ch_eq # v @ ch_amp # query_string kvs"

lemma find_byte_none [simp]: "c \<notin> set xs \<Longrightarrow> find_byte c xs = None"
  by (induction xs) auto

lemma find_byte_append [simp]: "c \<notin> set xs \<Longrightarrow> find_byte c (xs @ c # ys) = Some (length xs)"
  by (induction xs) auto

lemma find_byte_append_Cons [simp]:
  "c \<notin> set xs \<Longrightarrow> d \<noteq> c \<Longrightarrow> c \<notin> set ys \<Longrightarrow> find_byte c (xs @ d # ys @ c # zs) = Some (length xs + length ys + 1)"
  using find_byte_append [of c "xs @ d # ys" zs] by simp

lemma ch_ne [simp]: "ch_amp \<noteq> ch_eq" "ch_eq \<noteq> ch_amp"
  by (simp_all add: ch_amp_def ch_eq_def)

lemma query_parts_query_string:
  assumes "\<forall>(k, v) \<in> set kvs. ch_amp \<notin> set k \<and> ch_amp \<notin> set v"
  shows "query_parts (query_string kvs) = map (\<lambda>(k, v). k @ ch_eq # v) kvs"
  using assms
proof (induction kvs rule: query_string.induct)
  case 1
  then show ?case by (simp add: query_parts.simps)
next
  case (2 k v)
  then show ?case by (subst query_parts.simps) simp
next
  case (3 k v kv kvs)
  then show ?case by (subst query_parts.simps) simp
qed

lemma query_insert_pair: "ch_eq \<notin> set k \<Longrightarrow> query_insert (k @ ch_eq # v) m = map_insert k v m"
  by (simp add: query_insert_def)

lemma fold_query_insert:
  "\<forall>(k, v) \<in> set kvs. ch_eq \<notin> set k \<Longrightarrow>
   fold query_insert (map (\<lambda>(k, v). k @ ch_eq # v) kvs) m = map_of kvs ++ m"
proof (induction kvs arbitrary: m)
  case (Cons kv kvs)
  obtain k v where kv: "kv = (k, v)" by (cases kv)
  have "map_of kvs ++ map_insert k v m = map_of (kv # kvs) ++ m"
    by (rule ext) (auto simp: map_insert_def map_add_def kv split: option.split)
  then show ?case using Cons by (simp add: kv query_insert_pair fun_upd_def)
qed simp

lemma parseQueryString_query_string:
  assumes "\<forall>(k, v) \<in> set kvs. ch_amp \<notin> set k \<and> ch_eq \<notin> set k \<and> ch_amp \<notin> set v"
  shows "parseQueryString (query_string kvs) = map_of kvs"
proof -
  have "\<forall>(k, v) \<in> set kvs. ch_amp \<notin> set k \<and> ch_amp \<notin> set v" "\<forall>(k, v) \<in> set kvs. ch_eq \<notin> set k"
    using assms by auto
  then show ?thesis
    by (simp add: parseQueryString_def query_parts_query_string fold_query_insert)
qed

section \<open>The tables of names\<close>

text \<open>
  \<open>_dbValue2Name\<close> and \<open>_mainValue2Name\<close> with the text that is returned for an unknown value: a \<open>static\<close>
  local, which the first call of the function initialises. \<open>fmt_int\<close> is the decimal text of an \<open>int\<close>.
\<close>

record names =
  value2name :: "int \<rightharpoonup> string"
  not_found :: "string option"

definition addMainValue2Name :: "int \<Rightarrow> string \<Rightarrow> names \<Rightarrow> bool \<times> names" where
  "addMainValue2Name v name t =
     (if v \<in> dom (value2name t) then (False, t) else (True, t\<lparr>value2name := (value2name t)(v \<mapsto> name)\<rparr>))"

definition addOpDBValue2Name :: "int \<Rightarrow> string \<Rightarrow> names \<Rightarrow> bool \<times> names" where
  "addOpDBValue2Name v name t =
     (if v \<in> dom (value2name t) then (False, t) else (True, t\<lparr>value2name := (value2name t)(v \<mapsto> name)\<rparr>))"

definition getMainNameByValue :: "(int \<Rightarrow> string) \<Rightarrow> int \<Rightarrow> names \<Rightarrow> string \<times> names" where
  "getMainNameByValue fmt_int v t =
     (let mainNotFound = (case not_found t of Some s \<Rightarrow> s | None \<Rightarrow> ''main '' @ fmt_int v @ '' not found'');
          t = t\<lparr>not_found := Some mainNotFound\<rparr>
      in (case value2name t v of Some s \<Rightarrow> s | None \<Rightarrow> mainNotFound, t))"

definition getOpDBNameByValue :: "(int \<Rightarrow> string) \<Rightarrow> int \<Rightarrow> names \<Rightarrow> string \<times> names" where
  "getOpDBNameByValue fmt_int v t =
     (let dbNotFound = (case not_found t of Some s \<Rightarrow> s | None \<Rightarrow> ''db '' @ fmt_int v @ '' not found'');
          t = t\<lparr>not_found := Some dbNotFound\<rparr>
      in (case value2name t v of Some s \<Rightarrow> s | None \<Rightarrow> dbNotFound, t))"

text \<open>\<open>cacheMainValuesNames\<close> and \<open>cacheDBValuesNames\<close>: an enumeration is cached up to the first value that has a name.\<close>

fun cache_values :: "(int \<Rightarrow> string \<Rightarrow> names \<Rightarrow> bool \<times> names) \<Rightarrow> (int \<times> string) list \<Rightarrow> names \<Rightarrow> names option" where
  "cache_values add [] t = Some t"
| "cache_values add ((v, name) # pairs) t =
     (case add v name t of (True, t) \<Rightarrow> cache_values add pairs t | (False, t) \<Rightarrow> None)"

lemma cache_values_map_of:
  assumes "distinct (map fst pairs)" "\<forall>v \<in> fst ` set pairs. value2name t v = None"
  shows "cache_values addMainValue2Name pairs t = Some (t\<lparr>value2name := value2name t ++ map_of pairs\<rparr>)"
  using assms
proof (induction pairs arbitrary: t)
  case (Cons p pairs)
  obtain v name where p: "p = (v, name)" by (cases p)
  let ?t = "t\<lparr>value2name := (value2name t)(v \<mapsto> name)\<rparr>"
  have "cache_values addMainValue2Name pairs ?t = Some (?t\<lparr>value2name := value2name ?t ++ map_of pairs\<rparr>)"
    by (rule Cons.IH) (use Cons.prems p in auto)
  moreover have "addMainValue2Name v name t = (True, ?t)"
    using Cons.prems(2) by (auto simp: p addMainValue2Name_def)
  moreover have "map_of pairs v = None"
    using Cons.prems(1) by (simp add: p map_of_eq_None_iff)
  then have "(value2name t)(v \<mapsto> name) ++ map_of pairs = value2name t ++ map_of (p # pairs)"
    by (auto simp: p map_add_def split: option.split)
  ultimately show ?case by (simp add: p fun_upd_def)
qed simp

text \<open>
  A name that was added is found; the answer for an unknown value names the value of the \<^emph>\<open>first\<close> call
  of the function, for the rest of the program.
\<close>

lemma getMainNameByValue_added:
  "addMainValue2Name v name t = (True, t') \<Longrightarrow> fst (getMainNameByValue f v t') = name"
  by (auto simp: addMainValue2Name_def getMainNameByValue_def Let_def split: if_splits)

lemma getMainNameByValue_stale:
  assumes "not_found t = None" "value2name t w = None"
  shows "fst (getMainNameByValue f w (snd (getMainNameByValue f v t))) = ''main '' @ f v @ '' not found''"
  using assms by (simp add: getMainNameByValue_def Let_def)

section \<open>Sequence numbers\<close>

definition getSeqNum :: "u32 \<Rightarrow> u32 \<times> u32" where
  "getSeqNum seq = (let seq = seq + 1 in (seq, seq))"

text \<open>The numbers of \<open>n\<close> calls; any \<open>2 ^ 32\<close> consecutive ones differ.\<close>

fun seq_nums :: "nat \<Rightarrow> u32 \<Rightarrow> u32 list" where
  "seq_nums 0 seq = []"
| "seq_nums (Suc n) seq = (case getSeqNum seq of (no, seq) \<Rightarrow> no # seq_nums n seq)"

lemma seq_nums_eq: "seq_nums n seq = map (\<lambda>i. seq + 1 + of_nat i) [0..<n]"
proof (induction n arbitrary: seq)
  case (Suc n)
  have "[0..<Suc n] = 0 # map Suc [0..<n]" by (simp add: map_Suc_upt upt_conv_Cons del: upt_Suc)
  then show ?case using Suc by (simp add: getSeqNum_def Let_def ac_simps del: upt_Suc)
qed simp

lemma seq_nums_distinct:
  assumes "n \<le> 2 ^ 32"
  shows "distinct (seq_nums n seq)"
proof -
  have "inj_on (\<lambda>i. seq + 1 + (of_nat i :: u32)) (set [0..<n])"
  proof (rule inj_onI)
    fix i j
    assume "i \<in> set [0..<n]" "j \<in> set [0..<n]" and eq: "seq + 1 + (of_nat i :: u32) = seq + 1 + of_nat j"
    then have "i < 2 ^ 32" "j < 2 ^ 32" using assms by auto
    moreover have "unat (of_nat i :: u32) = unat (of_nat j :: u32)" using eq by simp
    ultimately show "i = j" by (simp add: unat_of_nat_lt)
  qed
  then show ?thesis by (simp add: seq_nums_eq distinct_map)
qed

end
