(* ===== verification/Routers.thy ===== *)
theory Routers
  imports UtilsOps
begin

text \<open>
  The tables of handlers of \<open>src/configs/Routers.cpp\<close>, and the name of the assertion that the other
  theories of the network layer use. A handler gets the request and answers with a string, with a null
  pointer, or by throwing.

  \<open>dbg\<close> says whether assertions are compiled in; \<open>None\<close> is a failed assertion or the use of a null pointer.
\<close>

definition assert_that :: "bool \<Rightarrow> bool \<Rightarrow> unit option" where
  "assert_that dbg c = (if dbg \<and> \<not> c then None else Some ())"

lemma assert_that_simps [simp]:
  "assert_that dbg True = Some ()" "assert_that True False = None" "assert_that False c = Some ()"
  by (simp_all add: assert_that_def)

datatype reply = Rep_throws | Rep_null | Rep_string "byte list"

type_synonym handler = "byte list \<Rightarrow> reply"

section \<open>Handlers of requests\<close>

text \<open>\<open>_routersTrans\<close>: null, or the handlers by command and subcommand.\<close>

type_synonym router_element = "u32 \<rightharpoonup> handler"
type_synonym trans_routers = "(main_cmd \<rightharpoonup> router_element) option"

definition addRouterTrans :: "main_cmd \<Rightarrow> u32 \<Rightarrow> handler \<Rightarrow> trans_routers \<Rightarrow> bool \<times> trans_routers" where
  "addRouterTrans mainc assc func rs =
     (let m = (case rs of None \<Rightarrow> Map.empty | Some m \<Rightarrow> m)
      in case m mainc of
           Some e \<Rightarrow> if assc \<in> dom e then (False, Some m)
                     else (False, Some (m(mainc \<mapsto> e(assc \<mapsto> func))))
         | None \<Rightarrow> (True, Some (m(mainc \<mapsto> [assc \<mapsto> func]))))"

definition getRouterTrans :: "trans_routers \<Rightarrow> main_cmd \<Rightarrow> u32 \<Rightarrow> handler option" where
  "getRouterTrans rs mainc assc =
     (case rs of None \<Rightarrow> None | Some m \<Rightarrow> (case m mainc of None \<Rightarrow> None | Some e \<Rightarrow> e assc))"

definition getRouterTransByMainC :: "trans_routers \<Rightarrow> main_cmd \<Rightarrow> router_element option" where
  "getRouterTransByMainC rs mainc = (case rs of None \<Rightarrow> None | Some m \<Rightarrow> m mainc)"

lemma getRouterTrans_add:
  "getRouterTrans (snd (addRouterTrans m a f rs)) m' a'
   = (if m' = m \<and> a' = a \<and> getRouterTrans rs m a = None then Some f else getRouterTrans rs m' a')"
  by (auto simp: addRouterTrans_def getRouterTrans_def Let_def split: option.splits)

lemma getRouterTrans_ByMainC:
  "getRouterTrans rs m a = Option.bind (getRouterTransByMainC rs m) (\<lambda>e. e a)"
  by (simp add: getRouterTrans_def getRouterTransByMainC_def split: option.split)

text \<open>\<open>addRouterTrans\<close> reports success only for the first handler of a command.\<close>

lemma addRouterTrans_result:
  "fst (addRouterTrans m a f rs) \<longleftrightarrow> getRouterTransByMainC rs m = None"
  by (auto simp: addRouterTrans_def getRouterTransByMainC_def Let_def split: option.splits)

section \<open>Handlers of pages\<close>

datatype HtmlBodyType = Body_Json | Body_Html | Body_JS | Body_Woff | Body_Jpeg | Body_Css | Body_Ico

type_synonym page_routers = "HtmlBodyType \<rightharpoonup> (string \<rightharpoonup> handler list)"

record http_routers =
  rt_routers :: "page_routers option"
  rt_handlers :: "(byte list \<rightharpoonup> handler) option"

definition routers_init :: "http_routers \<Rightarrow> http_routers" where
  "routers_init st = (case rt_routers st of Some _ \<Rightarrow> st | None \<Rightarrow> st\<lparr>rt_routers := Some Map.empty\<rparr>)"

text \<open>The insertion into the trie \<open>_handlers\<close> keeps a handler that is already there.\<close>

definition addRouter ::
    "bool \<Rightarrow> HtmlBodyType \<Rightarrow> byte list \<times> string \<Rightarrow> handler \<Rightarrow> http_routers \<Rightarrow> (bool \<times> http_routers) option" where
  "addRouter dbg bodyType path func st =
     (let (codepath, strpath) = path;
          st = routers_init st;
          rs = the (rt_routers st);
          routers = (case rs bodyType of None \<Rightarrow> Map.empty | Some r \<Rightarrow> r)
      in if strpath \<notin> dom routers
         then let st = st\<lparr>rt_routers := Some (rs(bodyType \<mapsto> routers(strpath \<mapsto> [func])))\<rparr>;
                  hs = (case rt_handlers st of None \<Rightarrow> Map.empty | Some h \<Rightarrow> h)
              in Some (True, st\<lparr>rt_handlers := Some (map_insert codepath func hs)\<rparr>)
         else do {
           assert_that dbg False;
           Some (False, st\<lparr>rt_routers := Some (rs(bodyType \<mapsto> routers))\<rparr>)
         })"

definition addRouterJson :: "bool \<Rightarrow> byte list \<times> string \<Rightarrow> handler \<Rightarrow> http_routers \<Rightarrow> (bool \<times> http_routers) option" where
  "addRouterJson dbg path func st = addRouter dbg Body_Json path func st"

definition addRouterHtml :: "bool \<Rightarrow> byte list \<times> string \<Rightarrow> handler \<Rightarrow> http_routers \<Rightarrow> (bool \<times> http_routers) option" where
  "addRouterHtml dbg path func st = addRouter dbg Body_Html path func st"

definition getRouters :: "http_routers \<Rightarrow> HtmlBodyType \<Rightarrow> (string \<rightharpoonup> handler list) option" where
  "getRouters st body =
     (case rt_routers st of None \<Rightarrow> None
      | Some rs \<Rightarrow> if body \<notin> dom rs then None else rs body)"

definition getCodeRouters :: "http_routers \<Rightarrow> (byte list \<rightharpoonup> handler) option" where
  "getCodeRouters st = rt_handlers st"

text \<open>The handlers a page has.\<close>

definition page_handlers :: "http_routers \<Rightarrow> HtmlBodyType \<Rightarrow> string \<Rightarrow> handler list option" where
  "page_handlers st body path = Option.bind (getRouters st body) (\<lambda>r. r path)"

lemma page_handlers_add:
  assumes "addRouter dbg b (c, p) f st = Some (ok, st')"
  shows "page_handlers st' b' p' =
           (if b' = b \<and> p' = p \<and> page_handlers st b p = None then Some [f] else page_handlers st b' p')"
    and "ok \<longleftrightarrow> page_handlers st b p = None"
  using assms
  by (auto simp: addRouter_def routers_init_def page_handlers_def getRouters_def Let_def domIff
      assert_that_def Option.bind_eq_Some_conv split: option.splits if_splits)

end
