(* ===== verification/Split.thy ===== *)
theory Split
  imports Routers
begin

text \<open>
  \<open>src/networkinterface/MessageSplitFuncs.cpp\<close> and \<open>.h\<close>: functions that split a packet off a buffer. A
  function returns whether it did, the buffer (of a \<open>deque&\<close>), the head and the packet; \<open>None\<close> is an access
  out of bounds or a failed assertion. \<open>ul\<close> is \<open>sizeof(u_long)\<close>, \<open>dec\<close> the Base64 decoder.
\<close>

definition fixMsgLen :: nat where "fixMsgLen = 5"
definition fixHeadLen :: nat where "fixHeadLen = 12"
definition fixSubHeadLen :: nat where "fixSubHeadLen = 8"

type_synonym ('h) split_result = "bool \<times> byte list \<times> 'h \<times> byte list"

definition variableLenSplit :: "byte list \<Rightarrow> cmdhead \<Rightarrow> byte list \<Rightarrow> cmdhead split_result" where
  "variableLenSplit msg head dst =
     (let dst = []
      in if msg \<noteq> [] then (True, [], head\<lparr>head_mainc := MainCmd_Echo\<rparr>, msg) else (False, msg, head, dst))"

definition fixLenSplit :: "byte list \<Rightarrow> cmdhead \<Rightarrow> byte list \<Rightarrow> cmdhead split_result" where
  "fixLenSplit msg head dst =
     (let dst = []
      in if fixMsgLen \<le> length msg
         then (True, drop fixMsgLen msg, head\<lparr>head_mainc := MainCmd_Echo\<rparr>, take fixMsgLen msg)
         else (False, msg, head, dst))"

definition FixHeaderSplit ::
    "nat \<Rightarrow> (byte list \<Rightarrow> byte list option) \<Rightarrow> byte list \<Rightarrow> cmdhead \<Rightarrow> byte list \<Rightarrow> cmdhead split_result option" where
  "FixHeaderSplit ul dec msg head dst =
     (let body = (\<lambda>msg head.
            let n = unat (head_len head)
            in if msg \<noteq> [] \<and> n \<le> length msg then (True, drop n msg, head, take n msg) else (False, msg, head, dst))
      in if head_mainc head = MainCmdBegin then
           if length msg < fixHeadLen then Some (False, msg, head, dst)
           else map_option (body (drop fixHeadLen msg)) (parsecmd ul dec (take fixHeadLen msg))
         else Some (body msg head))"

definition FixHeaderSplit2 ::
    "nat \<Rightarrow> (byte list \<Rightarrow> byte list option) \<Rightarrow> byte list \<Rightarrow> cmdhead \<Rightarrow> byte list \<Rightarrow> (bool \<times> cmdhead \<times> byte list) option" where
  "FixHeaderSplit2 ul dec msg head dst =
     (let body = (\<lambda>head.
            if msg \<noteq> [] \<and> fixHeadLen \<le> length msg then
              if unat (head_len head) \<le> length msg then (True, head, drop fixHeadLen msg) else (False, head, dst)
            else (False, head, dst))
      in if head_mainc head = MainCmdBegin then
           if length msg < fixHeadLen then Some (False, head, dst)
           else map_option body (parsecmd ul dec (take fixHeadLen msg))
         else Some (body head))"

definition FixHeaderSplit3 ::
    "nat \<Rightarrow> (byte list \<Rightarrow> byte list option) \<Rightarrow> byte list \<Rightarrow> cmdsubhead \<Rightarrow> byte list \<Rightarrow> cmdsubhead split_result option" where
  "FixHeaderSplit3 ul dec msg head dst =
     (if length msg < fixSubHeadLen then Some (False, msg, head, dst)
      else map_option (\<lambda>head.
             let msg = drop fixSubHeadLen msg; n = unat (sub_len head)
             in if msg \<noteq> [] \<and> n \<le> length msg then (True, drop n msg, head, take n msg) else (False, msg, head, dst))
           (parsesubcmd ul dec (take fixSubHeadLen msg)))"

definition FixHeaderSplit4 ::
    "nat \<Rightarrow> (byte list \<Rightarrow> byte list option) \<Rightarrow> byte list \<Rightarrow> cmdsubhead \<Rightarrow> byte list \<Rightarrow> (bool \<times> cmdsubhead \<times> byte list) option" where
  "FixHeaderSplit4 ul dec msg head dst =
     (if length msg < fixSubHeadLen then Some (False, head, dst)
      else map_option (\<lambda>head.
             if msg \<noteq> [] \<and> fixSubHeadLen \<le> length msg then
               if unat (sub_len head) \<le> length msg then (True, head, drop fixSubHeadLen msg) else (False, head, dst)
             else (False, head, dst))
           (parsesubcmd ul dec (take fixSubHeadLen msg)))"

definition PackMainAssPack :: "(byte list \<Rightarrow> byte list) \<Rightarrow> cmdhead \<Rightarrow> byte list \<Rightarrow> byte list" where
  "PackMainAssPack enc head msg = packcmdrep enc (head_mainc head) (head_assc head) (of_nat (length msg)) @ msg"

definition PackFixLenPack :: "cmdhead \<Rightarrow> byte list \<Rightarrow> byte list" where
  "PackFixLenPack head msg = msg"

text \<open>
  The packet that \<open>PackMainAssPack\<close> builds is split off again, in one call or in two with the rest of
  the body arriving in between. \<open>enc\<close> and \<open>dec\<close> are inverse, and eight bytes become twelve characters.
\<close>

lemma FixHeaderSplit_packed:
  assumes enc: "\<And>bs. dec (enc bs) = Some bs" "\<And>bs. length bs = 8 \<Longrightarrow> length (enc bs) = 12"
    and head: "head_mainc head = MainCmdBegin"
    and msg: "msg \<noteq> []" "length msg < 2 ^ 32" "unat m < 2 ^ 16" "m \<noteq> MainCmdBegin"
    and input: "buf @ later = PackMainAssPack enc \<lparr>head_mainc = m, head_assc = a, head_len = l\<rparr> msg @ rest" "fixHeadLen \<le> length buf"
  shows "if fixHeadLen + length msg \<le> length buf
         then \<exists>head' buf'. FixHeaderSplit 4 dec buf head dst = Some (True, buf', head', msg) \<and> buf' @ later = rest
                \<and> head_mainc head' = m \<and> head_assc head' = a
         else \<exists>head' buf'. FixHeaderSplit 4 dec buf head dst = Some (False, buf', head', dst)
                \<and> (\<exists>head'' buf''. FixHeaderSplit 4 dec (buf' @ later) head' dst = Some (True, buf'', head'', msg) \<and> buf'' = rest)"
proof -
  let ?h = "packcmdrep enc m a (of_nat (length msg))"
  define head' where "head' = \<lparr>head_mainc = m, head_assc = a, head_len = of_nat (length msg)\<rparr>"
  have lenh: "length ?h = 12" by (simp add: packcmdrep_def enc(2) Let_def)
  have stream: "buf @ later = ?h @ msg @ rest" using input(1) by (simp add: PackMainAssPack_def)
  have mm: "ucast (ucast m :: u16) = m"
    using msg(3) by (simp add: word_unat_eq_iff unsigned_ucast_eq unsigned_take_bit_eq take_bit_nat_eq_self)
  have parse: "parsecmd 4 dec ?h = Some head'"
    using parsecmd_packcmdrep [of dec enc m a "of_nat (length msg)", OF enc(1)] mm
    by (simp add: head'_def unsigned_of_nat of_nat_take_bit take_bit_word_eq_self)
  have l: "unat (head_len head') = length msg" using msg(2) by (simp add: head'_def unat_of_nat_lt)
  obtain b where b: "buf = ?h @ b"
    using arg_cong [OF stream, of "take 12"] input(2) lenh by (simp add: fixHeadLen_def) (metis append_take_drop_id)
  then have stream': "b @ later = msg @ rest" using stream by simp
  have lenb: "length buf = 12 + length b" using b lenh by simp
  have one: "FixHeaderSplit 4 dec buf head dst =
     Some (if b \<noteq> [] \<and> length msg \<le> length b then (True, drop (length msg) b, head', take (length msg) b) else (False, b, head', dst))"
    using head lenh l by (simp add: FixHeaderSplit_def b fixHeadLen_def parse Let_def)
  have two: "FixHeaderSplit 4 dec (msg @ rest) head' dst = Some (True, rest, head', msg)"
    using l msg(1,4) by (simp add: FixHeaderSplit_def head'_def)
  show ?thesis
  proof (cases "length msg \<le> length b")
    case True
    then have "take (length msg) b = msg" "drop (length msg) b @ later = rest"
      using arg_cong [OF stream', of "take (length msg)"] arg_cong [OF stream', of "drop (length msg)"] by simp_all
    moreover have "b \<noteq> []" using True msg(1) by auto
    ultimately show ?thesis using True one lenb by (simp add: fixHeadLen_def head'_def)
  next
    case False
    then show ?thesis using one two stream' lenb by (auto simp: fixHeadLen_def)
  qed
qed

text \<open>\<open>FixHeaderSplit2\<close> returns everything behind the header, whatever length it names.\<close>

lemma FixHeaderSplit2_takes_all:
  assumes "parsecmd ul dec (take fixHeadLen msg) = Some head'" "head_mainc head = MainCmdBegin"
    and "fixHeadLen \<le> length msg" "unat (head_len head') \<le> length msg"
  shows "FixHeaderSplit2 ul dec msg head dst = Some (True, head', drop fixHeadLen msg)"
  using assms by (auto simp: FixHeaderSplit2_def fixHeadLen_def Let_def)

section \<open>The templates of the header\<close>

text \<open>
  \<open>NetEncodeDecodeImpl::dencode\<close>: the number returned, the rest of \<open>req\<close>, and \<open>rep\<close>. The packet with a
  length in front is assigned from a \<open>char*\<close>, so it ends at the first zero byte; only the header is
  erased from \<open>req\<close>. A \<open>std::string\<close> has a zero byte behind its last one.
\<close>

datatype net_head = Head_FixPackLen | Head_FixLen | Head_VarLen

definition dencode :: "nat \<Rightarrow> net_head \<Rightarrow> nat \<Rightarrow> byte list \<Rightarrow> byte list \<Rightarrow> (nat \<times> byte list \<times> byte list) option" where
  "dencode ul headtype fixLen req rep =
     (case headtype of
        Head_FixPackLen \<Rightarrow>
          if fixLen < length req then
            map_option (\<lambda>w. let t = unat (ntohl w)
              in if fixLen + t \<le> length req
                 then (t, drop fixLen req, takeWhile (\<lambda>b. b \<noteq> 0) (drop fixLen req))
                 else (0, req, rep)) (load_u_long ul (req @ [0]) 0)
          else Some (0, req, rep)
      | Head_FixLen \<Rightarrow>
          if fixLen \<le> length req then Some (fixLen, drop fixLen req, take fixLen req) else Some (0, req, rep)
      | Head_VarLen \<Rightarrow> Some (length req, [], req))"

definition net_encode :: "bool \<Rightarrow> net_head \<Rightarrow> nat \<Rightarrow> byte list \<Rightarrow> unit option" where
  "net_encode dbg headtype fixLen req =
     (case headtype of
        Head_FixPackLen \<Rightarrow> Some ()
      | Head_FixLen \<Rightarrow> assert_that dbg (length req = fixLen)
      | Head_VarLen \<Rightarrow> Some ())"

text \<open>A zero byte in the body cuts the packet short.\<close>

lemma dencode_zero_byte:
  assumes "length body + 2 < 2 ^ 32"
  shows "dencode 4 Head_FixPackLen 4 (be32 (of_nat (length body + 2)) @ body @ [0, x]) rep
         = Some (length body + 2, body @ [0, x], takeWhile (\<lambda>b. b \<noteq> 0) body)"
proof -
  have "unat (of_nat (length body + 2) :: u32) = length body + 2"
    using assms unat_of_nat_lt [of "length body + 2", where 'a = 32] by simp
  moreover have "takeWhile (\<lambda>b. b \<noteq> 0) (body @ [0, x]) = takeWhile (\<lambda>b. b \<noteq> 0) body"
    by (induction body) auto
  ultimately show ?thesis
    by (simp add: dencode_def load_u_long_def del: of_nat_add)
qed

text \<open>\<open>PackEncodeDecodeImpl::decode\<close>: a header field is read and erased; a field that is not there is undefined behaviour.\<close>

datatype PackType = Pack_NoHead | Pack_FixMainSubHead | Pack_FixMainHead | Pack_FixSubHead | Pack_Max

definition take_u_long :: "nat \<Rightarrow> byte list \<Rightarrow> (u32 \<times> byte list) option" where
  "take_u_long ul req = (if ul \<le> length req then map_option (\<lambda>w. (ntohl w, drop ul req)) (load_u_long ul req 0) else None)"

definition take_u_short :: "byte list \<Rightarrow> (u16 \<times> byte list) option" where
  "take_u_short req = (if 2 \<le> length req then Some (ntohs (load16 req), drop 2 req) else None)"

definition pack_decode :: "nat \<Rightarrow> bool \<Rightarrow> PackType \<Rightarrow> byte list \<Rightarrow> cmdhead \<Rightarrow> byte list \<Rightarrow> cmdhead split_result option" where
  "pack_decode ul dbg pt req head rep =
     (case pt of
        Pack_NoHead \<Rightarrow> Some (True, [], head, req)
      | Pack_FixMainSubHead \<Rightarrow> do {
          (m, req) \<leftarrow> take_u_long ul req;
          (a, req) \<leftarrow> take_u_short req;
          (l, req) \<leftarrow> take_u_long ul req;
          Some (True, [], head\<lparr>head_mainc := m, head_assc := a, head_len := l\<rparr>, req)
        }
      | Pack_FixMainHead \<Rightarrow> do {
          (m, req) \<leftarrow> take_u_long ul req;
          (l, req) \<leftarrow> take_u_long ul req;
          Some (True, [], head\<lparr>head_mainc := m, head_len := l\<rparr>, req)
        }
      | Pack_FixSubHead \<Rightarrow> do {
          (a, req) \<leftarrow> take_u_short req;
          (l, req) \<leftarrow> take_u_long ul req;
          Some (True, [], head\<lparr>head_assc := a, head_len := l\<rparr>, req)
        }
      | Pack_Max \<Rightarrow> do {
          assert_that dbg False;
          Some (False, req, head, rep)
        })"

lemma take_fields:
  "take_u_long 4 (be32 x @ body) = Some (x, body)" "take_u_short (be16 y @ body) = Some (y, body)"
  by (simp_all add: take_u_long_def take_u_short_def load_u_long_def)

lemma pack_decode_fields:
  "pack_decode 4 dbg Pack_FixMainSubHead (be32 m @ be16 a @ be32 l @ body) head rep
   = Some (True, [], head\<lparr>head_mainc := m, head_assc := a, head_len := l\<rparr>, body)"
  "pack_decode 4 dbg Pack_FixMainHead (be32 m @ be32 l @ body) head rep
   = Some (True, [], head\<lparr>head_mainc := m, head_len := l\<rparr>, body)"
  "pack_decode 4 dbg Pack_FixSubHead (be16 a @ be32 l @ body) head rep
   = Some (True, [], head\<lparr>head_assc := a, head_len := l\<rparr>, body)"
  by (simp_all add: pack_decode_def take_fields)

end
