(* ===== verification/Dealers.thy ===== *)
theory Dealers
  imports Routers
begin

text \<open>
  The packers of \<open>src/networkinterface\<close>: the stream header (\<open>StreamNetDealer\<close>), the platform headers
  (\<open>PlatformPackInterface\<close> and its subclasses in \<open>dealers/\<close>) with the table that clones them
  (\<open>PackUnpackManager\<close>), and the packet dealers (\<open>PackDealerBase\<close> and its subclasses), which pack a request,
  unpack it and call its handler.

  A virtual call on a base class whose method is \<open>assert(0)\<close> is \<open>None\<close>.
\<close>

section \<open>The stream header\<close>

text \<open>\<open>_len\<close> is an \<open>int\<close>. A new object's fields are not initialised; they are an argument of the model.\<close>

record stream_dealer =
  sd_len :: "32 word"
  sd_no :: u32

definition sd_HeadLen :: nat where "sd_HeadLen = 8"

definition sd_Len :: "stream_dealer \<Rightarrow> int" where "sd_Len d = sint (sd_len d)"

definition sd_getNo :: "stream_dealer \<Rightarrow> u32" where "sd_getNo d = sd_no d"

definition sd_unpack :: "byte list \<Rightarrow> stream_dealer \<Rightarrow> bool \<times> stream_dealer" where
  "sd_unpack src d =
     (case unpackuint32_view src 0 of
        (False, _, _) \<Rightarrow> (False, d)
      | (True, tail, temp) \<Rightarrow>
          let d = d\<lparr>sd_len := temp\<rparr>
          in case unpackuint32_view tail temp of
               (False, _, _) \<Rightarrow> (False, d)
             | (True, _, temp) \<Rightarrow> (True, d\<lparr>sd_no := temp\<rparr>))"

text \<open>A \<open>span\<close> of four bytes at an offset of a buffer; writing behind the buffer is \<open>None\<close>.\<close>

definition packuint32_at :: "nat \<Rightarrow> byte list \<Rightarrow> u32 \<Rightarrow> byte list option" where
  "packuint32_at i dst x =
     (if i + 4 \<le> length dst
      then map_option (\<lambda>b. take i dst @ b @ drop (i + 4) dst) (packuint32_span (take 4 (drop i dst)) x)
      else None)"

definition sd_pack :: "u32 \<Rightarrow> u64 \<Rightarrow> byte list \<Rightarrow> stream_dealer \<Rightarrow> (byte list \<times> stream_dealer) option" where
  "sd_pack no len dst d =
     (let d = d\<lparr>sd_len := ucast len, sd_no := no\<rparr>
      in do {
        dst \<leftarrow> packuint32_at 0 dst (sd_len d);
        dst \<leftarrow> packuint32_at 4 dst (sd_no d);
        Some (dst, d)
      })"

lemma packuint32_at_0: "4 \<le> length dst \<Longrightarrow> packuint32_at 0 dst x = Some (be32 x @ drop 4 dst)"
  by (simp add: packuint32_at_def packuint32_span_eq)

lemma packuint32_at_4: "length a = 4 \<Longrightarrow> 4 \<le> length b \<Longrightarrow> packuint32_at 4 (a @ b) x = Some (a @ be32 x @ drop 4 b)"
  by (simp add: packuint32_at_def packuint32_span_eq)

lemma pack_two_words:
  assumes "length dst = 8"
  shows "packuint32_at 0 dst x = Some (be32 x @ drop 4 dst)"
    and "packuint32_at 4 (be32 x @ drop 4 dst) y = Some (be32 x @ be32 y)"
  using assms by (simp_all add: packuint32_at_0 packuint32_at_4)

lemma sd_pack_eq:
  "length dst = sd_HeadLen \<Longrightarrow>
   sd_pack no len dst d = Some (be32 (ucast len) @ be32 no, d\<lparr>sd_len := ucast len, sd_no := no\<rparr>)"
  by (simp add: sd_pack_def pack_two_words sd_HeadLen_def Let_def)

lemma sd_unpack_header [simp]:
  "sd_unpack (be32 l @ be32 n @ rest) d = (True, d\<lparr>sd_len := l, sd_no := n\<rparr>)"
  by (simp add: sd_unpack_def Let_def)

lemma sd_unpack_iff: "fst (sd_unpack src d) \<longleftrightarrow> sd_HeadLen \<le> length src"
  by (auto simp: sd_unpack_def sd_HeadLen_def unpackuint32_view_def Let_def split: if_splits)

lemma sd_header_cases:
  assumes "sd_HeadLen \<le> length src"
  obtains l n rest where "src = be32 l @ be32 n @ rest"
proof -
  obtain l b where l: "src = be32 l @ b" using assms be32_ex [of src] by (auto simp: sd_HeadLen_def)
  obtain n c where n: "b = be32 n @ c" using assms l be32_ex [of b] by (auto simp: sd_HeadLen_def)
  show ?thesis by (rule that [of l n c]) (use l n in simp)
qed

section \<open>Platform headers\<close>

datatype plat =
    Plat_base
  | MainAssPlatPack (mp_main: u32) (mp_ass: u32)
  | NoMainAssPlatPack (np_main: u32)

definition new_MainAssPlatPack :: "u32 \<Rightarrow> plat" where
  "new_MainAssPlatPack mainc = MainAssPlatPack mainc 0"

definition new_NoMainAssPlatPack :: "u32 \<Rightarrow> plat" where
  "new_NoMainAssPlatPack mainc = NoMainAssPlatPack mainc"

fun plat_clone :: "plat \<Rightarrow> plat option" where
  "plat_clone Plat_base = None"
| "plat_clone (MainAssPlatPack m a) = Some (MainAssPlatPack m a)"
| "plat_clone (NoMainAssPlatPack m) = Some (NoMainAssPlatPack m)"

fun plat_getMain :: "plat \<Rightarrow> u32 option" where
  "plat_getMain Plat_base = None"
| "plat_getMain (MainAssPlatPack m a) = Some m"
| "plat_getMain (NoMainAssPlatPack m) = Some m"

fun plat_getAss :: "plat \<Rightarrow> u32 option" where
  "plat_getAss (MainAssPlatPack m a) = Some a"
| "plat_getAss _ = None"

fun plat_setAss :: "u32 \<Rightarrow> plat \<Rightarrow> plat option" where
  "plat_setAss ass (MainAssPlatPack m a) = Some (MainAssPlatPack m ass)"
| "plat_setAss ass _ = None"

fun plat_len :: "plat \<Rightarrow> nat option" where
  "plat_len Plat_base = None"
| "plat_len (MainAssPlatPack m a) = Some 8"
| "plat_len (NoMainAssPlatPack m) = Some 0"

fun plat_HeadLen :: "plat \<Rightarrow> nat option" where
  "plat_HeadLen (MainAssPlatPack m a) = Some 8"
| "plat_HeadLen _ = None"

fun plat_pack :: "bool \<Rightarrow> byte list \<Rightarrow> plat \<Rightarrow> (bool \<times> byte list) option" where
  "plat_pack dbg dst Plat_base = None"
| "plat_pack dbg dst (MainAssPlatPack m a) =
     do {
       assert_that dbg (length dst = 8);
       if length dst \<noteq> 8 then Some (False, dst)
       else do {
         dst \<leftarrow> packuint32_at 0 dst m;
         dst \<leftarrow> packuint32_at 4 dst a;
         Some (True, dst)
       }
     }"
| "plat_pack dbg dst (NoMainAssPlatPack m) = Some (True, dst)"

text \<open>The \<open>bret\<close> that is returned is the one of the function; the inner ones shadow it.\<close>

fun plat_unpack :: "byte list \<Rightarrow> plat \<Rightarrow> (bool \<times> plat) option" where
  "plat_unpack src Plat_base = None"
| "plat_unpack src (MainAssPlatPack m a) =
     (if length src \<noteq> 8 then Some (False, MainAssPlatPack m a)
      else case unpackuint32_view src 0 of (_, tail, temp) \<Rightarrow>
           case unpackuint32_view tail temp of (_, _, temp') \<Rightarrow> Some (True, MainAssPlatPack temp temp'))"
| "plat_unpack src (NoMainAssPlatPack m) = Some (True, NoMainAssPlatPack m)"

lemma plat_pack_unpack:
  assumes "plat_len p = Some n" "length dst = n" "plat_len q = Some n" "plat_getMain q = plat_getMain p \<or> n \<noteq> 0"
  shows "\<exists>h. plat_pack dbg dst p = Some (True, h) \<and> length h = n \<and> plat_unpack h q = Some (True, p)"
  using assms by (cases p; cases q) (auto simp: pack_two_words)

section \<open>The table of platform headers\<close>

text \<open>\<open>PackUnpackManager\<close>: null before \<open>sInit\<close> and after \<open>sUninit\<close>.\<close>

type_synonym plat_packs = "(u32 \<rightharpoonup> plat) option"

definition pum_sInit :: "plat_packs \<Rightarrow> bool \<times> plat_packs" where
  "pum_sInit inst = (case inst of Some _ \<Rightarrow> (False, inst) | None \<Rightarrow> (True, Some Map.empty))"

definition pum_sUninit :: "plat_packs \<Rightarrow> bool \<times> plat_packs" where
  "pum_sUninit inst = (case inst of None \<Rightarrow> (False, None) | Some _ \<Rightarrow> (True, None))"

definition pum_addPlatformPack :: "u32 \<Rightarrow> plat \<Rightarrow> plat_packs \<Rightarrow> (bool \<times> plat_packs) option" where
  "pum_addPlatformPack mainc pack inst =
     (case inst of None \<Rightarrow> None
      | Some platPacks \<Rightarrow>
          Some (if mainc \<in> dom platPacks then (False, inst) else (True, Some (platPacks(mainc \<mapsto> pack)))))"

text \<open>The inner \<open>None\<close> is a null pointer.\<close>

definition pum_clone :: "bool \<Rightarrow> u32 \<Rightarrow> plat_packs \<Rightarrow> plat option option" where
  "pum_clone dbg mainc inst =
     (case inst of None \<Rightarrow> None
      | Some platPacks \<Rightarrow>
          (case platPacks mainc of
             None \<Rightarrow> do { assert_that dbg False; Some None }
           | Some p \<Rightarrow> map_option Some (plat_clone p)))"

definition addPlatformDealer :: "plat \<Rightarrow> plat_packs \<Rightarrow> (bool \<times> plat_packs) option" where
  "addPlatformDealer pack inst = do { m \<leftarrow> plat_getMain pack; pum_addPlatformPack m pack inst }"

definition clonePlatformPack :: "bool \<Rightarrow> u32 \<Rightarrow> plat_packs \<Rightarrow> plat option option" where
  "clonePlatformPack dbg mainc inst = pum_clone dbg mainc inst"

lemma plat_clone_eq: "plat_clone p = (if p = Plat_base then None else Some p)"
  by (cases p) auto

lemma clone_added:
  assumes "addPlatformDealer p inst = Some (True, inst')" "plat_getMain p = Some m"
  shows "clonePlatformPack dbg m inst' = Some (Some p)"
  using assms by (cases p) (auto simp: addPlatformDealer_def pum_addPlatformPack_def clonePlatformPack_def
      pum_clone_def split: option.splits if_splits)

section \<open>Packet dealers\<close>

text \<open>
  The members of \<open>PackDealerCommon\<close> and of its subclasses; every pointer to a sequence number that is
  passed around is \<open>reqSeq()\<close> or \<open>repSeq()\<close> of the dealer itself.
\<close>

record pack_dealer =
  pd_seqnumreq :: u32
  pd_seqnumrep :: u32
  pd_mainc :: main_cmd
  pd_assc :: u32

datatype seq_ref = reqSeq | repSeq

fun get_seq :: "seq_ref \<Rightarrow> pack_dealer \<Rightarrow> u32" where
  "get_seq reqSeq d = pd_seqnumreq d"
| "get_seq repSeq d = pd_seqnumrep d"

fun set_seq :: "seq_ref \<Rightarrow> u32 \<Rightarrow> pack_dealer \<Rightarrow> pack_dealer" where
  "set_seq reqSeq s d = d\<lparr>pd_seqnumreq := s\<rparr>"
| "set_seq repSeq s d = d\<lparr>pd_seqnumrep := s\<rparr>"

definition pd_setAssc :: "u32 \<Rightarrow> pack_dealer \<Rightarrow> pack_dealer" where
  "pd_setAssc assc d = d\<lparr>pd_assc := assc\<rparr>"

definition pd_getAssc :: "pack_dealer \<Rightarrow> u32" where
  "pd_getAssc d = pd_assc d"

subsection \<open>\<open>PackDealerMainSub\<close>\<close>

text \<open>
  \<open>unpack\<close> of a \<open>std::string&\<close>: \<open>uppackmaincmd3\<close> has put the rest of the packet into \<open>ret\<close> and left it in
  \<open>pack\<close>, which is then appended to \<open>ret\<close>. The inner \<open>None\<close> is a null pointer.
\<close>

definition MainSub_unpack_string ::
    "bool \<Rightarrow> seq_ref \<Rightarrow> byte list \<Rightarrow> pack_dealer \<Rightarrow> (byte list option \<times> byte list \<times> pack_dealer) option" where
  "MainSub_unpack_string dbg seqnum pack d =
     (case uppackmaincmd3_seq pack [] of
        (pack, None) \<Rightarrow> do {
          assert_that dbg False;
          Some (None, pack, d)
        }
      | (pack, Some (s, mainc, assc, _, ret)) \<Rightarrow> do {
          let d = set_seq seqnum s d;
          assert_that dbg (assc \<noteq> 0xFFFF);
          assert_that dbg (pd_mainc d = mainc);
          if pd_mainc d \<noteq> mainc then Some (None, pack, d)
          else Some (Some (ret @ pack), pack, d\<lparr>pd_assc := ucast assc\<rparr>)
        })"

definition MainSub_unpack_view ::
    "bool \<Rightarrow> seq_ref \<Rightarrow> byte list \<Rightarrow> pack_dealer \<Rightarrow> (byte list option \<times> pack_dealer) option" where
  "MainSub_unpack_view dbg seqnum pack d =
     (case uppackmaincmd3_seq_view pack [] of
        None \<Rightarrow> do {
          assert_that dbg False;
          Some (None, d)
        }
      | Some (s, mainc, assc, _, ret) \<Rightarrow> do {
          let d = set_seq seqnum s d;
          assert_that dbg (mainc = pd_mainc d);
          if mainc \<noteq> pd_mainc d then Some (None, d)
          else Some (Some ret, d\<lparr>pd_assc := ucast assc\<rparr>)
        })"

definition MainSub_unpack :: "bool \<Rightarrow> byte list \<Rightarrow> pack_dealer \<Rightarrow> (byte list option \<times> pack_dealer) option" where
  "MainSub_unpack dbg pack d = MainSub_unpack_view dbg reqSeq pack d"

definition MainSub_pack_assc :: "seq_ref \<Rightarrow> byte list \<Rightarrow> u16 \<Rightarrow> pack_dealer \<Rightarrow> byte list" where
  "MainSub_pack_assc seqnum msg assc d = packmaincmd3_seq (get_seq seqnum d) (pd_mainc d) (ucast assc) [] msg"

definition MainSub_pack_seq :: "seq_ref \<Rightarrow> byte list \<Rightarrow> pack_dealer \<Rightarrow> byte list" where
  "MainSub_pack_seq seqnum msg d = packmaincmd3_seq (get_seq seqnum d) (pd_mainc d) (pd_assc d) [] msg"

definition MainSub_pack :: "byte list \<Rightarrow> pack_dealer \<Rightarrow> byte list \<times> pack_dealer" where
  "MainSub_pack msg d =
     (let d = d\<lparr>pd_seqnumreq := pd_seqnumreq d + 1\<rparr>
      in (packmaincmd3_seq (pd_seqnumreq d) (pd_mainc d) (pd_assc d) [] msg, d))"

text \<open>
  \<open>dealmsg\<close> finds the handlers of the dealer's command, unpacks the request, calls the handler of its
  subcommand and packs the answer. A null table, a null request and the answer of a handler that threw
  are used without a test.
\<close>

definition MainSub_dealmsg ::
    "bool \<Rightarrow> trans_routers \<Rightarrow> byte list \<Rightarrow> pack_dealer \<Rightarrow> (byte list option \<times> pack_dealer) option" where
  "MainSub_dealmsg dbg rs msg d =
     do {
       let funcs = getRouterTransByMainC rs (pd_mainc d);
       (pstrreq, msg, d) \<leftarrow> MainSub_unpack_string dbg reqSeq msg d;
       funcs \<leftarrow> funcs;
       assert_that dbg (pd_assc d \<in> dom funcs);
       case funcs (pd_assc d) of
         None \<Rightarrow> Some (None, d)
       | Some func \<Rightarrow> do {
           strreq \<leftarrow> pstrreq;
           case func strreq of
             Rep_string ret \<Rightarrow>
               if ret = [] then Some (None, d)
               else Some (Some (MainSub_pack_assc reqSeq ret (ucast (pd_assc d)) d), d)
           | _ \<Rightarrow> None
         }
     }"

subsection \<open>\<open>PackDealerNoHead\<close>\<close>

text \<open>A failed unpacking is only logged; what was unpacked is empty then.\<close>

definition NoHead_unpack_string :: "byte list \<Rightarrow> byte list \<times> byte list" where
  "NoHead_unpack_string pack =
     (case uppackmaincmd3_len pack [] of (pack, None) \<Rightarrow> ([], pack) | (pack, Some (_, ret)) \<Rightarrow> (ret, pack))"

definition NoHead_unpack_view :: "byte list \<Rightarrow> byte list" where
  "NoHead_unpack_view pack = (case uppackmaincmd3_len_view pack [] of None \<Rightarrow> [] | Some (_, ret) \<Rightarrow> ret)"

definition NoHead_pack :: "byte list \<Rightarrow> byte list" where
  "NoHead_pack msg = (let ret = packmaincmd3_len [] msg in ret @ msg)"

subsection \<open>\<open>PackDealerNoMain\<close>\<close>

text \<open>\<open>unpack\<close> reads the subcommand into a local variable; the member \<open>_assc\<close> keeps its value.\<close>

definition NoMain_unpack :: "byte list \<Rightarrow> byte list \<times> byte list" where
  "NoMain_unpack pack =
     (case uppackmaincmd3_assc pack [] of (pack, None) \<Rightarrow> ([], pack) | (pack, Some (_, _, ret)) \<Rightarrow> (ret, pack))"

definition NoMain_pack :: "byte list \<Rightarrow> u16 \<Rightarrow> byte list" where
  "NoMain_pack msg assc = packmaincmd3_assc assc [] msg"

definition NoMain_dealmsg ::
    "bool \<Rightarrow> trans_routers \<Rightarrow> byte list \<Rightarrow> pack_dealer \<Rightarrow> (byte list option \<times> pack_dealer) option" where
  "NoMain_dealmsg dbg rs msg d =
     do {
       let (strreq, msg) = NoMain_unpack msg;
       funcs \<leftarrow> getRouterTransByMainC rs MainCmd_DefaultMain;
       assert_that dbg (pd_assc d \<in> dom funcs);
       case funcs (pd_assc d) of
         None \<Rightarrow> Some (None, d)
       | Some func \<Rightarrow>
           (case func strreq of
              Rep_string ret \<Rightarrow>
                if ret = [] then Some (None, d)
                else Some (Some (NoMain_pack ret (ucast (pd_assc d))), d)
            | _ \<Rightarrow> Some (None, d))
     }"

subsection \<open>What the dealers do\<close>

lemma ucast_u16_u32 [simp]: "ucast (ucast (a :: u16) :: u32) = a"
  by (rule bit_word_eqI) (auto simp: bit_simps dest: bit_imp_le_length)

lemma MainSub_pack_assc_eq:
  "MainSub_pack_assc seqnum msg a d
   = be32 (get_seq seqnum d) @ be16 (ucast (pd_mainc d)) @ be16 a @ be32 (of_nat (length msg)) @ msg"
  by (simp add: MainSub_pack_assc_def packmaincmd3_eqs)

text \<open>A command that fits 16 bits survives the header.\<close>

lemma ucast_main: "unat m < 2 ^ 16 \<Longrightarrow> ucast (ucast (m :: main_cmd) :: u16) = m"
  by (simp add: word_unat_eq_iff unsigned_ucast_eq unsigned_take_bit_eq take_bit_nat_eq_self)

lemma MainSub_unpack_packed:
  assumes "pd_mainc d = pd_mainc c" "unat (pd_mainc c) < 2 ^ 16" "a \<noteq> 0xFFFF"
  shows "MainSub_unpack_string dbg sr (MainSub_pack_assc seq msg a c) d
         = Some (Some (msg @ msg), msg, (set_seq sr (get_seq seq c) d)\<lparr>pd_assc := ucast a\<rparr>)"
    and "MainSub_unpack_view dbg sr (MainSub_pack_assc seq msg a c) d = Some (Some msg, (set_seq sr (get_seq seq c) d)\<lparr>pd_assc := ucast a\<rparr>)"
  using assms(1-3)
  by (cases sr; simp add: MainSub_pack_assc_eq MainSub_unpack_string_def MainSub_unpack_view_def
      uppackmaincmd3_header ucast_main Let_def)+

text \<open>A request that is packed by one dealer and dealt with by another one of the same command.\<close>

lemma MainSub_dealmsg_packed:
  assumes "pd_mainc d = pd_mainc c" "unat (pd_mainc c) < 2 ^ 16" "a \<noteq> 0xFFFF"
    and "getRouterTrans rs (pd_mainc c) (ucast a) = Some f" "f (msg @ msg) = Rep_string r" "r \<noteq> []"
  shows "\<exists>d'. MainSub_dealmsg dbg rs (MainSub_pack_assc seq msg a c) d
              = Some (Some (packmaincmd3_seq (get_seq seq c) (pd_mainc c) (ucast a) [] r), d')"
proof -
  obtain e where e: "getRouterTransByMainC rs (pd_mainc c) = Some e" "e (ucast a) = Some f"
    using assms(4) by (auto simp: getRouterTrans_ByMainC Option.bind_eq_Some_conv)
  then have "ucast a \<in> dom e" by auto
  then show ?thesis
    using assms e by (simp add: MainSub_dealmsg_def MainSub_unpack_packed MainSub_pack_assc_def [of reqSeq r] Let_def)
qed

lemma NoHead_unpack_pack:
  "fst (NoHead_unpack_string (NoHead_pack msg)) = msg @ msg" "NoHead_unpack_view (NoHead_pack msg) = msg @ msg"
  by (simp_all add: NoHead_pack_def NoHead_unpack_string_def NoHead_unpack_view_def packmaincmd3_eqs
      uppackmaincmd3_header Let_def)

lemma NoMain_unpack_pack: "NoMain_unpack (NoMain_pack msg a) = (msg, msg)"
  by (simp add: NoMain_pack_def NoMain_unpack_def packmaincmd3_eqs uppackmaincmd3_header)

text \<open>
  \<open>PackDealerNoMain\<close> calls the handler of the subcommand the dealer was given, whatever subcommand the
  request names.
\<close>

lemma NoMain_dealmsg_ignores_assc:
  "NoMain_dealmsg dbg rs (NoMain_pack msg a) d = NoMain_dealmsg dbg rs (NoMain_pack msg b) d"
  by (simp add: NoMain_dealmsg_def NoMain_unpack_pack)

end
