(* ===== verification/TcpChannel.thy ===== *)
theory TcpChannel
  imports Dealers
begin

text \<open>
  The message channels of \<open>src/networkinterface\<close>: \<open>TcpChannelImpl\<close>, which sends packets over a TCP
  connection, and \<open>FullDuplexChannel\<close>, which sends them over a pair of queues.

  What the socket does is an argument: the list of the results of the reads (or writes) that are
  awaited, in order. A read that is awaited when the list is empty has not completed.
\<close>

section \<open>Results of coroutines and of the socket\<close>

datatype 'a outcome =
    Waiting          \<comment> \<open>suspended in a read or write that has not completed\<close>
  | Throws           \<comment> \<open>left by an exception\<close>
  | Undefined        \<comment> \<open>undefined behaviour\<close>
  | Returned 'a

datatype io_read = Got "byte list" | Read_failed
datatype io_write = Sent nat | Write_failed

text \<open>A read of a buffer of \<open>cap\<close> bytes returns between one byte and \<open>cap\<close> of them.\<close>

fun read_ok :: "nat \<Rightarrow> io_read \<Rightarrow> bool" where
  "read_ok cap (Got bs) \<longleftrightarrow> bs \<noteq> [] \<and> length bs \<le> cap"
| "read_ok cap Read_failed \<longleftrightarrow> False"

fun received :: "io_read list \<Rightarrow> byte list" where
  "received [] = []"
| "received (Got bs # rs) = bs @ received rs"
| "received (Read_failed # rs) = received rs"

section \<open>\<open>TcpChannelImpl\<close>\<close>

record tcp_channel =
  ch_recv :: "byte list"       \<comment> \<open>\<open>_bRecv\<close>\<close>
  ch_recvMsg :: "byte list"    \<comment> \<open>\<open>_bRecvMsg\<close>\<close>
  ch_recvasio :: "byte list"   \<comment> \<open>\<open>_recvasio\<close>, of 512 bytes\<close>
  ch_retryCount :: int
  ch_sockNo :: u32

definition new_channel :: "u32 \<Rightarrow> byte list \<Rightarrow> tcp_channel" where
  "new_channel sockNo recvasio = \<lparr>ch_recv = [], ch_recvMsg = [], ch_recvasio = recvasio, ch_retryCount = 2, ch_sockNo = sockNo\<rparr>"

definition ch_setSockNo :: "u32 \<Rightarrow> tcp_channel \<Rightarrow> tcp_channel" where
  "ch_setSockNo sockno ch = ch\<lparr>ch_sockNo := sockno\<rparr>"

text \<open>
  The loop that reads until the buffer holds \<open>need\<close> bytes. A read that fails leaves \<open>len\<close> and the bytes of
  the read before it in place, and they are appended once more.
\<close>

fun recv_loop ::
    "nat \<Rightarrow> int \<Rightarrow> io_read list \<Rightarrow> int \<Rightarrow> nat \<Rightarrow> byte list \<Rightarrow> byte list
     \<Rightarrow> (io_read list \<times> nat \<times> byte list \<times> byte list) option" where
  "recv_loop need tryCount [] tryIndex len asio recv =
     (if tryIndex + 1 < tryCount \<and> length recv < need then None else Some ([], len, asio, recv))"
| "recv_loop need tryCount (r # reads) tryIndex len asio recv =
     (if tryIndex + 1 < tryCount \<and> length recv < need then
        let (len, asio) = (case r of Got bs \<Rightarrow> (length bs, bs @ drop (length bs) asio) | Read_failed \<Rightarrow> (len, asio))
        in if len > 0 then recv_loop need tryCount reads 0 len asio (recv @ take len asio)
           else recv_loop need tryCount reads (tryIndex + 1) len asio recv
      else Some (r # reads, len, asio, recv))"

text \<open>\<open>HeadLen() + Len()\<close> is an \<open>int\<close> that is compared with a \<open>size_t\<close>.\<close>

definition size_of_int :: "int \<Rightarrow> nat" where
  "size_of_int i = (if i < 0 then nat (i + 2 ^ 64) else nat i)"

definition ch_recvPack ::
    "stream_dealer \<Rightarrow> io_read list \<Rightarrow> tcp_channel \<Rightarrow> ((u32 \<times> byte list) \<times> io_read list \<times> tcp_channel) outcome" where
  "ch_recvPack netpack reads ch =
     (let ch = ch\<lparr>ch_recvMsg := []\<rparr>;
          failed = (\<lambda>netpack reads asio recv.
            Returned ((sd_getNo netpack, []), reads, ch\<lparr>ch_recvasio := asio, ch_recv := recv\<rparr>))
      in case recv_loop sd_HeadLen (ch_retryCount ch) reads 0 0 (ch_recvasio ch) (ch_recv ch) of
           None \<Rightarrow> Waiting
         | Some (reads, len, asio, recv) \<Rightarrow>
             if \<not> sd_HeadLen \<le> length recv then failed netpack reads asio recv
             else case sd_unpack recv netpack of
               (False, netpack) \<Rightarrow> failed netpack reads asio recv
             | (True, netpack) \<Rightarrow>
                 let total = int sd_HeadLen + sd_Len netpack; need = size_of_int total
                 in if 2 ^ 31 \<le> total then Undefined
                    else case recv_loop need (ch_retryCount ch) reads 0 len asio recv of
                      None \<Rightarrow> Waiting
                    | Some (reads, len, asio, recv) \<Rightarrow>
                        if need \<le> length recv then
                          let (recvMsg, recv) = (take need recv, drop need recv)
                          in if length recvMsg < sd_HeadLen then Throws
                             else Returned ((sd_getNo netpack, drop sd_HeadLen recvMsg), reads,
                                            ch\<lparr>ch_recvasio := asio, ch_recvMsg := recvMsg, ch_recv := recv\<rparr>)
                        else failed netpack reads asio recv)"

text \<open>
  The loop that sends; \<open>wire\<close> is what went out. \<open>tryIndex\<close> is not reset, and a failed write counts as
  one of the length of the write before it.
\<close>

fun send_loop ::
    "byte list \<Rightarrow> int \<Rightarrow> io_write list \<Rightarrow> int \<Rightarrow> nat \<Rightarrow> nat \<Rightarrow> byte list \<Rightarrow> (io_write list \<times> nat \<times> nat \<times> byte list) option" where
  "send_loop src tryCount [] tryIndex len hadsend wire =
     (if tryIndex + 1 < tryCount \<and> hadsend < length src then None else Some ([], len, hadsend, wire))"
| "send_loop src tryCount (w # writes) tryIndex len hadsend wire =
     (if tryIndex + 1 < tryCount \<and> hadsend < length src then
        let (len, wire) = (case w of Sent n \<Rightarrow> (n, wire @ take n (drop hadsend src)) | Write_failed \<Rightarrow> (len, wire))
        in send_loop src tryCount writes (tryIndex + 1) len (if len > 0 then hadsend + len else hadsend) wire
      else Some (w # writes, len, hadsend, wire))"

text \<open>The result holds the bytes that were sent. The log message takes the bytes of the packet from the eighth on.\<close>

definition ch_sendPack ::
    "stream_dealer \<Rightarrow> byte list \<Rightarrow> u32 \<Rightarrow> io_write list \<Rightarrow> tcp_channel \<Rightarrow> (bool \<times> byte list \<times> io_write list) outcome" where
  "ch_sendPack netpack src no writes ch =
     (if length src < 8 then Undefined
      else case sd_pack no (of_nat (length src)) (replicate sd_HeadLen 0) netpack of
        None \<Rightarrow> Undefined
      | Some (strhead, netpack) \<Rightarrow>
          (case send_loop strhead (ch_retryCount ch) writes 0 0 0 [] of
             None \<Rightarrow> Waiting
           | Some (writes, len, hadsend, wire) \<Rightarrow>
               if hadsend \<noteq> sd_HeadLen then Returned (False, wire, writes)
               else (case send_loop src (ch_retryCount ch) writes 0 len 0 wire of
                       None \<Rightarrow> Waiting
                     | Some (writes, len, hadsend, wire) \<Rightarrow>
                         if hadsend \<noteq> length src then Returned (False, wire, writes)
                         else Returned (True, wire, writes))))"

section \<open>The packets of a connection\<close>

definition frame :: "u32 \<times> byte list \<Rightarrow> byte list" where
  "frame p = (case p of (no, msg) \<Rightarrow> be32 (of_nat (length msg)) @ be32 no @ msg)"

definition frame_ok :: "u32 \<times> byte list \<Rightarrow> bool" where
  "frame_ok p \<longleftrightarrow> length (snd p) + 8 < 2 ^ 31"

text \<open>
  Reads that do not fail: the loop takes as many as it needs, the buffer and the bytes still to be
  read are the same stream, and it stops with at least \<open>need\<close> bytes.
\<close>

lemma recv_loop_gets:
  assumes "\<forall>r \<in> set reads. read_ok cap r" "need \<le> length recv + length (received reads)" "2 \<le> tryCount" "length asio = cap"
  shows "\<exists>reads' len' asio' recv'. recv_loop need tryCount reads 0 len asio recv = Some (reads', len', asio', recv')
           \<and> recv' @ received reads' = recv @ received reads \<and> need \<le> length recv'
           \<and> (\<exists>taken. recv' = recv @ taken) \<and> (\<forall>r \<in> set reads'. read_ok cap r) \<and> length asio' = cap"
  using assms
proof (induction reads arbitrary: recv len asio)
  case Nil
  then show ?case by simp
next
  case (Cons r reads)
  then obtain bs where r: "r = Got bs" "bs \<noteq> []" "length bs \<le> cap"
    by (cases r) auto
  show ?case
  proof (cases "length recv < need")
    case False
    with Cons.prems show ?thesis by simp
  next
    case True
    have "length (bs @ drop (length bs) asio) = cap"
      using r(3) Cons.prems(4) by simp
    then obtain reads' len' asio' recv' taken where IH:
      "recv_loop need tryCount reads 0 (length bs) (bs @ drop (length bs) asio) (recv @ bs) = Some (reads', len', asio', recv')"
      "recv' @ received reads' = (recv @ bs) @ received reads" "need \<le> length recv'" "recv' = (recv @ bs) @ taken"
      "\<forall>r \<in> set reads'. read_ok cap r" "length asio' = cap"
      using Cons.IH [of "recv @ bs" "bs @ drop (length bs) asio" "length bs"] Cons.prems r by auto
    then show ?thesis
      using True r Cons.prems(3) by (auto simp: Let_def)
  qed
qed

lemma recv_loop_none_needed: "need \<le> length recv \<Longrightarrow> recv_loop need tryCount reads tryIndex len asio recv = Some (reads, len, asio, recv)"
  by (cases reads) auto

lemma sint_small: "n < 2 ^ 31 \<Longrightarrow> sint (of_nat n :: 32 word) = int n"
  by (simp add: signed_of_nat signed_take_bit_int_eq_self)

text \<open>One packet: whatever pieces it arrives in, it is returned, and the rest of the stream is kept.\<close>

lemma ch_recvPack_frame:
  assumes "frame_ok p" "ch_recv ch @ received reads = frame p @ rest"
    and "\<forall>r \<in> set reads. read_ok 512 r" "length (ch_recvasio ch) = 512" "ch_retryCount ch = 2"
  shows "\<exists>reads' ch'. ch_recvPack netpack reads ch = Returned (p, reads', ch')
           \<and> ch_recv ch' @ received reads' = rest
           \<and> (\<forall>r \<in> set reads'. read_ok 512 r) \<and> length (ch_recvasio ch') = 512 \<and> ch_retryCount ch' = 2"
proof -
  obtain no msg where p: "p = (no, msg)" by (cases p)
  let ?n = "length msg"
  have stream: "ch_recv ch @ received reads = be32 (of_nat ?n) @ be32 no @ msg @ rest"
    using assms(2) by (simp add: p frame_def)
  have total: "length (ch_recv ch) + length (received reads) = 8 + ?n + length rest"
    using arg_cong [OF stream, of length] by simp
  obtain reads1 len1 asio1 recv1 where l1:
    "recv_loop sd_HeadLen 2 reads 0 0 (ch_recvasio ch) (ch_recv ch) = Some (reads1, len1, asio1, recv1)"
    "recv1 @ received reads1 = ch_recv ch @ received reads" "sd_HeadLen \<le> length recv1"
    "\<forall>r \<in> set reads1. read_ok 512 r" "length asio1 = 512"
    using recv_loop_gets [OF assms(3), of sd_HeadLen "ch_recv ch" 2 "ch_recvasio ch" 0] total assms(4)
    by (auto simp: sd_HeadLen_def)
  have "take 8 recv1 = be32 (of_nat ?n) @ be32 no"
    using arg_cong [OF l1(2), of "take 8"] l1(3) by (simp add: stream sd_HeadLen_def)
  then obtain body1 where recv1: "recv1 = be32 (of_nat ?n) @ be32 no @ body1"
    by (metis append_assoc append_take_drop_id)
  have len: "int sd_HeadLen + sint (of_nat ?n :: 32 word) = int (8 + ?n)" "8 + ?n < 2 ^ 31"
    using assms(1) by (simp_all add: p frame_ok_def sint_small sd_HeadLen_def)
  obtain reads2 len2 asio2 recv2 taken where l2:
    "recv_loop (8 + ?n) 2 reads1 0 len1 asio1 recv1 = Some (reads2, len2, asio2, recv2)"
    "recv2 @ received reads2 = recv1 @ received reads1" "8 + ?n \<le> length recv2"
    "\<forall>r \<in> set reads2. read_ok 512 r" "length asio2 = 512" "recv2 = recv1 @ taken"
    using recv_loop_gets [OF l1(4), of "8 + ?n" recv1 2 asio1 len1] total arg_cong [OF l1(2), of length] l1(5) by auto
  have split: "take (8 + ?n) recv2 = be32 (of_nat ?n) @ be32 no @ msg" "drop (8 + ?n) recv2 @ received reads2 = rest"
    using arg_cong [OF l2(2), of "take (8 + ?n)"] arg_cong [OF l2(2), of "drop (8 + ?n)"] l2(3)
    by (simp_all add: l1(2) stream)
  have "size_of_int (int (8 + ?n)) = 8 + ?n" "\<not> 2 ^ 31 \<le> int (8 + ?n)"
    using len(2) by (auto simp: size_of_int_def)
  then show ?thesis
    using l1 l2 split len(1) assms(5)
    by (simp add: ch_recvPack_def recv1 sd_Len_def sd_getNo_def p Let_def sd_HeadLen_def)
qed

section \<open>Channels of packets\<close>

text \<open>
  What a channel promises: when the stream that is still to be read begins with a packet, \<open>recv\<close> returns
  the packet and leaves the rest of the stream. \<open>r\<close> is the outside of the channel (what the socket or
  the queue will deliver), \<open>s\<close> its state.
\<close>

fun recv_many :: "('r \<Rightarrow> 's \<Rightarrow> ('m \<times> 'r \<times> 's) outcome) \<Rightarrow> nat \<Rightarrow> 'r \<Rightarrow> 's \<Rightarrow> ('m list \<times> 'r \<times> 's) outcome" where
  "recv_many recv 0 r s = Returned ([], r, s)"
| "recv_many recv (Suc n) r s =
     (case recv r s of
        Returned (m, r, s) \<Rightarrow>
          (case recv_many recv n r s of
             Returned (ms, r, s) \<Rightarrow> Returned (m # ms, r, s)
           | Waiting \<Rightarrow> Waiting | Throws \<Rightarrow> Throws | Undefined \<Rightarrow> Undefined)
      | Waiting \<Rightarrow> Waiting | Throws \<Rightarrow> Throws | Undefined \<Rightarrow> Undefined)"

locale packet_channel =
  fixes recv :: "'r \<Rightarrow> 's \<Rightarrow> ('m \<times> 'r \<times> 's) outcome"
    and pending :: "'r \<Rightarrow> 's \<Rightarrow> 'x list"
    and packet :: "'m \<Rightarrow> 'x list"
    and good :: "'m \<Rightarrow> bool"
    and inv :: "'r \<Rightarrow> 's \<Rightarrow> bool"
  assumes recv_packet:
    "inv r s \<Longrightarrow> good m \<Longrightarrow> pending r s = packet m @ rest \<Longrightarrow>
     \<exists>r' s'. recv r s = Returned (m, r', s') \<and> pending r' s' = rest \<and> inv r' s'"
begin

text \<open>Packets are received in the order they were sent, each once.\<close>

lemma recv_many_packets:
  assumes "inv r s" "\<forall>m \<in> set ms. good m" "pending r s = concat (map packet ms) @ rest"
  shows "\<exists>r' s'. recv_many recv (length ms) r s = Returned (ms, r', s') \<and> pending r' s' = rest \<and> inv r' s'"
  using assms
proof (induction ms arbitrary: r s)
  case (Cons m ms)
  obtain r1 s1 where 1: "recv r s = Returned (m, r1, s1)" "pending r1 s1 = concat (map packet ms) @ rest" "inv r1 s1"
    using recv_packet [of r s m "concat (map packet ms) @ rest"] Cons.prems by auto
  then obtain r2 s2 where "recv_many recv (length ms) r1 s1 = Returned (ms, r2, s2)" "pending r2 s2 = rest" "inv r2 s2"
    using Cons.IH [of r1 s1] Cons.prems by auto
  with 1 show ?case by simp
qed auto

end

definition ch_pending :: "io_read list \<Rightarrow> tcp_channel \<Rightarrow> byte list" where
  "ch_pending reads ch = ch_recv ch @ received reads"

definition ch_ready :: "io_read list \<Rightarrow> tcp_channel \<Rightarrow> bool" where
  "ch_ready reads ch \<longleftrightarrow> (\<forall>r \<in> set reads. read_ok 512 r) \<and> length (ch_recvasio ch) = 512 \<and> ch_retryCount ch = 2"

interpretation tcp: packet_channel "ch_recvPack netpack" ch_pending frame frame_ok ch_ready
proof
  fix reads ch p rest
  assume "ch_ready reads ch" "frame_ok p" "ch_pending reads ch = frame p @ rest"
  then show "\<exists>reads' ch'. ch_recvPack netpack reads ch = Returned (p, reads', ch') \<and> ch_pending reads' ch' = rest \<and> ch_ready reads' ch'"
    using ch_recvPack_frame [of p ch reads rest netpack] by (auto simp: ch_ready_def ch_pending_def)
qed

section \<open>Sending over TCP\<close>

lemma length_frame: "length (frame p) = 8 + length (snd p)"
  by (simp add: frame_def split: prod.split)

text \<open>
  With the retry count of the constructor each part of a packet is written once: the packet is sent
  when both writes take everything, and reported as sent exactly then, or when the second write
  fails and the body has as many bytes as the header.
\<close>

lemma ch_sendPack_result:
  assumes "ch_retryCount ch = 2" "8 \<le> length src"
  shows "ch_sendPack netpack src no (w1 # w2 # ws) ch =
    (if w1 = Sent 8 then
       (let ok = (w2 = Sent (length src) \<or> w2 = Write_failed \<and> length src = 8);
            body = (case w2 of Sent n \<Rightarrow> take n src | Write_failed \<Rightarrow> [])
        in Returned (ok, be32 (of_nat (length src)) @ be32 no @ body, ws))
     else Returned (False, (case w1 of Sent n \<Rightarrow> take n (be32 (of_nat (length src)) @ be32 no) | Write_failed \<Rightarrow> []), w2 # ws))"
proof -
  let ?h = "be32 (of_nat (length src)) @ be32 no"
  have h: "length ?h = 8" by simp
  have once: "send_loop m 2 (w # ws) 0 len 0 wire =
      Some (ws, (case w of Sent n \<Rightarrow> n | Write_failed \<Rightarrow> len), (case w of Sent n \<Rightarrow> n | Write_failed \<Rightarrow> len),
            wire @ (case w of Sent n \<Rightarrow> take n m | Write_failed \<Rightarrow> []))" if "m \<noteq> []" for m w ws len wire
    using that by (cases ws; cases w) (auto simp: Let_def)
  have pack: "\<exists>np. sd_pack no (of_nat (length src)) (replicate sd_HeadLen 0) netpack = Some (?h, np)"
    by (subst sd_pack_eq) (auto simp: unsigned_of_nat of_nat_take_bit take_bit_word_eq_self)
  have ne: "?h \<noteq> []" "src \<noteq> []"
    using assms(2) by (auto simp: be32_def)
  from pack obtain np where np: "sd_pack no (of_nat (length src)) (replicate sd_HeadLen 0) netpack = Some (?h, np)" ..
  note loops = once [OF ne(1)] once [OF ne(2)]
  show ?thesis
    using assms np
    by (cases w1; cases w2) (auto simp: ch_sendPack_def loops sd_HeadLen_def Let_def simp del: send_loop.simps)
qed

text \<open>A packet that was written and is read in any pieces at the other end is received.\<close>

lemma tcp_roundtrip:
  assumes sent: "ch_sendPack np src no [Sent 8, Sent (length src)] a = Returned (ok, wire, [])"
    and "ch_retryCount a = 2" "8 \<le> length src" "frame_ok (no, src)"
    and "received reads = wire" "ch_ready reads b" "ch_recv b = []"
  shows "ok \<and> (\<exists>b'. ch_recvPack nq reads b = Returned ((no, src), [], b') \<and> ch_recv b' = [])"
proof -
  have ok: "ok" and wire: "wire = frame (no, src)"
    using sent ch_sendPack_result [of a src np no "Sent 8" "Sent (length src)" "[]"] assms(2,3)
    by (simp_all add: frame_def)
  obtain reads' b' where r: "ch_recvPack nq reads b = Returned ((no, src), reads', b')"
    "ch_pending reads' b' = []" "ch_ready reads' b'"
    using tcp.recv_packet [of reads b "(no, src)" "[]" nq] assms(4-7) wire by (auto simp: ch_pending_def)
  then have "reads' = []"
    by (cases reads') (auto simp: ch_pending_def ch_ready_def elim!: read_ok.elims)
  with r ok show ?thesis by (auto simp: ch_pending_def)
qed

section \<open>Errors of a connection\<close>

text \<open>
  A read that fails in the middle of a packet repeats the bytes of the read before it: here the second
  half of a body of four bytes is replaced by the first.
\<close>

definition ex_channel :: tcp_channel where
  "ex_channel = new_channel 1 (replicate 512 0)"

definition ex_netpack :: stream_dealer where
  "ex_netpack = \<lparr>sd_len = 0, sd_no = 0\<rparr>"

lemma ch_recvPack_repeats:
  "\<exists>ch'. ch_recvPack ex_netpack [Got (be32 4 @ be32 7), Got [10, 20], Read_failed] ex_channel
         = Returned ((7, [10, 20, 10, 20]), [], ch')"
  using sd_unpack_header [of 4 7 "[]"] sd_unpack_header [of 4 7 "[10, 20, 10, 20]"]
  by (simp add: ch_recvPack_def ex_channel_def new_channel_def sd_HeadLen_def sd_Len_def sd_getNo_def size_of_int_def Let_def)

text \<open>A length between $-8$ and $-1$ makes \<open>recvPack\<close> throw.\<close>

lemma ch_recvPack_negative:
  assumes "ch_retryCount ch = 2" "ch_recv ch = be32 l @ be32 no @ rest" "- 8 \<le> sint l" "sint l < 0"
  shows "ch_recvPack netpack reads ch = Throws"
proof -
  have "size_of_int (8 + sint l) = nat (8 + sint l)" "nat (8 + sint l) < 8" "8 + sint l < 2 ^ 31"
    using assms(3,4) by (auto simp: size_of_int_def)
  then show ?thesis
    using assms(1,2) by (simp add: ch_recvPack_def recv_loop_none_needed sd_HeadLen_def sd_Len_def Let_def)
qed

text \<open>A peer that is gone before the header is complete yields an empty packet.\<close>

lemma ch_recvPack_closed:
  assumes "ch_retryCount ch = 2" "length (ch_recv ch) < 8"
  shows "ch_recvPack netpack (Read_failed # reads) ch
         = Returned ((sd_getNo netpack, []), reads, ch\<lparr>ch_recvMsg := []\<rparr>)"
  using assms by (cases reads) (simp_all add: ch_recvPack_def sd_HeadLen_def Let_def)

section \<open>\<open>FullDuplexChannel\<close>\<close>

text \<open>
  The two queues of a pair are arguments and results; the header and the body of a packet are two
  elements. \<open>_netpack\<close> is the same object for both directions.
\<close>

record full_duplex =
  fd_socket :: u32
  fd_netpack :: stream_dealer

definition fd_setSockNo :: "u32 \<Rightarrow> full_duplex \<Rightarrow> full_duplex" where
  "fd_setSockNo sockno fd = fd\<lparr>fd_socket := sockno\<rparr>"

definition fd_head :: "byte list \<Rightarrow> u32 \<Rightarrow> full_duplex \<Rightarrow> (byte list \<times> full_duplex) option" where
  "fd_head src no fd =
     (case sd_pack no (of_nat (length src)) (replicate sd_HeadLen 0) (fd_netpack fd) of
        None \<Rightarrow> None | Some (strhead, netpack) \<Rightarrow> Some (strhead, fd\<lparr>fd_netpack := netpack\<rparr>))"

definition fd_sendPack :: "byte list \<Rightarrow> u32 \<Rightarrow> byte list list \<Rightarrow> full_duplex \<Rightarrow> (bool \<times> byte list list \<times> full_duplex) outcome" where
  "fd_sendPack src no sender fd =
     (case fd_head src no fd of None \<Rightarrow> Undefined
      | Some (strhead, fd) \<Rightarrow> let sender = sender @ [strhead]; sender = sender @ [src] in Returned (True, sender, fd))"

definition fd_recvPack :: "bool \<Rightarrow> byte list list \<Rightarrow> full_duplex \<Rightarrow> ((u32 \<times> byte list) \<times> byte list list \<times> full_duplex) outcome" where
  "fd_recvPack dbg recv fd =
     (case recv of
        head # body # recv \<Rightarrow>
          (case sd_unpack head (fd_netpack fd) of (bret, netpack) \<Rightarrow>
             if dbg \<and> \<not> bret then Undefined
             else Returned ((sd_getNo netpack, body), recv, fd\<lparr>fd_netpack := netpack\<rparr>))
      | _ \<Rightarrow> Waiting)"

definition fd_packet :: "u32 \<times> byte list \<Rightarrow> byte list list" where
  "fd_packet p = (case p of (no, msg) \<Rightarrow> [be32 (of_nat (length msg)) @ be32 no, msg])"

lemma ucast_of_nat_64 [simp]: "(ucast (of_nat n :: 64 word) :: 32 word) = of_nat n"
  by (auto simp: unsigned_of_nat of_nat_take_bit take_bit_word_eq_self)

lemma fd_head_eq:
  "fd_head src no fd = Some (be32 (of_nat (length src)) @ be32 no,
     fd\<lparr>fd_netpack := (fd_netpack fd)\<lparr>sd_len := of_nat (length src), sd_no := no\<rparr>\<rparr>)"
  by (simp add: fd_head_def sd_pack_eq)

lemma fd_sendPack_eq:
  "\<exists>fd'. fd_sendPack msg no sender fd = Returned (True, sender @ fd_packet (no, msg), fd')"
  by (simp add: fd_sendPack_def fd_head_eq fd_packet_def Let_def)

interpretation duplex: packet_channel "fd_recvPack dbg" "\<lambda>recv fd. recv" fd_packet "\<lambda>p. True" "\<lambda>recv fd. True"
proof
  fix recv fd p rest
  assume "recv = fd_packet p @ rest"
  then show "\<exists>recv' fd'. fd_recvPack dbg recv fd = Returned (p, recv', fd') \<and> recv' = rest \<and> True"
    using sd_unpack_header [of _ _ "[]"]
    by (cases p) (simp add: fd_packet_def fd_recvPack_def sd_getNo_def)
qed

text \<open>
  Two coroutines that send over the same channel: each sends its header and then its body, and gives way
  in between. The steps of a set of senders, each with what it still has to send.
\<close>

inductive fd_step :: "byte list list list \<times> byte list list \<Rightarrow> byte list list list \<times> byte list list \<Rightarrow> bool" where
  "i < length ss \<Longrightarrow> ss ! i = x # xs \<Longrightarrow> length q < 16 \<Longrightarrow> fd_step (ss, q) (ss[i := xs], q @ [x])"

text \<open>Both headers may be sent before the bodies; the receiver then takes the second header for the first body.\<close>

lemma fd_interleaved:
  fixes p q :: "u32 \<times> byte list"
  defines "h \<equiv> hd (fd_packet q)"
  shows "fd_step\<^sup>*\<^sup>* ([fd_packet p, fd_packet q], []) ([[], []], [hd (fd_packet p), h, snd p, snd q])"
    and "\<exists>fd'. fd_recvPack dbg [hd (fd_packet p), h, snd p, snd q] fd = Returned ((fst p, h), [snd p, snd q], fd')"
proof -
  have run: "fd_step ([[a, b], [c, d]], []) ([[b], [c, d]], [a])" "fd_step ([[b], [c, d]], [a]) ([[b], [d]], [a, c])"
    "fd_step ([[b], [d]], [a, c]) ([[], [d]], [a, c, b])" "fd_step ([[], [d]], [a, c, b]) ([[], []], [a, c, b, d])" for a b c d
    using fd_step.intros [of 0 "[[a, b], [c, d]]" a "[b]" "[]"] fd_step.intros [of 1 "[[b], [c, d]]" c "[d]" "[a]"]
      fd_step.intros [of 0 "[[b], [d]]" b "[]" "[a, c]"] fd_step.intros [of 1 "[[], [d]]" d "[]" "[a, c, b]"] by simp_all
  have "fd_step\<^sup>*\<^sup>* ([[a, b], [c, d]], []) ([[], []], [a, c, b, d])" for a b c d
    by (rule converse_rtranclp_into_rtranclp [where r = fd_step, OF run(1)], rule converse_rtranclp_into_rtranclp [where r = fd_step, OF run(2)],
        rule converse_rtranclp_into_rtranclp [where r = fd_step, OF run(3)], rule r_into_rtranclp [where r = fd_step, OF run(4)])
  then show "fd_step\<^sup>*\<^sup>* ([fd_packet p, fd_packet q], []) ([[], []], [hd (fd_packet p), h, snd p, snd q])"
    by (simp add: fd_packet_def h_def split: prod.split)
  show "\<exists>fd'. fd_recvPack dbg [hd (fd_packet p), h, snd p, snd q] fd = Returned ((fst p, h), [snd p, snd q], fd')"
    using sd_unpack_header [of _ _ "[]"]
    by (cases p) (simp add: fd_packet_def fd_recvPack_def sd_getNo_def)
qed

end
