(* ===== verification/TcpStream.thy ===== *)
theory TcpStream
  imports TcpChannel
begin

text \<open>
  \<open>src/networkinterface/socket/TcpStreamHandler.cpp\<close>: packets with a length of four bytes in front, packets
  of fixed length and undivided data, over a TCP connection; and the two loops of
  \<open>socket/TcpChannel.h\<close> that exchange requests and answers over it.
\<close>

datatype NetHeadType = FixPackLenPlaceHolder | NoPlaceHolderFixLen | NoPlaceHolderVarLen

record stream_handler =
  sh_nethead :: NetHeadType
  sh_curpacklen :: u32
  sh_recvbuf :: "byte list"
  sh_recvasio :: "byte list"   \<comment> \<open>of 1024 bytes\<close>
  sh_recvmsg :: "byte list"
  sh_sendbuf :: "byte list"

section \<open>\<open>recvPack\<close>\<close>

text \<open>One turn of the loop after the read: whether a packet could be split off.\<close>

definition sh_split :: "bool \<Rightarrow> stream_handler \<Rightarrow> (bool \<times> stream_handler) option" where
  "sh_split dbg st =
     (case sh_nethead st of
        FixPackLenPlaceHolder \<Rightarrow>
          (let st = (if sh_curpacklen st = 0 \<and> sh_recvbuf st \<noteq> [] then
                       (case unpackuint32 (sh_recvbuf st) (sh_curpacklen st) of (_, buf, l) \<Rightarrow>
                          st\<lparr>sh_recvmsg := [], sh_recvbuf := buf, sh_curpacklen := l\<rparr>)
                     else st);
               n = unat (sh_curpacklen st)
           in if sh_curpacklen st > 0 \<and> n \<le> length (sh_recvbuf st)
              then Some (True, st\<lparr>sh_recvmsg := take n (sh_recvbuf st), sh_recvbuf := drop n (sh_recvbuf st), sh_curpacklen := 0\<rparr>)
              else Some (False, st))
      | NoPlaceHolderFixLen \<Rightarrow> do {
          assert_that dbg (sh_curpacklen st \<noteq> 0);
          let n = unat (sh_curpacklen st);
          if n \<le> length (sh_recvbuf st)
          then Some (True, st\<lparr>sh_recvmsg := take n (sh_recvbuf st), sh_recvbuf := drop n (sh_recvbuf st)\<rparr>)
          else Some (False, st)
        }
      | NoPlaceHolderVarLen \<Rightarrow>
          Some (True, st\<lparr>sh_recvmsg := sh_recvbuf st, sh_recvbuf := []\<rparr>))"

definition sh_read :: "io_read \<Rightarrow> stream_handler \<Rightarrow> stream_handler" where
  "sh_read r st =
     (let st = st\<lparr>sh_recvasio := replicate 1024 0\<rparr>
      in case r of
           Got bs \<Rightarrow> st\<lparr>sh_recvasio := bs @ drop (length bs) (sh_recvasio st), sh_recvbuf := sh_recvbuf st @ bs\<rparr>
         | Read_failed \<Rightarrow> st)"

fun sh_loop ::
    "bool \<Rightarrow> nat \<Rightarrow> io_read list \<Rightarrow> nat \<Rightarrow> stream_handler \<Rightarrow> ((bool \<times> byte list) \<times> io_read list \<times> stream_handler) outcome" where
  "sh_loop dbg retrycount [] tryindex st =
     (if tryindex < retrycount then Waiting else Returned ((False, sh_recvmsg st), [], st))"
| "sh_loop dbg retrycount (r # reads) tryindex st =
     (if tryindex < retrycount then
        let st = sh_read r st
        in if sh_recvbuf st = [] then Returned ((False, sh_recvmsg st), reads, st)
           else case sh_split dbg st of
             None \<Rightarrow> Undefined
           | Some (True, st) \<Rightarrow> Returned ((True, sh_recvmsg st), reads, st)
           | Some (False, st) \<Rightarrow> sh_loop dbg retrycount reads (tryindex + 1) st
      else Returned ((False, sh_recvmsg st), r # reads, st))"

definition sh_recvPack ::
    "bool \<Rightarrow> nat \<Rightarrow> io_read list \<Rightarrow> stream_handler \<Rightarrow> ((bool \<times> byte list) \<times> io_read list \<times> stream_handler) outcome" where
  "sh_recvPack dbg retrycount reads st =
     (let st = st\<lparr>sh_curpacklen := 0\<rparr>;
          retrycount = (if retrycount > 100 then 100 else retrycount)
      in sh_loop dbg retrycount reads 0 st)"

text \<open>
  A packet that is complete after at most \<open>retrycount\<close> reads is returned. The stream is what is in the
  buffer and what the reads bring; \<open>n\<close> bytes of the packet follow a header that may have been taken off.
\<close>

lemma sh_loop_packet:
  assumes "sh_nethead st = FixPackLenPlaceHolder" "msg \<noteq> []" "unat l = length msg"
    and "\<forall>r \<in> set rs. read_ok 1024 r" "rs \<noteq> []" "length rs \<le> retrycount - tryindex"
    and "if sh_curpacklen st = 0 then sh_recvbuf st @ received (rs @ reads) = be32 l @ msg @ rest
           \<and> 4 + length msg \<le> length (sh_recvbuf st @ received rs)
         else sh_curpacklen st = l \<and> sh_recvbuf st @ received (rs @ reads) = msg @ rest
           \<and> length msg \<le> length (sh_recvbuf st @ received rs)"
  shows "\<exists>reads' st'. sh_loop dbg retrycount (rs @ reads) tryindex st = Returned ((True, msg), reads', st')
           \<and> sh_recvbuf st' @ received reads' = rest \<and> sh_nethead st' = FixPackLenPlaceHolder"
  using assms
proof (induction rs arbitrary: tryindex st)
  case (Cons r rs)
  obtain bs where r: "r = Got bs" "bs \<noteq> []" using Cons.prems(4) by (cases r) auto
  have more: "tryindex < retrycount" using Cons.prems(6) by simp
  have l: "l \<noteq> 0" using Cons.prems(2,3) by auto
  define st1 where "st1 = sh_read r st"
  have st1: "sh_nethead st1 = FixPackLenPlaceHolder" "sh_curpacklen st1 = sh_curpacklen st" "sh_recvbuf st1 = sh_recvbuf st @ bs"
    using r Cons.prems(1) by (simp_all add: st1_def sh_read_def Let_def)
  \<comment> \<open>the state after the header was looked at, and whether it has been taken off\<close>
  define st2 where "st2 = (if sh_curpacklen st1 = 0 \<and> sh_recvbuf st1 \<noteq> [] then
                       (case unpackuint32 (sh_recvbuf st1) (sh_curpacklen st1) of (_, buf, l) \<Rightarrow>
                          st1\<lparr>sh_recvmsg := [], sh_recvbuf := buf, sh_curpacklen := l\<rparr>)
                     else st1)"
  have inv2: "if sh_curpacklen st2 = 0 then sh_recvbuf st2 @ received (rs @ reads) = be32 l @ msg @ rest
           \<and> 4 + length msg \<le> length (sh_recvbuf st2 @ received rs) \<and> length (sh_recvbuf st2) < 4
         else sh_curpacklen st2 = l \<and> sh_recvbuf st2 @ received (rs @ reads) = msg @ rest
           \<and> length msg \<le> length (sh_recvbuf st2 @ received rs)"
  proof (cases "sh_curpacklen st = 0")
    case False
    then show ?thesis using Cons.prems(7) st1 r by (simp add: st2_def)
  next
    case True
    then have stream: "sh_recvbuf st1 @ received (rs @ reads) = be32 l @ msg @ rest"
      "4 + length msg \<le> length (sh_recvbuf st1 @ received rs)"
      using Cons.prems(7) r st1 by auto
    show ?thesis
    proof (cases "4 \<le> length (sh_recvbuf st1)")
      case False
      then have "unpackuint32 (sh_recvbuf st1) 0 = (False, sh_recvbuf st1, 0)" by simp
      then show ?thesis using True False stream st1 r by (simp add: st2_def)
    next
      case le: True
      have "take 4 (sh_recvbuf st1) = be32 l"
        using arg_cong [OF stream(1), of "take 4"] le by simp
      then obtain b where b: "sh_recvbuf st1 = be32 l @ b"
        by (metis append_take_drop_id)
      then show ?thesis using True stream st1 l by (simp add: st2_def)
    qed
  qed
  have head2: "sh_nethead st2 = FixPackLenPlaceHolder"
    using st1 by (simp add: st2_def split: prod.split)
  have split: "sh_split dbg st1 =
      (if sh_curpacklen st2 > 0 \<and> unat (sh_curpacklen st2) \<le> length (sh_recvbuf st2)
       then Some (True, st2\<lparr>sh_recvmsg := take (unat (sh_curpacklen st2)) (sh_recvbuf st2),
                            sh_recvbuf := drop (unat (sh_curpacklen st2)) (sh_recvbuf st2), sh_curpacklen := 0\<rparr>)
       else Some (False, st2))"
    by (simp add: sh_split_def st1(1) Let_def flip: st2_def)
  have ne: "sh_recvbuf st1 \<noteq> []" using st1 r by simp
  show ?case
  proof (cases "sh_curpacklen st2 > 0 \<and> unat (sh_curpacklen st2) \<le> length (sh_recvbuf st2)")
    case True
    then have "sh_curpacklen st2 = l" "sh_recvbuf st2 @ received (rs @ reads) = msg @ rest" "length msg \<le> length (sh_recvbuf st2)"
      using inv2 Cons.prems(3) by (auto split: if_splits)
    then have "take (length msg) (sh_recvbuf st2) = msg" "drop (length msg) (sh_recvbuf st2) @ received (rs @ reads) = rest"
      using arg_cong [of _ _ "take (length msg)"] arg_cong [of _ _ "drop (length msg)"]
      by (metis append_eq_append_conv_if append_eq_conv_conj, metis append_eq_append_conv_if append_eq_conv_conj drop_append diff_is_0_eq drop_0)
    then show ?thesis
      using True split more ne head2 Cons.prems(3) \<open>sh_curpacklen st2 = l\<close> by (simp add: st1_def [symmetric] Let_def)
  next
    case False
    have "rs \<noteq> []"
      using False inv2 l Cons.prems(3) by (auto simp: word_gt_0 split: if_splits)
    have "\<exists>reads' st'. sh_loop dbg retrycount (rs @ reads) (tryindex + 1) st2 = Returned ((True, msg), reads', st')
           \<and> sh_recvbuf st' @ received reads' = rest \<and> sh_nethead st' = FixPackLenPlaceHolder"
      by (rule Cons.IH) (use head2 Cons.prems inv2 \<open>rs \<noteq> []\<close> in \<open>auto split: if_splits\<close>)
    moreover have "sh_split dbg st1 = Some (False, st2)"
      using False split by auto
    ultimately show ?thesis
      using more ne by (simp add: st1_def [symmetric] Let_def)
  qed
qed simp

lemma sh_recvPack_packet:
  assumes "sh_nethead st = FixPackLenPlaceHolder" "msg \<noteq> []" "length msg < 2 ^ 32"
    and "\<forall>r \<in> set rs. read_ok 1024 r" "rs \<noteq> []" "length rs \<le> min retrycount 100"
    and "sh_recvbuf st @ received (rs @ reads) = be32 (of_nat (length msg)) @ msg @ rest"
    and "4 + length msg \<le> length (sh_recvbuf st @ received rs)"
  shows "\<exists>reads' st'. sh_recvPack dbg retrycount (rs @ reads) st = Returned ((True, msg), reads', st')
           \<and> sh_recvbuf st' @ received reads' = rest \<and> sh_nethead st' = FixPackLenPlaceHolder"
proof -
  have "unat (of_nat (length msg) :: u32) = length msg"
    using assms(3) by (simp add: unat_of_nat_lt)
  then show ?thesis
    unfolding sh_recvPack_def Let_def
    by (intro sh_loop_packet [where l = "of_nat (length msg)"]) (use assms in auto)
qed

text \<open>
  A call that runs out of tries after it took the header off loses the header: the next call sets
  \<open>_curpacklen\<close> back and reads the body as a header.
\<close>

definition ex_handler :: stream_handler where
  "ex_handler = \<lparr>sh_nethead = FixPackLenPlaceHolder, sh_curpacklen = 0, sh_recvbuf = [], sh_recvasio = [],
                 sh_recvmsg = [], sh_sendbuf = []\<rparr>"

lemma unpack_ex: "unpackuint32 [0, 0, 0, 1, 9] d = (True, [9], 1)"
  using unpackuint32_be [of 1 "[9]" d] by (simp add: be32_def)

lemma sh_recvPack_loses_header:
  defines "reads1 \<equiv> [Got (be32 5)]" and "reads2 \<equiv> [Got [0, 0, 0, 1, 9]]"
  shows "\<exists>st. sh_recvPack dbg 1 reads1 ex_handler = Returned ((False, []), [], st)
           \<and> (\<exists>st'. sh_recvPack dbg 1 reads2 st = Returned ((True, [9]), [], st'))"
  by (simp add: reads1_def reads2_def sh_recvPack_def ex_handler_def sh_read_def sh_split_def unpack_ex Let_def)

section \<open>\<open>sendPack\<close>\<close>

definition sh_packnethead :: "bool \<Rightarrow> u32 \<Rightarrow> stream_handler \<Rightarrow> stream_handler option" where
  "sh_packnethead dbg plen st =
     (let st = st\<lparr>sh_sendbuf := []\<rparr>
      in do {
        assert_that dbg (plen < 0xFFFFFFFF);
        case sh_nethead st of
          FixPackLenPlaceHolder \<Rightarrow> Some (st\<lparr>sh_sendbuf := packuint32 (sh_sendbuf st) plen\<rparr>)
        | NoPlaceHolderFixLen \<Rightarrow> do { assert_that dbg (plen = sh_curpacklen st); Some st }
        | NoPlaceHolderVarLen \<Rightarrow> Some st
      })"

text \<open>
  The loop that writes. After a write that did not take everything the socket is awaited: that is one
  more result in the list. A failure leaves the loop with the rest in \<open>_sendbuf\<close>.
\<close>

fun sh_send_loop :: "io_write list \<Rightarrow> byte list \<Rightarrow> byte list \<Rightarrow> (io_write list \<times> byte list \<times> byte list) option" where
  "sh_send_loop [] sendbuf wire = (if sendbuf = [] then Some ([], sendbuf, wire) else None)"
| "sh_send_loop (Write_failed # ws) sendbuf wire =
     (if sendbuf = [] then Some (Write_failed # ws, sendbuf, wire) else Some (ws, sendbuf, wire))"
| "sh_send_loop (Sent n # ws) sendbuf wire =
     (if sendbuf = [] then Some (Sent n # ws, sendbuf, wire)
      else if n = length sendbuf then sh_send_loop ws (drop n sendbuf) (wire @ take n sendbuf)
      else case ws of
             [] \<Rightarrow> None
           | Write_failed # ws \<Rightarrow> Some (ws, sendbuf, wire @ take n sendbuf)
           | Sent _ # ws \<Rightarrow> sh_send_loop ws (drop n sendbuf) (wire @ take n sendbuf))"

definition sh_sendPack ::
    "bool \<Rightarrow> byte list \<Rightarrow> io_write list \<Rightarrow> stream_handler \<Rightarrow> (bool \<times> byte list \<times> io_write list \<times> stream_handler) outcome" where
  "sh_sendPack dbg msg writes st =
     (let st = st\<lparr>sh_sendbuf := []\<rparr>
      in case sh_packnethead dbg (of_nat (length msg)) st of
           None \<Rightarrow> Undefined
         | Some st \<Rightarrow>
             (let st = st\<lparr>sh_sendbuf := sh_sendbuf st @ msg\<rparr>
              in case sh_send_loop writes (sh_sendbuf st) [] of
                   None \<Rightarrow> Waiting
                 | Some (writes, sendbuf, wire) \<Rightarrow> Returned (True, wire, writes, st\<lparr>sh_sendbuf := sendbuf\<rparr>)))"

text \<open>What was written and what is left is the packet, whatever the socket takes at a time.\<close>

lemma sh_send_loop_wire:
  "sh_send_loop ws sendbuf wire = Some (ws', sendbuf', wire') \<Longrightarrow> Write_failed \<notin> set ws \<Longrightarrow>
   sendbuf' = [] \<and> wire' = wire @ sendbuf"
proof (induction ws sendbuf wire rule: sh_send_loop.induct)
  case (3 n ws sendbuf wire)
  show ?case
  proof (cases "sendbuf = [] \<or> n = length sendbuf")
    case True
    then show ?thesis using 3 by (auto split: if_splits)
  next
    case False
    then obtain k ws2 where "ws = Sent k # ws2"
      using 3(3,4) by (cases ws; cases "hd ws") (auto split: if_splits)
    then show ?thesis using 3 False by auto
  qed
qed (auto split: if_splits)

lemma sh_sendPack_wire:
  assumes "sh_sendPack dbg msg writes st = Returned (ok, wire, writes', st')" "sh_nethead st = FixPackLenPlaceHolder"
  shows "ok" and "Write_failed \<notin> set writes \<Longrightarrow> wire = be32 (of_nat (length msg)) @ msg"
proof -
  have "ok \<and> (Write_failed \<notin> set writes \<longrightarrow> wire = be32 (of_nat (length msg)) @ msg)"
    using assms by (auto simp: sh_sendPack_def sh_packnethead_def assert_that_def Let_def
        split: option.splits if_splits dest!: sh_send_loop_wire)
  then show "ok" "Write_failed \<notin> set writes \<Longrightarrow> wire = be32 (of_nat (length msg)) @ msg" by auto
qed

text \<open>A write that fails is reported as success.\<close>

lemma sh_sendPack_failed:
  assumes "sh_nethead st = FixPackLenPlaceHolder" "length msg < 2 ^ 32 - 1"
  shows "\<exists>st'. sh_sendPack dbg msg [Write_failed] st = Returned (True, [], [], st')"
proof -
  have "(of_nat (length msg) :: u32) < 0xFFFFFFFF"
    using assms(2) by (simp add: word_less_nat_alt unat_of_nat_lt)
  then show ?thesis
    using assms by (simp add: sh_sendPack_def sh_packnethead_def Let_def)
qed

section \<open>Requests and answers over a stream\<close>

text \<open>
  \<open>TcpChannel::clientEntry\<close> with a \<open>PackDealerMainSub\<close>: the sequence number is the next one, the answer is
  waited for with three reads. \<open>_serverEntry\<close> repeats the turn below while it returns \<open>True\<close>.
\<close>

definition client_send ::
    "bool \<Rightarrow> byte list \<Rightarrow> u32 \<Rightarrow> io_write list \<Rightarrow> stream_handler \<Rightarrow> pack_dealer
     \<Rightarrow> (bool \<times> byte list \<times> stream_handler \<times> pack_dealer \<times> u32) outcome" where
  "client_send dbg req seq writes st d =
     (let (no, seq) = getSeqNum seq;
          d = set_seq reqSeq no d;
          pack = MainSub_pack_assc reqSeq req (ucast (pd_getAssc d)) d
      in case sh_sendPack dbg pack writes st of
           Returned (succ, wire, writes, st) \<Rightarrow> Returned (succ, wire, st, d, seq)
         | Waiting \<Rightarrow> Waiting | Throws \<Rightarrow> Throws | Undefined \<Rightarrow> Undefined)"

definition client_recv ::
    "bool \<Rightarrow> bool \<Rightarrow> io_read list \<Rightarrow> stream_handler \<Rightarrow> pack_dealer \<Rightarrow> (byte list \<times> stream_handler \<times> pack_dealer) outcome" where
  "client_recv dbg succ reads st d =
     (if \<not> succ then Returned ([], st, d)
      else case sh_recvPack dbg 3 reads st of
        Returned ((bsucc, recvd), reads, st) \<Rightarrow>
          if \<not> bsucc then Returned ([], st, d)
          else (case MainSub_unpack_string dbg repSeq recvd d of
                  None \<Rightarrow> Undefined
                | Some (None, _, d) \<Rightarrow> Undefined
                | Some (Some rep, recvd, d) \<Rightarrow> Returned (rep, st\<lparr>sh_recvmsg := recvd\<rparr>, d))
      | Waiting \<Rightarrow> Waiting | Throws \<Rightarrow> Throws | Undefined \<Rightarrow> Undefined)"

definition server_turn ::
    "bool \<Rightarrow> trans_routers \<Rightarrow> io_read list \<Rightarrow> io_write list \<Rightarrow> stream_handler \<Rightarrow> pack_dealer
     \<Rightarrow> (bool \<times> byte list \<times> io_read list \<times> stream_handler \<times> pack_dealer) outcome" where
  "server_turn dbg rs reads writes st d =
     (case sh_recvPack dbg 60 reads st of
        Returned ((bs, recvreq), reads, st) \<Rightarrow>
          if \<not> bs then Returned (False, [], reads, st, d)
          else (case MainSub_dealmsg dbg rs recvreq d of
                  None \<Rightarrow> Undefined
                | Some (None, d) \<Rightarrow> Returned (False, [], reads, st, d)
                | Some (Some rep, d) \<Rightarrow>
                    if rep = [] then Returned (False, [], reads, st, d)
                    else (case sh_sendPack dbg rep writes st of
                            Returned (bsucc, wire, writes, st) \<Rightarrow> Returned (bsucc, wire, reads, st\<lparr>sh_sendbuf := []\<rparr>, d)
                          | Waiting \<Rightarrow> Waiting | Throws \<Rightarrow> Throws | Undefined \<Rightarrow> Undefined))
      | Waiting \<Rightarrow> Waiting | Throws \<Rightarrow> Throws | Undefined \<Rightarrow> Undefined)"

lemma sh_sendPack_sent:
  assumes "sh_nethead st = FixPackLenPlaceHolder" "length msg < 2 ^ 32 - 1"
  shows "\<exists>st'. sh_sendPack dbg msg [Sent (4 + length msg)] st
           = Returned (True, be32 (of_nat (length msg)) @ msg, [], st') \<and> sh_nethead st' = FixPackLenPlaceHolder
             \<and> sh_recvbuf st' = sh_recvbuf st"
proof -
  have "(of_nat (length msg) :: u32) < 0xFFFFFFFF"
    using assms(2) by (simp add: word_less_nat_alt unat_of_nat_lt)
  then show ?thesis
    using assms by (simp add: sh_sendPack_def sh_packnethead_def Let_def)
qed

lemma sh_recvPack_one:
  assumes "sh_nethead st = FixPackLenPlaceHolder" "msg \<noteq> []" "4 + length msg \<le> 1024" "0 < n" "sh_recvbuf st = []"
  shows "\<exists>st'. sh_recvPack dbg n [Got (be32 (of_nat (length msg)) @ msg)] st = Returned ((True, msg), [], st')
           \<and> sh_recvbuf st' = [] \<and> sh_nethead st' = FixPackLenPlaceHolder"
proof -
  have "unpackuint32 (be32 (of_nat (length msg)) @ msg) 0 = (True, msg, of_nat (length msg))" by simp
  moreover have "(of_nat (length msg) :: u32) \<noteq> 0" "unat (of_nat (length msg) :: u32) = length msg"
    using assms(2,3) by (auto simp: unat_of_nat_lt word_unat_eq_iff)
  ultimately show ?thesis
    using assms by (simp add: sh_recvPack_def sh_read_def sh_split_def Let_def word_gt_0)
qed

text \<open>
  A whole exchange over a connection that delivers each packet in one piece: the handler is called on
  the request \<^emph>\<open>twice in a row\<close>, and the client gets the answer twice in a row, because both sides unpack
  through \<open>unpack(seqNumType*, string&)\<close>.
\<close>

lemma exchange:
  fixes c d :: pack_dealer and seq :: u32
  assumes mainc: "pd_mainc d = pd_mainc c" "unat (pd_mainc c) < 2 ^ 16"
    and assc: "pd_assc c = ucast (a :: u16)" "a \<noteq> 0xFFFF"
    and func: "getRouterTrans rs (pd_mainc c) (ucast a) = Some f" "f (req @ req) = Rep_string r" "r \<noteq> []"
    and size: "length req + 16 \<le> 1024" "length r + 16 \<le> 1024"
    and streams: "sh_nethead cs = FixPackLenPlaceHolder" "sh_recvbuf cs = []"
      "sh_nethead ss = FixPackLenPlaceHolder" "sh_recvbuf ss = []"
  shows "\<exists>wire cs' c' ss' d' wire' ss'' cs''.
           client_send dbg req seq [Sent (16 + length req)] cs c = Returned (True, wire, cs', c', seq + 1)
         \<and> server_turn dbg rs [Got wire] [Sent (16 + length r)] ss d = Returned (True, wire', [], ss'', d')
         \<and> (\<exists>c''. client_recv dbg True [Got wire'] cs' c' = Returned (r @ r, cs'', c'') \<and> pd_seqnumrep c'' = seq + 1)"
proof -
  let ?c = "set_seq reqSeq (seq + 1) c"
  let ?req = "MainSub_pack_assc reqSeq req a ?c" and ?rep = "MainSub_pack_assc reqSeq r a ?c"
  have len: "length ?req = 12 + length req" "length ?rep = 12 + length r" by (simp_all add: MainSub_pack_assc_eq)
  then have ne: "?req \<noteq> []" "?rep \<noteq> []" by auto
  let ?w = "be32 (of_nat (length ?req)) @ ?req" and ?w' = "be32 (of_nat (length ?rep)) @ ?rep"
  obtain cs1 where send: "sh_sendPack dbg ?req [Sent (16 + length req)] cs = Returned (True, ?w, [], cs1)"
      "sh_nethead cs1 = FixPackLenPlaceHolder" "sh_recvbuf cs1 = []"
    using sh_sendPack_sent [OF streams(1), of ?req dbg] len size streams(2) by auto
  have 1: "client_send dbg req seq [Sent (16 + length req)] cs c = Returned (True, ?w, cs1, ?c, seq + 1)"
    using send(1) assc(1) by (simp add: client_send_def getSeqNum_def pd_getAssc_def Let_def)
  obtain ss1 where recv: "sh_recvPack dbg 60 [Got ?w] ss = Returned ((True, ?req), [], ss1)"
      "sh_nethead ss1 = FixPackLenPlaceHolder" "sh_recvbuf ss1 = []"
    using sh_recvPack_one [OF streams(3) ne(1), of 60 dbg] len size streams(4) by auto
  obtain d1 where deal: "MainSub_dealmsg dbg rs ?req d = Some (Some (packmaincmd3_seq (seq + 1) (pd_mainc c) (ucast a) [] r), d1)"
    using MainSub_dealmsg_packed [of d ?c a rs f req r dbg reqSeq] mainc assc func by auto
  have rep: "packmaincmd3_seq (seq + 1) (pd_mainc c) (ucast a) [] r = ?rep"
    by (simp add: MainSub_pack_assc_def)
  obtain ss2 where send2: "sh_sendPack dbg ?rep [Sent (16 + length r)] ss1 = Returned (True, ?w', [], ss2)"
    using sh_sendPack_sent [OF recv(2), of ?rep dbg] len size by auto
  have 2: "server_turn dbg rs [Got ?w] [Sent (16 + length r)] ss d = Returned (True, ?w', [], ss2\<lparr>sh_sendbuf := []\<rparr>, d1)"
    using recv(1) deal ne(2) send2 by (simp add: server_turn_def rep)
  obtain cs2 where recv2: "sh_recvPack dbg 3 [Got ?w'] cs1 = Returned ((True, ?rep), [], cs2)"
    using sh_recvPack_one [OF send(2) ne(2), of 3 dbg] len size send(3) by auto
  have "MainSub_unpack_string dbg repSeq ?rep ?c = Some (Some (r @ r), r, (set_seq repSeq (seq + 1) ?c)\<lparr>pd_assc := ucast a\<rparr>)"
    using MainSub_unpack_packed(1) [of ?c ?c a dbg repSeq reqSeq r] mainc assc(2) by simp
  then have 3: "\<exists>c''. client_recv dbg True [Got ?w'] cs1 ?c = Returned (r @ r, cs2\<lparr>sh_recvmsg := r\<rparr>, c'') \<and> pd_seqnumrep c'' = seq + 1"
    using recv2 by (simp add: client_recv_def)
  show ?thesis using 1 2 3 by blast
qed

end
