(* ===== verification/MsgRouter.thy ===== *)
theory MsgRouter
  imports TcpChannel
begin

text \<open>
  \<open>src/networkinterface/MessageRouter.cpp\<close> and the functions of \<open>networkinterface.cpp\<close> and
  \<open>ChannelCombine.h\<close> around it: requests and answers are matched by the number of the connection and
  the number of the request.

  A \<open>oneshot\<close> channel is an element of a list; its sender is the index, in the entry of a map, or null
  after it has been used. A receiver is the index.
\<close>

record nmessage =
  nm_len :: u32
  nm_no :: u32
  nm_body :: "byte list"

definition new_NMessage :: "u32 \<Rightarrow> byte list \<Rightarrow> nmessage" where
  "new_NMessage no msg = \<lparr>nm_len = of_nat (length msg), nm_no = no, nm_body = msg\<rparr>"

definition nm_set_body :: "byte list \<Rightarrow> nmessage \<Rightarrow> nmessage" where
  "nm_set_body body m = m\<lparr>nm_body := body\<rparr>"

section \<open>One-shot channels\<close>

datatype 'v signal = Sig_empty | Sig_sent 'v | Sig_broken

type_synonym 'v sigs = "'v signal list"
type_synonym sender = "nat option"
type_synonym senders = "u32 \<Rightarrow> u32 \<rightharpoonup> sender"

text \<open>Sending through a null sender throws; destroying a sender that was not used breaks the channel.\<close>

definition sender_send :: "'v \<Rightarrow> sender \<Rightarrow> 'v sigs \<Rightarrow> 'v sigs option" where
  "sender_send v s sigs = (case s of None \<Rightarrow> None | Some i \<Rightarrow> Some (sigs[i := Sig_sent v]))"

definition sender_destroy :: "sender option \<Rightarrow> 'v sigs \<Rightarrow> 'v sigs" where
  "sender_destroy s sigs = (case s of Some (Some i) \<Rightarrow> sigs[i := Sig_broken] | _ \<Rightarrow> sigs)"

definition set_sender :: "u32 \<Rightarrow> u32 \<Rightarrow> sender option \<Rightarrow> senders \<Rightarrow> senders" where
  "set_sender sock no s m = m(sock := (m sock)(no := s))"

text \<open>A new channel whose sender is stored in a map; the sender that was there is destroyed.\<close>

definition prepare_signal :: "u32 \<Rightarrow> u32 \<Rightarrow> senders \<Rightarrow> 'v sigs \<Rightarrow> nat \<times> senders \<times> 'v sigs" where
  "prepare_signal sock no m sigs =
     (let r = length sigs; old = m sock no
      in (r, set_sender sock no (Some (Some r)) m, sender_destroy old (sigs @ [Sig_empty])))"

text \<open>\<open>send\<close> inside \<open>BEGIN_ASIO\<close>/\<open>END_ASIO\<close>: an exception leaves the result \<open>False\<close>.\<close>

definition notify_signal :: "u32 \<Rightarrow> u32 \<Rightarrow> 'v \<Rightarrow> senders \<Rightarrow> 'v sigs \<Rightarrow> bool \<times> senders \<times> 'v sigs" where
  "notify_signal sock no v m sigs =
     (case m sock no of
        None \<Rightarrow> (False, m, sigs)
      | Some s \<Rightarrow>
          (case sender_send v s sigs of
             None \<Rightarrow> (False, m, sigs)
           | Some sigs \<Rightarrow> (True, set_sender sock no (Some None) m, sigs)))"

definition erase_signal :: "u32 \<Rightarrow> u32 \<Rightarrow> senders \<Rightarrow> 'v sigs \<Rightarrow> senders \<times> 'v sigs" where
  "erase_signal sock no m sigs = (set_sender sock no None m, sender_destroy (m sock no) sigs)"

section \<open>\<open>MessageRouter\<close>\<close>

record msg_router =
  mr_sendComplete :: senders
  mr_netRep :: senders
  mr_appRep :: senders
  mr_bools :: "bool sigs"
  mr_msgs :: "nmessage sigs"

definition new_router :: msg_router where
  "new_router = \<lparr>mr_sendComplete = \<lambda>_. Map.empty, mr_netRep = \<lambda>_. Map.empty, mr_appRep = \<lambda>_. Map.empty,
                 mr_bools = [], mr_msgs = []\<rparr>"

definition mr_prepareSignalSendComplete :: "u32 \<Rightarrow> u32 \<Rightarrow> msg_router \<Rightarrow> nat \<times> msg_router" where
  "mr_prepareSignalSendComplete sock no st =
     (case prepare_signal sock no (mr_sendComplete st) (mr_bools st) of (r, m, sigs) \<Rightarrow>
        (r, st\<lparr>mr_sendComplete := m, mr_bools := sigs\<rparr>))"

definition mr_prepareSignalRecvNetRep :: "u32 \<Rightarrow> u32 \<Rightarrow> msg_router \<Rightarrow> nat \<times> msg_router" where
  "mr_prepareSignalRecvNetRep sock no st =
     (case prepare_signal sock no (mr_netRep st) (mr_msgs st) of (r, m, sigs) \<Rightarrow>
        (r, st\<lparr>mr_netRep := m, mr_msgs := sigs\<rparr>))"

definition mr_prepareSignalRecvAppRep :: "bool \<Rightarrow> u32 \<Rightarrow> u32 \<Rightarrow> msg_router \<Rightarrow> (nat \<times> msg_router) option" where
  "mr_prepareSignalRecvAppRep dbg sock no st =
     do {
       assert_that dbg (mr_appRep st sock no = None);
       case prepare_signal sock no (mr_appRep st) (mr_msgs st) of (r, m, sigs) \<Rightarrow>
         Some (r, st\<lparr>mr_appRep := m, mr_msgs := sigs\<rparr>)
     }"

definition mr_notifyRecvNetRep :: "u32 \<Rightarrow> nmessage \<Rightarrow> msg_router \<Rightarrow> bool \<times> msg_router" where
  "mr_notifyRecvNetRep sock msg st =
     (case notify_signal sock (nm_no msg) msg (mr_netRep st) (mr_msgs st) of (b, m, sigs) \<Rightarrow>
        (b, st\<lparr>mr_netRep := m, mr_msgs := sigs\<rparr>))"

definition mr_notifyRecvAppRep :: "u32 \<Rightarrow> nmessage \<Rightarrow> msg_router \<Rightarrow> bool \<times> msg_router" where
  "mr_notifyRecvAppRep sock msg st =
     (case notify_signal sock (nm_no msg) msg (mr_appRep st) (mr_msgs st) of (b, m, sigs) \<Rightarrow>
        (b, st\<lparr>mr_appRep := m, mr_msgs := sigs\<rparr>))"

definition mr_notifySendNetComplete :: "u32 \<Rightarrow> u32 \<Rightarrow> bool \<Rightarrow> msg_router \<Rightarrow> bool \<times> msg_router" where
  "mr_notifySendNetComplete sock no flag st =
     (case notify_signal sock no flag (mr_sendComplete st) (mr_bools st) of (b, m, sigs) \<Rightarrow>
        (b, st\<lparr>mr_sendComplete := m, mr_bools := sigs\<rparr>))"

definition mr_finishReqRep :: "u32 \<Rightarrow> u32 \<Rightarrow> msg_router \<Rightarrow> bool \<times> msg_router" where
  "mr_finishReqRep sock no st =
     (case erase_signal sock no (mr_sendComplete st) (mr_bools st) of (m1, s1) \<Rightarrow>
      case erase_signal sock no (mr_netRep st) (mr_msgs st) of (m2, s2) \<Rightarrow>
        (True, st\<lparr>mr_sendComplete := m1, mr_bools := s1, mr_netRep := m2, mr_msgs := s2\<rparr>))"

definition mr_canReqRep :: "u32 \<Rightarrow> u32 \<Rightarrow> msg_router \<Rightarrow> bool" where
  "mr_canReqRep sock no st \<longleftrightarrow>
     (if mr_sendComplete st sock no \<noteq> None then False else if mr_netRep st sock no \<noteq> None then False else True)"

definition mr_canWaitAppRep :: "u32 \<Rightarrow> u32 \<Rightarrow> msg_router \<Rightarrow> bool" where
  "mr_canWaitAppRep sock no st \<longleftrightarrow> (if mr_appRep st sock no \<noteq> None then False else True)"

text \<open>\<open>MessageRouter::prepareReqRep\<close> stores neither sender, so both channels are broken; its result is not valid.\<close>

definition mr_prepareReqRep :: "u32 \<Rightarrow> u32 \<Rightarrow> msg_router \<Rightarrow> (nat \<times> nat \<times> bool) \<times> msg_router" where
  "mr_prepareReqRep sock no st =
     ((length (mr_bools st), length (mr_msgs st), False),
      st\<lparr>mr_bools := mr_bools st @ [Sig_broken], mr_msgs := mr_msgs st @ [Sig_broken]\<rparr>)"

section \<open>The functions of \<open>networkinterface.cpp\<close>\<close>

text \<open>The receivers of a request, or \<open>None\<close> for a result that is not valid.\<close>

definition prepareReqRep :: "u32 \<Rightarrow> u32 \<Rightarrow> msg_router \<Rightarrow> (nat \<times> nat) option \<times> msg_router" where
  "prepareReqRep sock no st =
     (if \<not> mr_canReqRep sock no st then (None, st)
      else case mr_prepareSignalSendComplete sock no st of (r1, st) \<Rightarrow>
           case mr_prepareSignalRecvNetRep sock no st of (r2, st) \<Rightarrow> (Some (r1, r2), st))"

definition prepareAppRep :: "bool \<Rightarrow> u32 \<Rightarrow> u32 \<Rightarrow> msg_router \<Rightarrow> (nat option \<times> msg_router) option" where
  "prepareAppRep dbg sock no st =
     (if \<not> mr_canWaitAppRep sock no st then Some (None, st)
      else map_option (\<lambda>(r, st). (Some r, st)) (mr_prepareSignalRecvAppRep dbg sock no st))"

definition FinishReqRepRecver :: "u32 \<Rightarrow> u32 \<Rightarrow> msg_router \<Rightarrow> bool \<times> msg_router" where
  "FinishReqRepRecver sock no st = mr_finishReqRep sock no st"

definition notifySendNetComplete :: "u32 \<Rightarrow> u32 \<Rightarrow> bool \<Rightarrow> msg_router \<Rightarrow> bool \<times> msg_router" where
  "notifySendNetComplete sock no flag st = mr_notifySendNetComplete sock no flag st"

definition notifyNetRepComplete :: "u32 \<Rightarrow> nmessage \<Rightarrow> msg_router \<Rightarrow> bool \<times> msg_router" where
  "notifyNetRepComplete sock msg st = mr_notifyRecvNetRep sock msg st"

definition newSockNo :: "u32 \<Rightarrow> u32 \<times> u32" where
  "newSockNo n = (let n = n + 1 in (n, n))"

section \<open>Senders and their channels\<close>

text \<open>Every sender that has not been used is the only one of its channel, and its channel is empty.\<close>

definition senders_ok :: "senders \<Rightarrow> 'v sigs \<Rightarrow> bool" where
  "senders_ok m sigs \<longleftrightarrow>
     (\<forall>k n i. m k n = Some (Some i) \<longrightarrow> i < length sigs \<and> sigs ! i = Sig_empty)
     \<and> (\<forall>k n k' n' i. m k n = Some (Some i) \<longrightarrow> m k' n' = Some (Some i) \<longrightarrow> k = k' \<and> n = n')"

definition senders_apart :: "senders \<Rightarrow> senders \<Rightarrow> bool" where
  "senders_apart m m' \<longleftrightarrow> (\<forall>k n k' n' i. m k n = Some (Some i) \<longrightarrow> m' k' n' \<noteq> Some (Some i))"

definition mr_ok :: "msg_router \<Rightarrow> bool" where
  "mr_ok st \<longleftrightarrow> senders_ok (mr_sendComplete st) (mr_bools st) \<and> senders_ok (mr_netRep st) (mr_msgs st)
     \<and> senders_ok (mr_appRep st) (mr_msgs st) \<and> senders_apart (mr_netRep st) (mr_appRep st)"

lemma set_sender_apply: "set_sender s n x m k l = (if k = s \<and> l = n then x else m k l)"
  by (simp add: set_sender_def)

text \<open>
  What the three primitives have in common: they touch one entry, they change no channel but the one
  of its old sender, and a sender they store belongs to a new, empty channel.
\<close>

definition sig_step :: "u32 \<Rightarrow> u32 \<Rightarrow> senders \<Rightarrow> 'v sigs \<Rightarrow> senders \<Rightarrow> 'v sigs \<Rightarrow> bool" where
  "sig_step s n m sigs m1 sigs1 \<longleftrightarrow>
     (\<forall>k l. (k, l) \<noteq> (s, n) \<longrightarrow> m1 k l = m k l)
     \<and> (\<forall>i. m1 s n = Some (Some i) \<longrightarrow> i = length sigs \<and> i < length sigs1 \<and> sigs1 ! i = Sig_empty)
     \<and> (\<forall>i < length sigs. m s n \<noteq> Some (Some i) \<longrightarrow> sigs1 ! i = sigs ! i)
     \<and> length sigs \<le> length sigs1"

lemma sig_stepD:
  assumes "sig_step s n m sigs m1 sigs1"
  shows "(k, l) \<noteq> (s, n) \<Longrightarrow> m1 k l = m k l"
    and "i < length sigs \<Longrightarrow> m s n \<noteq> Some (Some i) \<Longrightarrow> sigs1 ! i = sigs ! i"
    and "length sigs \<le> length sigs1"
    and "m1 s n = Some (Some i) \<Longrightarrow> i = length sigs \<and> i < length sigs1 \<and> sigs1 ! i = Sig_empty"
  using assms by (auto simp: sig_step_def)

lemma senders_okD:
  assumes "senders_ok m sigs" "m k n = Some (Some i)"
  shows "i < length sigs" "sigs ! i = Sig_empty" "m k' n' = Some (Some i) \<Longrightarrow> k' = k \<and> n' = n"
  using assms unfolding senders_ok_def by blast+

lemma sig_step_senders_ok:
  assumes step: "sig_step s n m sigs m1 sigs1" and ok: "senders_ok m sigs"
  shows "senders_ok m1 sigs1"
  unfolding senders_ok_def
proof (intro conjI allI impI)
  fix k l i assume e: "m1 k l = Some (Some i)"
  have "i < length sigs1 \<and> sigs1 ! i = Sig_empty"
  proof (cases "(k, l) = (s, n)")
    case True
    then show ?thesis using sig_stepD(4) [OF step, of i] e by auto
  next
    case False
    then have e': "m k l = Some (Some i)" using sig_stepD(1) [OF step] e by metis
    then have "m s n \<noteq> Some (Some i)" using senders_okD(3) [OF ok] False by blast
    then show ?thesis
      using sig_stepD(2,3) [OF step] senders_okD(1,2) [OF ok e'] by (simp add: less_le_trans)
  qed
  then show "i < length sigs1" "sigs1 ! i = Sig_empty" by auto
next
  fix k l k' l' i assume e: "m1 k l = Some (Some i)" "m1 k' l' = Some (Some i)"
  have "(k, l) = (s, n) \<longleftrightarrow> i = length sigs" if "m1 k l = Some (Some i)" for k l
  proof (cases "(k, l) = (s, n)")
    case True
    then show ?thesis using that sig_stepD(4) [OF step, of i] by auto
  next
    case False
    then have "i < length sigs"
      using that sig_stepD(1) [OF step False] senders_okD(1) [OF ok, of k l i] by simp
    with False show ?thesis by auto
  qed
  note new = this
  have "k = k' \<and> l = l'"
  proof (cases "(k, l) = (s, n)")
    case True
    then have "(k', l') = (s, n)" using new [OF e(1)] new [OF e(2)] by blast
    with True show ?thesis by simp
  next
    case False
    then have "(k', l') \<noteq> (s, n)" using new [OF e(1)] new [OF e(2)] by blast
    then have "m k l = Some (Some i)" "m k' l' = Some (Some i)"
      using e sig_stepD(1) [OF step False] sig_stepD(1) [OF step, of k' l'] by simp_all
    then show ?thesis using senders_okD(3) [OF ok] by blast
  qed
  then show "k = k'" "l = l'" by auto
qed

lemma sig_step_other:
  assumes step: "sig_step s n m sigs m1 sigs1" and ok: "senders_ok m' sigs" and apart: "senders_apart m m'"
  shows "senders_ok m' sigs1" "senders_apart m1 m'"
proof -
  have same: "sigs1 ! i = sigs ! i \<and> i < length sigs1" if "m' k l = Some (Some i)" for k l i
  proof -
    have "m s n \<noteq> Some (Some i)" using that apart unfolding senders_apart_def by blast
    then show ?thesis
      using sig_stepD(2,3) [OF step] senders_okD(1) [OF ok that] by auto
  qed
  show "senders_ok m' sigs1"
    using ok same unfolding senders_ok_def by fastforce
  show "senders_apart m1 m'"
    unfolding senders_apart_def
  proof (intro allI impI)
    fix k l k' l' i assume e: "m1 k l = Some (Some i)"
    show "m' k' l' \<noteq> Some (Some i)"
    proof (cases "(k, l) = (s, n)")
      case True
      then have "i = length sigs" using e sig_stepD(4) [OF step] by simp
      then show ?thesis using senders_okD(1) [OF ok] by blast
    next
      case False
      then show ?thesis using e sig_stepD(1) [OF step] apart by (metis senders_apart_def)
    qed
  qed
qed

lemma senders_apart_sym: "senders_apart m m' \<Longrightarrow> senders_apart m' m"
  by (auto simp: senders_apart_def)

text \<open>A channel that something was sent on keeps it.\<close>

lemma sig_step_sent:
  assumes "sig_step s n m sigs m1 sigs1" "senders_ok m sigs" "i < length sigs" "sigs ! i = Sig_sent v"
  shows "i < length sigs1 \<and> sigs1 ! i = Sig_sent v"
proof -
  have "m s n \<noteq> Some (Some i)" using senders_okD(2) [OF assms(2)] assms(4) by auto
  then show ?thesis using sig_stepD(2,3) [OF assms(1)] assms(3,4) by auto
qed

lemma prepare_step:
  assumes "senders_ok m sigs" "prepare_signal s n m sigs = (r, m1, sigs1)"
  shows "sig_step s n m sigs m1 sigs1" "r = length sigs" "m1 s n = Some (Some r)"
proof -
  have m1: "m1 = set_sender s n (Some (Some r)) m" "r = length sigs" "sigs1 = sender_destroy (m s n) (sigs @ [Sig_empty])"
    using assms(2) by (auto simp: prepare_signal_def Let_def)
  then show "r = length sigs" "m1 s n = Some (Some r)" by (simp_all add: set_sender_apply)
  have lt: "i < length sigs" if "m s n = Some (Some i)" for i
    using that by (rule senders_okD(1) [OF assms(1)])
  have nth: "sigs1 ! i = (sigs @ [Sig_empty]) ! i" if "m s n \<noteq> Some (Some i)" for i
    using that by (auto simp: m1(3) sender_destroy_def split: option.split)
  have "sigs1 ! length sigs = Sig_empty" "length sigs1 = length sigs + 1"
    using lt nth [of "length sigs"] by (auto simp: m1(3) sender_destroy_def split: option.split)
  then show "sig_step s n m sigs m1 sigs1"
    using nth by (auto simp: sig_step_def m1(1,2) set_sender_apply nth_append)
qed

lemma notify_step:
  assumes "senders_ok m sigs" "notify_signal s n v m sigs = (b, m1, sigs1)"
  shows "sig_step s n m sigs m1 sigs1" "b \<longleftrightarrow> (\<exists>i. m s n = Some (Some i))"
    and "m s n = Some (Some i) \<Longrightarrow> i < length sigs1 \<and> sigs1 ! i = Sig_sent v \<and> m1 s n = Some None"
    and "\<not> b \<Longrightarrow> m1 = m \<and> sigs1 = sigs"
proof -
  consider (none) "m s n = None" | (used) "m s n = Some None" | (sends) i where "m s n = Some (Some i)"
    by (cases "m s n") auto
  then have "sig_step s n m sigs m1 sigs1 \<and> (b \<longleftrightarrow> (\<exists>i. m s n = Some (Some i)))
      \<and> (m s n = Some (Some i) \<longrightarrow> i < length sigs1 \<and> sigs1 ! i = Sig_sent v \<and> m1 s n = Some None)
      \<and> (\<not> b \<longrightarrow> m1 = m \<and> sigs1 = sigs)"
  proof cases
    case sends
    then show ?thesis
      using assms senders_okD(1) [OF assms(1) sends]
      by (auto simp: notify_signal_def sender_send_def sig_step_def set_sender_apply)
  qed (use assms in \<open>auto simp: notify_signal_def sender_send_def sig_step_def\<close>)
  then show "sig_step s n m sigs m1 sigs1" "b \<longleftrightarrow> (\<exists>i. m s n = Some (Some i))"
    "m s n = Some (Some i) \<Longrightarrow> i < length sigs1 \<and> sigs1 ! i = Sig_sent v \<and> m1 s n = Some None"
    "\<not> b \<Longrightarrow> m1 = m \<and> sigs1 = sigs" by blast+
qed

lemma erase_step:
  assumes "senders_ok m sigs" "erase_signal s n m sigs = (m1, sigs1)"
  shows "sig_step s n m sigs m1 sigs1" "m1 s n = None"
  using assms by (auto simp: erase_signal_def sender_destroy_def sig_step_def set_sender_apply split: option.splits)

section \<open>Any sequence of calls\<close>

datatype mr_op =
    Op_prepareReqRep u32 u32
  | Op_prepareAppRep u32 u32
  | Op_sendComplete u32 u32 bool
  | Op_netRep u32 nmessage
  | Op_appRep u32 nmessage
  | Op_finish u32 u32
  | Op_prepareSendComplete u32 u32
  | Op_prepareNetRep u32 u32
  | Op_broken u32 u32          \<comment> \<open>\<open>MessageRouter::prepareReqRep\<close>\<close>

fun mr_do :: "mr_op \<Rightarrow> msg_router \<Rightarrow> msg_router" where
  "mr_do (Op_prepareReqRep s n) st = snd (prepareReqRep s n st)"
| "mr_do (Op_prepareAppRep s n) st = (case prepareAppRep True s n st of Some (_, st) \<Rightarrow> st | None \<Rightarrow> st)"
| "mr_do (Op_sendComplete s n flag) st = snd (notifySendNetComplete s n flag st)"
| "mr_do (Op_netRep s msg) st = snd (notifyNetRepComplete s msg st)"
| "mr_do (Op_appRep s msg) st = snd (mr_notifyRecvAppRep s msg st)"
| "mr_do (Op_finish s n) st = snd (FinishReqRepRecver s n st)"
| "mr_do (Op_prepareSendComplete s n) st = snd (mr_prepareSignalSendComplete s n st)"
| "mr_do (Op_prepareNetRep s n) st = snd (mr_prepareSignalRecvNetRep s n st)"
| "mr_do (Op_broken s n) st = snd (mr_prepareReqRep s n st)"

text \<open>The request an operation is about, if it can touch the two maps of requests.\<close>

fun op_key :: "mr_op \<Rightarrow> (u32 \<times> u32) option" where
  "op_key (Op_prepareReqRep s n) = Some (s, n)"
| "op_key (Op_sendComplete s n flag) = Some (s, n)"
| "op_key (Op_netRep s msg) = Some (s, nm_no msg)"
| "op_key (Op_finish s n) = Some (s, n)"
| "op_key (Op_prepareSendComplete s n) = Some (s, n)"
| "op_key (Op_prepareNetRep s n) = Some (s, n)"
| "op_key _ = None"

text \<open>Every operation is a few steps on the maps.\<close>

inductive mr_prim :: "(u32 \<times> u32) option \<Rightarrow> msg_router \<Rightarrow> msg_router \<Rightarrow> bool" where
  prim_refl: "mr_prim key st st"
| prim_send: "sig_step s n (mr_sendComplete st) (mr_bools st) m sigs \<Longrightarrow> key = Some (s, n) \<Longrightarrow>
    mr_prim key (st\<lparr>mr_sendComplete := m, mr_bools := sigs\<rparr>) st' \<Longrightarrow> mr_prim key st st'"
| prim_net: "sig_step s n (mr_netRep st) (mr_msgs st) m sigs \<Longrightarrow> key = Some (s, n) \<Longrightarrow>
    mr_prim key (st\<lparr>mr_netRep := m, mr_msgs := sigs\<rparr>) st' \<Longrightarrow> mr_prim key st st'"
| prim_app: "sig_step s n (mr_appRep st) (mr_msgs st) m sigs \<Longrightarrow>
    mr_prim key (st\<lparr>mr_appRep := m, mr_msgs := sigs\<rparr>) st' \<Longrightarrow> mr_prim key st st'"
| prim_more: "mr_prim key (st\<lparr>mr_bools := mr_bools st @ bs, mr_msgs := mr_msgs st @ ms\<rparr>) st' \<Longrightarrow> mr_prim key st st'"

lemma senders_ok_append: "senders_ok m sigs \<Longrightarrow> senders_ok m (sigs @ rest)"
  by (fastforce simp: senders_ok_def nth_append)

lemma mr_ok_steps:
  assumes "mr_ok st"
  shows "sig_step s n (mr_sendComplete st) (mr_bools st) m b \<Longrightarrow> mr_ok (st\<lparr>mr_sendComplete := m, mr_bools := b\<rparr>)"
    and "sig_step s n (mr_netRep st) (mr_msgs st) m c \<Longrightarrow> mr_ok (st\<lparr>mr_netRep := m, mr_msgs := c\<rparr>)"
    and "sig_step s n (mr_appRep st) (mr_msgs st) m c \<Longrightarrow> mr_ok (st\<lparr>mr_appRep := m, mr_msgs := c\<rparr>)"
    and "mr_ok (st\<lparr>mr_bools := mr_bools st @ bs, mr_msgs := mr_msgs st @ ms\<rparr>)"
  using assms unfolding mr_ok_def
  by (auto dest: sig_step_senders_ok sig_step_other senders_apart_sym intro: senders_ok_append senders_apart_sym)

lemma mr_prim_ok: "mr_prim key st st' \<Longrightarrow> mr_ok st \<Longrightarrow> mr_ok st'"
  by (induction rule: mr_prim.induct) (auto dest: mr_ok_steps intro: mr_ok_steps(4))

text \<open>
  What a sequence of such steps keeps: the entries of other requests, and everything that was sent.
\<close>

definition mr_keeps :: "(u32 \<times> u32) option \<Rightarrow> msg_router \<Rightarrow> msg_router \<Rightarrow> bool" where
  "mr_keeps key st st' \<longleftrightarrow>
     (\<forall>s n. key \<noteq> Some (s, n) \<longrightarrow> mr_sendComplete st' s n = mr_sendComplete st s n \<and> mr_netRep st' s n = mr_netRep st s n)
     \<and> (\<forall>i < length (mr_bools st). \<forall>v. mr_bools st ! i = Sig_sent v \<longrightarrow> i < length (mr_bools st') \<and> mr_bools st' ! i = Sig_sent v)
     \<and> (\<forall>i < length (mr_msgs st). \<forall>v. mr_msgs st ! i = Sig_sent v \<longrightarrow> i < length (mr_msgs st') \<and> mr_msgs st' ! i = Sig_sent v)"

lemma mr_keeps_refl: "mr_keeps key st st"
  by (simp add: mr_keeps_def)

lemma mr_keeps_trans: "mr_keeps key st st1 \<Longrightarrow> mr_keeps key st1 st2 \<Longrightarrow> mr_keeps key st st2"
  unfolding mr_keeps_def by (intro conjI; simp)

lemma mr_keeps_steps:
  assumes "mr_ok st"
  shows "sig_step s n (mr_sendComplete st) (mr_bools st) m b \<Longrightarrow> mr_keeps (Some (s, n)) st (st\<lparr>mr_sendComplete := m, mr_bools := b\<rparr>)"
    and "sig_step s n (mr_netRep st) (mr_msgs st) m c \<Longrightarrow> mr_keeps (Some (s, n)) st (st\<lparr>mr_netRep := m, mr_msgs := c\<rparr>)"
    and "sig_step s n (mr_appRep st) (mr_msgs st) m c \<Longrightarrow> mr_keeps key st (st\<lparr>mr_appRep := m, mr_msgs := c\<rparr>)"
    and "mr_keeps key st (st\<lparr>mr_bools := mr_bools st @ bs, mr_msgs := mr_msgs st @ ms\<rparr>)"
proof -
  have ok: "senders_ok (mr_sendComplete st) (mr_bools st)" "senders_ok (mr_netRep st) (mr_msgs st)" "senders_ok (mr_appRep st) (mr_msgs st)"
    using assms by (auto simp: mr_ok_def)
  show "sig_step s n (mr_sendComplete st) (mr_bools st) m b \<Longrightarrow> mr_keeps (Some (s, n)) st (st\<lparr>mr_sendComplete := m, mr_bools := b\<rparr>)"
    by (auto simp: mr_keeps_def dest: sig_step_sent [OF _ ok(1)] sig_stepD(1) [of s n "mr_sendComplete st"])
  show "sig_step s n (mr_netRep st) (mr_msgs st) m c \<Longrightarrow> mr_keeps (Some (s, n)) st (st\<lparr>mr_netRep := m, mr_msgs := c\<rparr>)"
    by (auto simp: mr_keeps_def dest: sig_step_sent [OF _ ok(2)] sig_stepD(1) [of s n "mr_netRep st"])
  show "sig_step s n (mr_appRep st) (mr_msgs st) m c \<Longrightarrow> mr_keeps key st (st\<lparr>mr_appRep := m, mr_msgs := c\<rparr>)"
    by (auto simp: mr_keeps_def dest: sig_step_sent [OF _ ok(3)])
  show "mr_keeps key st (st\<lparr>mr_bools := mr_bools st @ bs, mr_msgs := mr_msgs st @ ms\<rparr>)"
    by (auto simp: mr_keeps_def nth_append)
qed

lemma mr_prim_keeps: "mr_prim key st st' \<Longrightarrow> mr_ok st \<Longrightarrow> mr_keeps key st st'"
proof (induction rule: mr_prim.induct)
  case (prim_refl key st)
  show ?case by (rule mr_keeps_refl)
next
  case (prim_send s n st m sigs key st')
  then show ?case using mr_keeps_trans mr_keeps_steps(1) mr_ok_steps(1) by blast
next
  case (prim_net s n st m sigs key st')
  then show ?case using mr_keeps_trans mr_keeps_steps(2) mr_ok_steps(2) by blast
next
  case (prim_app s n st m sigs key st')
  then show ?case using mr_keeps_trans mr_keeps_steps(3) mr_ok_steps(3) by blast
next
  case (prim_more key st bs ms st')
  then show ?case using mr_keeps_trans mr_keeps_steps(4) mr_ok_steps(4) by blast
qed

lemma mr_okD:
  assumes "mr_ok st"
  shows "senders_ok (mr_sendComplete st) (mr_bools st)" "senders_ok (mr_netRep st) (mr_msgs st)" "senders_ok (mr_appRep st) (mr_msgs st)"
  using assms by (auto simp: mr_ok_def)

lemma mr_prim1:
  "sig_step s n (mr_sendComplete st) (mr_bools st) m b \<Longrightarrow> mr_prim (Some (s, n)) st (st\<lparr>mr_sendComplete := m, mr_bools := b\<rparr>)"
  "sig_step s n (mr_netRep st) (mr_msgs st) m c \<Longrightarrow> mr_prim (Some (s, n)) st (st\<lparr>mr_netRep := m, mr_msgs := c\<rparr>)"
  "sig_step s n (mr_appRep st) (mr_msgs st) m c \<Longrightarrow> mr_prim key st (st\<lparr>mr_appRep := m, mr_msgs := c\<rparr>)"
  by (rule prim_send [OF _ refl prim_refl], assumption) (rule prim_net [OF _ refl prim_refl], assumption, rule prim_app [OF _ prim_refl])

lemma mr_do_prim:
  assumes "mr_ok st"
  shows "mr_prim (op_key op) st (mr_do op st)"
proof -
  note ok = mr_okD [OF assms]
  have prep: "mr_prim (Some (s, n)) st (snd (mr_prepareSignalSendComplete s n st))"
    "mr_prim (Some (s, n)) st (snd (mr_prepareSignalRecvNetRep s n st))" if "mr_ok st" for s n st
    by (auto simp: mr_prepareSignalSendComplete_def mr_prepareSignalRecvNetRep_def split: prod.split
        intro: mr_prim1 prepare_step(1) mr_okD that)
  show ?thesis
  proof (cases op)
    case (Op_prepareReqRep s n)
    show ?thesis
    proof (cases "mr_canReqRep s n st")
      case False
      then show ?thesis by (simp add: Op_prepareReqRep prepareReqRep_def prim_refl)
    next
      case True
      obtain r m sigs where p: "prepare_signal s n (mr_sendComplete st) (mr_bools st) = (r, m, sigs)" by (metis prod_cases3)
      let ?st = "st\<lparr>mr_sendComplete := m, mr_bools := sigs\<rparr>"
      have step: "sig_step s n (mr_sendComplete st) (mr_bools st) m sigs" by (rule prepare_step(1) [OF ok(1) p])
      have "mr_do op st = snd (mr_prepareSignalRecvNetRep s n ?st)"
        using True p by (simp add: Op_prepareReqRep prepareReqRep_def mr_prepareSignalSendComplete_def split: prod.split)
      then show ?thesis
        using prim_send [OF step refl] prep(2) [OF mr_ok_steps(1) [OF assms step]] by (simp add: Op_prepareReqRep)
    qed
  next
    case (Op_finish s n)
    obtain m1 s1 m2 s2 where e: "erase_signal s n (mr_sendComplete st) (mr_bools st) = (m1, s1)"
      "erase_signal s n (mr_netRep st) (mr_msgs st) = (m2, s2)" by (metis prod.exhaust)
    have "mr_prim (Some (s, n)) st (st\<lparr>mr_sendComplete := m1, mr_bools := s1, mr_netRep := m2, mr_msgs := s2\<rparr>)"
      by (rule prim_send [OF erase_step(1) [OF ok(1) e(1)] refl], rule prim_net [where m = m2 and sigs = s2])
        (use erase_step(1) [OF ok(2) e(2)] in \<open>auto intro: prim_refl\<close>)
    then show ?thesis using e by (simp add: Op_finish FinishReqRepRecver_def mr_finishReqRep_def)
  next
    case (Op_prepareAppRep s n)
    then show ?thesis
      by (auto simp: prepareAppRep_def mr_prepareSignalRecvAppRep_def assert_that_def split: prod.splits option.splits
          intro: prim_refl mr_prim1 prepare_step(1) ok)
  next
    case (Op_broken s n)
    then show ?thesis
      using prim_more [of None st "[Sig_broken]" "[Sig_broken]"] by (simp add: mr_prepareReqRep_def prim_refl)
  next
    case (Op_sendComplete s n flag)
    then show ?thesis
      by (auto simp: notifySendNetComplete_def mr_notifySendNetComplete_def split: prod.split intro: mr_prim1 notify_step(1) ok)
  next
    case (Op_netRep s msg)
    then show ?thesis
      by (auto simp: notifyNetRepComplete_def mr_notifyRecvNetRep_def split: prod.split intro: mr_prim1 notify_step(1) ok)
  next
    case (Op_appRep s msg)
    then show ?thesis
      by (auto simp: mr_notifyRecvAppRep_def split: prod.split intro: mr_prim1 notify_step(1) ok)
  qed (use prep [OF assms] in auto)
qed

lemma new_router_ok: "mr_ok new_router"
  by (simp add: mr_ok_def new_router_def senders_ok_def senders_apart_def)

lemma mr_do_ok: "mr_ok st \<Longrightarrow> mr_ok (mr_do op st)"
  using mr_prim_ok [OF mr_do_prim] .

lemma mr_run_ok: "mr_ok st \<Longrightarrow> mr_ok (fold mr_do ops st)"
  by (induction ops arbitrary: st) (auto simp: mr_do_ok)

lemma mr_do_keeps: "mr_ok st \<Longrightarrow> mr_keeps (op_key op) st (mr_do op st)"
  using mr_prim_keeps [OF mr_do_prim] .

text \<open>Whatever is called, a receiver that got a value keeps it.\<close>

lemma mr_run_sent:
  assumes "mr_ok st"
  shows "i < length (mr_bools st) \<Longrightarrow> mr_bools st ! i = Sig_sent b \<Longrightarrow>
           i < length (mr_bools (fold mr_do ops st)) \<and> mr_bools (fold mr_do ops st) ! i = Sig_sent b"
    and "i < length (mr_msgs st) \<Longrightarrow> mr_msgs st ! i = Sig_sent m \<Longrightarrow>
           i < length (mr_msgs (fold mr_do ops st)) \<and> mr_msgs (fold mr_do ops st) ! i = Sig_sent m"
  using assms
proof (induction ops arbitrary: st)
  case (Cons op ops)
  {
    case 1
    then show ?case
      using Cons.IH(1) [of "mr_do op st"] mr_do_keeps [of st op] mr_do_ok by (auto simp: mr_keeps_def)
  next
    case 2
    then show ?case
      using Cons.IH(2) [of "mr_do op st"] mr_do_keeps [of st op] mr_do_ok by (auto simp: mr_keeps_def)
  }
qed auto

text \<open>Calls about other requests leave the entries of a request alone.\<close>

lemma mr_run_entries:
  assumes "mr_ok st" "\<forall>op \<in> set ops. op_key op \<noteq> Some (s, n)"
  shows "mr_sendComplete (fold mr_do ops st) s n = mr_sendComplete st s n"
    and "mr_netRep (fold mr_do ops st) s n = mr_netRep st s n"
  using assms
proof (induction ops arbitrary: st)
  case (Cons op ops)
  {
    case 1
    then show ?case
      using Cons.IH(1) [of "mr_do op st"] mr_do_keeps [of st op] mr_do_ok [of st op] by (auto simp: mr_keeps_def)
  next
    case 2
    then show ?case
      using Cons.IH(2) [of "mr_do op st"] mr_do_keeps [of st op] mr_do_ok [of st op] by (auto simp: mr_keeps_def)
  }
qed auto

lemma prepareReqRep_entries:
  assumes "mr_ok st" "prepareReqRep s n st = (Some (r1, r2), st1)"
  shows "mr_ok st1" "mr_sendComplete st1 s n = Some (Some r1)" "mr_netRep st1 s n = Some (Some r2)"
proof -
  show "mr_ok st1" using mr_do_ok [OF assms(1), of "Op_prepareReqRep s n"] assms(2) by simp
  obtain a m sigs where p: "prepare_signal s n (mr_sendComplete st) (mr_bools st) = (a, m, sigs)" by (metis prod_cases3)
  obtain b m' sigs' where p': "prepare_signal s n (mr_netRep st) (mr_msgs st) = (b, m', sigs')" by (metis prod_cases3)
  have "r1 = a \<and> r2 = b \<and> mr_sendComplete st1 = m \<and> mr_netRep st1 = m'"
    using assms(2) p p' by (auto simp: prepareReqRep_def mr_prepareSignalSendComplete_def mr_prepareSignalRecvNetRep_def split: if_splits)
  then show "mr_sendComplete st1 s n = Some (Some r1)" "mr_netRep st1 s n = Some (Some r2)"
    using prepare_step(3) [OF mr_okD(1) [OF assms(1)] p] prepare_step(3) [OF mr_okD(2) [OF assms(1)] p'] by auto
qed

lemma do_sendComplete:
  assumes "mr_ok st" "mr_sendComplete st s n = Some (Some r)"
  shows "r < length (mr_bools (mr_do (Op_sendComplete s n flag) st)) \<and> mr_bools (mr_do (Op_sendComplete s n flag) st) ! r = Sig_sent flag"
    and "mr_netRep (mr_do (Op_sendComplete s n flag) st) = mr_netRep st"
  using assms notify_step(3) [OF mr_okD(1) [OF assms(1)], of s n flag]
  by (auto simp: notifySendNetComplete_def mr_notifySendNetComplete_def split: prod.split)

lemma do_netRep:
  assumes "mr_ok st" "mr_netRep st s (nm_no msg) = Some (Some r)"
  shows "r < length (mr_msgs (mr_do (Op_netRep s msg) st)) \<and> mr_msgs (mr_do (Op_netRep s msg) st) ! r = Sig_sent msg"
  using assms notify_step(3) [OF mr_okD(2) [OF assms(1)], of s "nm_no msg" msg]
  by (auto simp: notifyNetRepComplete_def mr_notifyRecvNetRep_def split: prod.split)

text \<open>
  A request: between its preparation, the completion of its sending and its answer anything about other
  requests may happen, and after that anything at all; its receivers hold its own result and answer.
\<close>

lemma request_answered:
  assumes "mr_ok st" "prepareReqRep s n st = (Some (r1, r2), st1)"
    and "\<forall>op \<in> set (ops1 @ ops2). op_key op \<noteq> Some (s, n)" "nm_no msg = n"
  shows "let st' = fold mr_do (ops1 @ Op_sendComplete s n flag # ops2 @ Op_netRep s msg # ops3) st1
         in mr_bools st' ! r1 = Sig_sent flag \<and> mr_msgs st' ! r2 = Sig_sent msg"
proof -
  note p = prepareReqRep_entries [OF assms(1,2)]
  let ?a = "fold mr_do ops1 st1"
  have a: "mr_ok ?a" "mr_sendComplete ?a s n = Some (Some r1)" "mr_netRep ?a s n = Some (Some r2)"
    using mr_run_ok [OF p(1)] mr_run_entries [OF p(1), of ops1 s n] p(2,3) assms(3) by auto
  let ?b = "mr_do (Op_sendComplete s n flag) ?a"
  have b: "mr_ok ?b" "mr_netRep ?b s n = Some (Some r2)" "r1 < length (mr_bools ?b)" "mr_bools ?b ! r1 = Sig_sent flag"
    using mr_do_ok [OF a(1)] do_sendComplete [OF a(1,2)] a(3) by metis+
  let ?c = "fold mr_do ops2 ?b"
  have c: "mr_ok ?c" "mr_netRep ?c s n = Some (Some r2)" "r1 < length (mr_bools ?c)" "mr_bools ?c ! r1 = Sig_sent flag"
    using mr_run_ok [OF b(1)] mr_run_entries(2) [OF b(1), of ops2 s n] b(2) mr_run_sent(1) [OF b(1,3,4)] assms(3) by auto
  let ?d = "mr_do (Op_netRep s msg) ?c"
  have d: "mr_ok ?d" "r2 < length (mr_msgs ?d)" "mr_msgs ?d ! r2 = Sig_sent msg"
    using mr_do_ok [OF c(1)] do_netRep [OF c(1)] c(2) assms(4) by metis+
  have "r1 < length (mr_bools ?d)" "mr_bools ?d ! r1 = Sig_sent flag"
    using mr_run_sent(1) [OF c(1,3,4), of "[Op_netRep s msg]"] by simp_all
  then show ?thesis
    using mr_run_sent(1) [OF d(1)] mr_run_sent(2) [OF d(1)] d(2,3) by (simp add: Let_def)
qed

text \<open>An answer is only taken once: the next one with the same number is not matched.\<close>

lemma answered_once:
  assumes "mr_ok st" "notifyNetRepComplete s msg st = (True, st1)" "nm_no msg' = nm_no msg"
    and "\<forall>op \<in> set ops. op_key op \<noteq> Some (s, nm_no msg)"
  shows "\<not> fst (notifyNetRepComplete s msg' (fold mr_do ops st1))"
proof -
  obtain b m sigs where n: "notify_signal s (nm_no msg) msg (mr_netRep st) (mr_msgs st) = (b, m, sigs)" by (metis prod_cases3)
  then have "b" "mr_netRep st1 = m"
    using assms(2) by (auto simp: notifyNetRepComplete_def mr_notifyRecvNetRep_def)
  then have "mr_netRep st1 s (nm_no msg) = Some None"
    using notify_step(2,3) [OF mr_okD(2) [OF assms(1)] n] by auto
  moreover have "mr_ok st1" using mr_do_ok [OF assms(1), of "Op_netRep s msg"] assms(2) by simp
  ultimately have "mr_netRep (fold mr_do ops st1) s (nm_no msg) = Some None"
    using mr_run_entries(2) [of st1 ops s "nm_no msg"] assms(4) by simp
  then show ?thesis
    by (simp add: notifyNetRepComplete_def mr_notifyRecvNetRep_def notify_signal_def sender_send_def assms(3))
qed

end
