(* ===== verification/ChannelCombine.thy ===== *)
theory ChannelCombine
  imports MsgRouter
begin

text \<open>
  \<open>src/networkinterface/ChannelCombine.h\<close>, the coroutine of \<open>MessageRouter::start\<close> that deals with requests
  of a peer, and the sending functions of \<open>LocalNetManager.cpp\<close>.

  \<open>assert(f(...))\<close> calls \<open>f\<close> only where assertions are compiled in (\<open>dbg\<close>).
\<close>

section \<open>Numbers of requests\<close>

datatype ChannelModeC = Initiative | Passive

record channel_combine =
  cc_cmode :: ChannelModeC
  cc_reqNo :: u32
  cc_mainc :: u32
  cc_brun :: bool

definition new_ChannelCombine :: "ChannelModeC \<Rightarrow> u32 \<Rightarrow> channel_combine" where
  "new_ChannelCombine cmode maincmd =
     \<lparr>cc_cmode = cmode,
      cc_reqNo = (case cmode of Initiative \<Rightarrow> 0 | Passive \<Rightarrow> 0xFFFFFFFF div 2),
      cc_mainc = maincmd, cc_brun = True\<rparr>"

definition cc_newReq :: "channel_combine \<Rightarrow> u32 \<times> channel_combine" where
  "cc_newReq cc =
     (let n = cc_reqNo cc + 1;
          n = (case cc_cmode cc of
                 Initiative \<Rightarrow> if n \<ge> 0xFFFFFFFF then 0 else n
               | Passive \<Rightarrow> if n \<le> 0xFFFFFFFF div 2 then 0xFFFFFFFF div 2 else n)
      in (n, cc\<lparr>cc_reqNo := n\<rparr>))"

fun cc_newReqs :: "nat \<Rightarrow> channel_combine \<Rightarrow> u32 list \<times> channel_combine" where
  "cc_newReqs 0 cc = ([], cc)"
| "cc_newReqs (Suc k) cc =
     (case cc_newReq cc of (n, cc) \<Rightarrow> case cc_newReqs k cc of (ns, cc) \<Rightarrow> (n # ns, cc))"

lemma half: "(0xFFFFFFFF :: u32) div 2 = 0x7FFFFFFF"
  by simp

lemma unat_Suc: "unat (x + 1 :: u32) = (if unat x = 2 ^ 32 - 1 then 0 else unat x + 1)"
proof -
  have "unat x < 2 ^ 32" using unsigned_less [of x, where 'a = nat] by simp
  then show ?thesis by (simp add: unat_word_ariths)
qed

lemma newReq_unat:
  "unat (fst (cc_newReq cc)) =
     (case cc_cmode cc of
        Initiative \<Rightarrow> if unat (cc_reqNo cc) + 1 < 2 ^ 32 - 1 then unat (cc_reqNo cc) + 1 else 0
      | Passive \<Rightarrow> if 2 ^ 31 - 1 \<le> unat (cc_reqNo cc) \<and> unat (cc_reqNo cc) < 2 ^ 32 - 1
                  then unat (cc_reqNo cc) + 1 else 2 ^ 31 - 1)"
  and newReq_state: "snd (cc_newReq cc) = cc\<lparr>cc_reqNo := fst (cc_newReq cc)\<rparr>"
proof -
  have lt: "unat (cc_reqNo cc) < 2 ^ 32" using unsigned_less [of "cc_reqNo cc", where 'a = nat] by simp
  show "unat (fst (cc_newReq cc)) =
     (case cc_cmode cc of
        Initiative \<Rightarrow> if unat (cc_reqNo cc) + 1 < 2 ^ 32 - 1 then unat (cc_reqNo cc) + 1 else 0
      | Passive \<Rightarrow> if 2 ^ 31 - 1 \<le> unat (cc_reqNo cc) \<and> unat (cc_reqNo cc) < 2 ^ 32 - 1
                  then unat (cc_reqNo cc) + 1 else 2 ^ 31 - 1)"
    using lt by (auto simp: cc_newReq_def Let_def half word_le_nat_alt unat_Suc split: ChannelModeC.split)
  show "snd (cc_newReq cc) = cc\<lparr>cc_reqNo := fst (cc_newReq cc)\<rparr>"
    by (simp add: cc_newReq_def Let_def)
qed

text \<open>
  The two ends of a connection number their requests apart: the initiator from 1 on, the other end from
  the middle of the range on and never below it. They stay apart for the first $2^{31} - 2$ requests of
  the initiator, which however goes on into the other half.
\<close>

lemma newReqs_passive:
  assumes "cc_cmode cc = Passive" "2 ^ 31 - 1 \<le> unat (cc_reqNo cc)"
  shows "\<forall>n \<in> set (fst (cc_newReqs k cc)). 2 ^ 31 - 1 \<le> unat n"
  using assms
proof (induction k arbitrary: cc)
  case (Suc k)
  have "2 ^ 31 - 1 \<le> unat (fst (cc_newReq cc))" using Suc.prems by (simp add: newReq_unat)
  then show ?case
    using Suc.IH [of "snd (cc_newReq cc)"] Suc.prems by (simp add: split_beta newReq_state)
qed simp

lemma newReqs_initiative:
  assumes "cc_cmode cc = Initiative" "unat (cc_reqNo cc) + k < 2 ^ 32 - 1"
  shows "map unat (fst (cc_newReqs k cc)) = map (\<lambda>i. unat (cc_reqNo cc) + 1 + i) [0..<k]"
  using assms
proof (induction k arbitrary: cc)
  case (Suc k)
  have n: "unat (fst (cc_newReq cc)) = unat (cc_reqNo cc) + 1"
    using Suc.prems by (simp add: newReq_unat)
  have "map unat (fst (cc_newReqs k (snd (cc_newReq cc)))) = map (\<lambda>i. unat (cc_reqNo cc) + 2 + i) [0..<k]"
    using Suc.IH [of "snd (cc_newReq cc)"] Suc.prems n by (simp add: newReq_state)
  moreover have "[0..<Suc k] = 0 # map Suc [0..<k]" by (simp add: map_Suc_upt upt_conv_Cons del: upt_Suc)
  ultimately show ?case
    using n by (simp add: split_beta del: upt_Suc)
qed simp

section \<open>A request from this side\<close>

text \<open>
  \<open>reqrep\<close> up to the message that goes to \<open>addPackFromApp\<close>, and from the first wait on. The router's
  entries are only removed inside an \<open>assert\<close>.
\<close>

definition cc_reqrep_start ::
    "bool \<Rightarrow> u32 \<Rightarrow> byte list \<Rightarrow> msg_router \<Rightarrow> channel_combine
     \<Rightarrow> (nmessage \<times> (nat \<times> nat) option \<times> msg_router \<times> channel_combine) option" where
  "cc_reqrep_start dbg sock req st cc =
     (case cc_newReq cc of (no, cc) \<Rightarrow>
      case prepareReqRep sock no st of (recvers, st) \<Rightarrow>
        do {
          assert_that dbg (recvers \<noteq> None);
          Some (new_NMessage no req, recvers, st, cc)
        })"

definition cc_finish :: "bool \<Rightarrow> u32 \<Rightarrow> u32 \<Rightarrow> msg_router \<Rightarrow> msg_router" where
  "cc_finish dbg sock no st = (if dbg then snd (FinishReqRepRecver sock no st) else st)"

definition cc_reqrep_finish ::
    "bool \<Rightarrow> u32 \<Rightarrow> u32 \<Rightarrow> nat \<times> nat \<Rightarrow> msg_router \<Rightarrow> (byte list option \<times> msg_router) outcome" where
  "cc_reqrep_finish dbg sock no recvers st =
     (case mr_bools st ! fst recvers of
        Sig_empty \<Rightarrow> Waiting
      | Sig_broken \<Rightarrow> Throws
      | Sig_sent bflag \<Rightarrow>
          if \<not> bflag then Returned (None, cc_finish dbg sock no st)
          else (case mr_msgs st ! snd recvers of
                  Sig_empty \<Rightarrow> Waiting
                | Sig_broken \<Rightarrow> Throws
                | Sig_sent vv \<Rightarrow> Returned (Some (nm_body vv), cc_finish dbg sock no st)))"

lemma reqrep_answered:
  assumes "mr_ok st" "cc_reqrep_start dbg sock req st cc = Some (msg, Some recvers, st1, cc1)"
    and "\<forall>op \<in> set (ops1 @ ops2). op_key op \<noteq> Some (sock, nm_no msg)" "nm_no rep = nm_no msg"
  shows "\<exists>st2. cc_reqrep_finish dbg sock (nm_no msg) recvers
           (fold mr_do (ops1 @ Op_sendComplete sock (nm_no msg) True # ops2 @ Op_netRep sock rep # ops3) st1)
         = Returned (Some (nm_body rep), st2)"
proof -
  obtain r1 r2 where r: "recvers = (r1, r2)" by (cases recvers)
  have "prepareReqRep sock (nm_no msg) st = (Some (r1, r2), st1)"
    using assms(2) by (auto simp: cc_reqrep_start_def new_NMessage_def r assert_that_def split: prod.splits if_splits)
  from request_answered [OF assms(1) this assms(3,4), of True ops3]
  show ?thesis by (simp add: cc_reqrep_finish_def r Let_def)
qed

section \<open>A request from the peer\<close>

text \<open>
  The loop of \<open>startIO\<close> after \<open>recvPack\<close>: an answer is handed to the request that waits for it; anything
  else is a request, for which a receiver of the answer is prepared and the message is queued.
\<close>

definition cc_io_turn ::
    "bool \<Rightarrow> u32 \<Rightarrow> u32 \<Rightarrow> nmessage \<Rightarrow> msg_router \<Rightarrow> ((nat \<times> u32 \<times> u32 \<times> nmessage) option \<times> msg_router) option" where
  "cc_io_turn dbg sock mainc msg st =
     (case notifyNetRepComplete sock msg st of (b, st) \<Rightarrow>
        if b then Some (None, st)
        else do {
          (recvAppRep, st) \<leftarrow> prepareAppRep dbg sock (nm_no msg) st;
          assert_that dbg (recvAppRep \<noteq> None);
          r \<leftarrow> recvAppRep;
          Some (Some (r, sock, mainc, msg), st)
        })"

text \<open>
  The coroutine of the router that deals with the queued requests: it answers, or it ends, or the
  handler throws and there is no answer.
\<close>

datatype deal = Deal_answered | Deal_ends | Deal_threw

definition mr_answer :: "bool \<Rightarrow> u32 \<Rightarrow> u32 \<Rightarrow> byte list \<Rightarrow> msg_router \<Rightarrow> (deal \<times> msg_router) option" where
  "mr_answer dbg sock no strrep st =
     (if dbg then
        case mr_notifyRecvAppRep sock (new_NMessage no strrep) st of (b, st) \<Rightarrow>
          do { assert_that dbg b; Some (Deal_answered, st) }
      else Some (Deal_answered, st))"

definition mr_deal ::
    "bool \<Rightarrow> plat_packs \<Rightarrow> trans_routers \<Rightarrow> u32 \<times> u32 \<times> nmessage \<Rightarrow> msg_router \<Rightarrow> (deal \<times> msg_router) option" where
  "mr_deal dbg packs rs item st =
     (case item of (sockno, mainc, msg) \<Rightarrow>
      do {
        plat \<leftarrow> clonePlatformPack dbg mainc packs;
        plat \<leftarrow> plat;
        n \<leftarrow> plat_len plat;
        if n > 0 then
          if length (nm_body msg) < n then None
          else do {
            plat \<leftarrow> (if dbg then do {
                        (ok, plat) \<leftarrow> plat_unpack (take n (nm_body msg)) plat;
                        assert_that dbg ok;
                        Some plat
                      } else Some plat);
            let strreq = drop n (nm_body msg);
            m \<leftarrow> plat_getMain plat;
            funcs \<leftarrow> getRouterTransByMainC rs m;
            a \<leftarrow> plat_getAss plat;
            assert_that dbg (a \<in> dom funcs);
            case funcs a of
              None \<Rightarrow> Some (Deal_ends, st)
            | Some func \<Rightarrow>
                (case func strreq of
                   Rep_throws \<Rightarrow> Some (Deal_threw, st)
                 | Rep_null \<Rightarrow> None
                 | Rep_string ret \<Rightarrow> do {
                     (_, strrep) \<leftarrow> plat_pack dbg (replicate n 0) plat;
                     mr_answer dbg sockno (nm_no msg) (strrep @ ret) st
                   })
          }
        else mr_answer dbg sockno (nm_no msg) (nm_body msg) st
      })"

lemma io_turn_request:
  assumes "mr_ok st" "mr_netRep st sock (nm_no msg) = None" "mr_appRep st sock (nm_no msg) = None"
  shows "\<exists>r st1. cc_io_turn dbg sock mainc msg st = Some (Some (r, sock, mainc, msg), st1) \<and> mr_ok st1
           \<and> mr_appRep st1 sock (nm_no msg) = Some (Some r) \<and> r < length (mr_msgs st1) \<and> mr_msgs st1 ! r = Sig_empty"
proof -
  obtain r m sigs where p: "prepare_signal sock (nm_no msg) (mr_appRep st) (mr_msgs st) = (r, m, sigs)" by (metis prod_cases3)
  let ?st = "st\<lparr>mr_appRep := m, mr_msgs := sigs\<rparr>"
  have turn: "cc_io_turn dbg sock mainc msg st = Some (Some (r, sock, mainc, msg), ?st)"
    using assms(2,3) p by (simp add: cc_io_turn_def notifyNetRepComplete_def mr_notifyRecvNetRep_def notify_signal_def
        prepareAppRep_def mr_canWaitAppRep_def mr_prepareSignalRecvAppRep_def)
  have ok: "mr_ok ?st" using mr_ok_steps(3) [OF assms(1)] prepare_step(1) [OF mr_okD(3) [OF assms(1)] p] by blast
  moreover have "m sock (nm_no msg) = Some (Some r)" by (rule prepare_step(3) [OF mr_okD(3) [OF assms(1)] p])
  ultimately show ?thesis
    using turn senders_okD(1,2) [OF mr_okD(3) [OF ok]] by auto
qed

lemma mr_answer_sends:
  assumes "mr_ok st" "mr_appRep st sock no = Some (Some r)"
  shows "\<exists>st'. mr_answer True sock no strrep st = Some (Deal_answered, st')
           \<and> mr_msgs st' ! r = Sig_sent (new_NMessage no strrep)"
  using assms notify_step(2,3) [OF mr_okD(3) [OF assms(1)], of sock no "new_NMessage no strrep"]
  by (auto simp: mr_answer_def mr_notifyRecvAppRep_def new_NMessage_def split: prod.split)

text \<open>
  A request with a platform header is answered: the handler of the command of the channel and the
  subcommand in the header gets the rest, and its answer goes back behind the same header.
\<close>

lemma request_served:
  assumes "mr_ok st" "mr_netRep st sock (nm_no msg) = None" "mr_appRep st sock (nm_no msg) = None"
    and "clonePlatformPack True mainc packs = Some (Some (MainAssPlatPack m0 a0))"
    and "nm_body msg = be32 m @ be32 a @ req" "getRouterTrans rs m a = Some f" "f req = Rep_string ret"
  shows "\<exists>r st1 st2. cc_io_turn True sock mainc msg st = Some (Some (r, sock, mainc, msg), st1)
           \<and> mr_deal True packs rs (sock, mainc, msg) st1 = Some (Deal_answered, st2)
           \<and> mr_msgs st2 ! r = Sig_sent (new_NMessage (nm_no msg) (be32 m @ be32 a @ ret))"
proof -
  obtain r st1 where 1: "cc_io_turn True sock mainc msg st = Some (Some (r, sock, mainc, msg), st1)" "mr_ok st1"
    "mr_appRep st1 sock (nm_no msg) = Some (Some r)"
    using io_turn_request [OF assms(1-3)] by blast
  obtain st2 where 2: "mr_answer True sock (nm_no msg) (be32 m @ be32 a @ ret) st1 = Some (Deal_answered, st2)"
    "mr_msgs st2 ! r = Sig_sent (new_NMessage (nm_no msg) (be32 m @ be32 a @ ret))"
    using mr_answer_sends [OF 1(2,3)] by blast
  obtain e where e: "getRouterTransByMainC rs m = Some e" "e a = Some f"
    using assms(6) by (auto simp: getRouterTrans_ByMainC Option.bind_eq_Some_conv)
  then have "a \<in> dom e" by auto
  then have "mr_deal True packs rs (sock, mainc, msg) st1 = mr_answer True sock (nm_no msg) (be32 m @ be32 a @ ret) st1"
    using assms(4,5,7) e by (simp add: mr_deal_def packuint32_at_0 packuint32_at_4 Let_def)
  with 1 2 show ?thesis by auto
qed

text \<open>Without assertions the header is not read and no answer is sent: the router is not changed.\<close>

lemma mr_deal_ndebug:
  assumes "mr_deal False packs rs (sock, mainc, msg) st = Some (d, st')"
  shows "st' = st"
  using assms
  by (auto simp: mr_deal_def mr_answer_def Option.bind_eq_Some_conv Let_def
      split: if_split_asm option.split_asm reply.split_asm)
    (metis reply.exhaust)

text \<open>
  The entry of a request of the peer stays for ever, so a second request with its number is not
  served: the receiver is null, and it is used.
\<close>

lemma repeated_request:
  assumes "mr_netRep st sock (nm_no msg) = None" "mr_appRep st sock (nm_no msg) \<noteq> None"
  shows "cc_io_turn dbg sock mainc msg st = None"
  using assms by (simp add: cc_io_turn_def notifyNetRepComplete_def mr_notifyRecvNetRep_def notify_signal_def
      prepareAppRep_def mr_canWaitAppRep_def assert_that_def)

lemma appRep_stays: "mr_appRep st s n \<noteq> None \<Longrightarrow> mr_appRep (fold mr_do ops st) s n \<noteq> None"
proof (induction ops arbitrary: st)
  case (Cons op ops)
  have "mr_appRep (mr_do op st) s n \<noteq> None"
    using Cons.prems
    by (cases op) (auto simp: prepareReqRep_def mr_prepareSignalSendComplete_def mr_prepareSignalRecvNetRep_def
        prepareAppRep_def mr_prepareSignalRecvAppRep_def prepare_signal_def notifySendNetComplete_def mr_notifySendNetComplete_def
        notifyNetRepComplete_def mr_notifyRecvNetRep_def mr_notifyRecvAppRep_def notify_signal_def set_sender_def assert_that_def
        FinishReqRepRecver_def mr_finishReqRep_def mr_prepareReqRep_def Let_def split: prod.splits option.splits if_splits)
  then show ?case using Cons.IH by simp
qed simp

end
