(* ===== verification/LocalNet.thy ===== *)
theory LocalNet
  imports ChannelCombine
begin

text \<open>
  \<open>src/networkinterface/LocalNetManager.cpp\<close>: the connections by their numbers, the sending of a message
  over the connection with a number, and the pairs of local queues. Sending over a connection
  (\<open>ChannelCombine::sendMessage\<close>) is an argument; opening \<open>nng\<close> sockets is not modelled.
\<close>

section \<open>Sending over a connection\<close>

type_synonym connections = "u32 \<rightharpoonup> (nmessage \<Rightarrow> bool)"

text \<open>
  The three maps are searched with the same code. The result says that the connection was found; what
  became of the message is what the router is told.
\<close>

definition lnm_sendTcp :: "connections \<Rightarrow> u32 \<Rightarrow> nmessage \<Rightarrow> msg_router \<Rightarrow> bool \<times> msg_router" where
  "lnm_sendTcp channelsTcp sock msg st =
     (case channelsTcp sock of
        None \<Rightarrow> (False, st)
      | Some sendMessage \<Rightarrow> let bret = sendMessage msg in (True, snd (mr_notifySendNetComplete sock (nm_no msg) bret st)))"

definition lnm_sendRep :: "connections \<Rightarrow> u32 \<Rightarrow> nmessage \<Rightarrow> msg_router \<Rightarrow> bool \<times> msg_router" where
  "lnm_sendRep channelsRep sock msg st =
     (case channelsRep sock of
        None \<Rightarrow> (False, st)
      | Some sendMessage \<Rightarrow> let bret = sendMessage msg in (True, snd (mr_notifySendNetComplete sock (nm_no msg) bret st)))"

definition lnm_sendReq :: "connections \<Rightarrow> u32 \<Rightarrow> nmessage \<Rightarrow> msg_router \<Rightarrow> bool \<times> msg_router" where
  "lnm_sendReq channelsReq sock msg st =
     (case channelsReq sock of
        None \<Rightarrow> (False, st)
      | Some sendMessage \<Rightarrow> let bret = sendMessage msg in (True, snd (mr_notifySendNetComplete sock (nm_no msg) bret st)))"

record connection_maps =
  lc_tcp :: connections
  lc_rep :: connections
  lc_req :: connections

definition lnm_sendPack :: "connection_maps \<Rightarrow> u32 \<Rightarrow> nmessage \<Rightarrow> msg_router \<Rightarrow> bool \<times> msg_router" where
  "lnm_sendPack cs sock msg st =
     (case lnm_sendTcp (lc_tcp cs) sock msg st of (bret, st) \<Rightarrow>
        if bret then (bret, st)
        else (case lnm_sendRep (lc_rep cs) sock msg st of (bret, st) \<Rightarrow>
          if bret then (bret, st)
          else lnm_sendReq (lc_req cs) sock msg st))"

definition lnm_find :: "connection_maps \<Rightarrow> u32 \<Rightarrow> (nmessage \<Rightarrow> bool) option" where
  "lnm_find cs sock =
     (case lc_tcp cs sock of Some f \<Rightarrow> Some f | None \<Rightarrow> (case lc_rep cs sock of Some f \<Rightarrow> Some f | None \<Rightarrow> lc_req cs sock))"

text \<open>A message goes over exactly one connection, and the router is told about its sending.\<close>

lemma lnm_sendPack_eq:
  "lnm_sendPack cs sock msg st =
     (case lnm_find cs sock of
        None \<Rightarrow> (False, st)
      | Some send \<Rightarrow> (True, mr_do (Op_sendComplete sock (nm_no msg) (send msg)) st))"
  by (simp add: lnm_sendPack_def lnm_sendTcp_def lnm_sendRep_def lnm_sendReq_def lnm_find_def
      notifySendNetComplete_def Let_def split: option.split)

text \<open>
  A request to a connection that is not in the maps is never completed: the router is not told, so its
  \<open>reqrep\<close> waits for ever.
\<close>

lemma unknown_connection:
  assumes "mr_ok st" "cc_reqrep_start dbg sock req st cc = Some (msg, Some recvers, st1, cc1)" "lnm_find cs sock = None"
  shows "cc_reqrep_finish dbg sock (nm_no msg) recvers (snd (lnm_sendPack cs sock msg st1)) = Waiting"
proof -
  obtain r1 r2 where r: "recvers = (r1, r2)" by (cases recvers)
  have "prepareReqRep sock (nm_no msg) st = (Some (r1, r2), st1)"
    using assms(2) by (auto simp: cc_reqrep_start_def new_NMessage_def r assert_that_def split: prod.splits if_splits)
  note p = prepareReqRep_entries [OF assms(1) this]
  then have "mr_bools st1 ! r1 = Sig_empty" using senders_okD(2) [OF mr_okD(1) [OF p(1)] p(2)] by simp
  then show ?thesis by (simp add: cc_reqrep_finish_def r lnm_sendPack_eq assms(3))
qed

text \<open>\<open>createTcpChannel\<close> gives the connection a new number.\<close>

definition lnm_createTcpChannel :: "(nmessage \<Rightarrow> bool) \<Rightarrow> ChannelModeC \<Rightarrow> u32 \<Rightarrow> u32 \<Rightarrow> connection_maps
     \<Rightarrow> u32 \<times> channel_combine \<times> u32 \<times> connection_maps" where
  "lnm_createTcpChannel send channel mainc sockNo cs =
     (case newSockNo sockNo of (sockno, sockNo) \<Rightarrow>
        (sockno, new_ChannelCombine channel mainc, sockNo, cs\<lparr>lc_tcp := map_insert sockno send (lc_tcp cs)\<rparr>))"

section \<open>Pairs of local queues\<close>

text \<open>A queue holds ten messages; a send to a full queue and a receive from an empty one wait.\<close>

record local_net =
  ln_Index :: int
  ln_senddata :: "int \<rightharpoonup> byte list list"
  ln_channelPairs :: "int \<rightharpoonup> int"

definition lnm_createPair :: "local_net \<Rightarrow> (int \<times> int) \<times> local_net" where
  "lnm_createPair st =
     (let f = ln_Index st + 1; s = f + 1
      in ((f, s), st\<lparr>ln_Index := s,
                     ln_senddata := map_insert s [] (map_insert f [] (ln_senddata st)),
                     ln_channelPairs := map_insert s f (map_insert f s (ln_channelPairs st))\<rparr>))"

definition lnm_send_string :: "int \<Rightarrow> byte list \<Rightarrow> local_net \<Rightarrow> (bool \<times> local_net) outcome" where
  "lnm_send_string sock msg st =
     (case ln_senddata st sock of
        None \<Rightarrow> Returned (False, st)
      | Some q \<Rightarrow> if length q < 10 then Returned (True, st\<lparr>ln_senddata := (ln_senddata st)(sock \<mapsto> q @ [msg])\<rparr>) else Waiting)"

definition lnm_recvPack :: "int \<Rightarrow> local_net \<Rightarrow> (byte list option \<times> local_net) outcome" where
  "lnm_recvPack sock st =
     (case ln_channelPairs st sock of
        None \<Rightarrow> Returned (None, st)
      | Some peer \<Rightarrow>
          (case ln_senddata st peer of
             None \<Rightarrow> Returned (None, st)
           | Some [] \<Rightarrow> Waiting
           | Some (msg # q) \<Rightarrow> Returned (Some msg, st\<lparr>ln_senddata := (ln_senddata st)(peer \<mapsto> q)\<rparr>)))"

text \<open>The pairs: every number is a positive one that was given out, has a queue, and is the peer of its peer.\<close>

definition pairs_ok :: "local_net \<Rightarrow> bool" where
  "pairs_ok st \<longleftrightarrow> dom (ln_senddata st) = dom (ln_channelPairs st)
     \<and> (\<forall>s p. ln_channelPairs st s = Some p \<longrightarrow> p \<noteq> s \<and> ln_channelPairs st p = Some s \<and> s \<le> ln_Index st)"

lemma pairs_okI:
  assumes "dom (ln_senddata st) = dom (ln_channelPairs st)"
    and "\<forall>s p. ln_channelPairs st s = Some p \<longrightarrow> p \<noteq> s \<and> ln_channelPairs st p = Some s \<and> s \<le> ln_Index st"
  shows "pairs_ok st"
  unfolding pairs_ok_def using assms by (rule conjI)

lemma pairs_ok_create:
  assumes "pairs_ok st"
  shows "pairs_ok (snd (lnm_createPair st))"
proof -
  have new: "ln_channelPairs st s = None" "ln_senddata st s = None" if "ln_Index st < s" for s
  proof -
    show 1: "ln_channelPairs st s = None"
    proof (rule ccontr)
      assume "ln_channelPairs st s \<noteq> None"
      then obtain p where "ln_channelPairs st s = Some p" by blast
      then have "s \<le> ln_Index st" using assms unfolding pairs_ok_def by blast
      with that show False by simp
    qed
    then have "s \<notin> dom (ln_channelPairs st)" by auto
    then show "ln_senddata st s = None" using assms by (auto simp: pairs_ok_def)
  qed
  let ?f = "ln_Index st + 1" and ?s = "ln_Index st + 2"
  define q where "q = (ln_senddata st)(?f \<mapsto> [], ?s \<mapsto> [])"
  define m where "m = (ln_channelPairs st)(?f \<mapsto> ?s, ?s \<mapsto> ?f)"
  have st': "snd (lnm_createPair st) = st\<lparr>ln_Index := ?s, ln_senddata := q, ln_channelPairs := m\<rparr>"
    using new [of ?f] new [of ?s] by (simp add: lnm_createPair_def map_insert_def Let_def domIff add.commute q_def m_def)
  have old: "p \<noteq> x \<and> ln_channelPairs st p = Some x \<and> x \<le> ln_Index st" if "ln_channelPairs st x = Some p" for x p
    using assms that unfolding pairs_ok_def by blast
  have dom: "dom q = dom m"
    using assms by (simp add: q_def m_def pairs_ok_def [of st])
  have peer: "p \<noteq> x \<and> m p = Some x \<and> x \<le> ?s" if "m x = Some p" for x p
  proof -
    from that consider "x = ?f" "p = ?s" | "x = ?s" "p = ?f" | "x \<noteq> ?f" "x \<noteq> ?s" "ln_channelPairs st x = Some p"
      by (auto simp: m_def split: if_splits)
    then show ?thesis
    proof cases
      case 3
      note px = old [OF 3(3)]
      moreover from old [OF conjunct1 [OF conjunct2 [OF px]]] have "p \<le> ln_Index st" by (rule conjunct2 [OF conjunct2])
      ultimately show ?thesis by (simp add: m_def)
    qed (auto simp: m_def)
  qed
  show ?thesis
    unfolding st' by (rule pairs_okI) (simp_all add: dom, use peer in blast)
qed

lemma pairs_ok_cong:
  assumes "dom (ln_senddata st1) = dom (ln_senddata st)" "ln_channelPairs st1 = ln_channelPairs st" "ln_Index st1 = ln_Index st"
  shows "pairs_ok st1 \<longleftrightarrow> pairs_ok st"
  by (simp only: pairs_ok_def assms)

lemma pairs_ok_send_recv:
  assumes "pairs_ok st"
  shows "lnm_send_string sock msg st = Returned (b, st1) \<Longrightarrow> pairs_ok st1"
    and "lnm_recvPack sock st = Returned (m, st1) \<Longrightarrow> pairs_ok st1"
proof -
  assume "lnm_send_string sock msg st = Returned (b, st1)"
  then show "pairs_ok st1"
    by (intro iffD2 [OF pairs_ok_cong assms]) (auto simp: lnm_send_string_def split: option.splits if_splits)
next
  assume "lnm_recvPack sock st = Returned (m, st1)"
  then show "pairs_ok st1"
    by (intro iffD2 [OF pairs_ok_cong assms]) (auto simp: lnm_recvPack_def split: option.splits list.splits if_split_asm)
qed

text \<open>Each end of a pair is a channel of messages to the other end.\<close>

definition local_recv :: "int \<Rightarrow> local_net \<Rightarrow> (byte list \<times> int \<times> local_net) outcome" where
  "local_recv sock st =
     (case lnm_recvPack sock st of
        Returned (Some m, st) \<Rightarrow> Returned (m, sock, st)
      | Returned (None, st) \<Rightarrow> Throws
      | Waiting \<Rightarrow> Waiting | Throws \<Rightarrow> Throws | Undefined \<Rightarrow> Undefined)"

definition local_pending :: "int \<Rightarrow> local_net \<Rightarrow> byte list list" where
  "local_pending sock st =
     (case ln_channelPairs st sock of
        None \<Rightarrow> []
      | Some p \<Rightarrow> (case ln_senddata st p of None \<Rightarrow> [] | Some q \<Rightarrow> q))"

interpretation local_pair: packet_channel local_recv local_pending "\<lambda>m. [m]" "\<lambda>m. True" "\<lambda>sock st. True"
proof
  fix sock st and m :: "byte list" and rest
  assume "local_pending sock st = [m] @ rest"
  then obtain p where "ln_channelPairs st sock = Some p" "ln_senddata st p = Some (m # rest)"
    by (auto simp: local_pending_def split: option.splits)
  then show "\<exists>r' s'. local_recv sock st = Returned (m, r', s') \<and> local_pending r' s' = rest \<and> True"
    by (auto simp: lnm_recvPack_def local_recv_def local_pending_def)
qed

end
