(* ===== verification/NetProps.thy ===== *)
theory NetProps
  imports Split TcpStream LocalNet
begin

text \<open>
  The properties of the framework's own network layer (\<open>src/Utils\<close>, \<open>src/inc/templatefuncs.h\<close>,
  \<open>src/configs/Routers.cpp\<close> and \<open>src/networkinterface\<close>).
\<close>

section \<open>Wire formats\<close>

text \<open>
  What \<open>packmaincmd3\<close> packs, \<open>uppackmaincmd3\<close> unpacks: sequence number, command (its low 16 bits),
  subcommand, length and message, for the overloads of a \<open>string&\<close> (which leaves the message in its
  source) and of a \<open>string_view\<close>, and for the shorter headers.
\<close>

theorem header_roundtrip:
  "uppackmaincmd3_seq (packmaincmd3_seq s m a [] msg) pre
     = (msg, Some (s, ucast (ucast m :: u16), ucast a, ucast (of_nat (length msg) :: u32), pre @ msg))
   \<and> uppackmaincmd3_seq_view (packmaincmd3_seq s m a [] msg) pre
     = Some (s, ucast (ucast m :: u16), ucast a, ucast (of_nat (length msg) :: u32), pre @ msg)
   \<and> uppackmaincmd3_assc (packmaincmd3_assc (ucast a) [] msg) pre
     = (msg, Some (ucast (of_nat (length msg) :: u32), ucast a, pre @ msg))
   \<and> uppackmaincmd3_len_view (packmaincmd3_len [] msg) pre = Some (ucast (of_nat (length msg) :: u32), pre @ msg)"
  by (simp add: packmaincmd3_eqs uppackmaincmd3_header)



text \<open>
  The arguments of a handler: what \<open>packArgs\<close> packs from two or more arguments, \<open>unpackArgs\<close> reads
  back, when every argument's parser reads what the serialiser wrote.
\<close>

theorem arguments_roundtrip:
  assumes "2 \<le> length args" "length (packArgs ser [] (map fst args)) < 2 ^ 64"
    and "\<forall>x \<in> set args. fst (snd x) (ser (fst x)) (snd (snd x)) = (True, fst x) \<and> length (ser (fst x)) < 2 ^ 32"
  shows "unpackArgs (packArgs ser [] (map fst args)) (map snd args) = Some (True, map fst args)"
  using unpackArgs_packArgs [OF assms] .

definition ex_ser :: "bool \<Rightarrow> byte list" where
  "ex_ser b = (if b then [116] else [102])"

definition ex_parse :: "bool parser" where
  "ex_parse s d = (if s = [116] then (True, True) else if s = [102] then (True, False) else (False, d))"

theorem arguments_roundtrip_witness:
  "unpackArgs (packArgs ex_ser [] [True, False]) [(ex_parse, False), (ex_parse, False)] = Some (True, [True, False])"
  using arguments_roundtrip [of "[(True, ex_parse, False), (False, ex_parse, False)]" ex_ser]
  by (simp add: ex_ser_def ex_parse_def)

text \<open>
  C24. \<open>parseQueryString\<close> of the query string of a list of pairs is their map, the first pair of a key
  winning; keys hold neither ampersands nor equals signs, values no ampersands.
\<close>

theorem query_roundtrip:
  assumes "\<forall>(k, v) \<in> set kvs. ch_amp \<notin> set k \<and> ch_eq \<notin> set k \<and> ch_amp \<notin> set v"
  shows "parseQueryString (query_string kvs) = map_of kvs"
  using parseQueryString_query_string [OF assms] .

theorem query_roundtrip_witness:
  "parseQueryString [97, 61, 49, 38, 98, 61] = [[97] \<mapsto> [49], [98] \<mapsto> []]"
  using query_roundtrip [of "[([97], [49]), ([98], [])]"] by (simp add: ch_amp_def ch_eq_def fun_upd_twist)

text \<open>
  A platform header that is packed is unpacked to the same header by any header of the same kind,
  and fills exactly the bytes it claims.
\<close>

theorem platform_roundtrip:
  assumes "plat_len p = Some n" "length dst = n" "plat_len q = Some n" "plat_getMain q = plat_getMain p \<or> n \<noteq> 0"
  shows "\<exists>h. plat_pack dbg dst p = Some (True, h) \<and> length h = n \<and> plat_unpack h q = Some (True, p)"
  using plat_pack_unpack [OF assms] .

theorem platform_roundtrip_witness:
  "\<exists>h. plat_pack True (replicate 8 0) (MainAssPlatPack 3 9) = Some (True, h) \<and> length h = 8
     \<and> plat_unpack h (MainAssPlatPack 0 0) = Some (True, MainAssPlatPack 3 9)"
  using platform_roundtrip [of "MainAssPlatPack 3 9" 8 "replicate 8 0" "MainAssPlatPack 0 0" True] by simp

section \<open>Connections\<close>

text \<open>
  C25. \<open>TcpChannelImpl::recvPack\<close> gets the packets of a connection in the order they were sent, each
  once, however TCP cuts the stream into reads, and keeps what follows them.
\<close>

theorem tcp_in_order:
  assumes "ch_ready reads ch" "\<forall>p \<in> set ps. frame_ok p" "ch_pending reads ch = concat (map frame ps) @ rest"
  shows "\<exists>reads' ch'. recv_many (ch_recvPack netpack) (length ps) reads ch = Returned (ps, reads', ch')
           \<and> ch_pending reads' ch' = rest \<and> ch_ready reads' ch'"
  using tcp.recv_many_packets [OF assms] .

theorem tcp_in_order_witness:
  "\<exists>reads' ch'. recv_many (ch_recvPack ex_netpack) (Suc (Suc 0))
      [Got (be32 2 @ [0]), Got [0, 0, 7, 1, 2], Got (be32 1 @ be32 8 @ [3])] ex_channel
    = Returned ([(7, [1, 2]), (8, [3])], reads', ch') \<and> ch_pending reads' ch' = []"
proof -
  have "be32 7 = [0, 0, 0, 7]" by (simp add: be32_def)
  then show ?thesis
    using tcp_in_order [of "[Got (be32 2 @ [0]), Got [0, 0, 7, 1, 2], Got (be32 1 @ be32 8 @ [3])]" ex_channel
        "[(7, [1, 2]), (8, [3])]" "[]" ex_netpack]
    by (auto simp: ch_ready_def ch_pending_def frame_def frame_ok_def ex_channel_def new_channel_def simp del: recv_many.simps)
qed

text \<open>
  C26. A packet that \<open>sendPack\<close> wrote completely, read in any pieces at the other end, is received there
  with its number, and nothing is left over.
\<close>

theorem tcp_packet_roundtrip:
  assumes "ch_sendPack np src no [Sent 8, Sent (length src)] a = Returned (ok, wire, [])"
    and "ch_retryCount a = 2" "8 \<le> length src" "frame_ok (no, src)"
    and "received reads = wire" "ch_ready reads b" "ch_recv b = []"
  shows "ok \<and> (\<exists>b'. ch_recvPack nq reads b = Returned ((no, src), [], b') \<and> ch_recv b' = [])"
  using tcp_roundtrip [OF assms] .

theorem tcp_packet_roundtrip_witness:
  "\<exists>b'. ch_recvPack ex_netpack [Got (be32 8), Got (be32 5 @ [1, 2, 3]), Got [4, 5, 6, 7, 8]] ex_channel
     = Returned ((5, [1, 2, 3, 4, 5, 6, 7, 8]), [], b')"
proof -
  have sent: "ch_sendPack ex_netpack [1, 2, 3, 4, 5, 6, 7, 8] 5 [Sent 8, Sent (length [1, 2, 3, 4, 5, 6, 7, 8 :: byte])] ex_channel
      = Returned (True, be32 8 @ be32 5 @ [1, 2, 3, 4, 5, 6, 7, 8], [])"
    by (subst ch_sendPack_result) (simp_all add: ex_channel_def new_channel_def)
  show ?thesis
    using tcp_packet_roundtrip [OF sent, of "[Got (be32 8), Got (be32 5 @ [1, 2, 3]), Got [4, 5, 6, 7, 8]]" ex_channel ex_netpack]
    by (auto simp: frame_ok_def ch_ready_def ex_channel_def new_channel_def)
qed



text \<open>
  \<open>FixHeaderSplit\<close> splits a packet of \<open>PackMainAssPack\<close> off its buffer; when the body is not complete
  yet it takes the header, and the packet is split off once the rest has come. Base64 decoding undoes
  the encoding, which turns 8 bytes into 12 (\<open>u_long\<close> has 4 bytes).
\<close>

theorem split_in_two:
  assumes "\<And>bs. dec (enc bs) = Some bs" "\<And>bs. length bs = 8 \<Longrightarrow> length (enc bs) = 12"
    and "head_mainc head = MainCmdBegin" "msg \<noteq> []" "length msg < 2 ^ 32" "unat m < 2 ^ 16" "m \<noteq> MainCmdBegin"
    and "buf @ later = PackMainAssPack enc \<lparr>head_mainc = m, head_assc = a, head_len = l\<rparr> msg @ rest" "fixHeadLen \<le> length buf"
  shows "if fixHeadLen + length msg \<le> length buf
         then \<exists>head' buf'. FixHeaderSplit 4 dec buf head dst = Some (True, buf', head', msg) \<and> buf' @ later = rest
                \<and> head_mainc head' = m \<and> head_assc head' = a
         else \<exists>head' buf'. FixHeaderSplit 4 dec buf head dst = Some (False, buf', head', dst)
                \<and> (\<exists>head'' buf''. FixHeaderSplit 4 dec (buf' @ later) head' dst = Some (True, buf'', head'', msg) \<and> buf'' = rest)"
  using FixHeaderSplit_packed [OF assms] .

definition ex_enc :: "byte list \<Rightarrow> byte list" where
  "ex_enc bs = bs @ [61, 61, 61, 61]"

definition ex_dec :: "byte list \<Rightarrow> byte list option" where
  "ex_dec cs = Some (take (length cs - 4) cs)"

theorem split_in_two_witness:
  "\<exists>head' buf'. FixHeaderSplit 4 ex_dec (packcmdrep ex_enc 4 9 3 @ [1]) cmdhead_init [] = Some (False, buf', head', [])
     \<and> (\<exists>head''. FixHeaderSplit 4 ex_dec (buf' @ [2, 3, 4]) head' [] = Some (True, [4], head'', [1, 2, 3]))"
proof -
  have "length (packcmdrep ex_enc 4 9 3) = 12" by (simp add: packcmdrep_def ex_enc_def Let_def)
  then show ?thesis
    using split_in_two [of ex_dec ex_enc cmdhead_init "[1, 2, 3]" 4 "packcmdrep ex_enc 4 9 3 @ [1]" "[2, 3, 4]" 9 0 "[4]" "[]"]
    by (simp add: ex_enc_def ex_dec_def cmdhead_init_def MainCmdBegin_def PackMainAssPack_def fixHeadLen_def)
qed

text \<open>
  C28. A request and its answer over a stream with packet lengths, between \<open>TcpChannel::clientEntry\<close> and
  \<open>_serverEntry\<close>: sequence number and subcommand come back, but the handler is called with the request
  written twice in a row, and the client gets the answer twice in a row.
\<close>

theorem stream_exchange:
  assumes "pd_mainc d = pd_mainc c" "unat (pd_mainc c) < 2 ^ 16" "pd_assc c = ucast (a :: u16)" "a \<noteq> 0xFFFF"
    and "getRouterTrans rs (pd_mainc c) (ucast a) = Some f" "f (req @ req) = Rep_string r" "r \<noteq> []"
    and "length req + 16 \<le> 1024" "length r + 16 \<le> 1024"
    and "sh_nethead cs = FixPackLenPlaceHolder" "sh_recvbuf cs = []"
      "sh_nethead ss = FixPackLenPlaceHolder" "sh_recvbuf ss = []"
  shows "\<exists>wire cs' c' ss' d' wire' ss'' cs''.
           client_send dbg req seq [Sent (16 + length req)] cs c = Returned (True, wire, cs', c', seq + 1)
         \<and> server_turn dbg rs [Got wire] [Sent (16 + length r)] ss d = Returned (True, wire', [], ss'', d')
         \<and> (\<exists>c''. client_recv dbg True [Got wire'] cs' c' = Returned (r @ r, cs'', c'') \<and> pd_seqnumrep c'' = seq + 1)"
  using exchange [OF assms] .

definition ex_routers :: trans_routers where
  "ex_routers = Some [4 \<mapsto> [9 \<mapsto> Rep_string]]"

definition ex_dealer :: pack_dealer where
  "ex_dealer = \<lparr>pd_seqnumreq = 0, pd_seqnumrep = 0, pd_mainc = 4, pd_assc = 9\<rparr>"

theorem stream_exchange_witness:
  "\<exists>wire cs' c' d' wire' ss'' cs'' c''.
     client_send True [5] 0 [Sent 17] ex_handler ex_dealer = Returned (True, wire, cs', c', 1)
   \<and> server_turn True ex_routers [Got wire] [Sent 18] ex_handler ex_dealer = Returned (True, wire', [], ss'', d')
   \<and> client_recv True True [Got wire'] cs' c' = Returned ([5, 5, 5, 5], cs'', c'')"
proof -
  have "ucast (9 :: u16) = (9 :: u32)" by simp
  then show ?thesis
    using stream_exchange [of ex_dealer ex_dealer 9 ex_routers Rep_string "[5]" "[5, 5]" ex_handler ex_handler True 0]
    by (auto simp: ex_dealer_def ex_routers_def getRouterTrans_def ex_handler_def)
qed

end
