(* ===== verification/RouterProps.thy ===== *)
theory RouterProps
  imports LocalNet
begin

text \<open>
  The properties of requests and answers: the router of messages with the functions of
  \<open>networkinterface.cpp\<close>, \<open>ChannelCombine\<close> and the sending functions of \<open>LocalNetManager\<close>.
\<close>


definition ex_msg :: nmessage where
  "ex_msg = new_NMessage 1 [5]"

definition ex_router :: msg_router where
  "ex_router = mr_do (Op_prepareReqRep 3 1) new_router"

lemmas ex_router_simps =
  ex_router_def ex_msg_def new_router_def new_NMessage_def prepareReqRep_def mr_canReqRep_def mr_prepareSignalSendComplete_def
  mr_prepareSignalRecvNetRep_def prepare_signal_def sender_destroy_def set_sender_def notifyNetRepComplete_def
  mr_notifyRecvNetRep_def notify_signal_def sender_send_def


text \<open>
  C30. A request completes: once \<open>sendPack\<close> of the connection has been called and an answer with its
  number was received, \<open>reqrep\<close> returns the answer, or nothing when the connection refused the message,
  whatever other requests do meanwhile.
\<close>

theorem reqrep_completes:
  assumes "mr_ok st" "cc_reqrep_start dbg sock req st cc = Some (msg, Some recvers, st1, cc1)"
    and "lnm_find cs sock = Some send" "nm_no rep = nm_no msg"
    and "\<forall>op \<in> set (ops1 @ ops2). op_key op \<noteq> Some (sock, nm_no msg)"
  shows "\<exists>st2. cc_reqrep_finish dbg sock (nm_no msg) recvers
           (fold mr_do (ops2 @ Op_netRep sock rep # ops3) (snd (lnm_sendPack cs sock msg (fold mr_do ops1 st1))))
         = Returned (if send msg then Some (nm_body rep) else None, st2)"
proof -
  have "prepareReqRep sock (nm_no msg) st = (Some recvers, st1)"
    using assms(2) by (auto simp: cc_reqrep_start_def new_NMessage_def assert_that_def split: prod.splits if_splits)
  then show ?thesis
    using request_answered [OF assms(1) _ assms(5,4), of "fst recvers" "snd recvers" st1 "send msg" ops3]
    by (cases "send msg") (simp_all add: cc_reqrep_finish_def lnm_sendPack_eq assms(3) Let_def)
qed

theorem reqrep_completes_witness:
  "\<exists>st2. cc_reqrep_finish True 3 1 (0, 0)
      (fold mr_do [Op_netRep 3 (new_NMessage 1 [7])]
        (snd (lnm_sendPack \<lparr>lc_tcp = [3 \<mapsto> \<lambda>m. True], lc_rep = Map.empty, lc_req = Map.empty\<rparr> 3 ex_msg ex_router)))
    = Returned (Some [7], st2)"
proof -
  have start: "cc_reqrep_start True 3 [5] new_router (new_ChannelCombine Initiative 4)
      = Some (ex_msg, Some (0, 0), ex_router, (new_ChannelCombine Initiative 4)\<lparr>cc_reqNo := 1\<rparr>)"
    by (simp add: cc_reqrep_start_def cc_newReq_def new_ChannelCombine_def assert_that_def ex_router_simps word_le_nat_alt)
  have "nm_no ex_msg = 1" by (simp add: ex_msg_def new_NMessage_def)
  then show ?thesis
    using reqrep_completes [OF new_router_ok start, of "\<lparr>lc_tcp = [3 \<mapsto> \<lambda>m. True], lc_rep = Map.empty, lc_req = Map.empty\<rparr>"
        "\<lambda>m. True" "new_NMessage 1 [7]" "[]" "[]" "[]"]
    by (simp add: lnm_find_def new_NMessage_def)
qed

text \<open>
  C31. An answer is taken once: after the answer to a request arrived, another message with the same
  number is not matched with it, whatever happens in between with other requests.
\<close>

theorem answer_taken_once:
  assumes "mr_ok st" "notifyNetRepComplete s msg st = (True, st1)" "nm_no msg' = nm_no msg"
    and "\<forall>op \<in> set ops. op_key op \<noteq> Some (s, nm_no msg)"
  shows "\<not> fst (notifyNetRepComplete s msg' (fold mr_do ops st1))"
  by (rule answered_once [OF assms])

theorem answer_taken_once_witness:
  "\<not> fst (notifyNetRepComplete 3 ex_msg
      (fold mr_do [Op_prepareReqRep 3 2] (snd (notifyNetRepComplete 3 ex_msg ex_router))))"
proof -
  have "mr_ok ex_router" unfolding ex_router_def by (rule mr_do_ok [OF new_router_ok])
  moreover have "notifyNetRepComplete 3 ex_msg ex_router = (True, snd (notifyNetRepComplete 3 ex_msg ex_router))"
    by (simp add: ex_router_simps)
  moreover have "\<forall>op \<in> set [Op_prepareReqRep 3 2]. op_key op \<noteq> Some (3, nm_no ex_msg)"
    by (simp add: ex_msg_def new_NMessage_def)
  ultimately show ?thesis by (rule answer_taken_once [OF _ _ refl])
qed



text \<open>
  C33. The two ends of a connection number their requests apart: no number of the passive end is among
  the first $2^{31} - 2$ of the initiator, and those are all different.
\<close>

theorem request_numbers_apart:
  assumes "k \<le> 2 ^ 31 - 2"
  shows "distinct (fst (cc_newReqs k (new_ChannelCombine Initiative m)))
    \<and> set (fst (cc_newReqs k (new_ChannelCombine Initiative m)))
           \<inter> set (fst (cc_newReqs j (new_ChannelCombine Passive m'))) = {}"
proof -
  let ?i = "fst (cc_newReqs k (new_ChannelCombine Initiative m))" and ?p = "fst (cc_newReqs j (new_ChannelCombine Passive m'))"
  have i: "map unat ?i = map (\<lambda>i. Suc i) [0..<k]"
    using newReqs_initiative [of "new_ChannelCombine Initiative m" k] assms by (simp add: new_ChannelCombine_def)
  have "distinct (map unat ?i)" unfolding i by (simp add: distinct_map)
  then have different: "distinct ?i" by (simp add: distinct_map)
  have small: "\<forall>n \<in> unat ` set ?i. n \<le> k"
    using arg_cong [OF i, of set] by auto
  have large: "\<forall>n \<in> set ?p. 2 ^ 31 - 1 \<le> unat n"
    by (rule newReqs_passive) (simp_all add: new_ChannelCombine_def half)
  have "set ?i \<inter> set ?p = {}"
  proof (rule equals0I)
    fix n assume "n \<in> set ?i \<inter> set ?p"
    then have "unat n \<le> k" "2 ^ 31 - 1 \<le> unat n" using small large by auto
    then show False using assms by simp
  qed
  with different show ?thesis by simp
qed

theorem request_numbers_apart_witness:
  "set (fst (cc_newReqs 1000 (new_ChannelCombine Initiative 4)))
     \<inter> set (fst (cc_newReqs 2000 (new_ChannelCombine Passive 4))) = {}"
  using request_numbers_apart [of 1000 4 2000 4] by (simp del: cc_newReqs.simps)

end
