(* ===== verification/NngConn.thy ===== *)
theory NngConn
  imports LocalNet
begin

text \<open>
  Connections over the nng library (\<open>src/networkinterface/nngs\<close>): \<open>AsynRepImpl\<close> and \<open>ReqImpl\<close>, the ends of
  a connection that \<open>ChannelCombine\<close> uses. What nng answers is an argument: by its documentation a call
  that succeeds returns 0. The calls that matter are logged, the newest first.
\<close>

section \<open>\<open>AsynRepImpl\<close>\<close>

datatype NngStatus = Nng_INIT | Nng_RECV | Nng_WAIT | Nng_SEND | Nng_AIOERROR

datatype nng_call = Nng_ctx_recv | Nng_ctx_send "byte list" | Nng_aio_defer | Nng_aio_finish int | Nng_msg_free

record rep_impl =
  ri_sockno :: u32
  ri_nStatus :: NngStatus
  ri_req :: "byte list option"
  ri_rep :: "byte list option"
  ri_msgs :: "byte list list"
  ri_log :: "nng_call list"

definition new_AsynRepImpl :: "u32 \<Rightarrow> rep_impl" where
  "new_AsynRepImpl sockNo =
     \<lparr>ri_sockno = sockNo, ri_nStatus = Nng_INIT, ri_req = None, ri_rep = None, ri_msgs = [], ri_log = []\<rparr>"

definition ri_call :: "nng_call \<Rightarrow> rep_impl \<Rightarrow> rep_impl" where
  "ri_call c st = st\<lparr>ri_log := c # ri_log st\<rparr>"

definition cleanReqRepCache :: "rep_impl \<Rightarrow> rep_impl" where
  "cleanReqRepCache st =
     (let st = (if ri_req st \<noteq> None then (ri_call Nng_msg_free st)\<lparr>ri_req := None\<rparr> else st)
      in if ri_rep st \<noteq> None then (ri_call Nng_msg_free st)\<lparr>ri_rep := None\<rparr> else st)"

text \<open>
  The callback of the aio, with its result and message. The message goes to the queue in a coroutine of
  its own; the queue of five is never full, since there is one message.
\<close>

definition rep_callback :: "bool \<Rightarrow> int \<Rightarrow> byte list option \<Rightarrow> rep_impl \<Rightarrow> rep_impl option" where
  "rep_callback dbg nop msg st =
     (case ri_nStatus st of
        Nng_INIT \<Rightarrow> Some (ri_call Nng_ctx_recv ((cleanReqRepCache st)\<lparr>ri_nStatus := Nng_RECV\<rparr>))
      | Nng_RECV \<Rightarrow>
          if nop \<noteq> 0 then Some (st\<lparr>ri_nStatus := Nng_AIOERROR\<rparr>)
          else do {
            let st = ri_call Nng_aio_defer (st\<lparr>ri_nStatus := Nng_WAIT, ri_req := msg\<rparr>);
            assert_that dbg (msg \<noteq> None);
            body \<leftarrow> msg;
            Some (st\<lparr>ri_msgs := ri_msgs st @ [body]\<rparr>)
          }
      | _ \<Rightarrow> Some st)"

definition rep_cancel :: "int \<Rightarrow> rep_impl \<Rightarrow> rep_impl" where
  "rep_cancel rv st = ri_call (Nng_aio_finish rv) st"

text \<open>\<open>alloc\<close>, \<open>append\<close> and \<open>begin\<close> are the results of the calls of nng; an old reply is cleared and forgotten.\<close>

definition ri_sendPack :: "bool \<Rightarrow> int \<Rightarrow> int \<Rightarrow> bool \<Rightarrow> byte list \<Rightarrow> u32 \<Rightarrow> rep_impl \<Rightarrow> (bool \<times> rep_impl) option" where
  "ri_sendPack dbg nop_alloc nop_append aio_begin src no st =
     (let st = st\<lparr>ri_rep := None\<rparr> in
      if nop_alloc \<noteq> 0 then Some (False, st)
      else let st = st\<lparr>ri_rep := Some []\<rparr> in
      if nop_append \<noteq> 0 then Some (False, st)
      else let st = st\<lparr>ri_rep := Some src\<rparr> in
      do {
        assert_that dbg aio_begin;
        if \<not> aio_begin then Some (False, st\<lparr>ri_nStatus := Nng_AIOERROR\<rparr>)
        else do {
          let st = ri_call (Nng_aio_finish 0) (ri_call (Nng_ctx_send src) st);
          assert_that dbg (ri_nStatus st = Nng_WAIT);
          Some (True, st)
        }
      })"

definition ri_recvPack :: "bool \<Rightarrow> rep_impl \<Rightarrow> ((u32 \<times> byte list) \<times> rep_impl) outcome" where
  "ri_recvPack dbg st =
     (if dbg \<and> ri_nStatus st \<noteq> Nng_INIT then Undefined
      else case ri_msgs st of
             [] \<Rightarrow> Waiting
           | msg # msgs \<Rightarrow> Returned ((0, msg), st\<lparr>ri_msgs := msgs\<rparr>))"

definition ri_setSockNo :: "u32 \<Rightarrow> rep_impl \<Rightarrow> rep_impl" where
  "ri_setSockNo sockno st = st\<lparr>ri_sockno := sockno\<rparr>"

text \<open>What can happen to a connection.\<close>

inductive ri_step :: "rep_impl \<Rightarrow> rep_impl \<Rightarrow> bool" where
  ri_callback: "rep_callback dbg nop msg st = Some st' \<Longrightarrow> ri_step st st'"
| ri_cancelled: "ri_step st (rep_cancel rv st)"
| ri_send: "ri_sendPack dbg a b c src no st = Some (ok, st') \<Longrightarrow> ri_step st st'"
| ri_receive: "ri_recvPack dbg st = Returned (m, st') \<Longrightarrow> ri_step st st'"
| ri_number: "ri_step st (ri_setSockNo n st)"

text \<open>
  Nothing leads back to the state in which a receive is started: a connection receives one request in
  its life.
\<close>

definition recvs :: "rep_impl \<Rightarrow> nat" where
  "recvs st = length (filter (\<lambda>c. c = Nng_ctx_recv) (ri_log st))"

definition ri_ok :: "rep_impl \<Rightarrow> bool" where
  "ri_ok st \<longleftrightarrow> ri_nStatus st \<noteq> Nng_SEND \<and> recvs st \<le> (if ri_nStatus st = Nng_INIT then 0 else 1)"

lemma ri_step_ok: "ri_step st st' \<Longrightarrow> ri_ok st \<Longrightarrow> ri_ok st'"
proof (induction rule: ri_step.induct)
  case (ri_callback dbg nop msg st st')
  then show ?case
    by (cases "ri_nStatus st")
      (auto simp: rep_callback_def ri_ok_def recvs_def ri_call_def cleanReqRepCache_def Let_def
        Option.bind_eq_Some_conv split: if_splits)
next
  case (ri_cancelled st rv)
  then show ?case by (simp add: rep_cancel_def ri_ok_def recvs_def ri_call_def)
next
  case (ri_send dbg a b c src no st ok st')
  then show ?case
    by (auto simp: ri_sendPack_def ri_ok_def recvs_def ri_call_def Let_def Option.bind_eq_Some_conv split: if_splits)
next
  case (ri_receive dbg st m st')
  then show ?case by (auto simp: ri_recvPack_def ri_ok_def recvs_def split: if_splits list.splits)
next
  case (ri_number st n)
  then show ?case by (simp add: ri_setSockNo_def ri_ok_def recvs_def)
qed

lemma new_ri_ok: "ri_ok (new_AsynRepImpl n)"
  by (simp add: ri_ok_def recvs_def new_AsynRepImpl_def)

lemma one_request_per_connection:
  assumes "ri_step\<^sup>*\<^sup>* (new_AsynRepImpl n) st"
  shows "recvs st \<le> 1"
proof -
  have "ri_ok st"
    using assms by (induction rule: rtranclp_induct) (rule new_ri_ok, rule ri_step_ok)
  then show ?thesis by (auto simp: ri_ok_def split: if_splits)
qed

text \<open>With assertions the wait for a second request aborts: \<open>recvPack\<close> expects the initial state.\<close>

lemma second_receive_aborts:
  assumes "rep_callback dbg nop msg st = Some st'"
  shows "ri_recvPack True st' = Undefined"
  using assms
  by (cases "ri_nStatus st")
    (auto simp: rep_callback_def ri_recvPack_def ri_call_def Let_def Option.bind_eq_Some_conv split: if_splits)

section \<open>\<open>ReqImpl\<close>\<close>

record req_impl =
  rq_sockno :: u32
  rq_msgno :: u32

definition new_ReqImpl :: "u32 \<Rightarrow> u32 \<Rightarrow> req_impl" where
  "new_ReqImpl msgno0 sockNo = \<lparr>rq_sockno = sockNo, rq_msgno = msgno0\<rparr>"

text \<open>The result of \<open>nng_send\<close>, an \<open>int\<close>, is compared with the length, a \<open>size_t\<close>.\<close>

definition rq_sendPack :: "int \<Rightarrow> byte list \<Rightarrow> u32 \<Rightarrow> req_impl \<Rightarrow> bool \<times> req_impl" where
  "rq_sendPack nnop src no st = ((of_int nnop :: u64) = of_nat (length src), st\<lparr>rq_msgno := no\<rparr>)"

text \<open>\<open>nng_recv\<close> with its result and what it received; the number of the message is always 0.\<close>

definition rq_recvPack :: "bool \<Rightarrow> int \<Rightarrow> byte list \<Rightarrow> req_impl \<Rightarrow> (u32 \<times> byte list) option" where
  "rq_recvPack dbg nnop buf st = do { assert_that dbg (nnop > 0); Some (0, buf) }"

definition rq_setSockNo :: "u32 \<Rightarrow> req_impl \<Rightarrow> req_impl" where
  "rq_setSockNo sockno st = st\<lparr>rq_sockno := sockno\<rparr>"

text \<open>A message that was sent is reported as not sent, and a message that was received is an error.\<close>

lemma rq_send_success_reported_as_failure:
  assumes "src \<noteq> []" "length src < 2 ^ 64"
  shows "\<not> fst (rq_sendPack 0 src no st)"
proof
  assume "fst (rq_sendPack 0 src no st)"
  then have "unat (of_nat (length src) :: u64) = 0" by (simp add: rq_sendPack_def)
  then show False using unat_of_nat_lt [of "length src", where 'a = 64] assms by simp
qed

lemma rq_receive_success_aborts: "rq_recvPack True 0 buf st = None"
  by (simp add: rq_recvPack_def)

text \<open>
  So a request over \<open>ReqImpl\<close> comes back without an answer although it was sent.
\<close>

lemma nng_request_without_answer:
  assumes "mr_ok st" "cc_reqrep_start dbg sock req st cc = Some (msg, Some recvers, st1, cc1)"
    and "lnm_find cs sock = Some (\<lambda>m. fst (rq_sendPack 0 (nm_body m) (nm_no m) rq))"
    and "req \<noteq> []" "length req < 2 ^ 64"
  shows "\<exists>st2. cc_reqrep_finish dbg sock (nm_no msg) recvers (snd (lnm_sendPack cs sock msg st1)) = Returned (None, st2)"
proof -
  obtain r1 r2 where r: "recvers = (r1, r2)" by (cases recvers)
  have p: "prepareReqRep sock (nm_no msg) st = (Some (r1, r2), st1)" and body: "nm_body msg = req"
    using assms(2) by (auto simp: cc_reqrep_start_def new_NMessage_def r assert_that_def split: prod.splits if_splits)
  note e = prepareReqRep_entries [OF assms(1) p]
  let ?st = "mr_do (Op_sendComplete sock (nm_no msg) False) st1"
  have "lnm_sendPack cs sock msg st1 = (True, ?st)"
    using rq_send_success_reported_as_failure [OF assms(4,5)] assms(3) by (simp add: lnm_sendPack_eq body)
  moreover have "mr_bools ?st ! r1 = Sig_sent False"
    using do_sendComplete [OF e(1,2)] by blast
  ultimately show ?thesis by (simp add: cc_reqrep_finish_def r)
qed

text \<open>A message with the number 0 is never the answer to a request of this end.\<close>

lemma nng_answer_not_matched:
  assumes "mr_netRep st sock 0 = None" "nm_no msg = 0"
  shows "\<not> fst (notifyNetRepComplete sock msg st)"
  using assms by (simp add: notifyNetRepComplete_def mr_notifyRecvNetRep_def notify_signal_def)

section \<open>\<open>createReq\<close> and \<open>createRep\<close>\<close>

definition lnm_createReq ::
    "(nmessage \<Rightarrow> bool) \<Rightarrow> ChannelModeC \<Rightarrow> u32 \<Rightarrow> u32 \<Rightarrow> connection_maps \<Rightarrow> u32 \<times> channel_combine \<times> u32 \<times> connection_maps" where
  "lnm_createReq send channel mainc sockNo cs =
     (case newSockNo sockNo of (sockno, sockNo) \<Rightarrow>
        (sockno, new_ChannelCombine channel mainc, sockNo, cs\<lparr>lc_req := map_insert sockno send (lc_req cs)\<rparr>))"

text \<open>
  The loop of \<open>createRep\<close>: the result of \<open>nng_aio_alloc\<close> and of \<open>nng_ctx_open\<close> for each connection. What was
  created before a failure stays in the table.
\<close>

fun createRep_loop ::
    "(u32 \<Rightarrow> nmessage \<Rightarrow> bool) \<Rightarrow> (int \<times> int) list \<Rightarrow> u32 \<Rightarrow> connection_maps \<Rightarrow> bool \<times> u32 list \<times> u32 \<times> connection_maps" where
  "createRep_loop send [] sockNo cs = (True, [], sockNo, cs)"
| "createRep_loop send ((nop_alloc, nop_open) # results) sockNo cs =
     (case newSockNo sockNo of (sockno, sockNo) \<Rightarrow>
        if nop_alloc \<noteq> 0 then (False, [], sockNo, cs)
        else if nop_open \<noteq> 0 then (False, [], sockNo, cs)
        else case createRep_loop send results sockNo (cs\<lparr>lc_rep := map_insert sockno (send sockno) (lc_rep cs)\<rparr>) of
               (ok, ccs, sockNo, cs) \<Rightarrow> (ok, sockno # ccs, sockNo, cs))"

text \<open>Before the pointer to a \<open>ChannelCombine\<close> is handed to \<open>rep_callback\<close>, which takes it for an \<open>AsynRepImpl\<close>.\<close>

definition lnm_createRep ::
    "(u32 \<Rightarrow> nmessage \<Rightarrow> bool) \<Rightarrow> int \<Rightarrow> (int \<times> int) list \<Rightarrow> int \<Rightarrow> u32 \<Rightarrow> connection_maps
     \<Rightarrow> (bool \<times> u32 \<times> connection_maps) option" where
  "lnm_createRep send nop_open results nop_listen sockNo cs =
     (if nop_open \<noteq> 0 then Some (False, sockNo, cs)
      else case createRep_loop send results sockNo cs of (ok, ccs, sockNo, cs) \<Rightarrow>
        if \<not> ok then Some (False, sockNo, cs)
        else if nop_listen \<noteq> 0 then Some (False, sockNo, cs)
        else if ccs = [] then Some (True, sockNo, cs) else None)"

lemma createRep_never_serves:
  assumes "lnm_createRep send nop_open results nop_listen sockNo cs = Some (True, sockNo', cs')"
  shows "results = []"
  using assms
  by (cases results) (auto simp: lnm_createRep_def newSockNo_def Let_def split: if_splits prod.splits)

end
