(* ===== verification/NngWork.thy ===== *)
theory NngWork
  imports NngConn
begin

text \<open>
  The older nng nodes (\<open>AsynBase.h\<close>, \<open>AsynRep.cpp\<close>, \<open>AsynReq.cpp\<close>, \<open>SyncReq.cpp\<close>). A worker sends and
  receives through an aio whose completion calls back. Messages of nng live in a list; by the
  documentation of nng, a message whose sending succeeded belongs to nng, and one whose sending failed
  stays the caller's. \<open>None\<close> is the use of a message that is not the program's, of a null pointer, or of
  a member that was never set.
\<close>

section \<open>Messages and workers\<close>

datatype nng_msg = Msg_own "byte list" | Msg_sending "byte list" | Msg_given | Msg_freed

type_synonym nng_msgs = "nng_msg list"

definition nng_msg_clear :: "nat \<Rightarrow> nng_msgs \<Rightarrow> nng_msgs option" where
  "nng_msg_clear i ms =
     (if i < length ms then (case ms ! i of Msg_own _ \<Rightarrow> Some (ms[i := Msg_own []]) | _ \<Rightarrow> None) else None)"

definition nng_msg_append :: "nat \<Rightarrow> byte list \<Rightarrow> nng_msgs \<Rightarrow> nng_msgs option" where
  "nng_msg_append i bs ms =
     (if i < length ms then (case ms ! i of Msg_own b \<Rightarrow> Some (ms[i := Msg_own (b @ bs)]) | _ \<Rightarrow> None) else None)"

definition nng_msg_body :: "nat \<Rightarrow> nng_msgs \<Rightarrow> byte list option" where
  "nng_msg_body i ms = (if i < length ms then (case ms ! i of Msg_own b \<Rightarrow> Some b | _ \<Rightarrow> None) else None)"

definition nng_msg_start_send :: "nat \<Rightarrow> nng_msgs \<Rightarrow> nng_msgs option" where
  "nng_msg_start_send i ms =
     (if i < length ms then (case ms ! i of Msg_own b \<Rightarrow> Some (ms[i := Msg_sending b]) | _ \<Rightarrow> None) else None)"

definition nng_msg_sent :: "int \<Rightarrow> nat \<Rightarrow> nng_msgs \<Rightarrow> nng_msgs" where
  "nng_msg_sent rv i ms = (case ms ! i of Msg_sending b \<Rightarrow> ms[i := (if rv = 0 then Msg_given else Msg_own b)] | _ \<Rightarrow> ms)"

datatype work_state = Work_INIT | Work_RECV | Work_WAIT | Work_SEND

text \<open>\<open>resp\<close> is \<open>None\<close> until it is pointed somewhere; then it holds what is written there.\<close>

record work =
  wk_state :: work_state
  wk_msg :: "nat option"
  wk_resp :: "byte list option"
  wk_recving :: bool

definition new_work :: work where
  "new_work = \<lparr>wk_state = Work_INIT, wk_msg = None, wk_resp = None, wk_recving = False\<rparr>"

text \<open>The lines that forget the message of the last request.\<close>

definition drop_msg :: "work \<times> nng_msgs \<Rightarrow> (work \<times> nng_msgs) option" where
  "drop_msg st =
     (case st of (w, ms) \<Rightarrow>
        (case wk_msg w of
           None \<Rightarrow> Some (w, ms)
         | Some i \<Rightarrow> do { ms \<leftarrow> nng_msg_clear i ms; Some (w\<lparr>wk_msg := None\<rparr>, ms) }))"

definition wk_senddata :: "int \<Rightarrow> int \<Rightarrow> byte list \<Rightarrow> work \<times> nng_msgs \<Rightarrow> (bool \<times> work \<times> nng_msgs) option" where
  "wk_senddata nnop_alloc nnop_append sendmsg st =
     do {
       (w, ms) \<leftarrow> drop_msg st;
       if nnop_alloc \<noteq> 0 then Some (False, w, ms)
       else do {
         let i = length ms;
         let ms = ms @ [Msg_own []];
         let w = w\<lparr>wk_msg := Some i\<rparr>;
         if nnop_append \<noteq> 0 then Some (False, w, ms)
         else do {
           ms \<leftarrow> nng_msg_append i sendmsg ms;
           ms \<leftarrow> nng_msg_start_send i ms;
           Some (True, w\<lparr>wk_state := Work_SEND\<rparr>, ms)
         }
       }
     }"

section \<open>The answering node\<close>

text \<open>
  The callback, the same for both nodes. On a received message the task of the node is started with it;
  the result of the receive is not looked at, so a failed one is the use of a null message.
\<close>

datatype cb_result = Cb_task nat | Cb_nothing

definition asynCallback :: "int \<Rightarrow> nat option \<Rightarrow> work \<times> nng_msgs \<Rightarrow> (cb_result \<times> work \<times> nng_msgs) option" where
  "asynCallback rv recvd st =
     (case st of (w, ms) \<Rightarrow>
        (case wk_state w of
           Work_RECV \<Rightarrow>
             do {
               msg \<leftarrow> (if rv = 0 then recvd else None);
               Some (Cb_task msg, w\<lparr>wk_recving := False\<rparr>, ms)
             }
         | Work_SEND \<Rightarrow>
             do {
               i \<leftarrow> wk_msg w;
               let ms = nng_msg_sent rv i ms;
               let ms = (if rv \<noteq> 0 then ms[i := Msg_freed] else ms);
               Some (Cb_nothing, w\<lparr>wk_state := Work_RECV, wk_recving := True\<rparr>, ms)
             }
         | _ \<Rightarrow> Some (Cb_nothing, w, ms)))"

text \<open>\<open>AsynRep::messageTask\<close>; \<open>deal\<close> is \<open>dealmsg\<close> of the worker's dealer. An exception ends the task.\<close>

definition rep_messageTask ::
    "(byte list \<Rightarrow> reply) \<Rightarrow> int \<Rightarrow> int \<Rightarrow> nat \<Rightarrow> work \<times> nng_msgs \<Rightarrow> (work \<times> nng_msgs) option" where
  "rep_messageTask deal nnop_alloc nnop_append msg st =
     (case st of (w, ms) \<Rightarrow>
      do {
        let w = w\<lparr>wk_msg := Some msg, wk_state := Work_WAIT\<rparr>;
        recvmsg \<leftarrow> nng_msg_body msg ms;
        case deal recvmsg of
          Rep_throws \<Rightarrow> Some (w, ms)
        | Rep_null \<Rightarrow> None
        | Rep_string p2 \<Rightarrow> map_option snd (wk_senddata nnop_alloc nnop_append p2 (w, ms))
      })"

text \<open>
  A request is answered and the worker receives the next one; the message of the request is emptied, but
  not freed, and nothing points to it any more.
\<close>

lemma rep_cycle:
  assumes "wk_state w = Work_RECV" "msg < length ms" "ms ! msg = Msg_own req" "deal req = Rep_string rep"
  shows "\<exists>w1 ms1 w2. rep_messageTask deal 0 0 msg (w, ms) = Some (w1, ms1)
           \<and> ms1 = ms[msg := Msg_own []] @ [Msg_sending rep]
           \<and> asynCallback 0 None (w1, ms1) = Some (Cb_nothing, w2, ms[msg := Msg_own []] @ [Msg_given])
           \<and> wk_state w2 = Work_RECV \<and> wk_recving w2 \<and> wk_msg w2 = Some (length ms)"
  using assms
  by (simp add: rep_messageTask_def wk_senddata_def drop_msg_def nng_msg_body_def nng_msg_clear_def nng_msg_append_def
      nng_msg_start_send_def asynCallback_def nng_msg_sent_def Let_def list_update_append nth_append)

text \<open>A worker whose handler threw is lost: it waits for nothing.\<close>

lemma rep_worker_lost:
  assumes "msg < length ms" "ms ! msg = Msg_own req" "deal req = Rep_throws"
    and "rep_messageTask deal a b msg (w, ms) = Some (w1, ms1)"
  shows "wk_state w1 = Work_WAIT \<and> wk_recving w1 = wk_recving w
     \<and> asynCallback rv m (w1, ms2) = Some (Cb_nothing, w1, ms2)"
  using assms by (auto simp: rep_messageTask_def nng_msg_body_def asynCallback_def Let_def)

section \<open>The requesting node\<close>

text \<open>
  \<open>work::reqrep\<close> up to its wait: without a subcommand the old message is forgotten before the packing,
  and again in \<open>senddata\<close>; with one only there, and a failed send returns at once. The inner result says
  whether the coroutine waits.
\<close>

definition wk_reqrep :: "(byte list \<Rightarrow> byte list) \<Rightarrow> int \<Rightarrow> int \<Rightarrow> byte list \<Rightarrow> work \<times> nng_msgs \<Rightarrow> (bool \<times> work \<times> nng_msgs) option" where
  "wk_reqrep pack nnop_alloc nnop_append req st =
     do {
       (w, ms) \<leftarrow> drop_msg st;
       (_, w, ms) \<leftarrow> wk_senddata nnop_alloc nnop_append (pack req) (w\<lparr>wk_resp := Some []\<rparr>, ms);
       Some (True, w, ms)
     }"

definition wk_reqrep_assc :: "(byte list \<Rightarrow> byte list) \<Rightarrow> int \<Rightarrow> int \<Rightarrow> byte list \<Rightarrow> work \<times> nng_msgs \<Rightarrow> (bool \<times> work \<times> nng_msgs) option" where
  "wk_reqrep_assc pack nnop_alloc nnop_append req st =
     (case st of (w, ms) \<Rightarrow>
        wk_senddata nnop_alloc nnop_append (pack req) (w\<lparr>wk_resp := Some []\<rparr>, ms))"

text \<open>\<open>AsyncReq::messageTask\<close>: the answer is written through \<open>resp\<close>, and the waiting coroutine is resumed.\<close>

definition req_messageTask :: "(byte list \<Rightarrow> reply) \<Rightarrow> nat \<Rightarrow> work \<times> nng_msgs \<Rightarrow> (work \<times> nng_msgs) option" where
  "req_messageTask unpack msg st =
     (case st of (w, ms) \<Rightarrow>
      do {
        nnmsg \<leftarrow> nng_msg_body msg ms;
        case unpack nnmsg of
          Rep_throws \<Rightarrow> Some (w, ms)
        | Rep_null \<Rightarrow> None
        | Rep_string rep \<Rightarrow> do { _ \<leftarrow> wk_resp w; Some (w\<lparr>wk_resp := Some rep\<rparr>, ms) }
      })"

text \<open>
  \<open>AsyncReq::reqrep\<close> with a worker from its queue, up to its wait. It does not set \<open>resp\<close>, so the answer
  to the first request of a worker is written through a pointer that was never set.
\<close>

definition areq_reqrep :: "(byte list \<Rightarrow> byte list) \<Rightarrow> byte list \<Rightarrow> work \<times> nng_msgs \<Rightarrow> (work \<times> nng_msgs) option" where
  "areq_reqrep pack req st =
     do {
       (w, ms) \<leftarrow> drop_msg st;
       let i = length ms;
       ms \<leftarrow> nng_msg_append i (pack req) (ms @ [Msg_own []]);
       ms \<leftarrow> nng_msg_start_send i ms;
       Some (w\<lparr>wk_msg := Some i, wk_state := Work_SEND\<rparr>, ms)
     }"

lemma areq_answer_undefined:
  assumes "areq_reqrep pack req (new_work, ms) = Some (w1, ms1)" "asynCallback 0 None (w1, ms1) = Some (c, w2, ms2)"
    and "unpack body = Rep_string rep" "nng_msg_body msg ms3 = Some body"
  shows "req_messageTask unpack msg (w2, ms3) = None"
proof -
  have "wk_resp w1 = None" using assms(1) by (auto simp: areq_reqrep_def drop_msg_def new_work_def Let_def Option.bind_eq_Some_conv)
  then have "wk_resp w2 = None"
    using assms(2) by (auto simp: asynCallback_def Let_def Option.bind_eq_Some_conv split: work_state.splits)
  then show ?thesis using assms(3,4) by (simp add: req_messageTask_def)
qed

text \<open>The first request of a worker goes out and its answer comes back.\<close>

lemma first_request:
  assumes "wk_msg w = None" "unpack body = Rep_string rep"
  shows "\<exists>w1 ms1 w2 ms2. wk_reqrep pack 0 0 req (w, ms) = Some (True, w1, ms1) \<and> ms1 = ms @ [Msg_sending (pack req)]
     \<and> asynCallback 0 None (w1, ms1) = Some (Cb_nothing, w2, ms2) \<and> ms2 = ms @ [Msg_given] \<and> wk_msg w2 = Some (length ms)
     \<and> asynCallback 0 (Some (Suc (length ms))) (w2, ms2 @ [Msg_own body]) = Some (Cb_task (Suc (length ms)), w2\<lparr>wk_recving := False\<rparr>, ms2 @ [Msg_own body])
     \<and> (\<exists>w3. req_messageTask unpack (Suc (length ms)) (w2\<lparr>wk_recving := False\<rparr>, ms2 @ [Msg_own body]) = Some (w3, ms2 @ [Msg_own body])
         \<and> wk_resp w3 = Some rep \<and> wk_msg w3 = Some (length ms))"
  using assms
  by (simp add: wk_reqrep_def wk_senddata_def drop_msg_def nng_msg_body_def nng_msg_append_def
      nng_msg_start_send_def asynCallback_def nng_msg_sent_def req_messageTask_def Let_def nth_append)

text \<open>The second one clears the message of the first, which belongs to nng by then.\<close>

lemma second_request_undefined:
  assumes "wk_msg w = Some i" "ms ! i = Msg_given \<or> ms ! i = Msg_freed"
  shows "wk_reqrep pack a b req (w, ms) = None" "wk_reqrep_assc pack a b req (w, ms) = None" "areq_reqrep pack req (w, ms) = None"
  using assms
  by (auto simp: wk_reqrep_def wk_reqrep_assc_def areq_reqrep_def wk_senddata_def drop_msg_def nng_msg_clear_def)

section \<open>The synchronous request\<close>

text \<open>What nng answers to the calls of \<open>SyncReq::reqrep\<close>, and the calls that acquire and release.\<close>

record sync_results =
  sr_open :: int
  sr_dialer_create :: int
  sr_dialer_start :: int
  sr_send :: int
  sr_recv :: int
  sr_rep :: "byte list option"

datatype sync_call = Sy_open | Sy_send "byte list" | Sy_recv | Sy_free | Sy_close

text \<open>The result is the answer and the calls in their order; \<open>dealer\<close> packs and unpacks, or is null.\<close>

definition sync_reqrep ::
    "bool \<Rightarrow> sync_results \<Rightarrow> ((byte list \<Rightarrow> byte list) \<times> (byte list \<Rightarrow> byte list option)) option \<Rightarrow> byte list
     \<Rightarrow> (byte list \<times> sync_call list) option" where
  "sync_reqrep dbg r dealer req =
     (if req = [] then do { assert_that dbg False; Some ([], []) }
      else if sr_open r \<noteq> 0 then Some ([], [])
      else if sr_dialer_create r \<noteq> 0 then Some ([], [Sy_open, Sy_close])
      else if sr_dialer_start r \<noteq> 0 then Some ([], [Sy_open, Sy_close])
      else do {
        assert_that dbg (dealer \<noteq> None);
        case dealer of
          None \<Rightarrow> Some ([], [Sy_open])
        | Some (pack, unpack) \<Rightarrow>
            if sr_send r \<noteq> 0
            then do { assert_that dbg False; Some ([], [Sy_open, Sy_send (pack req), Sy_close]) }
            else if sr_recv r \<noteq> 0
            then do {
              assert_that dbg False;
              Some ([], [Sy_open, Sy_send (pack req), Sy_recv, Sy_close] @ (if sr_rep r \<noteq> None then [Sy_free] else []))
            }
            else do {
              rep \<leftarrow> sr_rep r;
              ret \<leftarrow> unpack rep;
              Some (ret, [Sy_open, Sy_send (pack req), Sy_recv, Sy_free, Sy_close])
            }
      })"

text \<open>With a dealer every socket that was opened is closed, on every path, and every buffer freed.\<close>

lemma sync_reqrep_closes:
  assumes "sync_reqrep dbg r (Some d) req = Some (ret, calls)"
  shows "count_list calls Sy_close = count_list calls Sy_open"
  using assms by (cases d) (auto simp: sync_reqrep_def Option.bind_eq_Some_conv split: if_splits)

lemma sync_reqrep_leaks:
  assumes "req \<noteq> []" "sr_open r = 0" "sr_dialer_create r = 0" "sr_dialer_start r = 0"
  shows "sync_reqrep False r None req = Some ([], [Sy_open])"
  using assms by (simp add: sync_reqrep_def)

lemma sync_reqrep_answer:
  assumes "req \<noteq> []" "sr_open r = 0" "sr_dialer_create r = 0" "sr_dialer_start r = 0" "sr_send r = 0" "sr_recv r = 0"
    and "sr_rep r = Some rep" "unpack rep = Some ret"
  shows "sync_reqrep dbg r (Some (pack, unpack)) req = Some (ret, [Sy_open, Sy_send (pack req), Sy_recv, Sy_free, Sy_close])"
  using assms by (simp add: sync_reqrep_def)

end
