(* ===== verification/HotUpdate.thy ===== *)
theory HotUpdate
  imports TcpChannel
begin

text \<open>
  The cache of files in \<open>src/hotupdate\<close>: \<open>CoEvent\<close>, \<open>fileOp\<close>, \<open>PathMonitorImpl\<close> and \<open>FilePathMonitor\<close>. A
  coroutine is a number. An operation that suspends is cut where it suspends: what other coroutines do
  in between is a sequence of other operations on the state. The size of a file, whether it opens and
  what a read returns are arguments. \<open>uring\<close> says whether asynchronous files are compiled in (Linux and
  Windows builds).
\<close>

section \<open>\<open>CoEvent\<close>\<close>

text \<open>
  The coroutines that wait on the timer, the oldest first. Setting the expiry cancels every wait that is
  pending. Each operation returns the coroutines it resumes.
\<close>

type_synonym coevent = "nat list"

definition ev_async_wait :: "nat \<Rightarrow> coevent \<Rightarrow> nat list \<times> coevent" where
  "ev_async_wait me ev = (ev, [me])"

definition ev_trigger :: "coevent \<Rightarrow> nat list \<times> coevent" where
  "ev_trigger ev = (take 1 ev, drop 1 ev)"

definition ev_trigger_all :: "coevent \<Rightarrow> nat list \<times> coevent" where
  "ev_trigger_all ev = (ev, [])"

datatype ETrigeType = TimeOut | Cancel

definition getEventType :: "bool \<Rightarrow> ETrigeType" where
  "getEventType operation_aborted = (if operation_aborted then Cancel else TimeOut)"

text \<open>A second coroutine that waits wakes the first: an event has at most one.\<close>

lemma one_waiter: "length (snd (ev_async_wait me ev)) = 1" "fst (ev_async_wait me [other]) = [other]"
  by (simp_all add: ev_async_wait_def)

section \<open>\<open>fileOp\<close>\<close>

record file_op =
  fo_path :: string
  fo_datalen :: nat
  fo_datas :: "byte list"
  fo_ev :: coevent

definition new_fileOp :: "string \<Rightarrow> file_op" where
  "new_fileOp path = \<lparr>fo_path = path, fo_datalen = 0, fo_datas = [], fo_ev = []\<rparr>"

text \<open>\<open>sz\<close>: the size on the disk, or \<open>None\<close> if there is no such file or the file system throws.\<close>

definition fo_getFileSize :: "nat option \<Rightarrow> file_op \<Rightarrow> nat \<times> file_op" where
  "fo_getFileSize sz fo =
     (if fo_datalen fo \<noteq> 0 then (fo_datalen fo, fo)
      else let fo = (case sz of None \<Rightarrow> fo | Some n \<Rightarrow> fo\<lparr>fo_datalen := n\<rparr>)
           in (fo_datalen fo, fo))"

text \<open>
  \<open>asyncGetData\<close> up to where it returns or suspends: in the asynchronous read, in the read of the other
  coroutine that \<open>fileOpSync::getData\<close> starts, or on the event.
\<close>

datatype get_state = Get_done "byte list" | Get_reading | Get_sync | Get_waiting

definition fo_asyncGetData :: "bool \<Rightarrow> nat option \<Rightarrow> bool \<Rightarrow> nat \<Rightarrow> file_op \<Rightarrow> get_state \<times> nat list \<times> file_op" where
  "fo_asyncGetData uring sz opens me fo =
     (if fo_datas fo = [] \<and> fo_datalen fo = 0
      then case fo_getFileSize sz fo of (filesize, fo) \<Rightarrow>
             if filesize = 0 then (Get_done [], [], fo)
             else if uring
             then let fo = fo\<lparr>fo_datas := replicate filesize 0\<rparr>
                  in if opens then (Get_reading, [], fo) else (Get_sync, [], fo)
             else (Get_sync, [], fo)
      else if fo_datalen fo > 0 \<and> fo_datas fo = []
      then (case ev_async_wait me (fo_ev fo) of (resumed, ev) \<Rightarrow> (Get_waiting, resumed, fo\<lparr>fo_ev := ev\<rparr>))
      else (Get_done (fo_datas fo), [], fo))"

text \<open>The rest, after the event or the read; a failed read counts as a successful one.\<close>

definition fo_resume :: "file_op \<Rightarrow> byte list" where
  "fo_resume fo = fo_datas fo"

definition fo_finish :: "file_op \<Rightarrow> byte list \<times> nat list \<times> file_op" where
  "fo_finish fo =
     (case ev_trigger_all (fo_ev fo) of (resumed, ev) \<Rightarrow> let fo = fo\<lparr>fo_ev := ev\<rparr> in (fo_resume fo, resumed, fo))"

definition fo_read_done :: "io_read \<Rightarrow> file_op \<Rightarrow> byte list \<times> nat list \<times> file_op" where
  "fo_read_done result fo =
     fo_finish (case result of
                  Got bs \<Rightarrow> fo\<lparr>fo_datas := bs @ drop (length bs) (fo_datas fo)\<rparr>
                | Read_failed \<Rightarrow> fo)"

text \<open>
  \<open>ifs.read\<close> into \<open>&dst[0]\<close>: what was read, or \<open>None\<close> if the file does not open. The string is only long
  enough if the asynchronous variant resized it before.
\<close>

definition fo_sync_done :: "byte list option \<Rightarrow> file_op \<Rightarrow> (byte list \<times> nat list \<times> file_op) option" where
  "fo_sync_done result fo =
     (case result of
        None \<Rightarrow> Some (fo_finish fo)
      | Some bs \<Rightarrow>
          if length bs \<le> length (fo_datas fo)
          then Some (fo_finish (fo\<lparr>fo_datas := bs @ drop (length bs) (fo_datas fo)\<rparr>))
          else None)"

text \<open>A file that is read completely is returned, kept, and returned again without a read.\<close>

lemma load_whole_file:
  assumes "content \<noteq> []"
  shows "\<exists>fo. fo_asyncGetData True (Some (length content)) True me (new_fileOp path) = (Get_reading, [], fo)
           \<and> (\<exists>fo'. fo_read_done (Got content) fo = (content, [], fo')
                \<and> fo_asyncGetData u sz opens you fo' = (Get_done content, [], fo'))"
  using assms
  by (simp add: fo_asyncGetData_def new_fileOp_def fo_getFileSize_def fo_read_done_def fo_finish_def ev_trigger_all_def fo_resume_def)

text \<open>
  The string has its full length before the read is complete, so a request that comes meanwhile is not
  held back: it is answered with zeros.
\<close>

lemma second_reader_gets_zeros:
  assumes "0 < n"
  shows "\<exists>fo. fo_asyncGetData True (Some n) True me (new_fileOp path) = (Get_reading, [], fo)
           \<and> fo_asyncGetData True sz opens you fo = (Get_done (replicate n 0), [], fo)"
  using assms by (auto simp: fo_asyncGetData_def new_fileOp_def fo_getFileSize_def)

text \<open>A read that fails or is short leaves zeros in the cache, and the answer looks like a file.\<close>

lemma failed_read_gives_zeros:
  assumes "0 < n"
  shows "\<exists>fo fo'. fo_asyncGetData True (Some n) True me (new_fileOp path) = (Get_reading, [], fo)
           \<and> fo_read_done Read_failed fo = (replicate n 0, [], fo')"
  using assms
  by (auto simp: fo_asyncGetData_def new_fileOp_def fo_getFileSize_def fo_read_done_def fo_finish_def ev_trigger_all_def fo_resume_def)

lemma short_read_is_padded:
  assumes "length bs < n"
  shows "\<exists>fo fo'. fo_asyncGetData True (Some n) True me (new_fileOp path) = (Get_reading, [], fo)
           \<and> fo_read_done (Got bs) fo = (bs @ replicate (n - length bs) 0, [], fo')"
  using assms
  by (auto simp: fo_asyncGetData_def new_fileOp_def fo_getFileSize_def fo_read_done_def fo_finish_def ev_trigger_all_def fo_resume_def)

text \<open>Without asynchronous files the read goes behind the end of an empty string.\<close>

lemma sync_read_overflows:
  assumes "content \<noteq> []"
  shows "\<exists>fo. fo_asyncGetData False (Some (length content)) opens me (new_fileOp path) = (Get_sync, [], fo)
           \<and> fo_sync_done (Some content) fo = None"
  using assms by (auto simp: fo_asyncGetData_def new_fileOp_def fo_getFileSize_def fo_sync_done_def)

section \<open>Paths\<close>

text \<open>\<open>std::filesystem::path::append\<close>: an absolute path replaces what it is appended to.\<close>

definition path_append :: "string \<Rightarrow> string \<Rightarrow> string" where
  "path_append p q =
     (if q \<noteq> [] \<and> hd q = CHR ''/'' then q
      else if p = [] \<or> last p = CHR ''/'' then p @ q else p @ ''/'' @ q)"

text \<open>The request path from its second character on, as a C string, below the root of the resources.\<close>

definition resource_path :: "string \<Rightarrow> string \<Rightarrow> string" where
  "resource_path root path = path_append root (takeWhile (\<lambda>c. c \<noteq> CHR 0x00) (drop 1 path))"

lemma resource_path_below_root:
  assumes "length path < 2 \<or> path ! 1 \<noteq> CHR ''/''"
  shows "\<exists>rest. resource_path root path = root @ rest"
proof -
  let ?q = "takeWhile (\<lambda>c. c \<noteq> CHR 0x00) (drop 1 path)"
  have "\<not> (?q \<noteq> [] \<and> hd ?q = CHR ''/'')"
    using assms by (cases path; cases "tl path") auto
  then show ?thesis by (auto simp: resource_path_def path_append_def)
qed

lemma resource_path_escapes: "resource_path root (CHR ''/'' # CHR ''/'' # ''etc/passwd'') = ''/etc/passwd''"
  by (simp add: resource_path_def path_append_def)

section \<open>\<open>FilePathMonitor\<close>\<close>

text \<open>Where the coroutine \<open>waitHotUpdate\<close> is: in the wait, in the loop over the queue, or between the two.\<close>

datatype update_pc = Pc_wait | Pc_drain | Pc_rearm

record path_monitor =
  fm_root :: string
  fm_files :: "string \<rightharpoonup> file_op"
  fm_paths :: "string list"
  fm_pathsUpdate :: "string list"
  fm_pc :: update_pc

definition fm_addMonitor :: "string \<Rightarrow> path_monitor \<Rightarrow> bool \<times> path_monitor" where
  "fm_addMonitor path fm =
     (if path \<in> set (fm_paths fm) then (True, fm) else (True, fm\<lparr>fm_paths := path # fm_paths fm\<rparr>))"

text \<open>The watcher's thread: the path is queued and the coroutine resumed if it waits.\<close>

definition fm_notify :: "string \<Rightarrow> path_monitor \<Rightarrow> path_monitor" where
  "fm_notify path fm =
     fm\<lparr>fm_pathsUpdate := fm_pathsUpdate fm @ [path], fm_pc := (if fm_pc fm = Pc_wait then Pc_drain else fm_pc fm)\<rparr>"

datatype watch_action = Act_Add | Act_Delete | Act_Modified | Act_Moved

definition handleFileAction :: "string \<Rightarrow> string \<Rightarrow> watch_action \<Rightarrow> path_monitor \<Rightarrow> path_monitor" where
  "handleFileAction dir filename action fm =
     (case action of Act_Modified \<Rightarrow> fm_notify (path_append dir filename) fm | _ \<Rightarrow> fm)"

definition fm_insert :: "string \<Rightarrow> path_monitor \<Rightarrow> file_op \<times> path_monitor" where
  "fm_insert absPath fm =
     (case fm_files fm absPath of
        Some filex \<Rightarrow> (filex, fm)
      | None \<Rightarrow> let filex = new_fileOp absPath in (filex, fm\<lparr>fm_files := (fm_files fm)(absPath \<mapsto> filex)\<rparr>))"

definition fm_set :: "string \<Rightarrow> file_op \<Rightarrow> path_monitor \<Rightarrow> path_monitor" where
  "fm_set absPath filex fm = fm\<lparr>fm_files := (fm_files fm)(absPath \<mapsto> filex)\<rparr>"

text \<open>\<open>asyncGetResource\<close> up to its return or the suspension in \<open>asyncGetData\<close>.\<close>

definition fm_asyncGetResource ::
    "bool \<Rightarrow> bool \<Rightarrow> nat option \<Rightarrow> bool \<Rightarrow> nat \<Rightarrow> string \<Rightarrow> path_monitor \<Rightarrow> (get_state \<times> nat list \<times> path_monitor) option" where
  "fm_asyncGetResource dbg uring sz opens me path fm =
     (if dbg \<and> path = [] then None
      else if path = [] \<or> path ! 0 \<noteq> CHR ''/'' then Some (Get_done [], [], fm)
      else let absPath = resource_path (fm_root fm) path
           in case fm_insert absPath fm of (filex, fm) \<Rightarrow>
              case fo_asyncGetData uring sz opens me filex of (g, resumed, filex) \<Rightarrow>
                Some (g, resumed, fm_set absPath filex fm))"

definition fm_read_done :: "string \<Rightarrow> io_read \<Rightarrow> path_monitor \<Rightarrow> (byte list \<times> nat list \<times> path_monitor) option" where
  "fm_read_done path result fm =
     (let absPath = resource_path (fm_root fm) path
      in map_option (\<lambda>filex. case fo_read_done result filex of (rep, resumed, filex) \<Rightarrow> (rep, resumed, fm_set absPath filex fm))
           (fm_files fm absPath))"

text \<open>The steps of \<open>waitHotUpdate\<close>, one call of the queue at a time, and the watcher between them.\<close>

inductive fm_step :: "path_monitor \<Rightarrow> path_monitor \<Rightarrow> bool" where
  fm_timeout: "fm_pc fm = Pc_wait \<Longrightarrow> fm_step fm (fm\<lparr>fm_pc := Pc_drain\<rparr>)"
| fm_dequeue: "fm_pc fm = Pc_drain \<Longrightarrow> fm_pathsUpdate fm = p # ps \<Longrightarrow>
    fm_step fm (fm\<lparr>fm_pathsUpdate := ps, fm_files := (fm_files fm)(p := None)\<rparr>)"
| fm_empty: "fm_pc fm = Pc_drain \<Longrightarrow> fm_pathsUpdate fm = [] \<Longrightarrow> fm_step fm (fm\<lparr>fm_pc := Pc_rearm\<rparr>)"
| fm_rearm: "fm_pc fm = Pc_rearm \<Longrightarrow> fm_step fm (fm\<lparr>fm_pc := Pc_wait\<rparr>)"
| fm_modified: "fm_step fm (handleFileAction dir filename action fm)"

text \<open>A round of the coroutine that is not disturbed.\<close>

definition fm_round :: "path_monitor \<Rightarrow> path_monitor" where
  "fm_round fm = fm\<lparr>fm_files := fm_files fm |` (- set (fm_pathsUpdate fm)), fm_pathsUpdate := [], fm_pc := Pc_wait\<rparr>"

lemma fm_round_steps: "fm_pc fm = Pc_drain \<Longrightarrow> fm_step\<^sup>*\<^sup>* fm (fm_round fm)"
proof (induction "fm_pathsUpdate fm" arbitrary: fm)
  case Nil
  have "fm_step fm (fm\<lparr>fm_pc := Pc_rearm\<rparr>)" using Nil by (auto intro: fm_empty)
  moreover have "fm_step (fm\<lparr>fm_pc := Pc_rearm\<rparr>) (fm\<lparr>fm_pc := Pc_wait\<rparr>)" using fm_rearm [of "fm\<lparr>fm_pc := Pc_rearm\<rparr>"] by simp
  moreover have "fm_round fm = fm\<lparr>fm_pc := Pc_wait\<rparr>" using Nil by (cases fm) (simp add: fm_round_def restrict_map_def)
  ultimately show ?case by simp
next
  case (Cons p ps)
  let ?fm = "fm\<lparr>fm_pathsUpdate := ps, fm_files := (fm_files fm)(p := None)\<rparr>"
  have "fm_step fm ?fm" using Cons.prems Cons.hyps(2) by (auto intro: fm_dequeue)
  moreover have "fm_step\<^sup>*\<^sup>* ?fm (fm_round ?fm)" by (rule Cons.hyps(1)) (use Cons.prems in simp_all)
  moreover have "((fm_files fm)(p := None)) |` (- set ps) = fm_files fm |` (- insert p (set ps))"
    by (auto simp: restrict_map_def fun_eq_iff)
  then have "fm_round ?fm = fm_round fm" using Cons.hyps(2) [symmetric] by (simp add: fm_round_def del: fun_upd_restrict)
  ultimately show ?case by simp
qed

text \<open>
  A change that is reported between the last call of the queue and the wait does not wake the coroutine:
  it waits although the queue is not empty, and the old content is served until the next change.
\<close>

lemma lost_update:
  assumes "fm_pc fm = Pc_rearm"
  shows "\<exists>fm'. fm_step\<^sup>*\<^sup>* fm fm' \<and> fm_pc fm' = Pc_wait \<and> path_append dir name \<in> set (fm_pathsUpdate fm') \<and> fm_files fm' = fm_files fm"
proof -
  let ?fm = "handleFileAction dir name Act_Modified fm"
  have "fm_pc ?fm = Pc_rearm" using assms by (simp add: handleFileAction_def fm_notify_def)
  then have "fm_step\<^sup>*\<^sup>* fm (?fm\<lparr>fm_pc := Pc_wait\<rparr>)"
    using fm_modified [of fm dir name Act_Modified] fm_rearm [of ?fm] by (meson converse_rtranclp_into_rtranclp rtranclp.rtrancl_refl)
  then show ?thesis
    by (intro exI [of _ "?fm\<lparr>fm_pc := Pc_wait\<rparr>"]) (simp add: handleFileAction_def fm_notify_def)
qed

section \<open>Serving a file again after it changed\<close>

lemma get_cached:
  assumes "path \<noteq> []" "path ! 0 = CHR ''/''" "fm_files fm (resource_path (fm_root fm) path) = Some filex" "fo_datas filex \<noteq> []"
  shows "fm_asyncGetResource dbg uring sz opens me path fm = Some (Get_done (fo_datas filex), [], fm)"
proof -
  have "(fm_files fm)(resource_path (fm_root fm) path \<mapsto> filex) = fm_files fm" using assms(3) by auto
  then show ?thesis
    using assms by (simp add: fm_asyncGetResource_def fm_insert_def fo_asyncGetData_def fm_set_def Let_def)
qed

lemma get_loads:
  assumes "path \<noteq> []" "path ! 0 = CHR ''/''" "fm_files fm (resource_path (fm_root fm) path) = None" "content \<noteq> []"
  shows "\<exists>fm1 fm2 filex. fm_asyncGetResource dbg True (Some (length content)) True me path fm = Some (Get_reading, [], fm1)
           \<and> fm_read_done path (Got content) fm1 = Some (content, [], fm2)
           \<and> fm_root fm2 = fm_root fm \<and> fm_files fm2 = (fm_files fm)(resource_path (fm_root fm) path \<mapsto> filex) \<and> fo_datas filex = content"
  using assms
  by (simp add: fm_asyncGetResource_def fm_insert_def fm_set_def Let_def fo_asyncGetData_def new_fileOp_def
      fo_getFileSize_def fm_read_done_def fo_read_done_def fo_finish_def ev_trigger_all_def fo_resume_def)
    (rule exI, rule conjI, rule refl, simp)


definition ex_monitor :: path_monitor where
  "ex_monitor = \<lparr>fm_root = ''res'', fm_files = [''res/a'' \<mapsto> \<lparr>fo_path = ''res/a'', fo_datalen = 2, fo_datas = [1, 2], fo_ev = []\<rparr>],
     fm_paths = [''res''], fm_pathsUpdate = [], fm_pc = Pc_wait\<rparr>"


end
