(* ===== verification/LocalChannel.thy ===== *)
theory LocalChannel
  imports HotUpdate
begin

text \<open>
  \<open>src/networkinterface/LocalNetChannel.cpp\<close>: a queue of frames with an event. Coroutine 0 is the one that
  \<open>start\<close> spawns, which waits on the event again and again.
\<close>

record local_channel =
  lch_brun :: bool
  lch_frames :: "byte list list"
  lch_ev :: coevent

definition new_LocalNetChannel :: local_channel where
  "new_LocalNetChannel = \<lparr>lch_brun = True, lch_frames = [], lch_ev = []\<rparr>"

text \<open>One turn of the loop of \<open>start\<close>: the coroutines its wait resumes.\<close>

definition lch_start_turn :: "local_channel \<Rightarrow> nat list \<times> local_channel" where
  "lch_start_turn st =
     (if lch_brun st then case ev_async_wait 0 (lch_ev st) of (resumed, ev) \<Rightarrow> (resumed, st\<lparr>lch_ev := ev\<rparr>) else ([], st))"

definition lch_stop :: "local_channel \<Rightarrow> nat list \<times> local_channel" where
  "lch_stop st = (case ev_trigger (lch_ev st) of (resumed, ev) \<Rightarrow> (resumed, st\<lparr>lch_brun := False, lch_ev := ev\<rparr>))"

definition lch_sendMessage :: "byte list \<Rightarrow> local_channel \<Rightarrow> nat list \<times> local_channel" where
  "lch_sendMessage msg st =
     (let neednotify = (lch_frames st = []); st = st\<lparr>lch_frames := lch_frames st @ [msg]\<rparr>
      in if neednotify then (case ev_trigger (lch_ev st) of (resumed, ev) \<Rightarrow> (resumed, st\<lparr>lch_ev := ev\<rparr>)) else ([], st))"

text \<open>\<open>recvPack\<close> of coroutine \<open>me\<close> up to its wait (\<open>None\<close>) or its result, and the rest of it after the wait.\<close>

definition lch_recv_rest :: "local_channel \<Rightarrow> byte list option \<times> local_channel" where
  "lch_recv_rest st = (case lch_frames st of [] \<Rightarrow> (None, st) | msg # q \<Rightarrow> (Some msg, st\<lparr>lch_frames := q\<rparr>))"

definition lch_recvPack :: "nat \<Rightarrow> local_channel \<Rightarrow> byte list option option \<times> nat list \<times> local_channel" where
  "lch_recvPack me st =
     (if lch_frames st = [] then (case ev_async_wait me (lch_ev st) of (resumed, ev) \<Rightarrow> (None, resumed, st\<lparr>lch_ev := ev\<rparr>))
      else case lch_recv_rest st of (r, st) \<Rightarrow> (Some r, [], st))"

text \<open>Frames come out in the order they were put in.\<close>

lemma frames_in_order:
  "lch_recv_rest (snd (lch_sendMessage m st)) =
     (case lch_frames st of
        [] \<Rightarrow> (Some m, (snd (lch_sendMessage m st))\<lparr>lch_frames := []\<rparr>)
      | f # fs \<Rightarrow> (Some f, st\<lparr>lch_frames := fs @ [m]\<rparr>))"
  by (auto simp: lch_recv_rest_def lch_sendMessage_def Let_def split: list.split prod.split)

text \<open>
  A channel that was started does not hold a receiver: its wait resumes the coroutine of \<open>start\<close>, whose
  next wait resumes the receiver, which finds no frame and returns null.
\<close>

lemma receiver_not_held:
  assumes "lch_brun st" "lch_frames st = []" "lch_ev st = [0]"
  shows "\<exists>st1 st2. lch_recvPack me st = (None, [0], st1) \<and> lch_start_turn st1 = ([me], st2)
           \<and> fst (lch_recv_rest st2) = None \<and> lch_ev st2 = [0]"
  using assms by (simp add: lch_recvPack_def lch_start_turn_def ev_async_wait_def lch_recv_rest_def)

end
