(* ===== verification/Accounts.thy ===== *)
theory Accounts
  imports Prelude "HOL-Library.Multiset" "HOL-Library.AList"
begin

text \<open>
  User accounts: the requests of \<open>src/inc/reqreps.h\<close>, the functions on the tables of
  \<open>src/database/CommonDBProcess.cpp\<close>, \<open>UserManager.cpp\<close>, and the tokens of \<open>networkinterface.cpp\<close>.

  A table is a value of any type with three statements, which a database and the library sqlpp execute;
  \<open>None\<close> says that the statement throws. What the code relies on is \<open>sql_ok\<close>: a statement that does not
  throw selects, inserts or removes the rows its condition says, in an order that is not fixed. A function
  whose result is \<open>None\<close> lets an exception pass. Tokens are made and checked by jwt-cpp, a parameter.
\<close>

declare neq0_conv [iff del]

section \<open>Tables\<close>

record ('t, 'r) sql =
  sql_select :: "('r \<Rightarrow> bool) \<Rightarrow> 't \<Rightarrow> 'r list option"
  sql_insert :: "'r \<Rightarrow> 't \<Rightarrow> 't option"
  sql_remove :: "('r \<Rightarrow> bool) \<Rightarrow> 't \<Rightarrow> 't option"

definition sql_ok :: "('t, 'r) sql \<Rightarrow> ('t \<Rightarrow> 'r multiset) \<Rightarrow> bool" where
  "sql_ok S rows \<longleftrightarrow>
     (\<forall>P t rs. sql_select S P t = Some rs \<longrightarrow> mset rs = filter_mset P (rows t))
     \<and> (\<forall>r t t'. sql_insert S r t = Some t' \<longrightarrow> rows t' = add_mset r (rows t))
     \<and> (\<forall>P t t'. sql_remove S P t = Some t' \<longrightarrow> rows t' = filter_mset (\<lambda>r. \<not> P r) (rows t))"

lemma sql_okD:
  assumes "sql_ok S rows"
  shows "sql_select S P t = Some rs \<Longrightarrow> mset rs = filter_mset P (rows t)"
    and "sql_insert S r t = Some t' \<Longrightarrow> rows t' = add_mset r (rows t)"
    and "sql_remove S P t = Some t' \<Longrightarrow> rows t' = filter_mset (\<lambda>r. \<not> P r) (rows t)"
  using assms unfolding sql_ok_def by blast+

text \<open>A table in memory: the statements of a database that never fails.\<close>

definition list_sql :: "('r list, 'r) sql" where
  "list_sql = \<lparr>sql_select = \<lambda>P t. Some (filter P t), sql_insert = \<lambda>r t. Some (t @ [r]),
               sql_remove = \<lambda>P t. Some (filter (\<lambda>r. \<not> P r) t)\<rparr>"

lemma list_sql_ok: "sql_ok list_sql mset"
  by (auto simp: sql_ok_def list_sql_def)

record user_row =
  us_name :: string
  us_passwd :: string
  us_phone :: string
  us_expiredate :: "int option"

record admin_row =
  sa_user :: string
  sa_phone :: string
  sa_admin :: string
  sa_role :: int

section \<open>Requests and replies\<close>

datatype statusCode =
    Status_ok | Status_invalidUserOrPhone | Status_sqlExecuteFailed | Status_jwtCheckFailed | Status_registNameRepeat
  | Status_wrongUserOrPhoneOrPass | Status_invalidJson | Status_networkError | Status_sendDBQueryExecFailed | Status_needNextRouter

fun status_code :: "statusCode \<Rightarrow> int" where
  "status_code Status_ok = 20000"
| "status_code Status_invalidUserOrPhone = 30000"
| "status_code Status_sqlExecuteFailed = 30001"
| "status_code Status_jwtCheckFailed = 30002"
| "status_code Status_registNameRepeat = 30003"
| "status_code Status_wrongUserOrPhoneOrPass = 30004"
| "status_code Status_invalidJson = 40000"
| "status_code Status_networkError = 40001"
| "status_code Status_sendDBQueryExecFailed = 40002"
| "status_code Status_needNextRouter = 50000"

lemma status_code_inj: "status_code a = status_code b \<longleftrightarrow> a = b"
  by (cases a; cases b) simp_all

text \<open>Every request has a token and every reply a code, which is \<open>ok\<close> until it is set.\<close>

record request =
  rq_token :: string

record reply_base =
  rp_code :: int

record RegistReq = request +
  rg_username :: string
  rg_password :: string
  rg_phone :: string

record LoginReq = request +
  lg_username :: string
  lg_phone :: string
  lg_password :: string

record RegistRep = reply_base +
  rgp_user :: string
  rgp_token :: string

record LoginRep = reply_base +
  lgp_username :: string
  lgp_token :: string

record userItemRep =
  ui_user :: string
  ui_phone :: string

record getAllUserRep = reply_base +
  gau_users :: "userItemRep list"

record sysAdminItem =
  ad_name :: string
  ad_role :: int

record sysAdminReq = request +
  sr_user :: string
  sr_phone :: string
  sr_admins :: "sysAdminItem list"

record getSysAdminReq = request +
  gs_user :: string
  gs_phone :: string

record getSysAdminRep = reply_base +
  gsp_user :: string
  gsp_phone :: string
  gsp_admins :: "sysAdminItem list"

record getUserGenInfoReq = request +
  gi_fromdb :: int
  gi_user :: string
  gi_phone :: string

record UserGenInfoItem =
  it_user :: string
  it_phone :: string
  it_expire :: int

record getUserGenInfoRep = reply_base +
  gip_users :: "UserGenInfoItem list"

definition new_RegistRep :: RegistRep where
  "new_RegistRep = \<lparr>rp_code = status_code Status_ok, rgp_user = [], rgp_token = []\<rparr>"

definition new_LoginRep :: LoginRep where
  "new_LoginRep = \<lparr>rp_code = status_code Status_ok, lgp_username = [], lgp_token = []\<rparr>"

definition new_getSysAdminRep :: getSysAdminRep where
  "new_getSysAdminRep = \<lparr>rp_code = status_code Status_ok, gsp_user = [], gsp_phone = [], gsp_admins = []\<rparr>"

definition new_getUserGenInfoRep :: getUserGenInfoRep where
  "new_getUserGenInfoRep = \<lparr>rp_code = status_code Status_ok, gip_users = []\<rparr>"

section \<open>Tokens\<close>

text \<open>
  \<open>jwt_create\<close> gets the issuer, the type, the time of expiry if one is set, a claim and the key; \<open>jwt_verify\<close> the
  key, the issuer, the time and the token, and returns the error code or throws.
\<close>

record jwt =
  jwt_create :: "string \<Rightarrow> string \<Rightarrow> int option \<Rightarrow> string \<times> string \<Rightarrow> string \<Rightarrow> string"
  jwt_verify :: "string \<Rightarrow> string \<Rightarrow> int \<Rightarrow> string \<Rightarrow> int option"

record jwt_config =
  jc_issuer :: string
  jc_type :: string
  jc_key :: string
  jc_expiresecond :: int

definition isjwttokenright :: "jwt \<Rightarrow> jwt_config \<Rightarrow> int \<Rightarrow> string \<Rightarrow> bool" where
  "isjwttokenright J conf now token =
     (if token = [] then False
      else case jwt_verify J (jc_key conf) (jc_issuer conf) now token of
             None \<Rightarrow> False
           | Some ec \<Rightarrow> if ec = 0 then True else False)"

definition getjwttoken :: "jwt \<Rightarrow> jwt_config \<Rightarrow> int \<Rightarrow> string" where
  "getjwttoken J conf now =
     jwt_create J (jc_issuer conf) (jc_type conf) (Some (now + jc_expiresecond conf)) (''name'', ''alqaz'') (jc_key conf)"

text \<open>
  What jwt-cpp documents: a token that was made with the key and the issuer is verified until it expires,
  one of another issuer is not; a token is not an empty string.
\<close>

definition jwt_ok :: "jwt \<Rightarrow> bool" where
  "jwt_ok J \<longleftrightarrow>
     (\<forall>issuer ty expires claim key. jwt_create J issuer ty expires claim key \<noteq> [])
     \<and> (\<forall>issuer ty expires claim key now. (\<forall>e. expires = Some e \<longrightarrow> now < e) \<longrightarrow>
          jwt_verify J key issuer now (jwt_create J issuer ty expires claim key) = Some 0)
     \<and> (\<forall>issuer issuer' ty expires claim key key' now. issuer' \<noteq> issuer \<longrightarrow>
          jwt_verify J key' issuer' now (jwt_create J issuer ty expires claim key) \<noteq> Some 0)"

lemma login_token_right:
  assumes "jwt_ok J" "now' < now + jc_expiresecond conf"
  shows "isjwttokenright J conf now' (getjwttoken J conf now)"
  using assms by (simp add: jwt_ok_def isjwttokenright_def getjwttoken_def)


section \<open>Users\<close>

text \<open>
  \<open>sregist\<close> runs on a thread of its own: the test whether the name is taken and the insertion are two
  statements. The token it returns is signed with a fixed key.
\<close>

definition sregist_count :: "('t, user_row) sql \<Rightarrow> RegistReq \<Rightarrow> 't \<Rightarrow> nat option" where
  "sregist_count S req t = map_option length (sql_select S (\<lambda>user. us_name user = rg_username req) t)"

definition sregist_rest :: "('t, user_row) sql \<Rightarrow> jwt \<Rightarrow> RegistReq \<Rightarrow> nat \<Rightarrow> 't \<Rightarrow> RegistRep option \<times> 't" where
  "sregist_rest S J req cnt t =
     (if cnt \<noteq> 0
      then (Some (new_RegistRep\<lparr>rp_code := status_code Status_registNameRepeat, rgp_user := rg_username req\<rparr>), t)
      else case sql_insert S \<lparr>us_name = rg_username req, us_passwd = rg_password req, us_phone = rg_phone req,
                              us_expiredate = None\<rparr> t of
             None \<Rightarrow> (None, t)
           | Some t \<Rightarrow>
               (Some (new_RegistRep\<lparr>rgp_token := jwt_create J ''alqaz'' ''JWS'' None (''sample'', ''test'') ''key'',
                                    rgp_user := rg_username req\<rparr>), t))"

definition sregist :: "('t, user_row) sql \<Rightarrow> jwt \<Rightarrow> RegistReq \<Rightarrow> 't \<Rightarrow> RegistRep option \<times> 't" where
  "sregist S J req t =
     (case sregist_count S req t of None \<Rightarrow> (None, t) | Some cnt \<Rightarrow> sregist_rest S J req cnt t)"

text \<open>\<open>slogin\<close>: with a name and a phone the count is computed and not looked at.\<close>

definition slogin_check :: "('t, user_row) sql \<Rightarrow> LoginReq \<Rightarrow> 't \<Rightarrow> (bool \<times> LoginRep) option" where
  "slogin_check S req t =
     (let rep = new_LoginRep\<lparr>lgp_username := lg_username req\<rparr> in
      if lg_username req \<noteq> [] \<and> lg_phone req \<noteq> [] then
        (case sql_select S (\<lambda>user. us_name user = lg_username req \<and> us_passwd user = lg_password req \<and> us_phone user = lg_phone req) t of
           None \<Rightarrow> None | Some cnt \<Rightarrow> Some (False, rep\<lparr>lgp_username := lg_username req\<rparr>))
      else if lg_username req \<noteq> [] then
        (case sql_select S (\<lambda>user. us_name user = lg_username req \<and> us_passwd user = lg_password req) t of
           None \<Rightarrow> None
         | Some [] \<Rightarrow> Some (False, rep)
         | Some (row # _) \<Rightarrow> Some (True, rep\<lparr>lgp_username := us_name row\<rparr>))
      else
        (case sql_select S (\<lambda>user. us_phone user = lg_phone req \<and> us_passwd user = lg_password req) t of
           None \<Rightarrow> None
         | Some [] \<Rightarrow> Some (False, rep)
         | Some (row # _) \<Rightarrow> Some (True, rep\<lparr>lgp_username := us_name row\<rparr>)))"

definition slogin :: "('t, user_row) sql \<Rightarrow> jwt \<Rightarrow> jwt_config \<Rightarrow> int \<Rightarrow> LoginReq \<Rightarrow> 't \<Rightarrow> LoginRep option" where
  "slogin S J conf now req t =
     (if lg_username req = [] \<and> lg_phone req = []
      then Some (new_LoginRep\<lparr>rp_code := status_code Status_invalidUserOrPhone\<rparr>)
      else case slogin_check S req t of
             None \<Rightarrow> None
           | Some (bchecked, rep) \<Rightarrow>
               Some (if \<not> bchecked then rep\<lparr>rp_code := status_code Status_wrongUserOrPhoneOrPass\<rparr>
                     else rep\<lparr>lgp_token := getjwttoken J conf now\<rparr>))"

definition sgetAllUsers :: "('t, user_row) sql \<Rightarrow> 't \<Rightarrow> getAllUserRep option" where
  "sgetAllUsers S t =
     map_option (\<lambda>rows. \<lparr>rp_code = status_code Status_ok,
                         gau_users = map (\<lambda>row. \<lparr>ui_user = us_name row, ui_phone = us_phone row\<rparr>) rows\<rparr>)
       (sql_select S (\<lambda>_. True) t)"

section \<open>Administrators\<close>

definition admin_is :: "sysAdminReq \<Rightarrow> sysAdminItem \<Rightarrow> admin_row \<Rightarrow> bool" where
  "admin_is req i user \<longleftrightarrow>
     sa_user user = sr_user req \<and> sa_phone user = sr_phone req \<and> sa_admin user = ad_name i \<and> sa_role user = ad_role i"

definition admin_row_of :: "sysAdminReq \<Rightarrow> sysAdminItem \<Rightarrow> admin_row" where
  "admin_row_of req i = \<lparr>sa_user = sr_user req, sa_phone = sr_phone req, sa_admin = ad_name i, sa_role = ad_role i\<rparr>"

text \<open>The loops; an exception ends them, what was done before stays.\<close>

fun add_admins :: "('t, admin_row) sql \<Rightarrow> sysAdminReq \<Rightarrow> sysAdminItem list \<Rightarrow> 't \<Rightarrow> bool \<times> 't" where
  "add_admins S req [] t = (True, t)"
| "add_admins S req (i # is) t =
     (case sql_select S (admin_is req i) t of
        None \<Rightarrow> (False, t)
      | Some cnt \<Rightarrow>
          if length cnt = 0
          then (case sql_insert S (admin_row_of req i) t of None \<Rightarrow> (False, t) | Some t \<Rightarrow> add_admins S req is t)
          else add_admins S req is t)"

fun del_admins :: "('t, admin_row) sql \<Rightarrow> sysAdminReq \<Rightarrow> sysAdminItem list \<Rightarrow> 't \<Rightarrow> bool \<times> 't" where
  "del_admins S req [] t = (True, t)"
| "del_admins S req (i # is) t =
     (case sql_remove S (admin_is req i) t of None \<Rightarrow> (False, t) | Some t \<Rightarrow> del_admins S req is t)"

definition ok_or_throw :: "bool \<Rightarrow> reply_base option" where
  "ok_or_throw b = (if b then Some \<lparr>rp_code = status_code Status_ok\<rparr> else None)"

definition saddSysAdmin :: "('t, admin_row) sql \<Rightarrow> sysAdminReq \<Rightarrow> 't \<Rightarrow> reply_base option \<times> 't" where
  "saddSysAdmin S req t = apfst ok_or_throw (add_admins S req (sr_admins req) t)"

definition sdelSysAdmin :: "('t, admin_row) sql \<Rightarrow> sysAdminReq \<Rightarrow> 't \<Rightarrow> reply_base option \<times> 't" where
  "sdelSysAdmin S req t = apfst ok_or_throw (del_admins S req (sr_admins req) t)"

definition sgetSysAdmin :: "('t, admin_row) sql \<Rightarrow> getSysAdminReq \<Rightarrow> 't \<Rightarrow> getSysAdminRep option" where
  "sgetSysAdmin S req t =
     map_option (\<lambda>rows. new_getSysAdminRep\<lparr>gsp_admins := map (\<lambda>row. \<lparr>ad_name = sa_admin row, ad_role = sa_role row\<rparr>) rows\<rparr>)
       (sql_select S (\<lambda>user. sa_user user = gs_user req \<and> sa_phone user = gs_phone req) t)"

section \<open>The cache of users by phone\<close>

text \<open>
  \<open>null_value\<close> is what \<open>value()\<close> of an empty date gives, \<open>None\<close> if it throws; the count is cut to an \<open>int\<close>.
  A map inside the cache is cleared before each insertion, so it has one entry and its order does not
  matter.
\<close>

type_synonym gen_users = "string \<rightharpoonup> (string \<times> UserGenInfoItem) list"

definition gen_item :: "int option \<Rightarrow> user_row \<Rightarrow> UserGenInfoItem option" where
  "gen_item null_value row =
     map_option (\<lambda>c. \<lparr>it_user = us_name row, it_phone = us_phone row, it_expire = sint (word_of_int c :: u32)\<rparr>)
       (case us_expiredate row of None \<Rightarrow> null_value | Some c \<Rightarrow> Some c)"

fun fill_cache :: "int option \<Rightarrow> user_row list \<Rightarrow> gen_users \<Rightarrow> bool \<times> gen_users" where
  "fill_cache null_value [] gen = (True, gen)"
| "fill_cache null_value (row # rows) gen =
     (case gen_item null_value row of
        None \<Rightarrow> (False, gen)
      | Some i \<Rightarrow>
          let gen = gen(it_phone i \<mapsto> []);
              gen = gen(it_phone i \<mapsto> AList.update (it_user i) i (the (gen (it_phone i))))
          in fill_cache null_value rows gen)"

definition sgetUserGenInfo ::
    "('t, user_row) sql \<Rightarrow> int option \<Rightarrow> getUserGenInfoReq \<Rightarrow> 't \<Rightarrow> gen_users \<Rightarrow> getUserGenInfoRep option \<times> gen_users" where
  "sgetUserGenInfo S null_value req t gen =
     (let rep = new_getUserGenInfoRep in
      if gi_fromdb req \<noteq> 0 then
        (case sql_select S (\<lambda>user. (gi_user req \<noteq> [] \<longrightarrow> us_name user = gi_user req) \<and> (gi_phone req \<noteq> [] \<longrightarrow> us_phone user = gi_phone req)) t of
           None \<Rightarrow> (None, gen)
         | Some rows \<Rightarrow> (case fill_cache null_value rows gen of (ok, gen) \<Rightarrow> (if ok then Some rep else None, gen)))
      else
        (case gen (gi_phone req) of
           None \<Rightarrow> (Some (rep\<lparr>rp_code := 20002\<rparr>), gen)
         | Some it1 \<Rightarrow>
             let rep = (if gi_user req \<noteq> []
                        then case map_of it1 (gi_user req) of
                               Some i \<Rightarrow> rep\<lparr>gip_users := gip_users rep @ [i]\<rparr>
                             | None \<Rightarrow> rep\<lparr>rp_code := 20001\<rparr>
                        else rep)
             in (Some (rep\<lparr>gip_users := gip_users rep @ map snd it1\<rparr>), gen)))"

text \<open>\<open>UserManager.cpp\<close>: a map from phones; adding to a phone that is there replaces its entry and reports failure.\<close>

type_synonym user_manager = "string \<rightharpoonup> UserGenInfoItem"

definition getUserInfo :: "string \<Rightarrow> user_manager \<Rightarrow> UserGenInfoItem option" where
  "getUserInfo phone um = um phone"

definition addUserInfo :: "string \<Rightarrow> UserGenInfoItem \<Rightarrow> user_manager \<Rightarrow> bool \<times> user_manager" where
  "addUserInfo phone info um =
     (if phone \<in> dom um then (False, um(phone \<mapsto> info)) else (True, um(phone \<mapsto> info)))"

lemma getUserInfo_add:
  "getUserInfo p (snd (addUserInfo phone info um)) = (if p = phone then Some info else getUserInfo p um)"
  "fst (addUserInfo phone info um) \<longleftrightarrow> getUserInfo phone um = None"
  by (auto simp: getUserInfo_def addUserInfo_def)


section \<open>What the user table holds\<close>

definition new_row :: "RegistReq \<Rightarrow> user_row" where
  "new_row req = \<lparr>us_name = rg_username req, us_passwd = rg_password req, us_phone = rg_phone req, us_expiredate = None\<rparr>"

definition names_unique :: "user_row multiset \<Rightarrow> bool" where
  "names_unique rows \<longleftrightarrow> (\<forall>n. size {#r \<in># rows. us_name r = n#} \<le> 1)"

definition name_taken :: "string \<Rightarrow> user_row multiset \<Rightarrow> bool" where
  "name_taken n rows \<longleftrightarrow> (\<exists>r \<in># rows. us_name r = n)"

lemma sregist_count_zero:
  assumes "sql_ok S rows" "sregist_count S req t = Some cnt"
  shows "cnt = size {#r \<in># rows t. us_name r = rg_username req#}"
  using assms sql_okD(1) [OF assms(1)] by (auto simp: sregist_count_def simp flip: size_mset)

lemma taken_size: "size {#r \<in># rows. us_name r = n#} = 0 \<longleftrightarrow> \<not> name_taken n rows"
  by (auto simp: name_taken_def filter_mset_eq_conv)

text \<open>A registration adds its row, or leaves the table alone: because the name is taken, or because a statement threw.\<close>

lemma sregist_cases:
  assumes "sql_ok S rows" "sregist S J req t = (r, t')"
  obtains rep where "\<not> name_taken (rg_username req) (rows t)" "rows t' = add_mset (new_row req) (rows t)"
      "r = Some rep" "rp_code rep = status_code Status_ok" "rgp_user rep = rg_username req"
  | rep where "name_taken (rg_username req) (rows t)" "t' = t" "r = Some rep"
      "rp_code rep = status_code Status_registNameRepeat" "rgp_user rep = rg_username req"
  | "t' = t" "r = None"
proof -
  show ?thesis
  proof (cases "sregist_count S req t")
    case None
    then show ?thesis using assms(2) that(3) by (simp add: sregist_def)
  next
    case (Some cnt)
    note cnt = sregist_count_zero [OF assms(1) Some] taken_size [of "rg_username req" "rows t"]
    show ?thesis
    proof (cases "cnt = 0")
      case True
      then have free: "\<not> name_taken (rg_username req) (rows t)" using cnt by simp
      show ?thesis
      proof (cases "sql_insert S (new_row req) t")
        case None
        then have "r = None" "t' = t"
          using assms(2) Some True by (simp_all add: sregist_def sregist_rest_def new_row_def)
        then show ?thesis by (intro that(3))
      next
        case (Some t1)
        then have t': "t' = t1" and r: "r = Some (new_RegistRep\<lparr>rgp_token := jwt_create J ''alqaz'' ''JWS'' None (''sample'', ''test'') ''key'',
            rgp_user := rg_username req\<rparr>)"
          using assms(2) \<open>sregist_count S req t = Some cnt\<close> True by (simp_all add: sregist_def sregist_rest_def new_row_def)
        show ?thesis
          by (rule that(1) [OF free _ r]) (simp_all add: t' sql_okD(2) [OF assms(1) Some] new_RegistRep_def)
      qed
    next
      case False
      then have "name_taken (rg_username req) (rows t)" using cnt by metis
      moreover have t': "t' = t" and r: "r = Some (new_RegistRep\<lparr>rp_code := status_code Status_registNameRepeat, rgp_user := rg_username req\<rparr>)"
        using assms(2) Some False by (simp_all add: sregist_def sregist_rest_def)
      ultimately show ?thesis by (intro that(2) [OF _ t' r]) (simp_all add: new_RegistRep_def)
    qed
  qed
qed

lemma names_unique_add: "names_unique rows \<Longrightarrow> \<not> name_taken (us_name r) rows \<Longrightarrow> names_unique (add_mset r rows)"
proof -
  assume u: "names_unique rows" and f: "\<not> name_taken (us_name r) rows"
  have "size {#x \<in># rows. us_name x = us_name r#} = 0" using f by (simp only: taken_size not_False_eq_True)
  then show ?thesis using u by (auto simp: names_unique_def)
qed

definition regist_all :: "('t, user_row) sql \<Rightarrow> jwt \<Rightarrow> RegistReq list \<Rightarrow> 't \<Rightarrow> 't" where
  "regist_all S J reqs t = fold (\<lambda>req t. snd (sregist S J req t)) reqs t"

lemma regist_all_keeps:
  assumes "sql_ok S rows"
  shows "names_unique (rows t) \<Longrightarrow> names_unique (rows (regist_all S J reqs t))"
    and "rows t \<subseteq># rows (regist_all S J reqs t)"
proof -
  have step: "(names_unique (rows t) \<longrightarrow> names_unique (rows t')) \<and> rows t \<subseteq># rows t'" if "sregist S J req t = (r, t')" for req r t t'
    using assms that by (rule sregist_cases) (auto simp: names_unique_add new_row_def)
  have "(names_unique (rows t) \<longrightarrow> names_unique (rows (regist_all S J reqs t))) \<and> rows t \<subseteq># rows (regist_all S J reqs t)"
  proof (induction reqs arbitrary: t)
    case (Cons req reqs)
    then show ?case
      using step [of req t "fst (sregist S J req t)" "snd (sregist S J req t)"]
      by (auto simp: regist_all_def intro: subset_mset.order_trans)
  qed (simp add: regist_all_def)
  then show "names_unique (rows t) \<Longrightarrow> names_unique (rows (regist_all S J reqs t))" "rows t \<subseteq># rows (regist_all S J reqs t)"
    by auto
qed

text \<open>
  Two registrations that run at the same time: both count before either inserts, both succeed, and the
  name is there twice; nothing in the table forbids it.
\<close>

lemma concurrent_registrations:
  assumes "rg_username a = rg_username b"
  shows "\<exists>ca cb ra rb t1 t2. sregist_count list_sql a [] = Some ca \<and> sregist_count list_sql b [] = Some cb
           \<and> sregist_rest list_sql J a ca [] = (Some ra, t1) \<and> sregist_rest list_sql J b cb t1 = (Some rb, t2)
           \<and> rp_code ra = status_code Status_ok \<and> rp_code rb = status_code Status_ok \<and> \<not> names_unique (mset t2)"
  using assms
  by (auto simp: sregist_count_def list_sql_def sregist_rest_def new_RegistRep_def names_unique_def intro!: exI [of _ "rg_username b"])

section \<open>Who may log in\<close>

definition login_matches :: "LoginReq \<Rightarrow> user_row \<Rightarrow> bool" where
  "login_matches req row \<longleftrightarrow> us_passwd row = lg_password req
     \<and> (lg_username req \<noteq> [] \<and> lg_phone req = [] \<and> us_name row = lg_username req
        \<or> lg_username req = [] \<and> lg_phone req \<noteq> [] \<and> us_phone row = lg_phone req)"

text \<open>A login succeeds exactly if it gives the name or the phone, not both, with the password of a row.\<close>

lemma login_iff:
  assumes "sql_ok S rows" "slogin S J conf now req t = Some rep"
  shows "rp_code rep = status_code Status_ok \<longleftrightarrow> (\<exists>row \<in># rows t. login_matches req row)"
    and "rp_code rep = status_code Status_ok \<Longrightarrow>
           lgp_token rep = getjwttoken J conf now \<and> (\<exists>row \<in># rows t. login_matches req row \<and> lgp_username rep = us_name row)"
proof -
  have sel: "set rs = {r. r \<in># rows t \<and> P r}" if "sql_select S P t = Some rs" for P rs
    using arg_cong [OF sql_okD(1) [OF assms(1) that], of set_mset] by simp
  have "(rp_code rep = status_code Status_ok \<longleftrightarrow> (\<exists>row \<in># rows t. login_matches req row))
    \<and> (rp_code rep = status_code Status_ok \<longrightarrow>
        lgp_token rep = getjwttoken J conf now \<and> (\<exists>row \<in># rows t. login_matches req row \<and> lgp_username rep = us_name row))"
  proof (cases "lg_username req = []"; cases "lg_phone req = []")
    assume n: "lg_username req = []" and p: "lg_phone req = []"
    then show ?thesis using assms(2) by (auto simp: slogin_def login_matches_def new_LoginRep_def)
  next
    assume n: "lg_username req \<noteq> []" and p: "lg_phone req \<noteq> []"
    then show ?thesis using assms(2)
      by (auto simp: slogin_def slogin_check_def login_matches_def new_LoginRep_def Let_def split: option.splits)
  next
    assume n: "lg_username req \<noteq> []" and p: "lg_phone req = []"
    obtain rs where rs: "sql_select S (\<lambda>user. us_name user = lg_username req \<and> us_passwd user = lg_password req) t = Some rs"
      using assms(2) n p by (auto simp: slogin_def slogin_check_def Let_def split: option.splits)
    show ?thesis using assms(2) n p rs sel [OF rs]
      by (cases rs) (auto simp: slogin_def slogin_check_def login_matches_def new_LoginRep_def Let_def)
  next
    assume n: "lg_username req = []" and p: "lg_phone req \<noteq> []"
    obtain rs where rs: "sql_select S (\<lambda>user. us_phone user = lg_phone req \<and> us_passwd user = lg_password req) t = Some rs"
      using assms(2) n p by (auto simp: slogin_def slogin_check_def Let_def split: option.splits)
    show ?thesis using assms(2) n p rs sel [OF rs]
      by (cases rs) (auto simp: slogin_def slogin_check_def login_matches_def new_LoginRep_def Let_def)
  qed
  then show "rp_code rep = status_code Status_ok \<longleftrightarrow> (\<exists>row \<in># rows t. login_matches req row)"
    and "rp_code rep = status_code Status_ok \<Longrightarrow>
           lgp_token rep = getjwttoken J conf now \<and> (\<exists>row \<in># rows t. login_matches req row \<and> lgp_username rep = us_name row)"
    by auto
qed

lemma login_with_name_and_phone_fails:
  assumes "lg_username req \<noteq> []" "lg_phone req \<noteq> []" "slogin S J conf now req t = Some rep"
  shows "rp_code rep = status_code Status_wrongUserOrPhoneOrPass"
  using assms by (auto simp: slogin_def slogin_check_def new_LoginRep_def Let_def split: option.splits)

text \<open>The token of a registration is made for a fixed issuer: with another one in the configuration it is never right.\<close>

lemma regist_token_wrong:
  assumes "jwt_ok J" "jc_issuer conf \<noteq> ''alqaz''" "sregist S J req t = (Some rep, t')"
  shows "\<not> isjwttokenright J conf now (rgp_token rep)"
proof -
  have "jwt_verify J key (jc_issuer conf) now (jwt_create J ''alqaz'' ty e c k) \<noteq> Some 0" for key ty e c k
    using assms(1,2) unfolding jwt_ok_def by metis
  then show ?thesis
    using assms(3)
    by (auto simp: sregist_def sregist_rest_def new_RegistRep_def isjwttokenright_def split: option.splits if_splits)
qed


section \<open>Administrators as a set\<close>

text \<open>The table is a set of rows: an addition never repeats one, and a removal takes it away.\<close>

definition admin_rows :: "sysAdminReq \<Rightarrow> sysAdminItem list \<Rightarrow> admin_row set" where
  "admin_rows req is = admin_row_of req ` set is"

lemma admin_is_eq: "admin_is req i = (\<lambda>r. r = admin_row_of req i)"
  by (auto simp: fun_eq_iff admin_is_def admin_row_of_def)

lemma filter_eq_mset_set: "finite A \<Longrightarrow> filter_mset (\<lambda>r. \<not> r = x) (mset_set A) = mset_set (A - {x})"
  by (simp add: filter_mset_mset_set set_diff_eq)

lemma add_admins_set:
  assumes "sql_ok S rows" "rows t = mset_set A" "finite A" "add_admins S req is t = (ok, t')"
  shows "\<exists>B. rows t' = mset_set B \<and> finite B \<and> A \<subseteq> B \<and> B \<subseteq> A \<union> admin_rows req is \<and> (ok \<longrightarrow> B = A \<union> admin_rows req is)"
  using assms(2-)
proof (induction "is" arbitrary: t A)
  case Nil
  then show ?case by (auto simp: admin_rows_def)
next
  case (Cons i "is")
  let ?r = "admin_row_of req i"
  have rows: "admin_rows req (i # is) = insert ?r (admin_rows req is)" by (simp add: admin_rows_def)
  show ?case
  proof (cases "sql_select S (admin_is req i) t")
    case None
    then show ?thesis using Cons.prems by auto
  next
    case (Some rs)
    have size: "length rs = size (filter_mset (\<lambda>r. r = ?r) (mset_set A))"
      using arg_cong [OF sql_okD(1) [OF assms(1) Some], of size] by (simp only: size_mset admin_is_eq Cons.prems(1))
    show ?thesis
    proof (cases "?r \<in> A")
      case True
      then have "length rs \<noteq> 0" using size Cons.prems(2) by (simp add: filter_mset_mset_set card_eq_0_iff)
      then have "add_admins S req is t = (ok, t')" using Cons.prems(3) Some by simp
      from Cons.IH [OF Cons.prems(1,2) this] obtain B where "rows t' = mset_set B" "finite B" "A \<subseteq> B"
        "B \<subseteq> A \<union> admin_rows req is" "ok \<longrightarrow> B = A \<union> admin_rows req is" by auto
      moreover have "A \<union> admin_rows req (i # is) = A \<union> admin_rows req is" using True rows by auto
      ultimately show ?thesis by auto
    next
      case False
      then have "length rs = 0" using size Cons.prems(2) by (simp add: filter_mset_mset_set card_eq_0_iff)
      then consider (throw) "t' = t" "\<not> ok" | (ins) t1 where "sql_insert S ?r t = Some t1" "add_admins S req is t1 = (ok, t')"
        using Cons.prems(3) Some by (auto split: option.splits)
      then show ?thesis
      proof cases
        case throw
        then show ?thesis using Cons.prems by auto
      next
        case ins
        have "rows t1 = mset_set (insert ?r A)"
          using sql_okD(2) [OF assms(1) ins(1)] False Cons.prems(1,2) by simp
        from Cons.IH [OF this _ ins(2)] Cons.prems(2) obtain B where "rows t' = mset_set B" "finite B" "insert ?r A \<subseteq> B"
          "B \<subseteq> insert ?r A \<union> admin_rows req is" "ok \<longrightarrow> B = insert ?r A \<union> admin_rows req is" by auto
        moreover have "A \<union> admin_rows req (i # is) = insert ?r A \<union> admin_rows req is" using rows by auto
        ultimately show ?thesis by auto
      qed
    qed
  qed
qed

lemma del_admins_set:
  assumes "sql_ok S rows" "rows t = mset_set A" "finite A" "del_admins S req is t = (ok, t')"
  shows "\<exists>B. rows t' = mset_set B \<and> finite B \<and> A - admin_rows req is \<subseteq> B \<and> B \<subseteq> A \<and> (ok \<longrightarrow> B = A - admin_rows req is)"
  using assms(2-)
proof (induction "is" arbitrary: t A)
  case Nil
  then show ?case by (auto simp: admin_rows_def)
next
  case (Cons i "is")
  let ?r = "admin_row_of req i"
  show ?case
  proof (cases "sql_remove S (admin_is req i) t")
    case None
    then show ?thesis using Cons.prems by auto
  next
    case (Some t1)
    have "rows t1 = mset_set (A - {?r})"
      using sql_okD(3) [OF assms(1) Some] Cons.prems(1) filter_eq_mset_set [OF Cons.prems(2), of ?r] by (simp only: admin_is_eq)
    moreover have "del_admins S req is t1 = (ok, t')" using Cons.prems(3) Some by simp
    ultimately obtain B where "rows t' = mset_set B" "finite B" "A - {?r} - admin_rows req is \<subseteq> B" "B \<subseteq> A - {?r}"
      "ok \<longrightarrow> B = A - {?r} - admin_rows req is"
      using Cons.IH Cons.prems(2) by (metis finite_Diff)
    moreover have "A - admin_rows req (i # is) = A - {?r} - admin_rows req is" by (auto simp: admin_rows_def)
    ultimately show ?thesis by auto
  qed
qed

datatype admin_op = Op_addAdmin sysAdminReq | Op_delAdmin sysAdminReq

fun admin_do :: "('t, admin_row) sql \<Rightarrow> admin_op \<Rightarrow> 't \<Rightarrow> reply_base option \<times> 't" where
  "admin_do S (Op_addAdmin req) t = saddSysAdmin S req t"
| "admin_do S (Op_delAdmin req) t = sdelSysAdmin S req t"

fun admin_spec :: "admin_op \<Rightarrow> admin_row set \<Rightarrow> admin_row set" where
  "admin_spec (Op_addAdmin req) A = A \<union> admin_rows req (sr_admins req)"
| "admin_spec (Op_delAdmin req) A = A - admin_rows req (sr_admins req)"

lemma admin_do_set:
  assumes "sql_ok S rows" "rows t = mset_set A" "finite A" "admin_do S op t = (rep, t')"
  shows "\<exists>B. rows t' = mset_set B \<and> finite B \<and> (rep \<noteq> None \<longrightarrow> B = admin_spec op A)"
proof (cases op)
  case (Op_addAdmin req)
  obtain ok where "add_admins S req (sr_admins req) t = (ok, t')" "rep = ok_or_throw ok"
    using assms(4) Op_addAdmin by (cases "add_admins S req (sr_admins req) t") (auto simp: saddSysAdmin_def)
  with add_admins_set [OF assms(1-3) this(1)] Op_addAdmin show ?thesis by (auto simp: ok_or_throw_def)
next
  case (Op_delAdmin req)
  obtain ok where "del_admins S req (sr_admins req) t = (ok, t')" "rep = ok_or_throw ok"
    using assms(4) Op_delAdmin by (cases "del_admins S req (sr_admins req) t") (auto simp: sdelSysAdmin_def)
  with del_admins_set [OF assms(1-3) this(1)] Op_delAdmin show ?thesis by (auto simp: ok_or_throw_def)
qed

text \<open>A sequence of requests, up to the first that throws.\<close>

fun admin_run :: "('t, admin_row) sql \<Rightarrow> admin_op list \<Rightarrow> 't \<Rightarrow> 't option" where
  "admin_run S [] t = Some t"
| "admin_run S (op # ops) t = (case admin_do S op t of (None, t) \<Rightarrow> None | (Some _, t) \<Rightarrow> admin_run S ops t)"

lemma admin_run_set:
  assumes "sql_ok S rows" "rows t = mset_set A" "finite A" "admin_run S ops t = Some t'"
  shows "rows t' = mset_set (fold admin_spec ops A) \<and> finite (fold admin_spec ops A)"
  using assms(2-)
proof (induction ops arbitrary: t A)
  case (Cons op ops)
  obtain rep t1 where 1: "admin_do S op t = (Some rep, t1)" "admin_run S ops t1 = Some t'"
    using Cons.prems(3) by (auto split: prod.splits option.splits)
  obtain B where "rows t1 = mset_set B" "finite B" "B = admin_spec op A"
    using admin_do_set [OF assms(1) Cons.prems(1,2) 1(1)] by auto
  then show ?case using Cons.IH [OF _ _ 1(2)] by simp
qed simp

lemma sgetSysAdmin_set:
  assumes "sql_ok S rows" "rows t = mset_set A" "finite A" "sgetSysAdmin S req t = Some rep"
  shows "mset (gsp_admins rep) =
     image_mset (\<lambda>row. \<lparr>ad_name = sa_admin row, ad_role = sa_role row\<rparr>)
       (mset_set {r \<in> A. sa_user r = gs_user req \<and> sa_phone r = gs_phone req})"
proof -
  obtain rs where rs: "sql_select S (\<lambda>user. sa_user user = gs_user req \<and> sa_phone user = gs_phone req) t = Some rs"
    "gsp_admins rep = map (\<lambda>row. \<lparr>ad_name = sa_admin row, ad_role = sa_role row\<rparr>) rs"
    using assms(4) by (auto simp: sgetSysAdmin_def)
  then show ?thesis
    using sql_okD(1) [OF assms(1) rs(1)] assms(2,3) by (simp add: filter_mset_mset_set)
qed

section \<open>The cache keeps one user of a phone\<close>

lemma fill_cache_last:
  assumes "\<forall>r \<in> set rows. us_phone r = p" "rows \<noteq> []" "fill_cache null_value rows gen = (True, gen')"
  shows "\<exists>i. gen_item null_value (last rows) = Some i \<and> gen' p = Some [(us_name (last rows), i)]"
  using assms
proof (induction rows arbitrary: gen)
  case (Cons r rows)
  obtain i where i: "gen_item null_value r = Some i" "it_phone i = p" "it_user i = us_name r"
    using Cons.prems by (auto simp: gen_item_def split: option.splits)
  show ?case
    using Cons i by (cases "rows = []") (auto simp: Let_def)
qed simp

text \<open>A user that is found in the cache is returned twice; one that is not found brings the others of the phone.\<close>

lemma cached_user_twice:
  assumes "gen p = Some [(u, i)]" "u \<noteq> []" "gi_fromdb req = 0" "gi_user req = u" "gi_phone req = p"
  shows "\<exists>rep. sgetUserGenInfo S nv req t gen = (Some rep, gen) \<and> gip_users rep = [i, i]"
  using assms by (simp add: sgetUserGenInfo_def new_getUserGenInfoRep_def Let_def)

lemma other_user_returned:
  assumes "gen p = Some [(u, i)]" "v \<noteq> []" "v \<noteq> u" "gi_fromdb req = 0" "gi_user req = v" "gi_phone req = p"
  shows "\<exists>rep. sgetUserGenInfo S nv req t gen = (Some rep, gen) \<and> rp_code rep = 20001 \<and> gip_users rep = [i]"
  using assms by (simp add: sgetUserGenInfo_def new_getUserGenInfoRep_def Let_def)

text \<open>A query from the database fills the cache and returns no user.\<close>

lemma from_db_returns_nothing:
  assumes "sgetUserGenInfo S nv req t gen = (Some rep, gen')" "gi_fromdb req \<noteq> 0"
  shows "gip_users rep = []"
  using assms by (auto simp: sgetUserGenInfo_def new_getUserGenInfoRep_def Let_def split: option.splits prod.splits if_splits)

end
