(* ===== verification/Gateway.thy ===== *)
theory Gateway
  imports Accounts NngConn
begin

text \<open>
  Requests of the application: the handlers that \<open>inc/HttpCmdTag.h\<close> and \<open>inc/TransCmdTag.h\<close> wrap around
  functions, the gateway's functions on accounts (\<open>database/DealAuth.cpp\<close>), and the way from the gateway
  to the database node and back (\<open>database/DBConnectManager.h\<close>, \<open>DBConnectTCP.cpp\<close>, \<open>DBConnectNNG.cpp\<close>,
  \<open>networkinterface/socket/TcpClientCombine.h\<close>).

  \<open>unpack\<close> is \<open>unpackArgs\<close> at the types of a function. JSON is a parameter: \<open>parse\<close> reads an object over an existing one and says whether it succeeded, \<open>print\<close>
  writes it. The state \<open>'s\<close> is whatever the query may change. \<open>None\<close> is undefined behaviour.
\<close>

declare neq0_conv [iff del]

definition DBQuery :: u32 where
  "DBQuery = 6"

datatype AssDB = DB_Regist | DB_Login | DB_GetUserGenInfo | DB_getAllUsers | DB_AddSysAdmin | DB_GetSysAdmin | DB_DelSysAdmin

fun assdb_code :: "AssDB \<Rightarrow> u32" where
  "assdb_code DB_Regist = 1"
| "assdb_code DB_Login = 2"
| "assdb_code DB_GetUserGenInfo = 6"
| "assdb_code DB_getAllUsers = 7"
| "assdb_code DB_AddSysAdmin = 8"
| "assdb_code DB_GetSysAdmin = 9"
| "assdb_code DB_DelSysAdmin = 10"

section \<open>Handlers of the gateway\<close>

definition use_token :: "string \<Rightarrow> 'q request_scheme \<Rightarrow> 'q request_scheme" where
  "use_token token req = (if token \<noteq> [] then req\<lparr>rq_token := token\<rparr> else req)"

text \<open>\<open>T_ROUTER_NEED_DB_JSON\<close>: the request goes to the database as it is.\<close>

definition router_need_db_json ::
    "('q request_scheme \<Rightarrow> byte list \<Rightarrow> bool \<times> 'q request_scheme) \<Rightarrow> ('p reply_base_scheme \<Rightarrow> byte list)
     \<Rightarrow> 'q request_scheme \<Rightarrow> 'p reply_base_scheme
     \<Rightarrow> ('q request_scheme \<Rightarrow> 'p reply_base_scheme \<Rightarrow> 's \<Rightarrow> (bool \<times> 'p reply_base_scheme \<times> 's) option)
     \<Rightarrow> byte list \<Rightarrow> string \<Rightarrow> 's \<Rightarrow> (byte list \<times> 's) option" where
  "router_need_db_json parse print req ret executeQuery msg token st =
     do {
       (ret, st) \<leftarrow>
         (case parse req msg of (ok, req) \<Rightarrow>
            if \<not> ok then Some (ret\<lparr>rp_code := status_code Status_invalidJson\<rparr>, st)
            else do { (_, ret, st) \<leftarrow> executeQuery (use_token token req) ret st; Some (ret, st) });
       Some (if rp_code ret = status_code Status_needNextRouter then [] else print ret, st)
     }"

text \<open>\<open>T_ROUTER_NEED_CACHE_DB_JSON\<close>: the database is asked only if the local function says so.\<close>

definition router_cache_db_json ::
    "('q request_scheme \<Rightarrow> byte list \<Rightarrow> bool \<times> 'q request_scheme) \<Rightarrow> ('p reply_base_scheme \<Rightarrow> byte list)
     \<Rightarrow> 'q request_scheme \<Rightarrow> 'p reply_base_scheme \<Rightarrow> ('q request_scheme \<Rightarrow> 'p reply_base_scheme)
     \<Rightarrow> ('q request_scheme \<Rightarrow> 'p reply_base_scheme \<Rightarrow> 's \<Rightarrow> (bool \<times> 'p reply_base_scheme \<times> 's) option)
     \<Rightarrow> byte list \<Rightarrow> string \<Rightarrow> 's \<Rightarrow> (byte list \<times> 's) option" where
  "router_cache_db_json parse print req ret localQuery executeQuery msg token st =
     do {
       (ret, st) \<leftarrow>
         (case parse req msg of (ok, req) \<Rightarrow>
            if \<not> ok then Some (ret\<lparr>rp_code := status_code Status_invalidJson\<rparr>, st)
            else let req = use_token token req; ret = localQuery req
                 in if rp_code ret = status_code Status_needNextRouter
                    then do { (_, ret, st) \<leftarrow> executeQuery req ret st; Some (ret, st) }
                    else Some (ret, st));
       Some (print ret, st)
     }"

definition router_cache_json ::
    "('q request_scheme \<Rightarrow> byte list \<Rightarrow> bool \<times> 'q request_scheme) \<Rightarrow> ('p reply_base_scheme \<Rightarrow> byte list)
     \<Rightarrow> 'q request_scheme \<Rightarrow> 'p reply_base_scheme \<Rightarrow> ('q request_scheme \<Rightarrow> 'p reply_base_scheme)
     \<Rightarrow> byte list \<Rightarrow> string \<Rightarrow> byte list" where
  "router_cache_json parse print req ret localQuery msg token =
     (case parse req msg of (ok, req) \<Rightarrow>
        print (if \<not> ok then ret\<lparr>rp_code := status_code Status_invalidJson\<rparr> else localQuery (use_token token req)))"

text \<open>
  \<open>T_ROUTER_NEED_DBREQ_DB_JSON\<close>: the arguments are unpacked and turned into a request for the database,
  whose reply goes into a second variable \<open>ret\<close> that hides the first.
\<close>

definition router_dbreq_db_json ::
    "(byte list \<Rightarrow> bool \<times> 'a) \<Rightarrow> (string \<Rightarrow> 'a \<Rightarrow> 'a) \<Rightarrow> ('p reply_base_scheme \<Rightarrow> byte list)
     \<Rightarrow> ('a \<Rightarrow> 'q) \<Rightarrow> 'p reply_base_scheme
     \<Rightarrow> ('q \<Rightarrow> 'p reply_base_scheme \<Rightarrow> 's \<Rightarrow> (bool \<times> 'p reply_base_scheme \<times> 's) option)
     \<Rightarrow> byte list \<Rightarrow> string \<Rightarrow> 's \<Rightarrow> (byte list \<times> 's) option" where
  "router_dbreq_db_json unpack set_token print func new executeQuery msg token st =
     (let ret = new in
      do {
        (ret, st) \<leftarrow>
          (case unpack msg of (ok, args) \<Rightarrow>
             if \<not> ok then Some (ret\<lparr>rp_code := status_code Status_invalidJson\<rparr>, st)
             else let args = (if token \<noteq> [] then set_token token args else args); ret_inner = new
                  in do { (_, ret_inner, st) \<leftarrow> executeQuery (func args) ret_inner st; Some (ret, st) });
        Some (print ret, st)
      })"

text \<open>\<open>T_ROUTER_NEED_DBREQ_DB_DBREP_JSON\<close>, where the reply is converted.\<close>

definition router_dbreq_db_dbrep_json ::
    "(byte list \<Rightarrow> bool \<times> 'a) \<Rightarrow> (string \<Rightarrow> 'a \<Rightarrow> 'a) \<Rightarrow> ('p reply_base_scheme \<Rightarrow> byte list)
     \<Rightarrow> ('a \<Rightarrow> 'q) \<Rightarrow> ('p reply_base_scheme \<Rightarrow> 'p reply_base_scheme) \<Rightarrow> 'p reply_base_scheme
     \<Rightarrow> ('q \<Rightarrow> 'p reply_base_scheme \<Rightarrow> 's \<Rightarrow> (bool \<times> 'p reply_base_scheme \<times> 's) option)
     \<Rightarrow> byte list \<Rightarrow> string \<Rightarrow> 's \<Rightarrow> (byte list \<times> 's) option" where
  "router_dbreq_db_dbrep_json unpack set_token print reqfunc repfunc ret executeQuery msg token st =
     (case unpack msg of (ok, args) \<Rightarrow>
        if \<not> ok then Some (print (ret\<lparr>rp_code := status_code Status_invalidJson\<rparr>), st)
        else let args = (if token \<noteq> [] then set_token token args else args)
             in do { (_, ret, st) \<leftarrow> executeQuery (reqfunc args) ret st; Some (print (repfunc ret), st) })"

text \<open>The reply of the database is lost.\<close>

lemma database_reply_lost:
  assumes "router_dbreq_db_json unpack set_token print func new executeQuery msg token st = Some (reply, st')"
    and "fst (unpack msg)"
  shows "reply = print new"
  using assms by (cases "unpack msg") (auto simp: router_dbreq_db_json_def Let_def Option.bind_eq_Some_conv)

section \<open>A handler of the database node\<close>

text \<open>
  \<open>ROUTER_DBT2\<close>: the function runs on another thread; an exception leaves the code that was set before.
  \<open>invalid\<close> is \<open>invalidJSONRep\<close>, printed.
\<close>

definition router_db ::
    "(byte list \<Rightarrow> bool \<times> 'a) \<Rightarrow> ('p reply_base_scheme \<Rightarrow> byte list) \<Rightarrow> byte list
     \<Rightarrow> ('a \<Rightarrow> 't \<Rightarrow> 'p reply_base_scheme option \<times> 't) \<Rightarrow> 'p reply_base_scheme \<Rightarrow> byte list \<Rightarrow> 't \<Rightarrow> byte list \<times> 't" where
  "router_db unpack print invalid func ret msg t =
     (case unpack msg of (bArgsParse, args) \<Rightarrow>
        if \<not> bArgsParse then (invalid, t)
        else let ret = ret\<lparr>rp_code := status_code Status_sqlExecuteFailed\<rparr>
             in case func args t of
                  (None, t) \<Rightarrow> (print ret, t)
                | (Some ret, t) \<Rightarrow> (print ret, t))"

section \<open>\<open>DealAuth\<close>\<close>

definition lregist :: "RegistReq \<Rightarrow> RegistRep" where
  "lregist req = new_RegistRep\<lparr>rp_code := status_code Status_needNextRouter\<rparr>"

definition llogin :: "LoginReq \<Rightarrow> LoginRep" where
  "llogin req = new_LoginRep\<lparr>rp_code := status_code Status_needNextRouter\<rparr>"

definition check_token :: "jwt \<Rightarrow> jwt_config \<Rightarrow> int \<Rightarrow> string \<Rightarrow> 'p reply_base_scheme \<Rightarrow> 'p reply_base_scheme" where
  "check_token J conf now token rep =
     (if \<not> isjwttokenright J conf now token then rep\<lparr>rp_code := status_code Status_jwtCheckFailed\<rparr> else rep)"

definition laddSysAdmin :: "jwt \<Rightarrow> jwt_config \<Rightarrow> int \<Rightarrow> sysAdminReq \<Rightarrow> reply_base" where
  "laddSysAdmin J conf now req = check_token J conf now (rq_token req) \<lparr>rp_code = status_code Status_ok\<rparr>"

definition lgetSysAdmin :: "jwt \<Rightarrow> jwt_config \<Rightarrow> int \<Rightarrow> getSysAdminReq \<Rightarrow> getSysAdminRep" where
  "lgetSysAdmin J conf now req = check_token J conf now (rq_token req) new_getSysAdminRep"

definition ldelSysAdmin :: "jwt \<Rightarrow> jwt_config \<Rightarrow> int \<Rightarrow> sysAdminReq \<Rightarrow> reply_base" where
  "ldelSysAdmin J conf now req = check_token J conf now (rq_token req) \<lparr>rp_code = status_code Status_ok\<rparr>"

definition lgetUserGenInfo :: "jwt \<Rightarrow> jwt_config \<Rightarrow> int \<Rightarrow> getUserGenInfoReq \<Rightarrow> getUserGenInfoRep" where
  "lgetUserGenInfo J conf now req = check_token J conf now (rq_token req) new_getUserGenInfoRep"

text \<open>
  The functions on administrators and on users never ask for the database, so the gateway answers \<open>ok\<close>
  to a request with a right token and nothing is done.
\<close>

lemma gateway_never_asks:
  assumes "\<And>req. rp_code (localQuery req) \<noteq> status_code Status_needNextRouter"
  shows "router_cache_db_json parse print req ret localQuery executeQuery msg token st =
     Some (router_cache_json parse print req ret localQuery msg token, st)"
  using assms by (auto simp: router_cache_db_json_def router_cache_json_def Let_def split: prod.splits)

lemma admin_requests_stop:
  "rp_code (laddSysAdmin J conf now a) \<noteq> status_code Status_needNextRouter"
  "rp_code (ldelSysAdmin J conf now a) \<noteq> status_code Status_needNextRouter"
  "rp_code (lgetSysAdmin J conf now g) \<noteq> status_code Status_needNextRouter"
  "rp_code (lgetUserGenInfo J conf now u) \<noteq> status_code Status_needNextRouter"
  by (simp_all add: laddSysAdmin_def ldelSysAdmin_def lgetSysAdmin_def lgetUserGenInfo_def check_token_def
      new_getSysAdminRep_def new_getUserGenInfoRep_def)


section \<open>The query of the gateway\<close>

datatype DBMethod = Method_TCP | Method_NNG

text \<open>
  \<open>executeQuery\<close>: \<open>exec\<close> sends the request and returns whether it succeeded, and the answer. An answer
  shorter than the header is read behind its end.
\<close>

definition executeQuery ::
    "bool \<Rightarrow> plat_packs \<Rightarrow> ('q \<Rightarrow> byte list) \<Rightarrow> ('p reply_base_scheme \<Rightarrow> byte list \<Rightarrow> bool \<times> 'p reply_base_scheme)
     \<Rightarrow> (DBMethod \<Rightarrow> byte list \<Rightarrow> 's \<Rightarrow> (bool \<times> byte list) \<times> 's) \<Rightarrow> AssDB \<Rightarrow> DBMethod
     \<Rightarrow> 'q \<Rightarrow> 'p reply_base_scheme \<Rightarrow> 's \<Rightarrow> (bool \<times> 'p reply_base_scheme \<times> 's) option" where
  "executeQuery dbg packs print parse exec opn mth req rep st =
     do {
       packer \<leftarrow> clonePlatformPack dbg DBQuery packs;
       packer \<leftarrow> packer;
       n \<leftarrow> plat_len packer;
       packer \<leftarrow> plat_setAss (assdb_code opn) packer;
       (bret, hdr) \<leftarrow> plat_pack dbg (replicate n 0) packer;
       assert_that dbg bret;
       if \<not> bret then Some (False, rep, st)
       else case exec mth (hdr @ print req) st of ((bret, platformRep), st) \<Rightarrow>
         if \<not> bret then Some (False, rep\<lparr>rp_code := status_code Status_sendDBQueryExecFailed\<rparr>, st)
         else do {
           h \<leftarrow> plat_HeadLen packer;
           if length platformRep < h then None
           else case parse rep (drop h platformRep) of (bret, rep) \<Rightarrow>
             Some (bret, if bret then rep else rep\<lparr>rp_code := status_code Status_invalidJson\<rparr>, st)
         }
     }"

lemma executeQuery_eq:
  assumes "clonePlatformPack dbg DBQuery packs = Some (Some (MainAssPlatPack m0 a0))"
  shows "executeQuery dbg packs print parse exec opn mth req rep st =
     (case exec mth (be32 m0 @ be32 (assdb_code opn) @ print req) st of ((bret, platformRep), st) \<Rightarrow>
        if \<not> bret then Some (False, rep\<lparr>rp_code := status_code Status_sendDBQueryExecFailed\<rparr>, st)
        else if length platformRep < 8 then None
        else case parse rep (drop 8 platformRep) of (bret, rep) \<Rightarrow>
          Some (bret, if bret then rep else rep\<lparr>rp_code := status_code Status_invalidJson\<rparr>, st))"
  using assms
  by (auto simp: executeQuery_def packuint32_at_0 packuint32_at_4 Let_def split: prod.splits)

section \<open>Connections to the database node\<close>

text \<open>
  \<open>TcpClientCombine\<close>: the channels that are free, by number; \<open>valid_ip\<close> says whether the address can be
  parsed. \<open>results\<close> says which of the connection attempts succeed. The number taken for a new connection
  is thrown away and \<open>createTcpChannel\<close> takes another. The outer \<open>None\<close> is an exception.
\<close>

record tcp_client =
  tcc_valid_ip :: bool
  tcc_channelpool :: "u32 list"

fun tcc_connect :: "(nmessage \<Rightarrow> bool) \<Rightarrow> bool list \<Rightarrow> u32 \<Rightarrow> connection_maps \<Rightarrow> u32 option \<times> u32 \<times> connection_maps" where
  "tcc_connect send [] sockNo cs = (None, sockNo, cs)"
| "tcc_connect send (connected # results) sockNo cs =
     (if connected
      then case newSockNo sockNo of (_, sockNo) \<Rightarrow>
           case lnm_createTcpChannel send Initiative DBQuery sockNo cs of (retchannel, _, sockNo, cs) \<Rightarrow>
             (Some retchannel, sockNo, cs)
      else tcc_connect send results sockNo cs)"

definition tcc_getChannel ::
    "(nmessage \<Rightarrow> bool) \<Rightarrow> bool list \<Rightarrow> tcp_client \<Rightarrow> u32 \<Rightarrow> connection_maps
     \<Rightarrow> u32 option option \<times> tcp_client \<times> u32 \<times> connection_maps" where
  "tcc_getChannel send results c sockNo cs =
     (case tcc_channelpool c of
        [] \<Rightarrow>
          if \<not> tcc_valid_ip c then (None, c, sockNo, cs)
          else (case tcc_connect send (take 3 results) sockNo cs of (ch, sockNo, cs) \<Rightarrow> (Some ch, c, sockNo, cs))
      | ch # chs \<Rightarrow> (Some (Some ch), c\<lparr>tcc_channelpool := chs\<rparr>, sockNo, cs))"

definition tcc_returnChannel :: "u32 option \<Rightarrow> tcp_client \<Rightarrow> tcp_client" where
  "tcc_returnChannel ch c = (case ch of None \<Rightarrow> c | Some n \<Rightarrow> c\<lparr>tcc_channelpool := tcc_channelpool c @ [n]\<rparr>)"

lemma tcc_connect_iff: "fst (tcc_connect send results sockNo cs) \<noteq> None \<longleftrightarrow> True \<in> set results"
  by (induction results arbitrary: sockNo cs) (auto split: prod.splits)

text \<open>
  The loop of \<open>DBConnectTCP::_execQuery\<close> over operations on a state: getting a channel, a request over it
  (\<open>None\<close> throws, \<open>Some None\<close> is no answer), giving the channel back. \<open>trycount\<close> is counted up twice.
\<close>

function execQuery_loop ::
    "('s \<Rightarrow> 'c option option \<times> 's) \<Rightarrow> ('c \<Rightarrow> byte list \<Rightarrow> 's \<Rightarrow> byte list option option \<times> 's) \<Rightarrow> ('c \<Rightarrow> 's \<Rightarrow> 's)
     \<Rightarrow> nat \<Rightarrow> byte list \<Rightarrow> byte list \<Rightarrow> 's \<Rightarrow> (bool \<times> byte list) \<times> 's" where
  "execQuery_loop getChannel reqrep returnChannel trycount req rep st =
     (let trycount = trycount + 1 in
      if trycount < 3
      then case getChannel st of
             (None, st) \<Rightarrow> ((False, rep), st)
           | (Some None, st) \<Rightarrow> ((False, rep), st)
           | (Some (Some ret), st) \<Rightarrow>
               (case reqrep ret req st of
                  (None, st) \<Rightarrow> ((False, rep), st)
                | (Some None, st) \<Rightarrow> execQuery_loop getChannel reqrep returnChannel (trycount + 1) req rep st
                | (Some (Some ret2), st) \<Rightarrow> ((True, ret2), returnChannel ret st))
      else ((False, rep), st))"
  by pat_completeness auto

termination by (relation "measure (\<lambda>(_, _, _, trycount, _). 3 - trycount)") auto

declare execQuery_loop.simps [simp del]

definition dbt_execQuery ::
    "('s \<Rightarrow> 'c option option \<times> 's) \<Rightarrow> ('c \<Rightarrow> byte list \<Rightarrow> 's \<Rightarrow> byte list option option \<times> 's) \<Rightarrow> ('c \<Rightarrow> 's \<Rightarrow> 's)
     \<Rightarrow> byte list \<Rightarrow> byte list \<Rightarrow> 's \<Rightarrow> (bool \<times> byte list) \<times> 's" where
  "dbt_execQuery getChannel reqrep returnChannel req rep st = execQuery_loop getChannel reqrep returnChannel 0 req rep st"

text \<open>There is no second try: the request is sent once, and a channel on which it failed is not given back.\<close>

lemma execQuery_once:
  "dbt_execQuery getChannel reqrep returnChannel req rep st =
     (case getChannel st of
        (Some (Some ch), st) \<Rightarrow>
          (case reqrep ch req st of
             (Some (Some ret), st) \<Rightarrow> ((True, ret), returnChannel ch st)
           | (_, st) \<Rightarrow> ((False, rep), st))
      | (_, st) \<Rightarrow> ((False, rep), st))"
  by (subst dbt_execQuery_def, subst execQuery_loop.simps)
    (auto simp: execQuery_loop.simps split: prod.splits option.splits)

text \<open>\<open>executeQueryTCP\<close>: a connection that is free or a new one; it goes back into the queue if the query succeeded.\<close>

definition executeQueryTCP ::
    "'k \<Rightarrow> (byte list \<Rightarrow> byte list \<Rightarrow> 'k \<times> 's \<Rightarrow> (bool \<times> byte list) \<times> 'k \<times> 's) \<Rightarrow> byte list \<Rightarrow> byte list
     \<Rightarrow> 'k list \<times> 's \<Rightarrow> (bool \<times> byte list) \<times> 'k list \<times> 's" where
  "executeQueryTCP fresh execQuery req rep st =
     (case st of (connsTcp, st) \<Rightarrow>
      case (case connsTcp of [] \<Rightarrow> (fresh, []) | k # ks \<Rightarrow> (k, ks)) of (ret, connsTcp) \<Rightarrow>
      case execQuery req rep (ret, st) of ((bret, rep), ret, st) \<Rightarrow>
        ((bret, rep), if bret then connsTcp @ [ret] else connsTcp, st))"

text \<open>\<open>DBConnectNNG::_execQuery\<close>: the answer is stored, but the result is never set.\<close>

definition dbn_execQuery ::
    "('s \<Rightarrow> 'c option \<times> 's) \<Rightarrow> ('c \<Rightarrow> byte list \<Rightarrow> 's \<Rightarrow> byte list option option \<times> 's)
     \<Rightarrow> byte list \<Rightarrow> byte list \<Rightarrow> 's \<Rightarrow> (bool \<times> byte list) \<times> 's" where
  "dbn_execQuery getChannel reqrep req rep st =
     (case getChannel st of
        (None, st) \<Rightarrow> ((False, rep), st)
      | (Some w, st) \<Rightarrow>
          (case reqrep w req st of
             (Some (Some ptrep), st) \<Rightarrow> ((False, ptrep), st)
           | (_, st) \<Rightarrow> ((False, rep), st)))"

definition executeQueryNNG ::
    "'k option \<Rightarrow> (byte list \<Rightarrow> byte list \<Rightarrow> 'k \<times> 's \<Rightarrow> (bool \<times> byte list) \<times> 'k \<times> 's) \<Rightarrow> byte list \<Rightarrow> byte list
     \<Rightarrow> 'k list \<times> 's \<Rightarrow> ((bool \<times> byte list) \<times> 'k list \<times> 's) option" where
  "executeQueryNNG fresh execQuery req rep st =
     (case st of (connsNNG, st) \<Rightarrow>
      case (case connsNNG of [] \<Rightarrow> (fresh, []) | k # ks \<Rightarrow> (Some k, ks)) of (ret, connsNNG) \<Rightarrow>
      do {
        ret \<leftarrow> ret;
        case execQuery req rep (ret, st) of ((bret, rep), ret, st) \<Rightarrow>
          Some ((bret, rep), if bret then connsNNG @ [ret] else connsNNG, st)
      })"

lemma nng_query_fails: "fst (fst (dbn_execQuery getChannel reqrep req rep st)) = False"
  by (auto simp: dbn_execQuery_def split: prod.splits option.splits)

text \<open>\<open>ReqManager::getChannel\<close>; nothing ever fills its pool.\<close>

definition rqm_getChannel ::
    "(nmessage \<Rightarrow> bool) \<Rightarrow> ChannelModeC \<Rightarrow> u32 \<Rightarrow> u32 list \<Rightarrow> u32 \<Rightarrow> connection_maps \<Rightarrow> u32 \<times> u32 list \<times> u32 \<times> connection_maps" where
  "rqm_getChannel send modelc mainc channelPools sockNo cs =
     (case channelPools of
        [] \<Rightarrow> (case lnm_createReq send modelc mainc sockNo cs of (ret, _, sockNo, cs) \<Rightarrow> (ret, [], sockNo, cs))
      | ch # chs \<Rightarrow> (ch, chs, sockNo, cs))"

section \<open>Connections to the database itself\<close>

text \<open>
  \<open>DBManager\<close> and \<open>DBInst\<close>: connections are numbers, \<open>0\<close> is null. A connection is taken out of the queue or
  opened (\<open>opened\<close>: the new one, or 0 when the library throws) and goes back when its user is done.
\<close>

definition dbm_addConnect :: "bool \<Rightarrow> nat \<Rightarrow> nat option" where
  "dbm_addConnect dbg opened = (if dbg \<and> opened = 0 then None else Some opened)"

definition dbm_GetConn :: "bool \<Rightarrow> nat \<Rightarrow> nat list \<Rightarrow> (nat \<times> nat list) option" where
  "dbm_GetConn dbg opened conns =
     (case conns of
        [] \<Rightarrow> do { pret \<leftarrow> dbm_addConnect dbg opened; assert_that dbg (pret \<noteq> 0); Some (pret, []) }
      | c # cs \<Rightarrow> do { assert_that dbg (c \<noteq> 0); Some (c, cs) })"

definition dbm_addConnect_back :: "nat \<Rightarrow> nat list \<Rightarrow> nat list" where
  "dbm_addConnect_back conn conns = (if conn \<noteq> 0 then conns @ [conn] else conns)"

text \<open>A function with a \<open>DBInst\<close>: the connection is used and given back, also when the function throws.\<close>

definition with_DBInst :: "bool \<Rightarrow> nat \<Rightarrow> (nat \<Rightarrow> 't \<Rightarrow> 'r option \<times> 't) \<Rightarrow> nat list \<times> 't \<Rightarrow> ('r option \<times> nat list \<times> 't) option" where
  "with_DBInst dbg opened f st =
     (case st of (conns, t) \<Rightarrow> do {
        (conn, conns) \<leftarrow> dbm_GetConn dbg opened conns;
        if conn = 0 then None
        else case f conn t of (r, t) \<Rightarrow> Some (r, dbm_addConnect_back conn conns, t)
      })"

lemma connections_kept:
  assumes "with_DBInst dbg opened f (conns, t) = Some (r, conns', t')"
  shows "set conns \<subseteq> set conns' \<and> length conns' = max 1 (length conns)"
  using assms
  by (cases conns) (auto simp: with_DBInst_def dbm_GetConn_def dbm_addConnect_def dbm_addConnect_back_def
      Option.bind_eq_Some_conv split_beta split: if_splits)

end
