(* ===== verification/AccountProps.thy ===== *)
theory AccountProps
  imports Gateway
begin

text \<open>
  The properties of accounts: what the tables hold, who may log in, and the way of a request from the
  gateway over a connection, the router of the database node and its table of handlers to the function
  on the tables, and back.
\<close>

declare neq0_conv [iff del]

section \<open>The database node behind the gateway\<close>

text \<open>
  Handlers of the database node change the tables \<open>'t\<close>. \<open>db_serve\<close> is the database node's end of a
  connection: the turn of \<open>startIO\<close>, the router's coroutine and the answer; \<open>db_exec\<close> is what the gateway
  does to ask it.
\<close>

type_synonym 't db_handlers = "u32 \<rightharpoonup> (u32 \<rightharpoonup> (byte list \<Rightarrow> 't \<Rightarrow> byte list \<times> 't))"

definition trans_at :: "'t db_handlers \<Rightarrow> 't \<Rightarrow> trans_routers" where
  "trans_at hs t = Some (\<lambda>m. map_option (\<lambda>e a. map_option (\<lambda>h req. Rep_string (fst (h req t))) (e a)) (hs m))"

definition table_after :: "'t db_handlers \<Rightarrow> byte list \<Rightarrow> 't \<Rightarrow> 't" where
  "table_after hs body t =
     (case plat_unpack (take 8 body) (MainAssPlatPack 0 0) of
        Some (True, MainAssPlatPack m a) \<Rightarrow>
          (case Option.bind (hs m) (\<lambda>e. e a) of Some h \<Rightarrow> snd (h (drop 8 body) t) | None \<Rightarrow> t)
      | _ \<Rightarrow> t)"

definition db_serve ::
    "plat_packs \<Rightarrow> 't db_handlers \<Rightarrow> u32 \<Rightarrow> u32 \<Rightarrow> byte list \<Rightarrow> msg_router \<times> 't \<Rightarrow> byte list option \<times> msg_router \<times> 't" where
  "db_serve packs hs sock no body st =
     (case st of (mr, t) \<Rightarrow>
        (case do {
                (item, mr) \<leftarrow> cc_io_turn True sock DBQuery (new_NMessage no body) mr;
                (r, item) \<leftarrow> item;
                (_, mr) \<leftarrow> mr_deal True packs (trans_at hs t) item mr;
                Some (mr_msgs mr ! r, mr)
              } of
           Some (Sig_sent m, mr) \<Rightarrow> (Some (nm_body m), mr, table_after hs body t)
         | Some (_, mr) \<Rightarrow> (None, mr, t)
         | None \<Rightarrow> (None, mr, t)))"

lemma db_serve_answers:
  assumes "mr_ok mr" "mr_netRep mr sock no = None" "mr_appRep mr sock no = None"
    and "clonePlatformPack True DBQuery packs = Some (Some (MainAssPlatPack m0 a0))"
    and "hs m = Some e" "e a = Some h"
  shows "\<exists>mr'. db_serve packs hs sock no (be32 m @ be32 a @ req) (mr, t) = (Some (be32 m @ be32 a @ fst (h req t)), mr', snd (h req t))"
proof -
  let ?msg = "new_NMessage no (be32 m @ be32 a @ req)"
  have msg: "nm_no ?msg = no" "nm_body ?msg = be32 m @ be32 a @ req" by (simp_all add: new_NMessage_def)
  have f: "getRouterTrans (trans_at hs t) m a = Some (\<lambda>req. Rep_string (fst (h req t)))"
    using assms(5,6) by (simp add: getRouterTrans_def trans_at_def)
  obtain r st1 st2 where 1: "cc_io_turn True sock DBQuery ?msg mr = Some (Some (r, sock, DBQuery, ?msg), st1)"
    "mr_deal True packs (trans_at hs t) (sock, DBQuery, ?msg) st1 = Some (Deal_answered, st2)"
    "mr_msgs st2 ! r = Sig_sent (new_NMessage (nm_no ?msg) (be32 m @ be32 a @ fst (h req t)))"
    using request_served [OF assms(1) _ _ assms(4) msg(2) f refl, of sock] assms(2,3) msg(1) by auto
  have "table_after hs (be32 m @ be32 a @ req) t = snd (h req t)"
    using assms(5,6) by (simp add: table_after_def)
  with 1 show ?thesis by (auto simp: db_serve_def new_NMessage_def)
qed

text \<open>The state of the gateway: its free connections, the numbers and maps of connections, and the database node.\<close>

type_synonym 't gateway = "tcp_client list \<times> (u32 \<times> connection_maps) \<times> msg_router \<times> 't"

definition gw_getChannel ::
    "(nmessage \<Rightarrow> bool) \<Rightarrow> bool list \<Rightarrow> tcp_client \<times> (u32 \<times> connection_maps) \<times> 'd
     \<Rightarrow> u32 option option \<times> tcp_client \<times> (u32 \<times> connection_maps) \<times> 'd" where
  "gw_getChannel send results st =
     (case st of (c, (sockNo, cs), d) \<Rightarrow>
      case tcc_getChannel send results c sockNo cs of (ch, c, sockNo, cs) \<Rightarrow> (ch, c, (sockNo, cs), d))"

definition db_exec ::
    "plat_packs \<Rightarrow> 't db_handlers \<Rightarrow> (nmessage \<Rightarrow> bool) \<Rightarrow> bool list \<Rightarrow> u32 \<Rightarrow> u32 \<Rightarrow> DBMethod \<Rightarrow> byte list \<Rightarrow> 't gateway
     \<Rightarrow> (bool \<times> byte list) \<times> 't gateway" where
  "db_exec packs hs send results sock no mth req st =
     executeQueryTCP \<lparr>tcc_valid_ip = True, tcc_channelpool = []\<rparr>
       (dbt_execQuery (gw_getChannel send results)
          (\<lambda>ch req (c, net, d). case db_serve packs hs sock no req d of (rep, d) \<Rightarrow> (Some rep, c, net, d))
          (\<lambda>ch (c, st). (tcc_returnChannel (Some ch) c, st)))
       req [] st"

text \<open>Every connection that waits in the queue has a free channel, or a new one can be made.\<close>

definition gw_ready :: "bool list \<Rightarrow> tcp_client list \<Rightarrow> bool" where
  "gw_ready results conns \<longleftrightarrow>
     (if conns = [] then True \<in> set (take 3 results) else \<forall>k \<in> set conns. tcc_channelpool k \<noteq> [])"

lemma gw_getChannel_ready:
  assumes "if tcc_channelpool c = [] then tcc_valid_ip c \<and> True \<in> set (take 3 results) else True"
  obtains ch c' net' where "\<forall>d. gw_getChannel send results (c, net, d) = (Some (Some ch), c', net', d)"
proof (cases "tcc_channelpool c")
  case Nil
  obtain sockNo cs where net: "net = (sockNo, cs)" by (cases net)
  obtain ch sockNo' cs' where c: "tcc_connect send (take 3 results) sockNo cs = (ch, sockNo', cs')" by (metis prod_cases3)
  then obtain ch1 where "ch = Some ch1" using tcc_connect_iff [of send "take 3 results" sockNo cs] assms Nil by auto
  then show ?thesis using that [of ch1 c "(sockNo', cs')"] Nil assms c by (simp add: gw_getChannel_def tcc_getChannel_def net)
next
  case (Cons ch chs)
  then show ?thesis
    using that [of ch "c\<lparr>tcc_channelpool := chs\<rparr>" net] by (simp add: gw_getChannel_def tcc_getChannel_def split_beta)
qed

lemma db_exec_answers:
  assumes "mr_ok mr" "mr_netRep mr sock no = None" "mr_appRep mr sock no = None"
    and "clonePlatformPack True DBQuery packs = Some (Some (MainAssPlatPack m0 a0))"
    and "hs m = Some e" "e a = Some h" "gw_ready results conns"
  shows "\<exists>conns' net' mr'. db_exec packs hs send results sock no mth (be32 m @ be32 a @ req) (conns, net, mr, t)
           = ((True, be32 m @ be32 a @ fst (h req t)), conns', net', mr', snd (h req t))
         \<and> conns' \<noteq> [] \<and> gw_ready results conns'"
proof -
  let ?new = "\<lparr>tcc_valid_ip = True, tcc_channelpool = []\<rparr>"
  define c where "c = (case conns of [] \<Rightarrow> ?new | k # ks \<Rightarrow> k)"
  have "if tcc_channelpool c = [] then tcc_valid_ip c \<and> True \<in> set (take 3 results) else True"
    using assms(7) by (cases conns) (auto simp: c_def gw_ready_def)
  then obtain ch c' net' where g: "\<forall>d :: msg_router \<times> 'a. gw_getChannel send results (c, net, d) = (Some (Some ch), c', net', d)"
    by (rule gw_getChannel_ready [where send = send and net = net])
  obtain mr' where d: "db_serve packs hs sock no (be32 m @ be32 a @ req) (mr, t)
      = (Some (be32 m @ be32 a @ fst (h req t)), mr', snd (h req t))"
    using db_serve_answers [where hs = hs and m = m and a = a and h = h, OF assms(1-6)] by blast
  show ?thesis
    using assms(7)
    by (cases conns) (use g in \<open>auto simp: db_exec_def executeQueryTCP_def execQuery_once c_def d tcc_returnChannel_def gw_ready_def\<close>)
qed


section \<open>A request through the gateway\<close>


definition ex_regist :: RegistReq where
  "ex_regist = \<lparr>rq_token = [], rg_username = ''eve'', rg_password = ''pw'', rg_phone = ''1''\<rparr>"

definition ex_jwt :: jwt where
  "ex_jwt = \<lparr>jwt_create = \<lambda>issuer _ _ _ _. CHR ''t'' # issuer,
             jwt_verify = \<lambda>_ issuer _ token. Some (if token = CHR ''t'' # issuer then 0 else 1)\<rparr>"

definition ex_reply :: RegistRep where
  "ex_reply = \<lparr>rp_code = 20000, rgp_user = ''eve'', rgp_token = ''talqaz''\<rparr>"

definition ex_print :: "RegistRep \<Rightarrow> byte list" where
  "ex_print r = (if rp_code r = 20000 then [1] else [0])"

lemma ex_sregist: "sregist list_sql ex_jwt ex_regist [] = (Some ex_reply, [new_row ex_regist])"
  by (simp add: sregist_def sregist_count_def sregist_rest_def list_sql_def ex_regist_def new_row_def new_RegistRep_def ex_jwt_def ex_reply_def)


section \<open>Registration and login\<close>

text \<open>
  C35. Registrations that run one after another never put a name into the table twice, whatever statements
  throw, and never change or remove a row that is there.
\<close>

theorem names_stay_unique:
  assumes "sql_ok S rows" "names_unique (rows t)"
  shows "names_unique (rows (regist_all S J reqs t)) \<and> rows t \<subseteq># rows (regist_all S J reqs t)"
  using regist_all_keeps [OF assms(1)] assms(2) by blast

theorem names_stay_unique_witness:
  "names_unique (mset (regist_all list_sql ex_jwt [ex_regist, ex_regist] []))"
  using names_stay_unique [OF list_sql_ok, of "[]" ex_jwt "[ex_regist, ex_regist]"] by (simp add: names_unique_def)

text \<open>
  C36. Who has registered can log in: after a registration that was answered with \<open>ok\<close>, and whatever
  registrations follow, a login with the name and the password that does not throw is answered with \<open>ok\<close>, the
  name, and a token that is accepted until it expires.
\<close>

theorem register_then_login:
  assumes "sql_ok S rows" "jwt_ok J"
    and "sregist S J req t = (Some rep, t1)" "rp_code rep = status_code Status_ok" "rg_username req \<noteq> []"
    and "lg_username login = rg_username req" "lg_password login = rg_password req" "lg_phone login = []"
    and "slogin S J conf now login (regist_all S J reqs t1) = Some rep'"
    and "now' < now + jc_expiresecond conf"
  shows "rp_code rep' = status_code Status_ok \<and> lgp_username rep' = rg_username req \<and> isjwttokenright J conf now' (lgp_token rep')"
proof -
  have "new_row req \<in># rows t1"
    using assms(1,3) by (rule sregist_cases) (use assms(4) in \<open>auto simp: status_code_inj\<close>)
  then have "new_row req \<in># rows (regist_all S J reqs t1)"
    using regist_all_keeps(2) [OF assms(1), of t1 J reqs] by (meson mset_subset_eqD)
  moreover have "login_matches login (new_row req)"
    using assms(5-8) by (simp add: login_matches_def new_row_def)
  ultimately have ok: "rp_code rep' = status_code Status_ok" using login_iff(1) [OF assms(1,9)] by blast
  from login_iff(2) [OF assms(1,9) ok] obtain row where "lgp_token rep' = getjwttoken J conf now"
    "login_matches login row" "lgp_username rep' = us_name row" by blast
  then show ?thesis
    using ok login_token_right [OF assms(2,10)] assms(5,6,8) by (simp add: login_matches_def)
qed

definition ex_login :: LoginReq where
  "ex_login = \<lparr>rq_token = [], lg_username = ''eve'', lg_phone = [], lg_password = ''pw''\<rparr>"

definition ex_conf :: jwt_config where
  "ex_conf = \<lparr>jc_issuer = ''sm'', jc_type = ''JWS'', jc_key = ''secret'', jc_expiresecond = 60\<rparr>"

lemma ex_jwt_ok: "jwt_ok ex_jwt"
  by (simp add: jwt_ok_def ex_jwt_def)

theorem register_then_login_witness:
  "\<exists>rep. slogin list_sql ex_jwt ex_conf 100 ex_login [new_row ex_regist] = Some rep \<and> rp_code rep = status_code Status_ok
     \<and> isjwttokenright ex_jwt ex_conf 130 (lgp_token rep)"
proof -
  obtain rep where rep: "slogin list_sql ex_jwt ex_conf 100 ex_login [new_row ex_regist] = Some rep"
    by (simp add: slogin_def slogin_check_def list_sql_def ex_login_def ex_regist_def new_row_def Let_def)
  then show ?thesis
    using register_then_login [OF list_sql_ok ex_jwt_ok ex_sregist, of ex_login ex_conf 100 "[]" rep 130]
    by (simp add: regist_all_def ex_reply_def ex_regist_def ex_login_def ex_conf_def)
qed



section \<open>Administrators\<close>

text \<open>
  C38. The table of administrators is a set: after any requests to add and to remove administrators of which
  none throws, a query returns each administrator of a user exactly once, those that a set updated by the
  requests holds.
\<close>

theorem administrators_refine_set:
  assumes "sql_ok S rows" "rows t = {#}" "admin_run S ops t = Some t'" "sgetSysAdmin S req t' = Some rep"
  shows "mset (gsp_admins rep) =
     image_mset (\<lambda>row. \<lparr>ad_name = sa_admin row, ad_role = sa_role row\<rparr>)
       (mset_set {r \<in> fold admin_spec ops {}. sa_user r = gs_user req \<and> sa_phone r = gs_phone req})"
proof -
  have "rows t = mset_set {}" "finite ({} :: admin_row set)" using assms(2) by simp_all
  then have "rows t' = mset_set (fold admin_spec ops {})" "finite (fold admin_spec ops {})"
    using admin_run_set [OF assms(1) _ _ assms(3)] by blast+
  from sgetSysAdmin_set [OF assms(1) this assms(4)] show ?thesis .
qed

definition ex_admins :: "sysAdminItem list \<Rightarrow> sysAdminReq" where
  "ex_admins is = \<lparr>rq_token = [], sr_user = ''eve'', sr_phone = ''1'', sr_admins = is\<rparr>"

definition ex_item :: "string \<Rightarrow> sysAdminItem" where
  "ex_item n = \<lparr>ad_name = n, ad_role = 0\<rparr>"

theorem administrators_refine_set_witness:
  "\<exists>rep. sgetSysAdmin list_sql \<lparr>rq_token = [], gs_user = ''eve'', gs_phone = ''1''\<rparr>
       [admin_row_of (ex_admins []) (ex_item ''bob'')] = Some rep
     \<and> mset (gsp_admins rep) = {#ex_item ''bob''#}"
proof -
  let ?b = "ex_item ''bob''" and ?a = "ex_item ''al''" and ?get = "\<lparr>rq_token = [], gs_user = ''eve'', gs_phone = ''1''\<rparr>"
  let ?ops = "[Op_addAdmin (ex_admins [?b, ?a, ?b]), Op_delAdmin (ex_admins [?a])]"
  let ?t = "[admin_row_of (ex_admins []) ?b]"
  have run: "admin_run list_sql ?ops [] = Some ?t"
    by (simp add: saddSysAdmin_def sdelSysAdmin_def ok_or_throw_def list_sql_def ex_admins_def ex_item_def admin_row_of_def admin_is_def)
  obtain rep where rep: "sgetSysAdmin list_sql ?get ?t = Some rep" by (simp add: sgetSysAdmin_def list_sql_def)
  have set: "{r \<in> fold admin_spec ?ops {}. sa_user r = gs_user ?get \<and> sa_phone r = gs_phone ?get} = {admin_row_of (ex_admins []) ?b}"
    by (auto simp: admin_rows_def ex_admins_def ex_item_def admin_row_of_def)
  show ?thesis
    using administrators_refine_set [OF list_sql_ok _ run rep] rep unfolding set
    by (simp add: admin_row_of_def ex_admins_def ex_item_def)
qed

end
