(* ===== verification/Configuration.thy ===== *)
theory Configuration
  imports Prelude
begin

text \<open>
  The configuration (\<open>src/configs/Configs.cpp\<close>, \<open>conf.cpp\<close>, \<open>src/inc/Structs.h\<close>). A TOML file is a tree; a
  look-up throws when the key is missing or the value has another type, and integers are cast to the type
  that is asked for. Options are assigned in the order of the file's sections: an exception ends the
  reading and leaves what was assigned before. A reader returns whether it came to its end.
\<close>

declare neq0_conv [iff del]

section \<open>The file\<close>

datatype toml =
    Toml_string string
  | Toml_int int
  | Toml_bool bool
  | Toml_array "toml list"
  | Toml_table "(string \<times> toml) list"

fun toml_find :: "toml \<Rightarrow> string \<Rightarrow> toml option" where
  "toml_find (Toml_table es) key = map_of es key"
| "toml_find _ key = None"

definition find_string :: "toml \<Rightarrow> string \<Rightarrow> string option" where
  "find_string v key = (case toml_find v key of Some (Toml_string s) \<Rightarrow> Some s | _ \<Rightarrow> None)"

definition find_integer :: "toml \<Rightarrow> string \<Rightarrow> int option" where
  "find_integer v key = (case toml_find v key of Some (Toml_int i) \<Rightarrow> Some i | _ \<Rightarrow> None)"

definition find_int :: "toml \<Rightarrow> string \<Rightarrow> int option" where
  "find_int v key = map_option (\<lambda>i. sint (word_of_int i :: u32)) (find_integer v key)"

definition find_u16 :: "toml \<Rightarrow> string \<Rightarrow> u16 option" where
  "find_u16 v key = map_option word_of_int (find_integer v key)"

definition find_u64 :: "toml \<Rightarrow> string \<Rightarrow> 64 word option" where
  "find_u64 v key = map_option word_of_int (find_integer v key)"

definition find_bool :: "toml \<Rightarrow> string \<Rightarrow> bool option" where
  "find_bool v key = (case toml_find v key of Some (Toml_bool b) \<Rightarrow> Some b | _ \<Rightarrow> None)"

definition toml_strings :: "toml \<Rightarrow> string list option" where
  "toml_strings v =
     (case v of
        Toml_array vs \<Rightarrow> those (map (\<lambda>x. case x of Toml_string s \<Rightarrow> Some s | _ \<Rightarrow> None) vs)
      | _ \<Rightarrow> None)"

definition find_strings :: "toml \<Rightarrow> string \<Rightarrow> string list option" where
  "find_strings v key = Option.bind (toml_find v key) toml_strings"

section \<open>Assignments one after another\<close>

type_synonym 'c reader = "'c \<Rightarrow> bool \<times> 'c"

definition assign :: "'v option \<Rightarrow> ('v \<Rightarrow> 'c \<Rightarrow> 'c) \<Rightarrow> 'c reader" where
  "assign x f c = (case x of None \<Rightarrow> (False, c) | Some v \<Rightarrow> (True, f v c))"

fun run_all :: "'c reader list \<Rightarrow> 'c reader" where
  "run_all [] c = (True, c)"
| "run_all (f # fs) c = (case f c of (ok, c) \<Rightarrow> if ok then run_all fs c else (False, c))"

definition within :: "toml option \<Rightarrow> (toml \<Rightarrow> 'c reader) \<Rightarrow> 'c reader" where
  "within node f c = (case node of None \<Rightarrow> (False, c) | Some v \<Rightarrow> f v c)"

lemma assign_True: "assign x f c = (True, c') \<longleftrightarrow> (\<exists>v. x = Some v \<and> c' = f v c)"
  by (auto simp: assign_def split: option.split)

lemma within_True: "within node f c = (True, c') \<longleftrightarrow> (\<exists>v. node = Some v \<and> f v c = (True, c'))"
  by (auto simp: within_def split: option.split)

lemma run_all_True: "run_all (f # fs) c = (True, c') \<longleftrightarrow> (\<exists>c1. f c = (True, c1) \<and> run_all fs c1 = (True, c'))"
  by (cases "f c") auto

lemmas reader_True = assign_True within_True run_all_True

lemma run_all_append: "run_all (fs @ gs) c = (case run_all fs c of (ok, c) \<Rightarrow> if ok then run_all gs c else (False, c))"
  by (induction fs arbitrary: c) (auto split: prod.splits)

section \<open>The options\<close>

record http_config =
  hc_addr :: string
  hc_port :: u16
  hc_rootHtmlPath :: string
  hc_rootJsonPath :: string
  hc_resRootPath :: string
  hc_wsPath :: string
  hc_perPath :: string
  hc_keyPath :: string

record db_remote =
  dr_ip :: string
  dr_port :: u16
  dr_useSSL :: bool

record sqlite_config =
  sq_file :: string
  sq_filepath :: string

record db_server =
  ds_dbname :: string
  ds_addr :: string
  ds_port :: u16
  ds_username :: string
  ds_password :: string

record redis_config =
  rd_addr :: string
  rd_port :: u16
  rd_username :: string
  rd_password :: string

record db_config =
  dc_type :: int
  dc_model :: int
  dc_debug :: bool
  dc_tcpServer :: db_remote
  dc_nngServer :: db_remote
  dc_tcpClient :: db_remote
  dc_nngClient :: db_remote
  dc_sqlite :: sqlite_config
  dc_postgres :: db_server
  dc_redis :: redis_config

record log_config =
  lo_ip :: string
  lo_port :: u16
  lo_format :: string
  lo_level :: int
  lo_file :: string
  lo_filepath :: string
  lo_logger :: string
  lo_fileRollSize :: "64 word"
  lo_rollfilecount :: int

record transport_config =
  tr_addr :: string
  tr_port :: u16
  tr_timeout :: u16

record nano_config =
  na_addr :: string
  na_port :: u16

record jwt_options =
  jo_issuer :: string
  jo_type :: string
  jo_key :: string
  jo_superuser :: string
  jo_superpass :: string
  jo_timeout :: int
  jo_noAuthRouter :: "string set"

record configs =
  cf_nanotcp :: nano_config
  cf_dbconf :: db_config
  cf_http :: http_config
  cf_log :: log_config
  cf_transport :: transport_config
  cf_jwt :: jwt_options
  cf_path :: string
  cf_defaultTimeZone :: string

section \<open>Sections\<close>

definition ParseHttp :: "toml \<Rightarrow> configs reader" where
  "ParseHttp root =
     (let http = (\<lambda>f c. c\<lparr>cf_http := f (cf_http c)\<rparr>) in
      run_all
        [assign (find_string root ''addr'') (\<lambda>v. http (\<lambda>h. h\<lparr>hc_addr := v\<rparr>)),
         assign (find_u16 root ''port'') (\<lambda>v. http (\<lambda>h. h\<lparr>hc_port := v\<rparr>)),
         assign (find_string root ''resRootPath'') (\<lambda>v. http (\<lambda>h. h\<lparr>hc_resRootPath := v\<rparr>)),
         assign (find_string root ''rootJsonPath'') (\<lambda>v. http (\<lambda>h. h\<lparr>hc_rootJsonPath := v\<rparr>)),
         assign (find_string root ''rootHtmlPath'') (\<lambda>v. http (\<lambda>h. h\<lparr>hc_rootHtmlPath := v\<rparr>)),
         assign (find_string root ''wsPath'') (\<lambda>v. http (\<lambda>h. h\<lparr>hc_wsPath := v\<rparr>)),
         assign (find_string root ''keyName'') (\<lambda>v. http (\<lambda>h. h\<lparr>hc_keyPath := v\<rparr>)),
         assign (find_string root ''pemName'') (\<lambda>v. http (\<lambda>h. h\<lparr>hc_perPath := v\<rparr>))])"

definition ParseTimeZoneConf :: "toml \<Rightarrow> configs reader" where
  "ParseTimeZoneConf root = assign (find_string root ''defaultTimeZone'') (\<lambda>v c. c\<lparr>cf_defaultTimeZone := v\<rparr>)"

definition db_upd :: "(db_config \<Rightarrow> db_config) \<Rightarrow> configs \<Rightarrow> configs" where
  "db_upd f c = c\<lparr>cf_dbconf := f (cf_dbconf c)\<rparr>"

definition parse_remote :: "((db_remote \<Rightarrow> db_remote) \<Rightarrow> db_config \<Rightarrow> db_config) \<Rightarrow> toml \<Rightarrow> configs reader" where
  "parse_remote upd node =
     run_all
       [assign (find_string node ''addr'') (\<lambda>v. db_upd (upd (\<lambda>r. r\<lparr>dr_ip := v\<rparr>))),
        assign (find_u16 node ''port'') (\<lambda>v. db_upd (upd (\<lambda>r. r\<lparr>dr_port := v\<rparr>))),
        assign (find_int node ''useSSL'') (\<lambda>v. db_upd (upd (\<lambda>r. r\<lparr>dr_useSSL := (v \<noteq> 0)\<rparr>)))]"

text \<open>The section of the kind of database that the options say; another number reads none.\<close>

definition parse_local :: "toml \<Rightarrow> configs reader" where
  "parse_local dbmgr c =
     (let pg = (\<lambda>f. db_upd (\<lambda>d. d\<lparr>dc_postgres := f (dc_postgres d)\<rparr>));
          sq = (\<lambda>f. db_upd (\<lambda>d. d\<lparr>dc_sqlite := f (dc_sqlite d)\<rparr>)) in
      if dc_type (cf_dbconf c) = 0 then
        within (toml_find dbmgr ''postgresql'') (\<lambda>pgnode. run_all
          [assign (find_string pgnode ''addr'') (\<lambda>v. pg (\<lambda>p. p\<lparr>ds_addr := v\<rparr>)),
           assign (find_u16 pgnode ''port'') (\<lambda>v. pg (\<lambda>p. p\<lparr>ds_port := v\<rparr>)),
           assign (find_string pgnode ''dbname'') (\<lambda>v. pg (\<lambda>p. p\<lparr>ds_dbname := v\<rparr>)),
           assign (find_string pgnode ''user'') (\<lambda>v. pg (\<lambda>p. p\<lparr>ds_username := v\<rparr>)),
           assign (find_string pgnode ''pass'') (\<lambda>v. pg (\<lambda>p. p\<lparr>ds_password := v\<rparr>))]) c
      else if dc_type (cf_dbconf c) = 1 then
        within (toml_find dbmgr ''sqlite'') (\<lambda>sqlitenode. run_all
          [assign (find_string sqlitenode ''sqlitename'') (\<lambda>v. sq (\<lambda>p. p\<lparr>sq_file := v\<rparr>)),
           assign (find_string sqlitenode ''sqlitepath'') (\<lambda>v. sq (\<lambda>p. p\<lparr>sq_filepath := v\<rparr>))]) c
      else (True, c))"

definition ParseDatabase :: "toml \<Rightarrow> configs reader" where
  "ParseDatabase dbmgr =
     (let rd = (\<lambda>f. db_upd (\<lambda>d. d\<lparr>dc_redis := f (dc_redis d)\<rparr>)) in
      run_all
        [assign (find_int dbmgr ''databasetype'') (\<lambda>v. db_upd (\<lambda>d. d\<lparr>dc_type := v\<rparr>)),
         assign (find_int dbmgr ''databasemodel'') (\<lambda>v. db_upd (\<lambda>d. d\<lparr>dc_model := v\<rparr>)),
         assign (find_bool dbmgr ''databasedebug'') (\<lambda>v. db_upd (\<lambda>d. d\<lparr>dc_debug := v\<rparr>)),
         parse_local dbmgr,
         within (toml_find dbmgr ''tcpserver'') (parse_remote (\<lambda>f d. d\<lparr>dc_tcpServer := f (dc_tcpServer d)\<rparr>)),
         within (toml_find dbmgr ''nngserver'') (parse_remote (\<lambda>f d. d\<lparr>dc_nngServer := f (dc_nngServer d)\<rparr>)),
         within (toml_find dbmgr ''tcpclient'') (parse_remote (\<lambda>f d. d\<lparr>dc_tcpClient := f (dc_tcpClient d)\<rparr>)),
         within (toml_find dbmgr ''nngclient'') (parse_remote (\<lambda>f d. d\<lparr>dc_nngClient := f (dc_nngClient d)\<rparr>)),
         within (toml_find dbmgr ''redis'') (\<lambda>redisnode. run_all
           [assign (find_string redisnode ''addr'') (\<lambda>v. rd (\<lambda>p. p\<lparr>rd_addr := v\<rparr>)),
            assign (find_u16 redisnode ''port'') (\<lambda>v. rd (\<lambda>p. p\<lparr>rd_port := v\<rparr>)),
            assign (find_string redisnode ''user'') (\<lambda>v. rd (\<lambda>p. p\<lparr>rd_username := v\<rparr>)),
            assign (find_string redisnode ''pass'') (\<lambda>v. rd (\<lambda>p. p\<lparr>rd_password := v\<rparr>))])])"

definition ParseLog :: "toml \<Rightarrow> configs reader" where
  "ParseLog root =
     (let log = (\<lambda>f c. c\<lparr>cf_log := f (cf_log c)\<rparr>) in
      run_all
        [within (toml_find root ''node'') (\<lambda>node. run_all
           [assign (find_string node ''addr'') (\<lambda>v. log (\<lambda>l. l\<lparr>lo_ip := v\<rparr>)),
            assign (find_u16 node ''port'') (\<lambda>v. log (\<lambda>l. l\<lparr>lo_port := v\<rparr>))]),
         within (toml_find root ''context'') (\<lambda>node. run_all
           [assign (find_string node ''format'') (\<lambda>v. log (\<lambda>l. l\<lparr>lo_format := v\<rparr>)),
            assign (find_int node ''level'') (\<lambda>v. log (\<lambda>l. l\<lparr>lo_level := v\<rparr>)),
            assign (find_string node ''log_file'') (\<lambda>v. log (\<lambda>l. l\<lparr>lo_file := v\<rparr>)),
            assign (find_string node ''log_file_path'') (\<lambda>v. log (\<lambda>l. l\<lparr>lo_filepath := v\<rparr>)),
            assign (find_u64 node ''log_roll_size'') (\<lambda>v. log (\<lambda>l. l\<lparr>lo_fileRollSize := v\<rparr>)),
            assign (find_int node ''log_roll_count'') (\<lambda>v. log (\<lambda>l. l\<lparr>lo_rollfilecount := v\<rparr>)),
            assign (find_string node ''logger_name'') (\<lambda>v. log (\<lambda>l. l\<lparr>lo_logger := v\<rparr>))])])"

definition ParseTransport :: "toml \<Rightarrow> configs reader" where
  "ParseTransport root =
     (let tr = (\<lambda>f c. c\<lparr>cf_transport := f (cf_transport c)\<rparr>) in
      run_all
        [assign (find_string root ''addr'') (\<lambda>v. tr (\<lambda>t. t\<lparr>tr_addr := v\<rparr>)),
         assign (find_u16 root ''port'') (\<lambda>v. tr (\<lambda>t. t\<lparr>tr_port := v\<rparr>)),
         assign (find_u16 root ''timeout'') (\<lambda>v. tr (\<lambda>t. t\<lparr>tr_timeout := v\<rparr>)),
         (\<lambda>c. (True, if tr_timeout (cf_transport c) > 60000 then tr (\<lambda>t. t\<lparr>tr_timeout := 60000\<rparr>) c else c))])"

definition ParseNanoTcp :: "toml \<Rightarrow> configs reader" where
  "ParseNanoTcp root =
     (let na = (\<lambda>f c. c\<lparr>cf_nanotcp := f (cf_nanotcp c)\<rparr>) in
      within (toml_find root ''rep'') (\<lambda>node. run_all
        [assign (find_string node ''addr'') (\<lambda>v. na (\<lambda>n. n\<lparr>na_addr := v\<rparr>)),
         assign (find_u16 node ''port'') (\<lambda>v. na (\<lambda>n. n\<lparr>na_port := v\<rparr>))]))"

definition ParseJWTConf :: "toml \<Rightarrow> configs reader" where
  "ParseJWTConf root =
     (let jw = (\<lambda>f c. c\<lparr>cf_jwt := f (cf_jwt c)\<rparr>) in
      run_all
        [assign (find_string root ''issuer'') (\<lambda>v. jw (\<lambda>j. j\<lparr>jo_issuer := v\<rparr>)),
         assign (find_string root ''type'') (\<lambda>v. jw (\<lambda>j. j\<lparr>jo_type := v\<rparr>)),
         assign (find_string root ''key'') (\<lambda>v. jw (\<lambda>j. j\<lparr>jo_key := v\<rparr>)),
         assign (find_string root ''superuser'') (\<lambda>v. jw (\<lambda>j. j\<lparr>jo_superuser := v\<rparr>)),
         assign (find_string root ''superpass'') (\<lambda>v. jw (\<lambda>j. j\<lparr>jo_superpass := v\<rparr>)),
         assign (find_int root ''timeout'') (\<lambda>v. jw (\<lambda>j. j\<lparr>jo_timeout := v\<rparr>)),
         assign (find_strings root ''noAuthUrl'') (\<lambda>v. jw (\<lambda>j. j\<lparr>jo_noAuthRouter := jo_noAuthRouter j \<union> set v\<rparr>))])"

text \<open>
  \<open>Parse\<close>: the file, or \<open>None\<close> if it cannot be read or parsed; \<open>db\<close> and \<open>main\<close> are the results of caching the
  names of commands.
\<close>

definition config_Parse :: "bool \<Rightarrow> toml option \<Rightarrow> bool \<Rightarrow> bool \<Rightarrow> string \<Rightarrow> configs \<Rightarrow> (bool \<times> configs) option" where
  "config_Parse dbg file db main path c =
     (let c = c\<lparr>cf_path := path\<rparr> in
      case within file (\<lambda>data.
             within (toml_find data ''dbmgr'') (\<lambda>dbmgr.
             within (toml_find data ''http'') (\<lambda>http.
             within (toml_find data ''log'') (\<lambda>log.
             within (toml_find data ''transport'') (\<lambda>transport.
             within (toml_find data ''nanomsg'') (\<lambda>nanotcp.
             within (toml_find data ''jwt'') (\<lambda>jwt.
             within (toml_find data ''timezone'') (\<lambda>tz.
               run_all [ParseHttp http, ParseDatabase dbmgr, ParseLog log, ParseTransport transport,
                        ParseNanoTcp nanotcp, ParseJWTConf jwt, ParseTimeZoneConf tz])))))))) c of
        (ok, c) \<Rightarrow>
          if \<not> ok then Some (False, c)
          else if dbg \<and> (\<not> db \<or> \<not> main) then None
          else Some (main, c))"

definition isRouterNeedJwt :: "string \<Rightarrow> configs \<Rightarrow> bool" where
  "isRouterNeedJwt url c \<longleftrightarrow> url \<notin> jo_noAuthRouter (cf_jwt c)"

text \<open>The only instance, null before \<open>sInit\<close>, and the start in \<open>conf.cpp\<close>.\<close>

definition configs_sInit :: "configs \<Rightarrow> configs option \<Rightarrow> bool \<times> configs option" where
  "configs_sInit fresh inst = (case inst of Some _ \<Rightarrow> (False, inst) | None \<Rightarrow> (True, Some fresh))"

definition configs_getInst2 :: "configs \<Rightarrow> configs option \<Rightarrow> configs \<times> configs option" where
  "configs_getInst2 fresh inst = (case inst of Some c \<Rightarrow> (c, inst) | None \<Rightarrow> (fresh, Some fresh))"

definition conf_sInit ::
    "bool \<Rightarrow> configs \<Rightarrow> (string \<Rightarrow> toml option) \<Rightarrow> bool \<Rightarrow> bool \<Rightarrow> string option \<Rightarrow> configs option \<Rightarrow> (bool \<times> configs option) option" where
  "conf_sInit dbg fresh read db main path inst =
     (case path of
        None \<Rightarrow> Some (False, inst)
      | Some strpath \<Rightarrow>
          (case configs_sInit fresh inst of (bret, inst) \<Rightarrow>
             if \<not> bret then Some (False, inst)
             else case configs_getInst2 fresh inst of (c, inst) \<Rightarrow>
                  map_option (\<lambda>(bret, c). (bret, Some c)) (config_Parse dbg (read strpath) db main strpath c)))"


section \<open>Reading what was written\<close>

text \<open>A file with all options of a configuration; the URLs that need no token are given as a list.\<close>

definition toml_str :: "string \<Rightarrow> toml" where "toml_str = Toml_string"

definition toml_u16 :: "u16 \<Rightarrow> toml" where "toml_u16 w = Toml_int (uint w)"

definition toml_of_http :: "http_config \<Rightarrow> toml" where
  "toml_of_http h = Toml_table
     [(''addr'', toml_str (hc_addr h)), (''port'', toml_u16 (hc_port h)), (''resRootPath'', toml_str (hc_resRootPath h)),
      (''rootJsonPath'', toml_str (hc_rootJsonPath h)), (''rootHtmlPath'', toml_str (hc_rootHtmlPath h)), (''wsPath'', toml_str (hc_wsPath h)),
      (''keyName'', toml_str (hc_keyPath h)), (''pemName'', toml_str (hc_perPath h))]"

definition toml_of_remote :: "db_remote \<Rightarrow> toml" where
  "toml_of_remote r = Toml_table
     [(''addr'', toml_str (dr_ip r)), (''port'', toml_u16 (dr_port r)), (''useSSL'', Toml_int (if dr_useSSL r then 1 else 0))]"

definition toml_of_db :: "db_config \<Rightarrow> toml" where
  "toml_of_db d = Toml_table
     [(''databasetype'', Toml_int (dc_type d)), (''databasemodel'', Toml_int (dc_model d)), (''databasedebug'', Toml_bool (dc_debug d)),
      (''postgresql'', Toml_table [(''addr'', toml_str (ds_addr (dc_postgres d))), (''port'', toml_u16 (ds_port (dc_postgres d))),
         (''dbname'', toml_str (ds_dbname (dc_postgres d))), (''user'', toml_str (ds_username (dc_postgres d))), (''pass'', toml_str (ds_password (dc_postgres d)))]),
      (''sqlite'', Toml_table [(''sqlitename'', toml_str (sq_file (dc_sqlite d))), (''sqlitepath'', toml_str (sq_filepath (dc_sqlite d)))]),
      (''tcpserver'', toml_of_remote (dc_tcpServer d)), (''nngserver'', toml_of_remote (dc_nngServer d)),
      (''tcpclient'', toml_of_remote (dc_tcpClient d)), (''nngclient'', toml_of_remote (dc_nngClient d)),
      (''redis'', Toml_table [(''addr'', toml_str (rd_addr (dc_redis d))), (''port'', toml_u16 (rd_port (dc_redis d))),
         (''user'', toml_str (rd_username (dc_redis d))), (''pass'', toml_str (rd_password (dc_redis d)))])]"

definition toml_of_log :: "log_config \<Rightarrow> toml" where
  "toml_of_log l = Toml_table
     [(''node'', Toml_table [(''addr'', toml_str (lo_ip l)), (''port'', toml_u16 (lo_port l))]),
      (''context'', Toml_table [(''format'', toml_str (lo_format l)), (''level'', Toml_int (lo_level l)), (''log_file'', toml_str (lo_file l)),
         (''log_file_path'', toml_str (lo_filepath l)), (''log_roll_size'', Toml_int (uint (lo_fileRollSize l))),
         (''log_roll_count'', Toml_int (lo_rollfilecount l)), (''logger_name'', toml_str (lo_logger l))])]"

definition toml_of_transport :: "transport_config \<Rightarrow> toml" where
  "toml_of_transport t = Toml_table [(''addr'', toml_str (tr_addr t)), (''port'', toml_u16 (tr_port t)), (''timeout'', toml_u16 (tr_timeout t))]"

definition toml_of_jwt :: "string list \<Rightarrow> jwt_options \<Rightarrow> toml" where
  "toml_of_jwt urls j = Toml_table
     [(''issuer'', toml_str (jo_issuer j)), (''type'', toml_str (jo_type j)), (''key'', toml_str (jo_key j)), (''superuser'', toml_str (jo_superuser j)),
      (''superpass'', toml_str (jo_superpass j)), (''timeout'', Toml_int (jo_timeout j)), (''noAuthUrl'', Toml_array (map toml_str urls))]"

definition toml_of :: "string list \<Rightarrow> configs \<Rightarrow> toml" where
  "toml_of urls c = Toml_table
     [(''http'', toml_of_http (cf_http c)), (''dbmgr'', toml_of_db (cf_dbconf c)), (''log'', toml_of_log (cf_log c)),
      (''transport'', toml_of_transport (cf_transport c)),
      (''nanomsg'', Toml_table [(''rep'', Toml_table [(''addr'', toml_str (na_addr (cf_nanotcp c))), (''port'', toml_u16 (na_port (cf_nanotcp c)))])]),
      (''jwt'', toml_of_jwt urls (cf_jwt c)), (''timezone'', Toml_table [(''defaultTimeZone'', toml_str (cf_defaultTimeZone c))])]"

definition is_int32 :: "int \<Rightarrow> bool" where
  "is_int32 i \<longleftrightarrow> - (2 ^ 31) \<le> i \<and> i < 2 ^ 31"

lemma sint_word_of_int: "is_int32 i \<Longrightarrow> sint (word_of_int i :: u32) = i"
  using signed_take_bit_int_eq_self [of 31 i] by (simp add: is_int32_def sint_sbintrunc')

lemmas toml_simps = toml_find.simps find_string_def find_integer_def find_int_def find_u16_def find_u64_def find_bool_def toml_str_def toml_u16_def

lemma read_http: "ParseHttp (toml_of_http h) c = (True, c\<lparr>cf_http := h\<rparr>)"
  by (simp add: ParseHttp_def toml_of_http_def toml_simps assign_def Let_def)

lemma read_remote:
  "parse_remote upd (toml_of_remote r) c
     = (True, db_upd (upd (\<lambda>x. x\<lparr>dr_useSSL := dr_useSSL r\<rparr>)) (db_upd (upd (\<lambda>x. x\<lparr>dr_port := dr_port r\<rparr>)) (db_upd (upd (\<lambda>x. x\<lparr>dr_ip := dr_ip r\<rparr>)) c)))"
  by (simp add: parse_remote_def toml_of_remote_def toml_simps assign_def)

lemma remote_eq: "r\<lparr>dr_ip := dr_ip q, dr_port := dr_port q, dr_useSSL := dr_useSSL q\<rparr> = (q :: db_remote)"
  by (cases r, cases q) simp

lemma redis_eq: "r\<lparr>rd_addr := rd_addr q, rd_port := rd_port q, rd_username := rd_username q, rd_password := rd_password q\<rparr> = (q :: redis_config)"
  by (cases r, cases q) simp

definition local_options :: "db_config \<Rightarrow> db_config \<Rightarrow> db_config" where
  "local_options d d0 = (if dc_type d = 0 then d\<lparr>dc_sqlite := dc_sqlite d0\<rparr> else d\<lparr>dc_postgres := dc_postgres d0\<rparr>)"


lemma read_db:
  assumes "dc_type d = 0 \<or> dc_type d = 1" "is_int32 (dc_model d)"
  shows "ParseDatabase (toml_of_db d) c = (True, c\<lparr>cf_dbconf := local_options d (cf_dbconf c)\<rparr>)"
proof -
  have t: "sint (word_of_int (dc_type d) :: u32) = dc_type d" "sint (word_of_int (dc_model d) :: u32) = dc_model d"
    using assms by (auto simp: sint_word_of_int is_int32_def)
  let ?redis = "Toml_table [(''addr'', toml_str (rd_addr (dc_redis d))), (''port'', toml_u16 (rd_port (dc_redis d))),
         (''user'', toml_str (rd_username (dc_redis d))), (''pass'', toml_str (rd_password (dc_redis d)))]"
  let ?c = "db_upd (\<lambda>e. e\<lparr>dc_type := dc_type d, dc_model := dc_model d, dc_debug := dc_debug d\<rparr>) c"
  let ?l = "if dc_type d = 0 then db_upd (\<lambda>e. e\<lparr>dc_postgres := dc_postgres d\<rparr>) ?c else db_upd (\<lambda>e. e\<lparr>dc_sqlite := dc_sqlite d\<rparr>) ?c"
  have l: "parse_local (toml_of_db d) ?c = (True, ?l)"
    using assms(1) by (auto simp: parse_local_def toml_of_db_def toml_simps assign_def within_def db_upd_def Let_def)
  have remotes: "toml_find (toml_of_db d) ''tcpserver'' = Some (toml_of_remote (dc_tcpServer d))"
    "toml_find (toml_of_db d) ''nngserver'' = Some (toml_of_remote (dc_nngServer d))"
    "toml_find (toml_of_db d) ''tcpclient'' = Some (toml_of_remote (dc_tcpClient d))"
    "toml_find (toml_of_db d) ''nngclient'' = Some (toml_of_remote (dc_nngClient d))"
    "toml_find (toml_of_db d) ''redis'' = Some ?redis"
    by (simp_all add: toml_of_db_def)
  have redis: "find_string ?redis ''addr'' = Some (rd_addr (dc_redis d))" "find_u16 ?redis ''port'' = Some (rd_port (dc_redis d))"
    "find_string ?redis ''user'' = Some (rd_username (dc_redis d))" "find_string ?redis ''pass'' = Some (rd_password (dc_redis d))"
    by (simp_all add: toml_simps)
  have heads: "find_int (toml_of_db d) ''databasetype'' = Some (dc_type d)" "find_int (toml_of_db d) ''databasemodel'' = Some (dc_model d)"
    "find_bool (toml_of_db d) ''databasedebug'' = Some (dc_debug d)"
    using t by (simp_all add: toml_of_db_def toml_simps)
  have c: "db_upd (\<lambda>e. e\<lparr>dc_debug := dc_debug d\<rparr>) (db_upd (\<lambda>e. e\<lparr>dc_model := dc_model d\<rparr>) (db_upd (\<lambda>e. e\<lparr>dc_type := dc_type d\<rparr>) c)) = ?c"
    by (simp add: db_upd_def)
  show ?thesis
    using assms(1)
    by (auto simp: ParseDatabase_def heads assign_def c l within_def remotes redis read_remote Let_def)
      (cases "cf_dbconf c", cases d, simp add: local_options_def db_upd_def remote_eq redis_eq)+
qed

lemma read_log:
  assumes "is_int32 (lo_level l)" "is_int32 (lo_rollfilecount l)"
  shows "ParseLog (toml_of_log l) c = (True, c\<lparr>cf_log := l\<rparr>)"
  using assms by (simp add: ParseLog_def toml_of_log_def toml_simps assign_def within_def sint_word_of_int Let_def)

text \<open>The time limit is cut to a minute.\<close>

lemma read_transport:
  "ParseTransport (toml_of_transport t) c = (True, c\<lparr>cf_transport := t\<lparr>tr_timeout := min (tr_timeout t) 60000\<rparr>\<rparr>)"
  by (simp add: ParseTransport_def toml_of_transport_def toml_simps assign_def Let_def min_def not_le)

lemma those_strings: "those (map (\<lambda>x. case x of Toml_string s \<Rightarrow> Some s | _ \<Rightarrow> None) (map Toml_string us)) = Some us"
  by (induction us) simp_all

lemma read_jwt:
  assumes "is_int32 (jo_timeout j)" "jo_noAuthRouter j = jo_noAuthRouter (cf_jwt c) \<union> set urls"
  shows "ParseJWTConf (toml_of_jwt urls j) c = (True, c\<lparr>cf_jwt := j\<rparr>)"
  using assms those_strings [of urls]
  by (simp add: ParseJWTConf_def toml_of_jwt_def toml_simps assign_def sint_word_of_int find_strings_def toml_strings_def Let_def comp_def)

text \<open>
  C40. A configuration that is written as a file is read back: every option is found under its key, whatever
  the options were before. The exceptions are those of the code: the time limit of the transport is at
  most a minute, of the two local databases only the chosen one is read, and URLs that need no token are
  added to those there.
\<close>

theorem configuration_roundtrip:
  assumes "dc_type (cf_dbconf c) = 0 \<or> dc_type (cf_dbconf c) = 1" "is_int32 (dc_model (cf_dbconf c))"
    and "is_int32 (lo_level (cf_log c))" "is_int32 (lo_rollfilecount (cf_log c))" "is_int32 (jo_timeout (cf_jwt c))"
    and "jo_noAuthRouter (cf_jwt c) = jo_noAuthRouter (cf_jwt c0) \<union> set urls" "tr_timeout (cf_transport c) \<le> 60000"
  shows "config_Parse dbg (Some (toml_of urls c)) True True (cf_path c) c0
     = Some (True, c\<lparr>cf_dbconf := local_options (cf_dbconf c) (cf_dbconf c0)\<rparr>)"
proof -
  have find: "toml_find (toml_of urls c) ''http'' = Some (toml_of_http (cf_http c))"
    "toml_find (toml_of urls c) ''dbmgr'' = Some (toml_of_db (cf_dbconf c))"
    "toml_find (toml_of urls c) ''log'' = Some (toml_of_log (cf_log c))"
    "toml_find (toml_of urls c) ''transport'' = Some (toml_of_transport (cf_transport c))"
    "toml_find (toml_of urls c) ''nanomsg'' = Some (Toml_table [(''rep'', Toml_table [(''addr'', toml_str (na_addr (cf_nanotcp c))), (''port'', toml_u16 (na_port (cf_nanotcp c)))])])"
    "toml_find (toml_of urls c) ''jwt'' = Some (toml_of_jwt urls (cf_jwt c))"
    "toml_find (toml_of urls c) ''timezone'' = Some (Toml_table [(''defaultTimeZone'', toml_str (cf_defaultTimeZone c))])"
    by (simp_all add: toml_of_def)
  have nano: "ParseNanoTcp (Toml_table [(''rep'', Toml_table [(''addr'', toml_str (na_addr n)), (''port'', toml_u16 (na_port n))])]) x = (True, x\<lparr>cf_nanotcp := n\<rparr>)" for n x
    by (simp add: ParseNanoTcp_def toml_simps assign_def within_def Let_def)
  have tz: "ParseTimeZoneConf (Toml_table [(''defaultTimeZone'', toml_str z)]) x = (True, x\<lparr>cf_defaultTimeZone := z\<rparr>)" for z x
    by (simp add: ParseTimeZoneConf_def toml_simps assign_def)
  have "(cf_transport c)\<lparr>tr_timeout := min (tr_timeout (cf_transport c)) 60000\<rparr> = cf_transport c"
    using assms(7) by (simp add: min_def)
  then show ?thesis
    using assms(6)
    by (simp add: config_Parse_def find within_def read_http read_db [OF assms(1,2)] read_log [OF assms(3,4)] read_transport
        nano read_jwt [OF assms(5)] tz Let_def)
qed

definition ex_remote :: db_remote where
  "ex_remote = \<lparr>dr_ip = ''::1'', dr_port = 5400, dr_useSSL = False\<rparr>"

definition ex_server :: db_server where
  "ex_server = \<lparr>ds_dbname = [], ds_addr = [], ds_port = 0, ds_username = [], ds_password = []\<rparr>"

definition ex_configs :: configs where
  "ex_configs = \<lparr>cf_nanotcp = \<lparr>na_addr = ''a'', na_port = 9001\<rparr>,
     cf_dbconf = \<lparr>dc_type = 1, dc_model = 0, dc_debug = True, dc_tcpServer = ex_remote, dc_nngServer = ex_remote, dc_tcpClient = ex_remote,
       dc_nngClient = ex_remote, dc_sqlite = \<lparr>sq_file = ''db.db'', sq_filepath = ''conf''\<rparr>, dc_postgres = ex_server,
       dc_redis = \<lparr>rd_addr = [], rd_port = 6379, rd_username = [], rd_password = []\<rparr>\<rparr>,
     cf_http = \<lparr>hc_addr = ''b'', hc_port = 80, hc_rootHtmlPath = ''http'', hc_rootJsonPath = ''json'', hc_resRootPath = ''dist'',
       hc_wsPath = ''ws'', hc_perPath = [], hc_keyPath = []\<rparr>,
     cf_log = \<lparr>lo_ip = ''c'', lo_port = 8010, lo_format = [], lo_level = 1, lo_file = ''l'', lo_filepath = [], lo_logger = [],
       lo_fileRollSize = 10000000, lo_rollfilecount = 10\<rparr>,
     cf_transport = \<lparr>tr_addr = ''d'', tr_port = 10087, tr_timeout = 3600\<rparr>,
     cf_jwt = \<lparr>jo_issuer = ''alqaz'', jo_type = ''JWS'', jo_key = ''key'', jo_superuser = [], jo_superpass = [], jo_timeout = 60,
       jo_noAuthRouter = {''/User/Regist''}\<rparr>,
     cf_path = ''conf.toml'', cf_defaultTimeZone = ''Asia/Shanghai''\<rparr>"

theorem configuration_roundtrip_witness:
  "config_Parse True (Some (toml_of [''/User/Regist''] ex_configs)) True True ''conf.toml''
     (ex_configs\<lparr>cf_jwt := (cf_jwt ex_configs)\<lparr>jo_noAuthRouter := {}\<rparr>\<rparr>) = Some (True, ex_configs)"
  using configuration_roundtrip [of ex_configs "ex_configs\<lparr>cf_jwt := (cf_jwt ex_configs)\<lparr>jo_noAuthRouter := {}\<rparr>\<rparr>" "[''/User/Regist'']" True]
  by (simp add: ex_configs_def is_int32_def local_options_def word_le_nat_alt)

text \<open>The configuration file of the repository has neither of the last sections the code asks for, nor all options of \<open>http\<close>.\<close>

definition shipped_http :: toml where
  "shipped_http = Toml_table [(''addr'', toml_str ''127.0.0.1''), (''port'', Toml_int 10086), (''rootPath'', toml_str ''./dist''), (''resRootPath'', toml_str ''./dist'')]"

lemma shipped_http_rejected: "fst (ParseHttp shipped_http c) = False"
  by (simp add: ParseHttp_def shipped_http_def toml_simps assign_def Let_def)

lemma no_timezone_rejected:
  assumes "toml_find data ''timezone'' = None"
  shows "config_Parse dbg (Some data) db main path c = Some (False, c\<lparr>cf_path := path\<rparr>)"
  using assms by (simp add: config_Parse_def within_def Let_def split: option.split)

end
