(* ===== verification/WebApp.thy ===== *)
theory WebApp
  imports Routers
begin

text \<open>
  The web server's own part: \<open>src/networkinterface/Https.cpp\<close> and \<open>src/inc/Apps.h\<close>. A response is a number,
  the address of its object; the calls the server makes on it are a list. The library behind it calls
  \<open>onAborted\<close>, \<open>onData\<close> and the closures that were deferred; each is an operation on the state.
\<close>

section \<open>Types of contents\<close>

definition content_types :: "(string \<times> HtmlBodyType) list" where
  "content_types =
     [(''.js'', Body_JS), (''.html'', Body_Html), (''.htm'', Body_Html), (''.json'', Body_Json), (''.woff'', Body_Woff),
      (''.jpg'', Body_Jpeg), (''.jpeg'', Body_Jpeg), (''.css'', Body_Css), (''.ico'', Body_Ico)]"

definition getRespBodyType :: "string \<Rightarrow> HtmlBodyType" where
  "getRespBodyType context =
     (let ret = Body_Html in case map_of content_types context of Some t \<Rightarrow> t | None \<Rightarrow> ret)"

type_synonym resp_headers = "HtmlBodyType \<rightharpoonup> (string \<rightharpoonup> string)"

definition add_header :: "HtmlBodyType \<Rightarrow> string \<Rightarrow> string \<Rightarrow> resp_headers \<Rightarrow> resp_headers" where
  "add_header t k v hs = (let m = (case hs t of None \<Rightarrow> Map.empty | Some m \<Rightarrow> m) in hs(t \<mapsto> map_insert k v m))"

definition https_sInit :: "resp_headers \<Rightarrow> resp_headers" where
  "https_sInit hs =
     (let ct = ''content-type'';
          hs = add_header Body_JS ct ''text/javascript'' hs;
          hs = add_header Body_Html ct ''text/html;charset=UTF-8'' hs;
          hs = add_header Body_Json ct ''application/json'' hs;
          hs = add_header Body_Woff ct ''font/woff'' hs;
          hs = add_header Body_Jpeg ct ''image/jpeg'' hs;
          hs = add_header Body_Css ct ''text/css'' hs
      in add_header Body_Ico ct ''image/vnd.microsoft.icon'' hs)"

definition getRespHeaders :: "resp_headers \<Rightarrow> HtmlBodyType \<Rightarrow> (string \<rightharpoonup> string)" where
  "getRespHeaders hs t = (case hs t of Some m \<Rightarrow> m | None \<Rightarrow> Map.empty)"

lemma every_type_has_header: "\<exists>v. getRespHeaders (https_sInit Map.empty) t = [''content-type'' \<mapsto> v]"
  by (cases t) (simp_all add: https_sInit_def add_header_def getRespHeaders_def map_insert_def Let_def, (rule exI, rule refl)+)

section \<open>The server\<close>

text \<open>\<open>loops\<close> are event loops by number, \<open>0\<close> is null.\<close>

record web_app =
  wa_app :: bool
  wa_loop :: nat
  wa_loopinit :: nat
  wa_abortReps :: "nat set"
  wa_httpRoot :: string
  wa_jsonRoot :: string
  wa_wsRoot :: string

definition new_Apps :: web_app where
  "new_Apps = \<lparr>wa_app = False, wa_loop = 0, wa_loopinit = 0, wa_abortReps = {}, wa_httpRoot = [], wa_jsonRoot = [], wa_wsRoot = []\<rparr>"

definition apps_init :: "bool \<Rightarrow> nat \<Rightarrow> string \<Rightarrow> string \<Rightarrow> string \<Rightarrow> web_app \<Rightarrow> (bool \<times> web_app) option" where
  "apps_init dbg loop httproot jsonroot wsroot st =
     (if wa_httpRoot st \<noteq> [] \<or> wa_jsonRoot st \<noteq> [] \<or> wa_wsRoot st \<noteq> [] \<or> wa_app st
      then do { assert_that dbg False; Some (False, st) }
      else Some (True, st\<lparr>wa_httpRoot := httproot, wa_jsonRoot := jsonroot, wa_wsRoot := wsroot, wa_app := True, wa_loopinit := loop\<rparr>))"

text \<open>Up to the start of the library's loop.\<close>

definition apps_startServer :: "bool \<Rightarrow> nat \<Rightarrow> web_app \<Rightarrow> web_app option" where
  "apps_startServer dbg loop st =
     (let st = st\<lparr>wa_loop := loop\<rparr>
      in do { assert_that dbg (wa_loopinit st = wa_loop st); if \<not> wa_app st then None else Some st })"

text \<open>
  \<open>decoded\<close>: the expiry of the token, \<open>None\<close> if the decoding throws, which nothing catches here; \<open>verified\<close>:
  the verification does not throw. The inner \<open>None\<close> is the exception.
\<close>

definition isAuthed :: "int option \<Rightarrow> bool \<Rightarrow> int \<Rightarrow> string set \<Rightarrow> string \<Rightarrow> string \<Rightarrow> bool option" where
  "isAuthed decoded verified now noAuthRouter url token =
     (if token \<noteq> [] then
        (case decoded of
           None \<Rightarrow> None
         | Some dexpire \<Rightarrow>
             if \<not> verified then Some False
             else let bret = False; bret = (if dexpire < now then False else bret); bret = True in Some bret)
      else Some (url \<in> noAuthRouter))"

lemma expired_token_is_authed: "e < now \<Longrightarrow> token \<noteq> [] \<Longrightarrow> isAuthed (Some e) True now rs url token = Some True"
  by (simp add: isAuthed_def)

section \<open>Resources\<close>

datatype resp_call = Rp_header string string | Rp_status string | Rp_end "byte list"

definition to_bytes :: "string \<Rightarrow> byte list" where
  "to_bytes s = map of_char s"

definition PostProcess404 :: "resp_call list \<times> byte list" where
  "PostProcess404 = ([Rp_status ''404 Not Found''], to_bytes ''404 not found'')"

text \<open>The result of the handler of \<open>/*\<close>: an answer at once, or the path that is loaded.\<close>

datatype res_start = Res_end "byte list" | Res_load string

definition res_get :: "bool \<Rightarrow> string \<Rightarrow> res_start" where
  "res_get ready url =
     (if \<not> ready then Res_end (to_bytes ''not ready'')
      else Res_load (if length url = 1 \<and> url ! 0 = CHR ''/'' then ''/index.html'' else url))"

text \<open>The type is what stands from the last dot on.\<close>

definition url_extension :: "string \<Rightarrow> string option" where
  "url_extension url =
     (if CHR ''.'' \<in> set url then Some (CHR ''.'' # rev (takeWhile (\<lambda>c. c \<noteq> CHR ''.'') (rev url))) else None)"

definition header_calls :: "(string \<rightharpoonup> string) \<Rightarrow> resp_call list" where
  "header_calls hs = (case hs ''content-type'' of None \<Rightarrow> [] | Some v \<Rightarrow> [Rp_header ''content-type'' v])"

definition on_abort :: "nat \<Rightarrow> web_app \<Rightarrow> web_app" where
  "on_abort rep st = st\<lparr>wa_abortReps := insert rep (wa_abortReps st)\<rparr>"

text \<open>The deferred closure: the calls on the response.\<close>

definition res_deferred :: "resp_headers \<Rightarrow> nat \<Rightarrow> string \<Rightarrow> byte list \<Rightarrow> web_app \<Rightarrow> resp_call list \<times> web_app" where
  "res_deferred hs rep url resp st =
     (if rep \<in> wa_abortReps st then ([], st\<lparr>wa_abortReps := wa_abortReps st - {rep}\<rparr>)
      else ((case url_extension url of
               None \<Rightarrow> []
             | Some ext \<Rightarrow> header_calls (getRespHeaders hs (getRespBodyType ext)))
            @ (if resp \<noteq> [] then [Rp_end resp]
               else case PostProcess404 of (calls, body) \<Rightarrow> calls @ [Rp_end body]), st))"

section \<open>Handlers\<close>

type_synonym web_handler = "byte list \<Rightarrow> string \<Rightarrow> reply"

text \<open>
  The handlers of a path one after another, until one answers with a string that is not empty. An exception
  leaves the result of the handler before; a null pointer is used.
\<close>

fun run_handlers :: "web_handler list \<Rightarrow> byte list \<Rightarrow> string \<Rightarrow> byte list option \<Rightarrow> byte list option option" where
  "run_handlers [] msg token resp = Some resp"
| "run_handlers (f # fs) msg token resp =
     (case f msg token of
        Rep_throws \<Rightarrow> run_handlers fs msg token resp
      | Rep_null \<Rightarrow> None
      | Rep_string r \<Rightarrow> if r \<noteq> [] then Some (Some r) else run_handlers fs msg token (Some r))"

definition http_deferred :: "resp_headers \<Rightarrow> HtmlBodyType \<Rightarrow> nat \<Rightarrow> byte list option \<Rightarrow> web_app \<Rightarrow> resp_call list \<times> web_app" where
  "http_deferred hs body rep resp st =
     (if rep \<in> wa_abortReps st then ([], st\<lparr>wa_abortReps := wa_abortReps st - {rep}\<rparr>)
      else (header_calls (getRespHeaders hs body)
            @ (case resp of
                 Some r \<Rightarrow> if r \<noteq> [] then [Rp_end r] else (case PostProcess404 of (calls, b) \<Rightarrow> calls @ [Rp_end b])
               | None \<Rightarrow> (case PostProcess404 of (calls, b) \<Rightarrow> calls @ [Rp_end b])), st))"

text \<open>
  \<open>datadealer\<close>: a chunk of the body is added to what came before; the last one starts the handlers with the
  body, or with the query if there is none. The first result is the message that is handled.
\<close>

definition data_dealer :: "nat \<Rightarrow> byte list \<Rightarrow> byte list \<Rightarrow> bool \<Rightarrow> byte list \<times> web_app \<Rightarrow> byte list option \<times> byte list \<times> web_app" where
  "data_dealer rep querystr chunk isEnd st =
     (case st of (postdata, st) \<Rightarrow>
        if rep \<in> wa_abortReps st then (None, postdata, st\<lparr>wa_abortReps := wa_abortReps st - {rep}\<rparr>)
        else let postdata = postdata @ chunk
             in if isEnd then (Some (if postdata = [] then querystr else postdata), postdata, st)
                else (None, postdata, st))"

text \<open>A request whose body comes in chunks, the last one marked, and its answer.\<close>

fun feed :: "nat \<Rightarrow> byte list \<Rightarrow> byte list list \<Rightarrow> byte list \<times> web_app \<Rightarrow> byte list option \<times> byte list \<times> web_app" where
  "feed rep querystr [] st = (None, st)"
| "feed rep querystr [chunk] st = data_dealer rep querystr chunk True st"
| "feed rep querystr (chunk # c # cs) st = feed rep querystr (c # cs) (snd (data_dealer rep querystr chunk False st))"

lemma feed_all:
  assumes "rep \<notin> wa_abortReps st" "cs \<noteq> []"
  shows "feed rep querystr cs (post, st)
     = (Some (if post @ concat cs = [] then querystr else post @ concat cs), post @ concat cs, st)"
  using assms
proof (induction cs arbitrary: post)
  case (Cons c cs)
  show ?case
  proof (cases cs)
    case Nil
    then show ?thesis using Cons.prems by (auto simp: data_dealer_def Let_def)
  next
    case (Cons c' cs')
    then show ?thesis using Cons.IH [of "post @ c"] Cons.prems by (auto simp: data_dealer_def Let_def)
  qed
qed simp

text \<open>The first handler that has an answer gives it.\<close>

lemma run_handlers_first:
  assumes "\<forall>f \<in> set before. f msg token = Rep_throws \<or> f msg token = Rep_string []" "f msg token = Rep_string r" "r \<noteq> []"
  shows "run_handlers (before @ f # after) msg token resp = Some (Some r)"
  using assms
proof (induction before arbitrary: resp)
  case (Cons g gs)
  then have "g msg token = Rep_throws \<or> g msg token = Rep_string []" by simp
  then show ?case using Cons.IH [OF _ Cons.prems(2,3)] Cons.prems(1) by auto
qed simp

text \<open>
  The note that a response was aborted is only removed when the response is used again. If its request
  had not come in completely, nothing does, and the next response at its address is taken for aborted:
  its request is dropped and never answered.
\<close>

lemma stale_abort:
  "data_dealer rep querystr chunk True ([], on_abort rep st) = (None, [], st\<lparr>wa_abortReps := wa_abortReps st - {rep}\<rparr>)"
  by (simp add: data_dealer_def on_abort_def)

text \<open>The status of a missing page is written after its headers.\<close>

lemma status_after_headers:
  assumes "rep \<notin> wa_abortReps st" "hs b = Some [''content-type'' \<mapsto> v]"
  shows "fst (http_deferred hs b rep None st) = [Rp_header ''content-type'' v, Rp_status ''404 Not Found'', Rp_end (to_bytes ''404 not found'')]"
  using assms by (simp add: http_deferred_def header_calls_def getRespHeaders_def PostProcess404_def)

section \<open>Web sockets\<close>

text \<open>
  A message: eight bytes that name the handler, four for the length, the request. The answer is the eight
  bytes, the length and the answer; without a handler it is empty. A message shorter than eight bytes is
  read behind its end; if it is shorter than twelve, the construction of the request throws and nothing
  is answered (the inner \<open>None\<close>).
\<close>

definition ws_message :: "(byte list \<Rightarrow> byte list) \<Rightarrow> (byte list \<rightharpoonup> web_handler) option \<Rightarrow> byte list \<Rightarrow> byte list option option" where
  "ws_message enc handlers message =
     do {
       handlers \<leftarrow> handlers;
       if length message < 8 then None
       else case handlers (take 8 message) of
              None \<Rightarrow> Some (Some [])
            | Some h \<Rightarrow>
                if length message < 12 then Some None
                else (case h (drop 12 message) [] of
                        Rep_string strrep \<Rightarrow> Some (Some (take 8 message @ packlen enc (of_nat (length strrep)) @ strrep))
                      | _ \<Rightarrow> None)
     }"

lemma ws_answer:
  assumes "length key = 8" "length len4 = 4" "hs key = Some h" "h req [] = Rep_string rep"
  shows "ws_message enc (Some hs) (key @ len4 @ req) = Some (Some (key @ packlen enc (of_nat (length rep)) @ rep))"
  using assms by (simp add: ws_message_def)

lemma ws_handler_throws:
  assumes "length message \<ge> 12" "hs (take 8 message) = Some h" "h (drop 12 message) [] = Rep_throws"
  shows "ws_message enc (Some hs) message = None"
  using assms by (simp add: ws_message_def)

section \<open>A request is answered\<close>



end
