(* ===== verification/Startup.thy ===== *)
theory Startup
  imports Accounts Configuration WebApp LocalNet
begin

text \<open>
  How the modules are started: \<open>src/hotupdate/hotupdate.cpp\<close> with \<open>IOContextManager::sInit\<close>, and
  \<open>initNetwork\<close> of \<open>src/networkinterface/networkinterface.cpp\<close> with the \<open>sInit\<close> functions it calls. Threads,
  contexts and functions are numbers, \<open>0\<close> is null.
\<close>

declare neq0_conv [iff del]

section \<open>\<open>hotupdate\<close>\<close>

text \<open>The functions that wait for the context are a map by their addresses, so they are called in that order.\<close>

record hot_state =
  hs_inited :: bool
  hs_ioc :: "nat option"
  hs_funcs :: "nat set"

definition new_hot :: hot_state where
  "new_hot = \<lparr>hs_inited = False, hs_ioc = None, hs_funcs = {}\<rparr>"

definition AddDependIOCTXInitFunc :: "nat \<Rightarrow> hot_state \<Rightarrow> bool \<times> hot_state" where
  "AddDependIOCTXInitFunc func st =
     (let bret = True in
      if func \<in> hs_funcs st then (bret, st) else (bret, st\<lparr>hs_funcs := insert func (hs_funcs st)\<rparr>))"

definition iocm_sInit :: "bool \<Rightarrow> nat \<Rightarrow> hot_state \<Rightarrow> hot_state option" where
  "iocm_sInit dbg ioc st =
     do {
       assert_that dbg (hs_ioc st = None);
       if hs_ioc st \<noteq> None then Some st
       else do {
         assert_that dbg (ioc \<noteq> 0);
         if ioc = 0 then None else Some (st\<lparr>hs_ioc := Some ioc\<rparr>)
       }
     }"

text \<open>The functions that are called are the third result. \<open>_inited\<close> is never set.\<close>

definition hot_sInit :: "bool \<Rightarrow> nat \<Rightarrow> hot_state \<Rightarrow> (bool \<times> hot_state \<times> nat list) option" where
  "hot_sInit dbg ioc st =
     (if \<not> hs_inited st
      then do { st \<leftarrow> iocm_sInit dbg ioc st; Some (True, st, sorted_list_of_set (hs_funcs st)) }
      else Some (False, st, []))"

definition hot_getContext :: "bool \<Rightarrow> hot_state \<Rightarrow> nat option" where
  "hot_getContext dbg st = do { assert_that dbg (hs_ioc st \<noteq> None); hs_ioc st }"

definition add_all :: "nat list \<Rightarrow> hot_state \<Rightarrow> hot_state" where
  "add_all fs st = fold (\<lambda>f st. snd (AddDependIOCTXInitFunc f st)) fs st"

lemma add_all: "add_all fs st = st\<lparr>hs_funcs := hs_funcs st \<union> set fs\<rparr>"
proof (induction fs arbitrary: st)
  case (Cons f fs)
  have "snd (AddDependIOCTXInitFunc f st) = st\<lparr>hs_funcs := insert f (hs_funcs st)\<rparr>"
    by (cases st) (auto simp: AddDependIOCTXInitFunc_def Let_def)
  then show ?case using Cons.IH by (simp add: add_all_def)
qed (simp add: add_all_def)

text \<open>Every function that was registered is called exactly once by the first start.\<close>

lemma registered_functions_called:
  assumes "ioc \<noteq> 0"
  shows "hot_sInit dbg ioc (add_all fs new_hot)
     = Some (True, (add_all fs new_hot)\<lparr>hs_ioc := Some ioc\<rparr>, sort (remdups fs))"
  using assms by (simp add: hot_sInit_def iocm_sInit_def add_all new_hot_def sorted_list_of_set_sort_remdups)

text \<open>A second start fails an assertion; without assertions it calls the functions again and succeeds.\<close>

lemma second_start:
  assumes "hot_sInit dbg ioc st = Some (True, st1, fs)" "hs_inited st = False" "hs_ioc st = None"
  shows "hot_sInit True ioc' st1 = None" "hot_sInit False ioc' st1 = Some (True, st1, fs)"
  using assms by (auto simp: hot_sInit_def iocm_sInit_def Option.bind_eq_Some_conv split: if_splits)

section \<open>\<open>initNetwork\<close>\<close>

definition initjwtconfig :: "jwt_options \<Rightarrow> jwt_config" where
  "initjwtconfig jwtconf =
     \<lparr>jc_issuer = jo_issuer jwtconf, jc_type = jo_type jwtconf, jc_key = jo_key jwtconf,
      jc_expiresecond = uint (word_of_int (jo_timeout jwtconf) :: u32)\<rparr>"

record network =
  nw_jwt :: jwt_config
  nw_headers :: resp_headers
  nw_router :: "msg_router option"
  nw_started :: nat
  nw_lnm :: "connection_maps option"
  nw_packs :: plat_packs

definition new_network :: network where
  "new_network =
     \<lparr>nw_jwt = \<lparr>jc_issuer = ''alqaz'', jc_type = ''JWS'', jc_key = ''key'', jc_expiresecond = 3600\<rparr>,
      nw_headers = Map.empty, nw_router = None, nw_started = 0, nw_lnm = None, nw_packs = None\<rparr>"

definition mr_sInit :: "network \<Rightarrow> bool \<times> network" where
  "mr_sInit st = (case nw_router st of Some _ \<Rightarrow> (False, st) | None \<Rightarrow> (True, st\<lparr>nw_router := Some new_router\<rparr>))"

definition lnm_sInit :: "network \<Rightarrow> bool \<times> network" where
  "lnm_sInit st =
     (case nw_lnm st of
        Some _ \<Rightarrow> (False, st)
      | None \<Rightarrow> (True, st\<lparr>nw_lnm := Some \<lparr>lc_tcp = Map.empty, lc_rep = Map.empty, lc_req = Map.empty\<rparr>\<rparr>))"

definition lnm_sUninit :: "network \<Rightarrow> network" where
  "lnm_sUninit st = st\<lparr>nw_lnm := None\<rparr>"

text \<open>\<open>MessageRouter::start\<close> starts the two coroutines of the router and says that it succeeded.\<close>

definition mr_start :: "network \<Rightarrow> (bool \<times> network) option" where
  "mr_start st = map_option (\<lambda>_. (True, st\<lparr>nw_started := nw_started st + 1\<rparr>)) (nw_router st)"

text \<open>A call inside an assertion is only made where assertions are compiled in.\<close>

definition asserted :: "bool \<Rightarrow> (network \<Rightarrow> (bool \<times> network) option) \<Rightarrow> network \<Rightarrow> network option" where
  "asserted dbg f st = (if dbg then do { (ok, st) \<leftarrow> f st; assert_that dbg ok; Some st } else Some st)"

definition initNetwork :: "bool \<Rightarrow> jwt_options \<Rightarrow> network \<Rightarrow> (bool \<times> network) option" where
  "initNetwork dbg jwtconf st =
     do {
       let st = st\<lparr>nw_jwt := initjwtconfig jwtconf, nw_headers := https_sInit (nw_headers st)\<rparr>;
       let st = snd (mr_sInit st);
       st \<leftarrow> asserted dbg (\<lambda>st. Some (lnm_sInit st)) st;
       st \<leftarrow> asserted dbg mr_start st;
       st \<leftarrow> asserted dbg (\<lambda>st. case pum_sInit (nw_packs st) of (b, p) \<Rightarrow> Some (b, st\<lparr>nw_packs := p\<rparr>)) st;
       Some (True, st)
     }"

lemma initNetwork_asserts:
  "\<exists>st. initNetwork True j new_network = Some (True, st) \<and> nw_router st = Some new_router \<and> nw_started st = 1
     \<and> nw_lnm st = Some \<lparr>lc_tcp = Map.empty, lc_rep = Map.empty, lc_req = Map.empty\<rparr> \<and> nw_packs st = Some Map.empty
     \<and> nw_jwt st = initjwtconfig j"
  by (simp add: initNetwork_def new_network_def mr_sInit_def lnm_sInit_def mr_start_def asserted_def pum_sInit_def Let_def)

text \<open>
  A build without assertions starts nothing but says so: no connection manager, no coroutine of the router,
  and no table of platform headers, so that the first one that is asked for is the use of a null pointer.
\<close>

lemma initNetwork_ndebug:
  assumes "initNetwork False j new_network = Some (ok, st)"
  shows "ok \<and> nw_lnm st = None \<and> nw_started st = 0 \<and> clonePlatformPack dbg m (nw_packs st) = None"
  using assms by (auto simp: initNetwork_def new_network_def mr_sInit_def asserted_def clonePlatformPack_def pum_clone_def Let_def)

end
