(* ===== verification/SslSocket.thy ===== *)
theory SslSocket
  imports UsApp SniTree
begin

text \<open>
  TLS sockets (\<open>src/uSockets2/src/crypto/openssl.c\<close>): the members a TLS socket and its context have
  behind the plain ones, the two BIO callbacks through which OpenSSL reads the received data and writes
  to the socket, the handlers that decorate those of the application, and the operations on sockets and
  contexts. OpenSSL itself is a parameter: a connection is a value of any type, and each of its
  functions is a program over the two BIO operations. The error queue of a thread is part of it.
  \<open>None\<close> is, as before, the use of a null or dangling pointer, here also of a freed \<open>SSL\<close>, or a loop
  that does not end.
\<close>

section \<open>OpenSSL\<close>

datatype ssl_error =
    SSL_ERROR_NONE | SSL_ERROR_SSL | SSL_ERROR_WANT_READ | SSL_ERROR_WANT_WRITE | SSL_ERROR_SYSCALL
  | SSL_ERROR_ZERO_RETURN

text \<open>
  A call of OpenSSL: a result, or an operation on its BIO and what it does with the answer. A read asks
  for a number of bytes and gets some or fails, a write gets the number of bytes written or -1.
\<close>

datatype 'a bio =
    Bio_ret 'a
  | Bio_read nat "byte list option \<Rightarrow> 'a bio"
  | Bio_write "byte list" "int \<Rightarrow> 'a bio"

text \<open>
  The functions the code calls. \<open>SSL_read\<close> gives its result, the bytes it stored and the connection, the
  others their result and the connection; \<open>SSL_sent\<close> and \<open>SSL_received\<close> are the bits of
  \<open>SSL_get_shutdown\<close>.
\<close>

record 'ssl openssl =
  SSL_new :: "ptr \<Rightarrow> 'ssl"
  SSL_set_connect_state :: "'ssl \<Rightarrow> 'ssl"
  SSL_set_accept_state :: "'ssl \<Rightarrow> 'ssl"
  SSL_read :: "'ssl \<Rightarrow> nat \<Rightarrow> (int \<times> byte list \<times> 'ssl) bio"
  SSL_write :: "'ssl \<Rightarrow> byte list \<Rightarrow> (int \<times> 'ssl) bio"
  SSL_shutdown :: "'ssl \<Rightarrow> (int \<times> 'ssl) bio"
  SSL_get_error :: "'ssl \<Rightarrow> int \<Rightarrow> ssl_error"
  SSL_sent :: "'ssl \<Rightarrow> bool"
  SSL_received :: "'ssl \<Rightarrow> bool"
  SSL_in_init :: "'ssl \<Rightarrow> bool"

section \<open>The structs\<close>

text \<open>
  \<open>ssl_read_input\<close> is the memory behind the pointer, from where \<open>ssl_on_data\<close> got it; \<open>ssl_read_output\<close>
  is the list a read loop has collected.
\<close>

record loop_ssl_data =
  ssl_read_input :: "byte list"
  ssl_read_input_length :: nat
  ssl_read_input_offset :: nat
  ssl_socket :: ptr
  last_write_was_msg_more :: bool
  msg_more :: bool

text \<open>\<open>ss_ssl\<close> is \<open>None\<close> while \<open>s->ssl\<close> is uninitialised and after it was freed.\<close>

record 'ssl us_internal_ssl_socket_t =
  ss_ssl :: "'ssl option"
  ssl_write_wants_read :: bool
  ssl_read_wants_write :: bool

record us_internal_ssl_socket_context_t =
  sx_ssl_context :: ptr
  sx_is_parent :: bool
  sx_on_open :: fnptr
  sx_on_data :: fnptr
  sx_on_writable :: fnptr
  sx_on_close :: fnptr
  sx_on_server_name :: fnptr
  sx_sni :: sni_node

text \<open>
  The state: the plain library, the TLS data of the loop, and the members of TLS sockets and contexts at
  the addresses of their sockets and contexts; \<open>ssl_ctxs\<close> are the live \<open>SSL_CTX\<close>.
\<close>

record 'ssl tls =
  plain :: us
  lsd :: loop_ssl_data
  ssl_socks :: "ptr \<rightharpoonup> 'ssl us_internal_ssl_socket_t"
  ssl_conts :: "ptr \<rightharpoonup> us_internal_ssl_socket_context_t"
  ssl_ctxs :: "ptr set"

text \<open>\<open>app f cb\<close> runs the application's function behind the pointer \<open>f\<close>.\<close>

type_synonym 'ssl app = "fnptr \<Rightarrow> callback \<Rightarrow> 'ssl tls \<Rightarrow> (ptr \<times> 'ssl tls) option"

definition call_app :: "'ssl app \<Rightarrow> fnptr \<Rightarrow> callback \<Rightarrow> 'ssl tls \<Rightarrow> (ptr \<times> 'ssl tls) option" where
  "call_app app f cb st =
     (let st = st\<lparr>plain := emit (Callback f cb) (plain st)\<rparr> in if f = Fn_null then None else app f cb st)"

definition upd_ssl :: "ptr \<Rightarrow> ('ssl us_internal_ssl_socket_t \<Rightarrow> 'ssl us_internal_ssl_socket_t) \<Rightarrow> 'ssl tls \<Rightarrow> 'ssl tls option" where
  "upd_ssl s f st = map_option (\<lambda>x. st\<lparr>ssl_socks := (ssl_socks st)(s \<mapsto> f x)\<rparr>) (ssl_socks st s)"

definition get_ssl :: "ptr \<Rightarrow> 'ssl tls \<Rightarrow> 'ssl option" where
  "get_ssl s st = Option.bind (ssl_socks st s) ss_ssl"

definition in_plain :: "(us \<Rightarrow> us option) \<Rightarrow> 'ssl tls \<Rightarrow> 'ssl tls option" where
  "in_plain f st = map_option (\<lambda>u. st\<lparr>plain := u\<rparr>) (f (plain st))"

section \<open>The BIO of the loop\<close>

text \<open>
  \<open>BIO_s_custom_write\<close> sends over the socket of the current call. Records of 16413 bytes, the largest,
  are sent as if more followed. \<open>BIO_s_custom_read\<close> copies from the received data; a copy from behind its
  end is \<open>None\<close>.
\<close>

definition BIO_s_custom_write :: "host \<Rightarrow> byte list \<Rightarrow> 'ssl tls \<Rightarrow> (int \<times> 'ssl tls) option" where
  "BIO_s_custom_write h data st =
     (let m = msg_more (lsd st) \<or> length data = 16413;
          st = st\<lparr>lsd := (lsd st)\<lparr>last_write_was_msg_more := m\<rparr>\<rparr> in
      do {
        (written, u) \<leftarrow> us_socket_write h (ssl_socket (lsd st)) data m (plain st);
        let st = st\<lparr>plain := u\<rparr>;
        Some (if written = 0 then -1 else written, st) })"

definition BIO_s_custom_read :: "nat \<Rightarrow> 'ssl tls \<Rightarrow> (byte list option \<times> 'ssl tls) option" where
  "BIO_s_custom_read n st =
     (let l = lsd st in
      if ssl_read_input_length l = 0 then Some (None, st)
      else let n = (if n > ssl_read_input_length l then ssl_read_input_length l else n) in
           if ssl_read_input_offset l + n > length (ssl_read_input l) then None
           else Some (Some (take n (drop (ssl_read_input_offset l) (ssl_read_input l))),
                  st\<lparr>lsd := l\<lparr>ssl_read_input_offset := ssl_read_input_offset l + n,
                             ssl_read_input_length := ssl_read_input_length l - n\<rparr>\<rparr>))"

text \<open>A call of OpenSSL with these BIO operations.\<close>

primrec run_bio :: "host \<Rightarrow> 'a bio \<Rightarrow> 'ssl tls \<Rightarrow> ('a \<times> 'ssl tls) option" where
  "run_bio h (Bio_ret a) = (\<lambda>st. Some (a, st))"
| "run_bio h (Bio_read n k) = (\<lambda>st. case BIO_s_custom_read n st of None \<Rightarrow> None | Some (r, st) \<Rightarrow> run_bio h (k r) st)"
| "run_bio h (Bio_write d k) = (\<lambda>st. case BIO_s_custom_write h d st of None \<Rightarrow> None | Some (r, st) \<Rightarrow> run_bio h (k r) st)"

section \<open>Opening and closing\<close>

definition ssl_on_open :: "'ssl openssl \<Rightarrow> 'ssl app \<Rightarrow> ptr \<Rightarrow> bool \<Rightarrow> byte list \<Rightarrow> 'ssl tls \<Rightarrow> (ptr \<times> 'ssl tls) option" where
  "ssl_on_open SSL app s is_client ip st =
     do {
       c \<leftarrow> us_socket_context s (plain st);
       x \<leftarrow> ssl_conts st c;
       let ssl = SSL_new SSL (sx_ssl_context x);
       let ssl = (if is_client then SSL_set_connect_state SSL ssl else SSL_set_accept_state SSL ssl);
       let st = st\<lparr>ssl_socks := (ssl_socks st)(s \<mapsto> \<lparr>ss_ssl = Some ssl, ssl_write_wants_read = False, ssl_read_wants_write = False\<rparr>)\<rparr>;
       call_app app (sx_on_open x) (On_open s is_client ip) st }"

definition ssl_on_close :: "'ssl app \<Rightarrow> ptr \<Rightarrow> int \<Rightarrow> 'ssl tls \<Rightarrow> (ptr \<times> 'ssl tls) option" where
  "ssl_on_close app s code st =
     do {
       c \<leftarrow> us_socket_context s (plain st);
       _ \<leftarrow> get_ssl s st;
       st \<leftarrow> upd_ssl s (\<lambda>x. x\<lparr>ss_ssl := None\<rparr>) st;
       x \<leftarrow> ssl_conts st c;
       call_app app (sx_on_close x) (On_close s code) st }"

text \<open>
  \<open>us_internal_ssl_socket_close\<close> is \<open>us_socket_close\<close>, written out here because the handler it calls
  works on the TLS state.
\<close>

definition us_internal_ssl_socket_close :: "host \<Rightarrow> 'ssl app \<Rightarrow> ptr \<Rightarrow> int \<Rightarrow> 'ssl tls \<Rightarrow> (ptr \<times> 'ssl tls) option" where
  "us_internal_ssl_socket_close h app s code st =
     do {
       x \<leftarrow> socks (plain st) s;
       if \<not> is_closed x then do {
         u \<leftarrow> close_silently h s x (plain st);
         ctx \<leftarrow> sock_ctx s u;
         let st = st\<lparr>plain := u\<rparr>;
         if c_on_close ctx = Fn_ssl_on_close
         then ssl_on_close app s code (st\<lparr>plain := emit (Callback Fn_ssl_on_close (On_close s code)) u\<rparr>)
         else call_app app (c_on_close ctx) (On_close s code) st }
       else Some (s, st) }"

definition ssl_on_end :: "host \<Rightarrow> 'ssl app \<Rightarrow> ptr \<Rightarrow> 'ssl tls \<Rightarrow> (ptr \<times> 'ssl tls) option" where
  "ssl_on_end h app s st = us_internal_ssl_socket_close h app s 0 st"

definition ssl_is_low_prio :: "'ssl openssl \<Rightarrow> ptr \<Rightarrow> 'ssl tls \<Rightarrow> bool option" where
  "ssl_is_low_prio SSL s st = map_option (SSL_in_init SSL) (get_ssl s st)"

section \<open>Receiving\<close>

definition us_internal_ssl_socket_is_shut_down :: "'ssl openssl \<Rightarrow> ptr \<Rightarrow> 'ssl tls \<Rightarrow> bool option" where
  "us_internal_ssl_socket_is_shut_down SSL s st =
     do {
       b \<leftarrow> us_socket_is_shut_down s (plain st);
       if b then Some True else map_option (SSL_sent SSL) (get_ssl s st) }"

text \<open>The handler of the application for data, in the context the socket has now.\<close>

definition emit_data :: "'ssl app \<Rightarrow> ptr \<Rightarrow> byte list \<Rightarrow> 'ssl tls \<Rightarrow> (bool \<times> ptr \<times> 'ssl tls) option" where
  "emit_data app s data st =
     do {
       c \<leftarrow> us_socket_context s (plain st);
       x \<leftarrow> ssl_conts st c;
       (s, st) \<leftarrow> call_app app (sx_on_data x) (On_data s data) st;
       closed \<leftarrow> us_socket_is_closed s (plain st);
       Some (closed, s, st) }"

text \<open>
  The loop of \<open>ssl_on_data\<close>, with what it has read so far. The first result says that the function
  returned from inside the loop.
\<close>

partial_function (option) ssl_read_loop ::
    "'ssl openssl \<Rightarrow> host \<Rightarrow> 'ssl app \<Rightarrow> ptr \<Rightarrow> byte list \<Rightarrow> 'ssl tls \<Rightarrow> (bool \<times> ptr \<times> 'ssl tls) option" where
  "ssl_read_loop SSL h app s out st =
     do {
       ssl \<leftarrow> get_ssl s st;
       ((just_read, bytes, ssl), st) \<leftarrow> run_bio h (SSL_read SSL ssl (LIBUS_RECV_BUFFER_LENGTH - length out)) st;
       st \<leftarrow> upd_ssl s (\<lambda>x. x\<lparr>ss_ssl := Some ssl\<rparr>) st;
       if just_read \<le> 0 then
         (let err = SSL_get_error SSL ssl just_read in
          if err \<noteq> SSL_ERROR_WANT_READ \<and> err \<noteq> SSL_ERROR_WANT_WRITE
          then map_option (\<lambda>r. (True, r)) (us_internal_ssl_socket_close h app s 0 st)
          else do {
            st \<leftarrow> (if err = SSL_ERROR_WANT_WRITE then upd_ssl s (\<lambda>x. x\<lparr>ssl_read_wants_write := True\<rparr>) st else Some st);
            if ssl_read_input_length (lsd st) \<noteq> 0 then map_option (\<lambda>r. (True, r)) (us_internal_ssl_socket_close h app s 0 st)
            else if out = [] then Some (False, s, st)
            else emit_data app s out st })
       else
         (let out = out @ bytes in
          if length out = LIBUS_RECV_BUFFER_LENGTH
          then do {
            (closed, s, st) \<leftarrow> emit_data app s out st;
            if closed then Some (True, s, st) else ssl_read_loop SSL h app s [] st }
          else ssl_read_loop SSL h app s out st) }"

text \<open>
  \<open>ssl_on_data\<close> and \<open>ssl_on_writable\<close> call each other through the pointers of the plain context, so they
  are one function of the event.
\<close>

datatype ssl_event = Ev_data "byte list" | Ev_writable

definition with_input :: "ptr \<Rightarrow> byte list \<Rightarrow> 'ssl tls \<Rightarrow> 'ssl tls" where
  "with_input s data st = st\<lparr>lsd := (lsd st)\<lparr>ssl_read_input := data, ssl_read_input_length := length data,
     ssl_read_input_offset := 0, ssl_socket := s, msg_more := False\<rparr>\<rparr>"

definition answer_shutdown :: "'ssl openssl \<Rightarrow> host \<Rightarrow> 'ssl app \<Rightarrow> ptr \<Rightarrow> 'ssl tls \<Rightarrow> (ptr \<times> 'ssl tls) option" where
  "answer_shutdown SSL h app s st =
     do {
       ssl \<leftarrow> get_ssl s st;
       ((ret, ssl), st) \<leftarrow> run_bio h (SSL_shutdown SSL ssl) st;
       st \<leftarrow> upd_ssl s (\<lambda>x. x\<lparr>ss_ssl := Some ssl\<rparr>) st;
       if ret = 1 then us_internal_ssl_socket_close h app s 0 st else Some (s, st) }"

text \<open>The end of \<open>ssl_on_data\<close>: the peer may have sent its \<open>close_notify\<close>.\<close>

definition close_if_received :: "'ssl openssl \<Rightarrow> host \<Rightarrow> 'ssl app \<Rightarrow> ptr \<Rightarrow> 'ssl tls \<Rightarrow> (ptr \<times> 'ssl tls) option" where
  "close_if_received SSL h app s st =
     do {
       ssl \<leftarrow> get_ssl s st;
       if SSL_received SSL ssl then us_internal_ssl_socket_close h app s 0 st else Some (s, st) }"

definition sc_of :: "ptr \<Rightarrow> 'ssl tls \<Rightarrow> us_socket_context_t option" where
  "sc_of s st = sock_ctx s (plain st)"

partial_function (option) ssl_handle ::
    "'ssl openssl \<Rightarrow> host \<Rightarrow> 'ssl app \<Rightarrow> ptr \<Rightarrow> ssl_event \<Rightarrow> 'ssl tls \<Rightarrow> (ptr \<times> 'ssl tls) option" where
  "ssl_handle SSL h app s ev st =
     (case ev of
        Ev_data data \<Rightarrow>
          do {
            let st = with_input s data st;
            down \<leftarrow> us_internal_ssl_socket_is_shut_down SSL s st;
            if down then answer_shutdown SSL h app s st
            else do {
              (returned, s, st) \<leftarrow> ssl_read_loop SSL h app s [] st;
              if returned then Some (s, st)
              else do {
                x \<leftarrow> ssl_socks st s;
                if \<not> ssl_write_wants_read x then close_if_received SSL h app s st
                else do {
                  st \<leftarrow> upd_ssl s (\<lambda>x. x\<lparr>ssl_write_wants_read := False\<rparr>) st;
                  sc \<leftarrow> sc_of s st;
                  let st = st\<lparr>plain := emit (Callback (c_on_writable sc) (On_writable s)) (plain st)\<rparr>;
                  (s, st) \<leftarrow> (if c_on_writable sc = Fn_ssl_on_writable then ssl_handle SSL h app s Ev_writable st
                             else if c_on_writable sc = Fn_null then None else app (c_on_writable sc) (On_writable s) st);
                  closed \<leftarrow> us_socket_is_closed s (plain st);
                  if closed then Some (s, st) else close_if_received SSL h app s st } } } }
      | Ev_writable \<Rightarrow>
          do {
            c \<leftarrow> us_socket_context s (plain st);
            x \<leftarrow> ssl_socks st s;
            (s, st) \<leftarrow> (if ssl_read_wants_write x
                       then do {
                         st \<leftarrow> upd_ssl s (\<lambda>x. x\<lparr>ssl_read_wants_write := False\<rparr>) st;
                         sc \<leftarrow> sc_of s st;
                         let st = st\<lparr>plain := emit (Callback (c_on_data sc) (On_data s [])) (plain st)\<rparr>;
                         if c_on_data sc = Fn_ssl_on_data then ssl_handle SSL h app s (Ev_data []) st
                         else if c_on_data sc = Fn_null then None else app (c_on_data sc) (On_data s []) st }
                       else Some (s, st));
            sx \<leftarrow> ssl_conts st c;
            call_app app (sx_on_writable sx) (On_writable s) st })"

definition ssl_on_data :: "'ssl openssl \<Rightarrow> host \<Rightarrow> 'ssl app \<Rightarrow> ptr \<Rightarrow> byte list \<Rightarrow> 'ssl tls \<Rightarrow> (ptr \<times> 'ssl tls) option" where
  "ssl_on_data SSL h app s data st = ssl_handle SSL h app s (Ev_data data) st"

definition ssl_on_writable :: "'ssl openssl \<Rightarrow> host \<Rightarrow> 'ssl app \<Rightarrow> ptr \<Rightarrow> 'ssl tls \<Rightarrow> (ptr \<times> 'ssl tls) option" where
  "ssl_on_writable SSL h app s st = ssl_handle SSL h app s Ev_writable st"

section \<open>Writing and shutting down\<close>

definition us_internal_ssl_socket_write ::
    "'ssl openssl \<Rightarrow> host \<Rightarrow> ptr \<Rightarrow> byte list \<Rightarrow> bool \<Rightarrow> 'ssl tls \<Rightarrow> (int \<times> 'ssl tls) option" where
  "us_internal_ssl_socket_write SSL h s data m st =
     do {
       closed \<leftarrow> us_socket_is_closed s (plain st);
       down \<leftarrow> (if closed then Some True else us_internal_ssl_socket_is_shut_down SSL s st);
       if down then Some (0, st)
       else do {
         let st = st\<lparr>lsd := (lsd st)\<lparr>ssl_read_input_length := 0, ssl_socket := s, msg_more := m, last_write_was_msg_more := False\<rparr>\<rparr>;
         ssl \<leftarrow> get_ssl s st;
         ((written, ssl), st) \<leftarrow> run_bio h (SSL_write SSL ssl data) st;
         st \<leftarrow> upd_ssl s (\<lambda>x. x\<lparr>ss_ssl := Some ssl\<rparr>) st;
         let st = st\<lparr>lsd := (lsd st)\<lparr>msg_more := False\<rparr>\<rparr>;
         st \<leftarrow> (if last_write_was_msg_more (lsd st) \<and> \<not> m then in_plain (us_socket_flush h s) st else Some st);
         if written > 0 then Some (written, st)
         else do {
           st \<leftarrow> (if SSL_get_error SSL ssl written = SSL_ERROR_WANT_READ then upd_ssl s (\<lambda>x. x\<lparr>ssl_write_wants_read := True\<rparr>) st else Some st);
           Some (0, st) } } }"

definition us_internal_ssl_socket_shutdown :: "'ssl openssl \<Rightarrow> host \<Rightarrow> ptr \<Rightarrow> 'ssl tls \<Rightarrow> 'ssl tls option" where
  "us_internal_ssl_socket_shutdown SSL h s st =
     do {
       closed \<leftarrow> us_socket_is_closed s (plain st);
       down \<leftarrow> (if closed then Some True else us_internal_ssl_socket_is_shut_down SSL s st);
       if down then Some st
       else do {
         let st = st\<lparr>lsd := (lsd st)\<lparr>ssl_read_input_length := 0, ssl_socket := s, msg_more := False\<rparr>\<rparr>;
         ssl \<leftarrow> get_ssl s st;
         ((ret, ssl), st) \<leftarrow> run_bio h (SSL_shutdown SSL ssl) st;
         ((ret, ssl), st) \<leftarrow> (if ret = 0 then run_bio h (SSL_shutdown SSL ssl) st else Some ((ret, ssl), st));
         st \<leftarrow> upd_ssl s (\<lambda>x. x\<lparr>ss_ssl := Some ssl\<rparr>) st;
         if ret < 0 then in_plain (us_socket_shutdown h s) st else Some st } }"

section \<open>Contexts\<close>

definition sizeof_ssl_members :: nat where "sizeof_ssl_members = 16"
definition sizeof_ssl_context_members :: nat where "sizeof_ssl_context_members = 64"

text \<open>
  Creating a context: \<open>new_ctx\<close> is the \<open>SSL_CTX\<close> made from the options, or null. Members that are not
  initialised are given as in memory, by the arguments that end in \<open>0\<close>.
\<close>

definition us_internal_create_ssl_socket_context ::
    "host \<Rightarrow> nat \<Rightarrow> ptr \<Rightarrow> us_internal_ssl_socket_context_t \<Rightarrow> 'ssl tls \<Rightarrow> (ptr \<times> 'ssl tls) option" where
  "us_internal_create_ssl_socket_context h ext_size new_ctx sx0 st =
     (if new_ctx = 0 then Some (0, st)
      else do {
        (c, u) \<leftarrow> us_create_socket_context h (sizeof_ssl_context_members + ext_size) (plain st);
        u \<leftarrow> upd_ctx c (\<lambda>x. x\<lparr>c_is_low_prio := Fn_ssl_is_low_prio\<rparr>) u;
        Some (c, st\<lparr>plain := u, ssl_ctxs := insert new_ctx (ssl_ctxs st),
          ssl_conts := (ssl_conts st)(c \<mapsto> sx0\<lparr>sx_on_server_name := Fn_null, sx_ssl_context := new_ctx, sx_is_parent := True, sx_sni := sni_new\<rparr>)\<rparr>) })"

definition us_internal_create_child_ssl_socket_context ::
    "host \<Rightarrow> ptr \<Rightarrow> nat \<Rightarrow> us_internal_ssl_socket_context_t \<Rightarrow> 'ssl tls \<Rightarrow> (ptr \<times> 'ssl tls) option" where
  "us_internal_create_child_ssl_socket_context h c ext_size sx0 st =
     do {
       x \<leftarrow> ssl_conts st c;
       (child, u) \<leftarrow> us_create_socket_context h (sizeof_ssl_context_members + ext_size) (plain st);
       Some (child, st\<lparr>plain := u,
         ssl_conts := (ssl_conts st)(child \<mapsto> sx0\<lparr>sx_ssl_context := sx_ssl_context x, sx_is_parent := False\<rparr>)\<rparr>) }"

fun free_ctxs :: "ptr list \<Rightarrow> ptr set \<Rightarrow> ptr set option" where
  "free_ctxs [] alive = Some alive"
| "free_ctxs (p # ps) alive = (if p = 0 then free_ctxs ps alive else if p \<in> alive then free_ctxs ps (alive - {p}) else None)"

definition us_internal_ssl_socket_context_free :: "ptr \<Rightarrow> 'ssl tls \<Rightarrow> 'ssl tls option" where
  "us_internal_ssl_socket_context_free c st =
     do {
       x \<leftarrow> ssl_conts st c;
       alive \<leftarrow> (if sx_is_parent x then free_ctxs (sx_ssl_context x # sni_free (sx_sni x)) (ssl_ctxs st) else Some (ssl_ctxs st));
       u \<leftarrow> us_socket_context_free c (plain st);
       Some (st\<lparr>plain := u, ssl_ctxs := alive, ssl_conts := (ssl_conts st)(c := None)\<rparr>) }"

text \<open>The plain context calls the handlers above, they call the application's.\<close>

definition upd_cont :: "ptr \<Rightarrow> (us_internal_ssl_socket_context_t \<Rightarrow> us_internal_ssl_socket_context_t) \<Rightarrow> 'ssl tls \<Rightarrow> 'ssl tls option" where
  "upd_cont c f st = map_option (\<lambda>x. st\<lparr>ssl_conts := (ssl_conts st)(c \<mapsto> f x)\<rparr>) (ssl_conts st c)"

definition us_internal_ssl_socket_context_on_open :: "ptr \<Rightarrow> fnptr \<Rightarrow> 'ssl tls \<Rightarrow> 'ssl tls option" where
  "us_internal_ssl_socket_context_on_open c f st =
     do { st \<leftarrow> in_plain (us_socket_context_on_open c Fn_ssl_on_open) st; upd_cont c (\<lambda>x. x\<lparr>sx_on_open := f\<rparr>) st }"

definition us_internal_ssl_socket_context_on_close :: "ptr \<Rightarrow> fnptr \<Rightarrow> 'ssl tls \<Rightarrow> 'ssl tls option" where
  "us_internal_ssl_socket_context_on_close c f st =
     do { st \<leftarrow> in_plain (us_socket_context_on_close c Fn_ssl_on_close) st; upd_cont c (\<lambda>x. x\<lparr>sx_on_close := f\<rparr>) st }"

definition us_internal_ssl_socket_context_on_data :: "ptr \<Rightarrow> fnptr \<Rightarrow> 'ssl tls \<Rightarrow> 'ssl tls option" where
  "us_internal_ssl_socket_context_on_data c f st =
     do { st \<leftarrow> in_plain (us_socket_context_on_data c Fn_ssl_on_data) st; upd_cont c (\<lambda>x. x\<lparr>sx_on_data := f\<rparr>) st }"

definition us_internal_ssl_socket_context_on_writable :: "ptr \<Rightarrow> fnptr \<Rightarrow> 'ssl tls \<Rightarrow> 'ssl tls option" where
  "us_internal_ssl_socket_context_on_writable c f st =
     do { st \<leftarrow> in_plain (us_socket_context_on_writable c Fn_ssl_on_writable) st; upd_cont c (\<lambda>x. x\<lparr>sx_on_writable := f\<rparr>) st }"

definition us_internal_ssl_socket_context_on_timeout :: "ptr \<Rightarrow> fnptr \<Rightarrow> 'ssl tls \<Rightarrow> 'ssl tls option" where
  "us_internal_ssl_socket_context_on_timeout c f = in_plain (us_socket_context_on_timeout c f)"

text \<open>The application's handler for the end of the stream is dropped.\<close>

definition us_internal_ssl_socket_context_on_end :: "ptr \<Rightarrow> fnptr \<Rightarrow> 'ssl tls \<Rightarrow> 'ssl tls option" where
  "us_internal_ssl_socket_context_on_end c f = in_plain (us_socket_context_on_end c Fn_ssl_on_end)"

definition us_internal_ssl_socket_context_on_connect_error :: "ptr \<Rightarrow> fnptr \<Rightarrow> 'ssl tls \<Rightarrow> 'ssl tls option" where
  "us_internal_ssl_socket_context_on_connect_error c f = in_plain (us_socket_context_on_connect_error c f)"

definition us_internal_ssl_socket_context_on_server_name :: "ptr \<Rightarrow> fnptr \<Rightarrow> 'ssl tls \<Rightarrow> 'ssl tls option" where
  "us_internal_ssl_socket_context_on_server_name c f = upd_cont c (\<lambda>x. x\<lparr>sx_on_server_name := f\<rparr>)"

text \<open>Sockets are the plain ones with room for their TLS members, which \<open>ssl_on_open\<close> initialises.\<close>

definition run_plain :: "(us \<Rightarrow> (ptr \<times> us) option) \<Rightarrow> 'ssl tls \<Rightarrow> (ptr \<times> 'ssl tls) option" where
  "run_plain f st = map_option (\<lambda>(p, u). (p, st\<lparr>plain := u\<rparr>)) (f (plain st))"

definition us_internal_ssl_socket_context_listen ::
    "host \<Rightarrow> ptr \<Rightarrow> string option \<Rightarrow> int \<Rightarrow> int \<Rightarrow> nat \<Rightarrow> 'ssl tls \<Rightarrow> (ptr \<times> 'ssl tls) option" where
  "us_internal_ssl_socket_context_listen h c hst port options ext_size =
     run_plain (us_socket_context_listen h c hst port options (sizeof_ssl_members + ext_size))"

definition us_internal_ssl_socket_context_listen_unix ::
    "host \<Rightarrow> ptr \<Rightarrow> string \<Rightarrow> int \<Rightarrow> nat \<Rightarrow> 'ssl tls \<Rightarrow> (ptr \<times> 'ssl tls) option" where
  "us_internal_ssl_socket_context_listen_unix h c path options ext_size =
     run_plain (us_socket_context_listen_unix h c path options (sizeof_ssl_members + ext_size))"

definition us_internal_ssl_socket_context_connect ::
    "host \<Rightarrow> ptr \<Rightarrow> string option \<Rightarrow> int \<Rightarrow> string option \<Rightarrow> int \<Rightarrow> nat \<Rightarrow> 'ssl tls \<Rightarrow> (ptr \<times> 'ssl tls) option" where
  "us_internal_ssl_socket_context_connect h c hst port source_host options ext_size =
     run_plain (us_socket_context_connect h c hst port source_host options (sizeof_ssl_members + ext_size))"

definition us_internal_ssl_socket_context_connect_unix ::
    "host \<Rightarrow> ptr \<Rightarrow> string \<Rightarrow> int \<Rightarrow> nat \<Rightarrow> 'ssl tls \<Rightarrow> (ptr \<times> 'ssl tls) option" where
  "us_internal_ssl_socket_context_connect_unix h c path options ext_size =
     run_plain (us_socket_context_connect_unix h c path options (sizeof_ssl_members + ext_size))"

definition us_internal_ssl_socket_context_adopt_socket ::
    "host \<Rightarrow> ptr \<Rightarrow> ptr \<Rightarrow> nat \<Rightarrow> 'ssl tls \<Rightarrow> (ptr \<times> 'ssl tls) option" where
  "us_internal_ssl_socket_context_adopt_socket h c s ext_size st =
     map_option (\<lambda>(s', u). (s', st\<lparr>plain := u, ssl_socks := move s s' (ssl_socks st)\<rparr>))
       (us_socket_context_adopt_socket h c s (sizeof_ssl_members + ext_size) (plain st))"

end
