(* ===== verification/SslInv.thy ===== *)
theory SslInv
  imports SslSocket
begin

text \<open>
  Safety of TLS sockets: the invariant \<open>tls_inv\<close> of the TLS state, the calls an application may make as a
  step relation, and the handlers of \<open>openssl.c\<close> under the contract of an application and of OpenSSL
  (locale \<open>tls_application\<close>): they return, whatever the handlers of the application do, and never use a
  freed \<open>SSL\<close> or memory behind the received data.
\<close>

declare neq0_conv [iff del]

section \<open>Calls of OpenSSL\<close>

text \<open>What a call may do on a given input, whatever the answers to its writes are.\<close>

inductive bio_runs :: "'a bio \<Rightarrow> byte list \<Rightarrow> 'a \<Rightarrow> byte list \<Rightarrow> bool" where
  Runs_ret: "bio_runs (Bio_ret a) i a i"
| Runs_empty: "bio_runs (k None) [] a j \<Longrightarrow> bio_runs (Bio_read n k) [] a j"
| Runs_read: "i \<noteq> [] \<Longrightarrow> bio_runs (k (Some (take n i))) (drop n i) a j \<Longrightarrow> bio_runs (Bio_read n k) i a j"
| Runs_write: "bio_runs (k r) i a j \<Longrightarrow> bio_runs (Bio_write d k) i a j"

inductive_cases bio_runs_retE [elim!]: "bio_runs (Bio_ret a) i b j"
inductive_cases bio_runs_readE: "bio_runs (Bio_read n k) i b j"
inductive_cases bio_runs_writeE: "bio_runs (Bio_write d k) i b j"

lemma bio_runs_shrinks: "bio_runs p i a j \<Longrightarrow> length j \<le> length i"
  by (induction rule: bio_runs.induct) auto

definition unread :: "loop_ssl_data \<Rightarrow> byte list" where
  "unread l = take (ssl_read_input_length l) (drop (ssl_read_input_offset l) (ssl_read_input l))"

definition bio_fits :: "loop_ssl_data \<Rightarrow> bool" where
  "bio_fits l \<longleftrightarrow> ssl_read_input_offset l + ssl_read_input_length l \<le> length (ssl_read_input l)"

lemma length_unread: "bio_fits l \<Longrightarrow> length (unread l) = ssl_read_input_length l"
  by (simp add: unread_def bio_fits_def)

lemma unread_upd [simp]:
  "unread (l\<lparr>ssl_socket := s\<rparr>) = unread l" "unread (l\<lparr>msg_more := m\<rparr>) = unread l"
  "unread (l\<lparr>last_write_was_msg_more := m\<rparr>) = unread l" "unread (l\<lparr>ssl_read_input_length := 0\<rparr>) = []"
  by (simp_all add: unread_def)

lemma bio_fits_upd [simp]:
  "bio_fits (l\<lparr>ssl_socket := s\<rparr>) = bio_fits l" "bio_fits (l\<lparr>msg_more := m\<rparr>) = bio_fits l"
  "bio_fits (l\<lparr>last_write_was_msg_more := m\<rparr>) = bio_fits l"
  "bio_fits l \<Longrightarrow> bio_fits (l\<lparr>ssl_read_input_length := 0\<rparr>)"
  by (simp_all add: bio_fits_def)

text \<open>The read callback takes from the front of what is unread, and stays inside the received data.\<close>

lemma BIO_s_custom_read_ok:
  assumes "bio_fits (lsd st)"
  shows "\<exists>l. BIO_s_custom_read n st = Some (if unread (lsd st) = [] then None else Some (take n (unread (lsd st))), st\<lparr>lsd := l\<rparr>)
    \<and> bio_fits l \<and> unread l = drop n (unread (lsd st)) \<and> ssl_socket l = ssl_socket (lsd st) \<and> msg_more l = msg_more (lsd st)
    \<and> last_write_was_msg_more l = last_write_was_msg_more (lsd st)"
proof (cases "ssl_read_input_length (lsd st) = 0")
  case True
  then have "unread (lsd st) = []" by (simp add: unread_def)
  then show ?thesis using True assms by (simp add: BIO_s_custom_read_def Let_def exI [of _ "lsd st"])
next
  case False
  let ?l = "lsd st" and ?n = "min n (ssl_read_input_length (lsd st))"
  let ?l' = "?l\<lparr>ssl_read_input_offset := ssl_read_input_offset ?l + ?n, ssl_read_input_length := ssl_read_input_length ?l - ?n\<rparr>"
  have "unread ?l \<noteq> []" using False length_unread [OF assms] by auto
  moreover have "take ?n (drop (ssl_read_input_offset ?l) (ssl_read_input ?l)) = take n (unread ?l)"
    by (simp add: unread_def)
  moreover have "BIO_s_custom_read n st = Some (Some (take ?n (drop (ssl_read_input_offset ?l) (ssl_read_input ?l))), st\<lparr>lsd := ?l'\<rparr>)"
    using False assms by (simp add: BIO_s_custom_read_def Let_def bio_fits_def min_def)
  moreover have "unread ?l' = drop n (unread ?l)"
    by (simp add: unread_def drop_take min_def add.commute)
  moreover have "bio_fits ?l'" using assms by (simp add: bio_fits_def)
  ultimately show ?thesis by (intro exI [of _ ?l']) simp
qed

text \<open>The plain socket of the call is known, so that writing to it returns.\<close>

lemma us_poll_change_returns: "polls u p = Some q \<Longrightarrow> \<exists>u'. us_poll_change h p e u = Some u'"
  by (simp add: us_poll_change_def us_poll_events_def upd_poll_def us_poll_fd_def)

lemma us_socket_write_returns:
  assumes "app_ok A u" "s \<in> linked A"
  shows "\<exists>n u'. us_socket_write h s d m u = Some (n, u')"
proof -
  have inv: "us_inv A u" and l: "a_loose A = {}" using assms(1) by (auto simp: app_ok_def)
  obtain x where x: "socks u s = Some x" using us_inv_dom [OF inv] assms(2) by blast
  obtain q ctx where q: "polls u s = Some q" "ctxs u (s_context x) = Some ctx" using us_inv_sock_ctx [OF inv x] by blast
  define u1 where "u1 = emit (Send (sint (p_fd q)) d m) u"
  have u1: "bsd_send h (sint (p_fd q)) d m u = (k_int h (log u1), u1)"
    by (simp add: bsd_send_def sys_int_def u1_def Let_def)
  have c: "sock_ctx s u1 = Some ctx" "polls (u1\<lparr>last_write_failed := True\<rparr>) s = Some q"
    using x q by (simp_all add: u1_def emit_def sock_ctx_def)
  obtain u2 where u2: "us_poll_change h s (LIBUS_SOCKET_READABLE OR LIBUS_SOCKET_WRITABLE) (u1\<lparr>last_write_failed := True\<rparr>) = Some u2"
    using us_poll_change_returns [OF c(2)] by blast
  have t: "us_socket_is_closed s u = Some (is_closed x)" "us_socket_is_shut_down s u = Some (poll_type_of q = POLL_TYPE_SOCKET_SHUT_DOWN)"
    "us_poll_fd s u = Some (sint (p_fd q))"
    using x q by (simp_all add: us_socket_is_closed_def us_socket_is_shut_down_def us_internal_poll_type_def us_poll_fd_def)
  show ?thesis
  proof (cases "is_closed x \<or> poll_type_of q = POLL_TYPE_SOCKET_SHUT_DOWN")
    case True
    then show ?thesis by (simp add: us_socket_write_def t)
  next
    case False
    let ?r = "if k_int h (log u1) < 0 then 0 else k_int h (log u1)"
    have "us_socket_write h s d m u = Some (?r, if k_int h (log u1) = int (length d) then u1 else u2)"
      unfolding us_socket_write_def t u1 Let_def Option.bind.simps prod.case
      by (simp only: False c u2 Option.bind.simps if_False split: if_split) auto
    then show ?thesis by blast
  qed
qed

lemma BIO_s_custom_write_ok:
  assumes "app_ok A (plain st)" "ssl_socket (lsd st) \<in> linked A"
  shows "\<exists>r u m. BIO_s_custom_write h d st = Some (r, st\<lparr>plain := u, lsd := (lsd st)\<lparr>last_write_was_msg_more := m\<rparr>\<rparr>)
           \<and> poll_log (plain st) u"
proof -
  define m where "m = (msg_more (lsd st) \<or> length d = 16413)"
  obtain n u where w: "us_socket_write h (ssl_socket (lsd st)) d m (plain st) = Some (n, u)"
    using us_socket_write_returns [OF assms] by blast
  have "BIO_s_custom_write h d st
      = Some (if n = 0 then -1 else n, st\<lparr>plain := u, lsd := (lsd st)\<lparr>last_write_was_msg_more := m\<rparr>\<rparr>)"
    unfolding BIO_s_custom_write_def Let_def m_def [symmetric] by (simp add: w)
  then show ?thesis using poll_log_write [OF w] by blast
qed

lemma poll_log_app_ok: "app_ok A u \<Longrightarrow> poll_log u u' \<Longrightarrow> app_ok A u'"
  using poll_log_step by blast

text \<open>A call of OpenSSL returns; it moves the BIO and sends, and does nothing else.\<close>

lemma run_bio_ok:
  assumes "app_ok A (plain st)" "ssl_socket (lsd st) \<in> linked A" "bio_fits (lsd st)"
  shows "\<exists>a u l. run_bio h p st = Some (a, st\<lparr>plain := u, lsd := l\<rparr>) \<and> poll_log (plain st) u \<and> bio_fits l
    \<and> bio_runs p (unread (lsd st)) a (unread l) \<and> ssl_socket l = ssl_socket (lsd st) \<and> msg_more l = msg_more (lsd st)"
  using assms
proof (induction p arbitrary: st)
  case (Bio_ret a)
  then show ?case
    using poll_log_refl by (intro exI [of _ a] exI [of _ "plain st"] exI [of _ "lsd st"]) (simp add: Runs_ret)
next
  case (Bio_read n k)
  obtain l where l: "BIO_s_custom_read n st
      = Some (if unread (lsd st) = [] then None else Some (take n (unread (lsd st))), st\<lparr>lsd := l\<rparr>)"
    "bio_fits l" "unread l = drop n (unread (lsd st))" "ssl_socket l = ssl_socket (lsd st)" "msg_more l = msg_more (lsd st)"
    using BIO_s_custom_read_ok [OF Bio_read.prems(3)] by blast
  let ?r = "if unread (lsd st) = [] then None else Some (take n (unread (lsd st)))"
  obtain a u l' where IH: "run_bio h (k ?r) (st\<lparr>lsd := l\<rparr>) = Some (a, st\<lparr>plain := u, lsd := l'\<rparr>)" "poll_log (plain st) u"
    "bio_fits l'" "bio_runs (k ?r) (unread l) a (unread l')" "ssl_socket l' = ssl_socket l" "msg_more l' = msg_more l"
    using Bio_read.IH [OF rangeI, of "st\<lparr>lsd := l\<rparr>" ?r] Bio_read.prems l by auto
  have "bio_runs (Bio_read n k) (unread (lsd st)) a (unread l')"
    using IH(4) l(3) by (cases "unread (lsd st) = []") (auto intro: Runs_empty Runs_read)
  moreover have "run_bio h (Bio_read n k) st = Some (a, st\<lparr>plain := u, lsd := l'\<rparr>)"
    using l(1) IH(1) by simp
  ultimately show ?case using IH l by metis
next
  case (Bio_write d k)
  obtain r u m where w: "BIO_s_custom_write h d st = Some (r, st\<lparr>plain := u, lsd := (lsd st)\<lparr>last_write_was_msg_more := m\<rparr>\<rparr>)"
    "poll_log (plain st) u"
    using BIO_s_custom_write_ok [OF Bio_write.prems(1,2)] by metis
  let ?st = "st\<lparr>plain := u, lsd := (lsd st)\<lparr>last_write_was_msg_more := m\<rparr>\<rparr>"
  have "app_ok A u" using poll_log_app_ok [OF Bio_write.prems(1) w(2)] .
  then obtain a u' l' where IH: "run_bio h (k r) ?st = Some (a, ?st\<lparr>plain := u', lsd := l'\<rparr>)" "poll_log u u'"
    "bio_fits l'" "bio_runs (k r) (unread (lsd st)) a (unread l')" "ssl_socket l' = ssl_socket (lsd st)" "msg_more l' = msg_more (lsd st)"
    using Bio_write.IH [OF rangeI, of ?st r] Bio_write.prems by auto
  have "run_bio h (Bio_write d k) st = Some (a, st\<lparr>plain := u', lsd := l'\<rparr>)"
    using w(1) IH(1) by simp
  then show ?case using IH poll_log_trans [OF w(2) IH(2)] Runs_write by metis
qed

section \<open>The invariant\<close>

definition tls_live :: "ptr \<Rightarrow> 'ssl tls \<Rightarrow> bool" where
  "tls_live s st \<longleftrightarrow> get_ssl s st \<noteq> None"

definition app_handlers :: "us_internal_ssl_socket_context_t \<Rightarrow> bool" where
  "app_handlers x \<longleftrightarrow> sx_on_open x \<noteq> Fn_null \<and> sx_on_data x \<noteq> Fn_null \<and> sx_on_writable x \<noteq> Fn_null \<and> sx_on_close x \<noteq> Fn_null"

definition ssl_handlers :: "us_socket_context_t \<Rightarrow> bool" where
  "ssl_handlers x \<longleftrightarrow> c_on_open x = Fn_ssl_on_open \<and> c_on_data x = Fn_ssl_on_data
     \<and> c_on_writable x = Fn_ssl_on_writable \<and> c_on_close x = Fn_ssl_on_close"

text \<open>
  A context with TLS members has the handlers of \<open>openssl.c\<close> and those of the application behind them; an
  \<open>SSL\<close> that was not freed belongs to an open socket of such a context.
\<close>

definition conts_ok :: "'ssl tls \<Rightarrow> bool" where
  "conts_ok st \<longleftrightarrow> (\<forall>c x. ssl_conts st c = Some x \<longrightarrow> app_handlers x \<and> (\<exists>ctx. ctxs (plain st) c = Some ctx \<and> ssl_handlers ctx))"

definition live_ok :: "abs \<Rightarrow> 'ssl tls \<Rightarrow> bool" where
  "live_ok A st \<longleftrightarrow> (\<forall>s. tls_live s st \<longrightarrow> s \<in> open_in A \<and> (\<exists>x. socks (plain st) s = Some x \<and> s_context x \<in> dom (ssl_conts st)))"

definition tls_inv :: "abs \<Rightarrow> 'ssl tls \<Rightarrow> bool" where
  "tls_inv A st \<longleftrightarrow> app_ok A (plain st) \<and> bio_fits (lsd st) \<and> conts_ok st \<and> live_ok A st"

lemma tls_invD:
  assumes "tls_inv A st"
  shows "app_ok A (plain st)" "bio_fits (lsd st)" "conts_ok st" "live_ok A st" "us_inv A (plain st)" "a_loose A = {}"
  using assms by (auto simp: tls_inv_def app_ok_def)

lemma tls_inv_live:
  assumes "tls_inv A st" "tls_live s st"
  obtains x sx ctx y ssl where "socks (plain st) s = Some x" "\<not> is_closed x" "s \<in> open_in A" "s \<in> linked A"
    "ssl_conts st (s_context x) = Some sx" "app_handlers sx"
    "ctxs (plain st) (s_context x) = Some ctx" "ssl_handlers ctx" "ssl_socks st s = Some y" "ss_ssl y = Some ssl"
proof -
  have s: "s \<in> open_in A" and sl: "s \<in> linked A" using tls_invD(4) [OF assms(1)] assms(2) by (auto simp: live_ok_def linked_open_in)
  obtain x sx where x: "socks (plain st) s = Some x" "ssl_conts st (s_context x) = Some sx"
    using tls_invD(4) [OF assms(1)] assms(2) by (auto simp: live_ok_def)
  have n: "\<not> is_closed x"
    using is_closed_iff [OF tls_invD(5) [OF assms(1)] x(1) sl] s in_ctxs_disjoint(2,3) [OF tls_invD(5) [OF assms(1)]]
    by (auto simp: open_in_def)
  obtain ctx where "ctxs (plain st) (s_context x) = Some ctx" "ssl_handlers ctx" "app_handlers sx"
    using tls_invD(3) [OF assms(1)] x(2) by (auto simp: conts_ok_def)
  moreover obtain y ssl where "ssl_socks st s = Some y" "ss_ssl y = Some ssl"
    using assms(2) by (auto simp: tls_live_def get_ssl_def split: Option.bind_splits)
  ultimately show thesis using that x n s sl by blast
qed

lemma open_not_closed: "us_inv A u \<Longrightarrow> s \<in> open_in A \<Longrightarrow> s \<notin> set (a_closed A)"
  using in_ctxs_disjoint(2,3) by (fastforce simp: open_in_def)

lemma us_socket_is_closed_eq:
  assumes "app_ok A u" "s \<in> linked A"
  shows "us_socket_is_closed s u = Some (s \<in> set (a_closed A))"
proof -
  have inv: "us_inv A u" "a_loose A = {}" using assms(1) by (auto simp: app_ok_def)
  then obtain x where x: "socks u s = Some x" using us_inv_dom [OF inv(1)] assms(2) by blast
  then show ?thesis using is_closed_iff [OF inv(1) x assms(2)] by (simp add: us_socket_is_closed_def)
qed

section \<open>How the state evolves\<close>

definition tls_weight :: "('ssl \<Rightarrow> nat) \<Rightarrow> ptr \<Rightarrow> 'ssl tls \<Rightarrow> nat" where
  "tls_weight W s st = (case get_ssl s st of None \<Rightarrow> 0 | Some ssl \<Rightarrow> W ssl) + length (unread (lsd st))"

text \<open>
  The contract of OpenSSL: \<open>SSL_read\<close> returns at most as many bytes as were asked for, as many as it says, and a
  measure \<open>W\<close> of a connection bounds how often it can return data for a given input.
\<close>

definition ssl_bounded :: "'ssl openssl \<Rightarrow> ('ssl \<Rightarrow> nat) \<Rightarrow> bool" where
  "ssl_bounded SSL W \<longleftrightarrow>
     (\<forall>ssl n i r out ssl' j. 0 < n \<longrightarrow> bio_runs (SSL_read SSL ssl n) i (r, out, ssl') j \<longrightarrow>
        (if r > 0 then length out = nat r \<and> nat r \<le> n \<and> W ssl' + length j < W ssl + length i
         else W ssl' + length j \<le> W ssl + length i))
     \<and> (\<forall>ssl d i r ssl' j. bio_runs (SSL_write SSL ssl d) i (r, ssl') j \<longrightarrow> W ssl' + length j \<le> W ssl + length i)
     \<and> (\<forall>ssl i r ssl' j. bio_runs (SSL_shutdown SSL ssl) i (r, ssl') j \<longrightarrow> W ssl' + length j \<le> W ssl + length i)"

lemma ssl_boundedD:
  assumes "ssl_bounded SSL W"
  shows "0 < n \<Longrightarrow> bio_runs (SSL_read SSL ssl n) i (r, out, ssl') j \<Longrightarrow> r > 0 \<Longrightarrow>
      length out = nat r \<and> nat r \<le> n \<and> W ssl' + length j < W ssl + length i"
    and "0 < n \<Longrightarrow> bio_runs (SSL_read SSL ssl n) i (r, out, ssl') j \<Longrightarrow> W ssl' + length j \<le> W ssl + length i"
    and "bio_runs (SSL_write SSL ssl d) i (w, ssl') j \<Longrightarrow> W ssl' + length j \<le> W ssl + length i"
    and "bio_runs (SSL_shutdown SSL ssl) i (w, ssl') j \<Longrightarrow> W ssl' + length j \<le> W ssl + length i"
proof -
  note b = assms [unfolded ssl_bounded_def]
  show "0 < n \<Longrightarrow> bio_runs (SSL_read SSL ssl n) i (r, out, ssl') j \<Longrightarrow> r > 0 \<Longrightarrow>
      length out = nat r \<and> nat r \<le> n \<and> W ssl' + length j < W ssl + length i"
    using b [THEN conjunct1] by simp
  show "0 < n \<Longrightarrow> bio_runs (SSL_read SSL ssl n) i (r, out, ssl') j \<Longrightarrow> W ssl' + length j \<le> W ssl + length i"
    using b [THEN conjunct1, rule_format, of n ssl i r out ssl' j] by (auto split: if_splits)
qed (use assms in \<open>auto simp: ssl_bounded_def\<close>)

definition tls_evolves :: "('ssl \<Rightarrow> nat) \<Rightarrow> abs \<Rightarrow> 'ssl tls \<Rightarrow> abs \<Rightarrow> 'ssl tls \<Rightarrow> bool" where
  "tls_evolves W A st A' st' \<longleftrightarrow>
     (\<forall>s. tls_live s st \<longrightarrow> tls_live s st' \<or> s \<in> set (a_closed A'))
     \<and> set (a_closed A) \<subseteq> set (a_closed A') \<and> linked A \<subseteq> linked A'
     \<and> (ssl_socket (lsd st) \<in> linked A \<longrightarrow> ssl_socket (lsd st') \<in> linked A')
     \<and> dom (ssl_conts st') = dom (ssl_conts st)
     \<and> (\<forall>s. tls_weight W s st' \<le> tls_weight W s st)"

lemma tls_evolves_refl: "tls_evolves W A st A st"
  by (simp add: tls_evolves_def)

lemma tls_evolves_trans:
  "tls_evolves W A st A1 st1 \<Longrightarrow> tls_evolves W A1 st1 A2 st2 \<Longrightarrow> tls_evolves W A st A2 st2"
  unfolding tls_evolves_def by (intro conjI allI impI) (blast, blast, blast, blast, simp, metis le_trans)

lemma tls_evolvesD:
  assumes "tls_evolves W A st A' st'"
  shows "tls_live s st \<Longrightarrow> tls_live s st' \<or> s \<in> set (a_closed A')"
    and "s \<in> set (a_closed A) \<Longrightarrow> s \<in> set (a_closed A')" and "s \<in> linked A \<Longrightarrow> s \<in> linked A'"
    and "ssl_socket (lsd st) \<in> linked A \<Longrightarrow> ssl_socket (lsd st') \<in> linked A'"
    and "dom (ssl_conts st') = dom (ssl_conts st)" and "tls_weight W s st' \<le> tls_weight W s st"
  using assms by (auto simp: tls_evolves_def)

section \<open>The steps keep the invariant\<close>

lemma poll_log_mem: "poll_log u u' \<Longrightarrow> socks u' = socks u \<and> ctxs u' = ctxs u"
  by (auto simp: poll_log_def)

lemma get_ssl_upd: "get_ssl s' (st\<lparr>ssl_socks := (ssl_socks st)(s \<mapsto> x)\<rparr>) = (if s' = s then ss_ssl x else get_ssl s' st)"
  by (simp add: get_ssl_def)

lemma get_ssl_cong [simp]:
  "get_ssl s (st\<lparr>plain := u\<rparr>) = get_ssl s st" "get_ssl s (st\<lparr>lsd := l\<rparr>) = get_ssl s st" "get_ssl s (st\<lparr>ssl_conts := c\<rparr>) = get_ssl s st"
  by (simp_all add: get_ssl_def)

text \<open>A call of OpenSSL for a live socket, with what it stores in the members of the socket.\<close>

lemma ssl_call_step:
  assumes inv: "tls_inv A st" and u: "poll_log (plain st) u" and l: "bio_fits l"
    and x: "ssl_socks st s = Some x" "ss_ssl x = Some ssl" "ss_ssl x' = Some ssl'"
    and sock: "ssl_socket l = ssl_socket (lsd st) \<or> ssl_socket l \<in> linked A"
    and W: "W ssl' + length (unread l) \<le> W ssl + length (unread (lsd st))" "length (unread l) \<le> length (unread (lsd st))"
  shows "tls_inv A (st\<lparr>plain := u, lsd := l, ssl_socks := (ssl_socks st)(s \<mapsto> x')\<rparr>)" (is "tls_inv A ?st")
    and "tls_evolves W A st A (st\<lparr>plain := u, lsd := l, ssl_socks := (ssl_socks st)(s \<mapsto> x')\<rparr>)"
proof -
  note mem = poll_log_mem [OF u]
  have g: "get_ssl t ?st = (if t = s then Some ssl' else get_ssl t st)" for t
    using x(3) by (simp add: get_ssl_def)
  have g0: "get_ssl s st = Some ssl" using x by (simp add: get_ssl_def)
  have live: "tls_live t ?st = tls_live t st" for t
    using g g0 by (simp add: tls_live_def)
  have "app_ok A u" by (rule poll_log_app_ok [OF tls_invD(1) [OF inv] u])
  moreover have "conts_ok ?st" using tls_invD(3) [OF inv] mem by (simp add: conts_ok_def)
  moreover have "live_ok A ?st" using tls_invD(4) [OF inv] mem live by (simp add: live_ok_def)
  ultimately show "tls_inv A ?st" using l by (simp add: tls_inv_def)
  have "tls_weight W t ?st \<le> tls_weight W t st" for t
    using W g g0 by (auto simp: tls_weight_def split: option.split)
  then show "tls_evolves W A st A ?st" using live sock by (auto simp: tls_evolves_def)
qed

lemma us_socket_flush_returns:
  assumes "app_ok A u" "s \<in> linked A"
  shows "\<exists>u'. us_socket_flush h s u = Some u' \<and> poll_log u u'"
proof -
  have inv: "us_inv A u" and l: "a_loose A = {}" using assms(1) by (auto simp: app_ok_def)
  obtain x where x: "socks u s = Some x" using us_inv_dom [OF inv] assms(2) by blast
  obtain q where q: "polls u s = Some q" using us_inv_sock_ctx(3) [OF inv x] by blast
  have "\<exists>u'. us_socket_flush h s u = Some u'"
    by (simp add: us_socket_flush_def us_socket_is_shut_down_def us_internal_poll_type_def us_poll_fd_def q)
  then show ?thesis using poll_log_flush by blast
qed

lemma us_socket_shutdown_returns:
  assumes "app_ok A u" "s \<in> linked A"
  shows "\<exists>u'. us_socket_shutdown h s u = Some u' \<and> poll_log u u'"
proof -
  have inv: "us_inv A u" and l: "a_loose A = {}" using assms(1) by (auto simp: app_ok_def)
  obtain x where x: "socks u s = Some x" using us_inv_dom [OF inv] assms(2) by blast
  obtain q ctx where q: "polls u s = Some q" "ctxs u (s_context x) = Some ctx" using us_inv_sock_ctx [OF inv x] by blast
  define q1 where "q1 = q\<lparr>p_poll_type := POLL_TYPE_SOCKET_SHUT_DOWN OR (p_poll_type q AND 12)\<rparr>"
  define u1 where "u1 = u\<lparr>polls := (polls u)(s \<mapsto> q1)\<rparr>"
  have u1: "us_internal_poll_set_type s POLL_TYPE_SOCKET_SHUT_DOWN u = Some u1" "polls u1 s = Some q1" "sock_ctx s u1 = Some ctx"
    using x q by (simp_all add: us_internal_poll_set_type_def upd_poll_def u1_def q1_def sock_ctx_def)
  obtain u2 where u2: "us_poll_change h s (poll_events_of q1 AND LIBUS_SOCKET_READABLE) u1 = Some u2"
    using us_poll_change_returns [OF u1(2)] by blast
  have "dom (polls u2) = dom (polls u1)" using poll_log_change [OF u2] unfolding poll_log_def by (elim exE conjE) simp
  then obtain q2 where q2: "polls u2 s = Some q2" using u1(2) by blast
  have "us_poll_events s u1 = Some (poll_events_of q1)" using u1(2) by (simp add: us_poll_events_def)
  then have "\<exists>u'. us_socket_shutdown h s u = Some u'"
    by (simp add: us_socket_shutdown_def us_socket_is_closed_def us_socket_is_shut_down_def us_internal_poll_type_def us_poll_fd_def x q u1 u2 q2)
  then show ?thesis using poll_log_shutdown by blast
qed

lemma is_shut_down_live:
  assumes "tls_inv A st" "tls_live s st"
  shows "\<exists>b. us_internal_ssl_socket_is_shut_down SSL s st = Some b"
proof -
  obtain x where x: "socks (plain st) s = Some x" by (rule tls_inv_live [OF assms])
  obtain q where "polls (plain st) s = Some q" using us_inv_sock_ctx(3) [OF tls_invD(5) [OF assms(1)] x] by blast
  then show ?thesis using assms(2)
    by (auto simp: us_internal_ssl_socket_is_shut_down_def us_socket_is_shut_down_def us_internal_poll_type_def tls_live_def)
qed

lemma live_is_closed:
  assumes "tls_inv A st" "tls_live s st"
  shows "us_socket_is_closed s (plain st) = Some False"
  by (rule tls_inv_live [OF assms]) (simp add: us_socket_is_closed_def)

text \<open>The state in which the write and the shutdown call OpenSSL.\<close>

lemma run_bio_call:
  assumes inv: "tls_inv A st" and live: "tls_live s st" and l: "bio_fits l" "ssl_socket l = s"
  shows "\<exists>a u l'. run_bio h p (st\<lparr>lsd := l\<rparr>) = Some (a, st\<lparr>plain := u, lsd := l'\<rparr>) \<and> poll_log (plain st) u \<and> bio_fits l'
    \<and> bio_runs p (unread l) a (unread l') \<and> ssl_socket l' = s"
proof -
  have "s \<in> linked A" by (rule tls_inv_live [OF inv live])
  then show ?thesis
    using run_bio_ok [of A "st\<lparr>lsd := l\<rparr>" h p] tls_invD(1) [OF inv] l by simp blast
qed

lemma in_plain_flush:
  "us_socket_flush h s u = Some u' \<Longrightarrow> in_plain (us_socket_flush h s) (st\<lparr>plain := u, lsd := l\<rparr>) = Some (st\<lparr>plain := u', lsd := l\<rparr>)"
  by (simp add: in_plain_def)

lemma ssl_write_ok:
  assumes inv: "tls_inv A st" and live: "tls_live s st" and b: "ssl_bounded SSL W"
  shows "\<exists>n st'. us_internal_ssl_socket_write SSL h s d m st = Some (n, st') \<and> tls_inv A st' \<and> tls_evolves W A st A st'"
proof -
  obtain y ssl where y: "ssl_socks st s = Some y" "ss_ssl y = Some ssl" and sl: "s \<in> linked A"
    by (rule tls_inv_live [OF inv live])
  obtain down where down: "us_internal_ssl_socket_is_shut_down SSL s st = Some down"
    using is_shut_down_live [OF inv live] by blast
  note closed = live_is_closed [OF inv live]
  show ?thesis
  proof (cases down)
    case True
    then show ?thesis
      using closed down inv tls_evolves_refl by (auto simp: us_internal_ssl_socket_write_def)
  next
    case False
    let ?l = "(lsd st)\<lparr>ssl_read_input_length := 0, ssl_socket := s, msg_more := m, last_write_was_msg_more := False\<rparr>"
    have l: "bio_fits ?l" "unread ?l = []" using tls_invD(2) [OF inv] by (simp_all add: bio_fits_def unread_def)
    obtain w ssl' u l' where r: "run_bio h (SSL_write SSL ssl d) (st\<lparr>lsd := ?l\<rparr>) = Some ((w, ssl'), st\<lparr>plain := u, lsd := l'\<rparr>)"
      "poll_log (plain st) u" "bio_fits l'" "bio_runs (SSL_write SSL ssl d) [] (w, ssl') (unread l')" "ssl_socket l' = s"
      using run_bio_call [OF inv live l(1), of h "SSL_write SSL ssl d"] l(2) by auto
    have un: "unread l' = []" using bio_runs_shrinks [OF r(4)] by simp
    have W: "W ssl' \<le> W ssl" using ssl_boundedD(3) [OF b r(4)] un by simp
    obtain u' where f: "us_socket_flush h s u = Some u'" "poll_log u u'"
      using us_socket_flush_returns [OF poll_log_app_ok [OF tls_invD(1) [OF inv] r(2)] sl] by blast
    define v where "v = (if last_write_was_msg_more l' \<and> \<not> m then u' else u)"
    define y' where "y' = (if \<not> w > 0 \<and> SSL_get_error SSL ssl' w = SSL_ERROR_WANT_READ
      then y\<lparr>ss_ssl := Some ssl', ssl_write_wants_read := True\<rparr> else y\<lparr>ss_ssl := Some ssl'\<rparr>)"
    define st' where "st' = st\<lparr>plain := v, lsd := l'\<lparr>msg_more := False\<rparr>, ssl_socks := (ssl_socks st)(s \<mapsto> y')\<rparr>"
    have g: "get_ssl s st = Some ssl" using y by (simp add: get_ssl_def)
    have "us_internal_ssl_socket_write SSL h s d m st = Some (if w > 0 then w else 0, st')"
      unfolding us_internal_ssl_socket_write_def
      by (simp add: closed down False Let_def g r(1) upd_ssl_def y(1) in_plain_def f(1) st'_def v_def y'_def)
    moreover have pl: "poll_log (plain st) v" using r(2) poll_log_trans [OF r(2) f(2)] by (simp add: v_def)
    have y': "ss_ssl y' = Some ssl'" by (simp add: y'_def)
    have "tls_inv A st'" "tls_evolves W A st A st'"
      unfolding st'_def
      using ssl_call_step [OF inv pl _ y y', of "l'\<lparr>msg_more := False\<rparr>" W] r(3,5) sl un W by simp_all
    ultimately show ?thesis by blast
  qed
qed

lemma ssl_shutdown_ok:
  assumes inv: "tls_inv A st" and live: "tls_live s st" and b: "ssl_bounded SSL W"
  shows "\<exists>st'. us_internal_ssl_socket_shutdown SSL h s st = Some st' \<and> tls_inv A st' \<and> tls_evolves W A st A st'"
proof -
  obtain y ssl where y: "ssl_socks st s = Some y" "ss_ssl y = Some ssl" and sl: "s \<in> linked A"
    by (rule tls_inv_live [OF inv live])
  obtain down where down: "us_internal_ssl_socket_is_shut_down SSL s st = Some down"
    using is_shut_down_live [OF inv live] by blast
  note closed = live_is_closed [OF inv live]
  show ?thesis
  proof (cases down)
    case True
    then show ?thesis
      using closed down inv tls_evolves_refl by (auto simp: us_internal_ssl_socket_shutdown_def)
  next
    case False
    let ?l = "(lsd st)\<lparr>ssl_read_input_length := 0, ssl_socket := s, msg_more := False\<rparr>"
    have l: "bio_fits ?l" "unread ?l = []" using tls_invD(2) [OF inv] by (simp_all add: bio_fits_def unread_def)
    have call: "\<exists>r ssl2 u2 l2. run_bio h (SSL_shutdown SSL ssl1) (st\<lparr>plain := u1, lsd := l1\<rparr>) = Some ((r, ssl2), st\<lparr>plain := u2, lsd := l2\<rparr>)
        \<and> poll_log (plain st) u2 \<and> bio_fits l2 \<and> unread l2 = [] \<and> ssl_socket l2 = s \<and> W ssl2 \<le> W ssl1"
      if "poll_log (plain st) u1" "bio_fits l1" "unread l1 = []" "ssl_socket l1 = s" for ssl1 u1 l1
    proof -
      note asm = that
      have u1: "app_ok A u1" by (rule poll_log_app_ok [OF tls_invD(1) [OF inv] that(1)])
      obtain r ssl2 u2 l2 where r: "run_bio h (SSL_shutdown SSL ssl1) (st\<lparr>plain := u1, lsd := l1\<rparr>) = Some ((r, ssl2), st\<lparr>plain := u2, lsd := l2\<rparr>)"
        "poll_log u1 u2" "bio_fits l2" "bio_runs (SSL_shutdown SSL ssl1) [] (r, ssl2) (unread l2)" "ssl_socket l2 = s"
        using run_bio_ok [of A "st\<lparr>plain := u1, lsd := l1\<rparr>" h "SSL_shutdown SSL ssl1"] u1 asm sl by auto
      have "unread l2 = []" using bio_runs_shrinks [OF r(4)] by simp
      then show ?thesis
        using r poll_log_trans [OF that(1) r(2)] ssl_boundedD(4) [OF b r(4)] by auto
    qed
    obtain r1 ssl1 u1 l1 where r1: "run_bio h (SSL_shutdown SSL ssl) (st\<lparr>plain := plain st, lsd := ?l\<rparr>) = Some ((r1, ssl1), st\<lparr>plain := u1, lsd := l1\<rparr>)"
      "poll_log (plain st) u1" "bio_fits l1" "unread l1 = []" "ssl_socket l1 = s" "W ssl1 \<le> W ssl"
      using call [OF poll_log_refl l, of ssl] by auto
    obtain r2 ssl2 u2 l2 where r2: "(if r1 = 0 then run_bio h (SSL_shutdown SSL ssl1) (st\<lparr>plain := u1, lsd := l1\<rparr>)
        else Some ((r1, ssl1), st\<lparr>plain := u1, lsd := l1\<rparr>)) = Some ((r2, ssl2), st\<lparr>plain := u2, lsd := l2\<rparr>)"
      "poll_log (plain st) u2" "bio_fits l2" "unread l2 = []" "ssl_socket l2 = s" "W ssl2 \<le> W ssl"
    proof (cases "r1 = 0")
      case True
      then show ?thesis using call [OF r1(2-5), of ssl1] r1(6) that by fastforce
    qed (use r1 that in auto)
    obtain u3 where f: "us_socket_shutdown h s u2 = Some u3" "poll_log u2 u3"
      using us_socket_shutdown_returns [OF poll_log_app_ok [OF tls_invD(1) [OF inv] r2(2)] sl] by blast
    define v where "v = (if r2 < 0 then u3 else u2)"
    define st' where "st' = st\<lparr>plain := v, lsd := l2, ssl_socks := (ssl_socks st)(s \<mapsto> y\<lparr>ss_ssl := Some ssl2\<rparr>)\<rparr>"
    have g: "get_ssl s st = Some ssl" using y by (simp add: get_ssl_def)
    have "us_internal_ssl_socket_shutdown SSL h s st = Some st'"
      unfolding us_internal_ssl_socket_shutdown_def
      using r1(1) r2(1) by (simp add: closed down False Let_def g upd_ssl_def y(1) in_plain_def f(1) st'_def v_def)
    moreover have pl: "poll_log (plain st) v" using r2(2) poll_log_trans [OF r2(2) f(2)] by (simp add: v_def)
    have "tls_inv A st'" "tls_evolves W A st A st'"
      unfolding st'_def
      using ssl_call_step [OF inv pl r2(3) y, of "y\<lparr>ss_ssl := Some ssl2\<rparr>" ssl2 W] r2 sl by simp_all
    ultimately show ?thesis by blast
  qed
qed

text \<open>Closing leaves every socket in its context.\<close>

definition same_owner :: "us \<Rightarrow> us \<Rightarrow> bool" where
  "same_owner u u' \<longleftrightarrow> (\<forall>p. map_option s_context (socks u' p) = map_option s_context (socks u p))"

lemma same_owner_refl: "same_owner u u"
  by (simp add: same_owner_def)

lemma same_owner_trans: "same_owner u v \<Longrightarrow> same_owner v w \<Longrightarrow> same_owner u w"
  by (simp add: same_owner_def)

lemma same_owner_socks: "socks u' = socks u \<Longrightarrow> same_owner u u'"
  by (simp add: same_owner_def)

lemma same_owner_upd_sock: "upd_sock p f u = Some u' \<Longrightarrow> (\<And>x. s_context (f x) = s_context x) \<Longrightarrow> same_owner u u'"
  by (auto simp: same_owner_def upd_sock_def)

lemma same_owner_upd_ctx: "upd_ctx c f u = Some u' \<Longrightarrow> same_owner u u'"
  by (auto simp: same_owner_def upd_ctx_def)

lemma same_owner_unlink: "us_internal_socket_context_unlink c s u = Some u' \<Longrightarrow> same_owner u u'"
  unfolding us_internal_socket_context_unlink_def
  by (auto elim!: bind_SomeE split: if_splits dest!: same_owner_upd_ctx same_owner_upd_sock) (simp_all add: same_owner_def)

lemma same_owner_low: "low_prio_unlink s u = Some u' \<Longrightarrow> same_owner u u'"
  unfolding low_prio_unlink_def
  by (auto elim!: bind_SomeE split: if_splits dest!: same_owner_upd_sock simp: same_owner_def)

lemma same_owner_close:
  assumes inv: "us_inv A u" "a_loose A = {}" and x: "socks u s = Some x" and s: "s \<in> open_in A"
    and c: "close_silently h s x u = Some u'"
  shows "same_owner u u'"
proof (rule unlink_any_refines [OF inv x s])
  fix u1 A1 x1
  assume u: "(if s_low_prio_state x = 1 then low_prio_unlink s u
      else us_internal_socket_context_unlink (s_context x) s u) = Some u1"
    "us_inv A1 u1" "a_loose A1 = {s}" "socks u1 s = Some x1"
  have "same_owner u u1"
    using u(1) same_owner_low same_owner_unlink by (cases "s_low_prio_state x = 1") auto
  moreover have "close_and_mark h s u1 = Some u'"
    using c u(1) by (auto simp: close_silently_def split: Option.bind_splits)
  then have "socks u' = (socks u1)(s \<mapsto> x1\<lparr>s_next := closed_head u1, s_prev := s_context x1\<rparr>)"
    using close_and_mark_refines [OF u(2) _ u(4), of h] u(3) by auto
  then have "same_owner u1 u'" using u(4) by (simp add: same_owner_def)
  ultimately show ?thesis by (rule same_owner_trans)
qed

text \<open>\<open>us_socket_close\<close> up to its callback, and the \<open>SSL_free\<close> in it.\<close>

lemma ssl_close_silently:
  assumes inv: "tls_inv A st" and live: "tls_live s st"
  obtains x u y ctx c sx where "socks (plain st) s = Some x" "\<not> is_closed x" "close_silently h s x (plain st) = Some u"
    "us_socket_context s u = Some c" "sock_ctx s u = Some ctx" "c_on_close ctx = Fn_ssl_on_close"
    "ssl_conts st c = Some sx" "app_handlers sx" "ssl_socks st s = Some y"
    "tls_inv (a_close s A) (st\<lparr>plain := u, ssl_socks := (ssl_socks st)(s \<mapsto> y\<lparr>ss_ssl := None\<rparr>)\<rparr>)"
    "tls_evolves W A st (a_close s A) (st\<lparr>plain := u, ssl_socks := (ssl_socks st)(s \<mapsto> y\<lparr>ss_ssl := None\<rparr>)\<rparr>)"
proof -
  obtain x sx ctx y ssl where x: "socks (plain st) s = Some x" "\<not> is_closed x" "s \<in> open_in A" "s \<in> linked A"
    "ssl_conts st (s_context x) = Some sx" "app_handlers sx"
    "ctxs (plain st) (s_context x) = Some ctx" "ssl_handlers ctx" "ssl_socks st s = Some y" "ss_ssl y = Some ssl"
    by (rule tls_inv_live [OF inv live])
  have us: "us_inv A (plain st)" "a_loose A = {}" using tls_invD [OF inv] by blast+
  obtain u z ctx' where c: "close_silently h s x (plain st) = Some u" "us_inv (a_close s A) u" "socks u s = Some z"
    "s_context z = s_context x" "sock_ctx s u = Some ctx'"
    "\<forall>c ctx. ctxs (plain st) c = Some ctx \<longrightarrow> (\<exists>hd. ctxs u c = Some (ctx\<lparr>c_iterator :=
        if c_iterator ctx = s then nxt (a_socks A c) s else c_iterator ctx, c_head := hd\<rparr>))"
    by (rule close_silently_refines [OF us x(1,3)])
  have own: "same_owner (plain st) u" by (rule same_owner_close [OF us x(1,3) c(1)])
  have ok: "app_ok (a_close s A) u" using close_step [OF tls_invD(1) [OF inv] x(1,2) c(1)] by blast
  have h: "c_on_close ctx' = Fn_ssl_on_close"
    using c(3-6) x(7,8) by (fastforce simp: sock_ctx_def ssl_handlers_def)
  let ?st = "st\<lparr>plain := u, ssl_socks := (ssl_socks st)(s \<mapsto> y\<lparr>ss_ssl := None\<rparr>)\<rparr>"
  have g: "get_ssl t ?st = (if t = s then None else get_ssl t st)" for t by (simp add: get_ssl_def)
  have live': "tls_live t ?st \<longleftrightarrow> t \<noteq> s \<and> tls_live t st" for t using g by (simp add: tls_live_def)
  have "live_ok (a_close s A) ?st"
  proof -
    have "t \<in> open_in A \<and> (\<exists>x. socks u t = Some x \<and> s_context x \<in> dom (ssl_conts st))" if l: "tls_live t st" for t
    proof -
      obtain x' where "t \<in> open_in A" "socks (plain st) t = Some x'" "s_context x' \<in> dom (ssl_conts st)"
        using tls_invD(4) [OF inv] l unfolding live_ok_def by blast
      then show ?thesis using own [unfolded same_owner_def, rule_format, of t] by auto
    qed
    then show ?thesis using live' by (auto simp: live_ok_def)
  qed
  moreover have "conts_ok ?st"
    using tls_invD(3) [OF inv] c(6) by (fastforce simp: conts_ok_def ssl_handlers_def)
  ultimately have inv': "tls_inv (a_close s A) ?st"
    using ok tls_invD(2) [OF inv] by (simp add: tls_inv_def)
  have "linked A \<subseteq> linked (a_close s A)" by (auto simp: linked_open_in)
  moreover have "tls_weight W t ?st \<le> tls_weight W t st" for t
    using g by (simp add: tls_weight_def)
  ultimately have ev: "tls_evolves W A st (a_close s A) ?st"
    using live' by (auto simp: tls_evolves_def)
  have "us_socket_context s u = Some (s_context x)" using c(3,4) by (simp add: us_socket_context_def)
  then show thesis using that x(1,2,5,6,9) c(1,5) h inv' ev by blast
qed

section \<open>The calls of an application\<close>

text \<open>
  Closing is the part of \<open>us_socket_close\<close> before the application's handler, which is again a sequence of
  steps. The setters take functions of the application.
\<close>

inductive tls_step :: "'ssl openssl \<Rightarrow> host \<Rightarrow> 'ssl tls \<Rightarrow> 'ssl tls \<Rightarrow> bool" for SSL h where
  Tls_callback: "tls_step SSL h st (st\<lparr>plain := emit (Callback f cb) (plain st)\<rparr>)"
| Tls_timeout: "in_plain (us_socket_timeout s seconds) st = Some st' \<Longrightarrow> tls_step SSL h st st'"
| Tls_wakeup: "in_plain (us_wakeup_loop h) st = Some st' \<Longrightarrow> tls_step SSL h st st'"
| Tls_write: "us_internal_ssl_socket_write SSL h s data m st = Some (n, st') \<Longrightarrow> tls_step SSL h st st'"
| Tls_shutdown: "us_internal_ssl_socket_shutdown SSL h s st = Some st' \<Longrightarrow> tls_step SSL h st st'"
| Tls_close: "tls_live s st \<Longrightarrow> socks (plain st) s = Some x \<Longrightarrow> close_silently h s x (plain st) = Some u \<Longrightarrow>
    upd_ssl s (\<lambda>y. y\<lparr>ss_ssl := None\<rparr>) (st\<lparr>plain := u\<rparr>) = Some st' \<Longrightarrow> tls_step SSL h st st'"
| Tls_on_data: "f \<noteq> Fn_null \<Longrightarrow> us_internal_ssl_socket_context_on_data c f st = Some st' \<Longrightarrow> tls_step SSL h st st'"
| Tls_on_writable: "f \<noteq> Fn_null \<Longrightarrow> us_internal_ssl_socket_context_on_writable c f st = Some st' \<Longrightarrow> tls_step SSL h st st'"
| Tls_on_close: "f \<noteq> Fn_null \<Longrightarrow> us_internal_ssl_socket_context_on_close c f st = Some st' \<Longrightarrow> tls_step SSL h st st'"

text \<open>Steps of the plain library that leave sockets in their contexts and contexts their handlers.\<close>

lemma plain_step:
  assumes inv: "tls_inv A st" and ok: "app_ok A u" and own: "same_owner (plain st) u"
    and ctxs: "\<And>c ctx. ctxs (plain st) c = Some ctx \<Longrightarrow> ssl_handlers ctx \<Longrightarrow> \<exists>ctx'. ctxs u c = Some ctx' \<and> ssl_handlers ctx'"
  shows "tls_inv A (st\<lparr>plain := u\<rparr>)" "tls_evolves W A st A (st\<lparr>plain := u\<rparr>)"
proof -
  let ?st = "st\<lparr>plain := u\<rparr>"
  have live: "tls_live t ?st = tls_live t st" for t by (simp add: tls_live_def)
  have "live_ok A ?st"
    unfolding live_ok_def
  proof (intro allI impI)
    fix t assume "tls_live t ?st"
    then obtain x where "t \<in> open_in A" "socks (plain st) t = Some x" "s_context x \<in> dom (ssl_conts st)"
      using tls_invD(4) [OF inv] unfolding live_ok_def live by blast
    then show "t \<in> open_in A \<and> (\<exists>x. socks (plain ?st) t = Some x \<and> s_context x \<in> dom (ssl_conts ?st))"
      using own [unfolded same_owner_def, rule_format, of t] by auto
  qed
  moreover have "conts_ok ?st"
    using tls_invD(3) [OF inv] ctxs by (simp add: conts_ok_def) blast
  ultimately show "tls_inv A ?st" using ok tls_invD(2) [OF inv] by (simp add: tls_inv_def)
  show "tls_evolves W A st A ?st" using live by (simp add: tls_evolves_def tls_weight_def)
qed

lemma plain_poll_log:
  assumes inv: "tls_inv A st" and u: "poll_log (plain st) u"
  shows "tls_inv A (st\<lparr>plain := u\<rparr>)" "tls_evolves W A st A (st\<lparr>plain := u\<rparr>)"
proof -
  note mem = poll_log_mem [OF u]
  have "tls_inv A (st\<lparr>plain := u\<rparr>) \<and> tls_evolves W A st A (st\<lparr>plain := u\<rparr>)"
    using plain_step [OF inv poll_log_app_ok [OF tls_invD(1) [OF inv] u] same_owner_socks] mem by simp
  then show "tls_inv A (st\<lparr>plain := u\<rparr>)" "tls_evolves W A st A (st\<lparr>plain := u\<rparr>)" by blast+
qed

lemmas plain_emit = plain_poll_log [OF _ poll_log_emit]

text \<open>A setter: the handler of \<open>openssl.c\<close> goes into the plain context, the other behind it.\<close>

lemma setter_tls:
  assumes inv: "tls_inv A st" and u: "upd_ctx c F (plain st) = Some u" and x: "ssl_conts st c = Some x"
    and F: "\<And>x. c_prev (F x) = c_prev x" "\<And>x. c_next (F x) = c_next x" "\<And>x. c_head (F x) = c_head x"
      "\<And>x. c_iterator (F x) = c_iterator x" "\<And>x. callbacks_set x \<Longrightarrow> callbacks_set (F x)"
      "\<And>x. ssl_handlers x \<Longrightarrow> ssl_handlers (F x)"
    and x': "app_handlers x'"
  shows "tls_inv A (st\<lparr>plain := u, ssl_conts := (ssl_conts st)(c \<mapsto> x')\<rparr>)" (is "tls_inv A ?st")
    and "tls_evolves W A st A (st\<lparr>plain := u, ssl_conts := (ssl_conts st)(c \<mapsto> x')\<rparr>)"
proof -
  obtain ctx where ctx: "ctxs (plain st) c = Some ctx" "u = (plain st)\<lparr>ctxs := (ctxs (plain st))(c \<mapsto> F ctx)\<rparr>"
    using setter_upd [OF u] by blast
  have ok: "app_ok A u" using setter_step [OF tls_invD(1) [OF inv] ctx F(1-5)] by blast
  have "tls_inv A (st\<lparr>plain := u\<rparr>)"
    by (rule plain_step(1) [OF inv ok]) (use ctx F(6) in \<open>auto simp: same_owner_def\<close>)
  then have "conts_ok (st\<lparr>plain := u\<rparr>)" "live_ok A (st\<lparr>plain := u\<rparr>)" by (simp_all add: tls_inv_def)
  moreover have "dom (ssl_conts ?st) = dom (ssl_conts st)" using x by auto
  ultimately have "live_ok A ?st"
    by (simp only: live_ok_def tls_live_def get_ssl_cong) simp
  moreover have "conts_ok ?st"
    using x x' \<open>conts_ok (st\<lparr>plain := u\<rparr>)\<close> by (auto simp: conts_ok_def)
  ultimately have "conts_ok ?st" "live_ok A ?st" by blast+
  then show "tls_inv A ?st" using ok tls_invD(2) [OF inv] by (simp add: tls_inv_def)
  show "tls_evolves W A st A ?st" using x by (auto simp: tls_evolves_def tls_weight_def tls_live_def)
qed

lemma timeout_same:
  assumes "us_socket_timeout s seconds u = Some u'"
  shows "same_owner u u'" "ctxs u' = ctxs u"
  using assms by (auto simp: us_socket_timeout_def upd_sock_def same_owner_def split: Option.bind_splits if_splits)

theorem tls_step_keeps:
  assumes step: "tls_step SSL h st st'" and inv: "tls_inv A st" and b: "ssl_bounded SSL W"
  shows "\<exists>A'. tls_inv A' st' \<and> tls_evolves W A st A' st'"
  using step
proof cases
  case (Tls_callback f cb)
  then show ?thesis using plain_emit [OF inv] by blast
next
  case (Tls_timeout s seconds)
  then obtain u where u: "us_socket_timeout s seconds (plain st) = Some u" "st' = st\<lparr>plain := u\<rparr>"
    by (auto simp: in_plain_def)
  then show ?thesis
    using plain_step [OF inv _ timeout_same(1) [OF u(1)]] timeout_step [OF tls_invD(1) [OF inv] u(1)] timeout_same(2) [OF u(1)]
    by auto
next
  case Tls_wakeup
  then obtain u where u: "us_wakeup_loop h (plain st) = Some u" "st' = st\<lparr>plain := u\<rparr>"
    by (auto simp: in_plain_def)
  then show ?thesis using plain_poll_log [OF inv poll_log_wakeup [OF u(1)]] by blast
next
  case (Tls_write s d m n)
  show ?thesis
  proof (cases "tls_live s st")
    case True
    then show ?thesis using ssl_write_ok [OF inv True b, of h d m] Tls_write by auto
  next
    case False
    then have "st' = st"
      using Tls_write by (auto simp: us_internal_ssl_socket_write_def tls_live_def Let_def split: Option.bind_splits if_splits)
    then show ?thesis using inv tls_evolves_refl by blast
  qed
next
  case (Tls_shutdown s)
  show ?thesis
  proof (cases "tls_live s st")
    case True
    then show ?thesis using ssl_shutdown_ok [OF inv True b, of h] Tls_shutdown by auto
  next
    case False
    then have "st' = st"
      using Tls_shutdown by (auto simp: us_internal_ssl_socket_shutdown_def tls_live_def Let_def split: Option.bind_splits if_splits)
    then show ?thesis using inv tls_evolves_refl by blast
  qed
next
  case (Tls_close s x u)
  show ?thesis
    by (rule ssl_close_silently [OF inv Tls_close(1), of h W]) (use Tls_close in \<open>auto simp: upd_ssl_def\<close>)
next
  case (Tls_on_data f c)
  then obtain u x where u: "upd_ctx c (\<lambda>x. x\<lparr>c_on_data := Fn_ssl_on_data\<rparr>) (plain st) = Some u" "ssl_conts st c = Some x"
    "st' = st\<lparr>plain := u, ssl_conts := (ssl_conts st)(c \<mapsto> x\<lparr>sx_on_data := f\<rparr>)\<rparr>"
    by (auto simp: us_internal_ssl_socket_context_on_data_def in_plain_def upd_cont_def us_socket_context_on_data_def split: Option.bind_splits)
  have "app_handlers (x\<lparr>sx_on_data := f\<rparr>)"
    using tls_invD(3) [OF inv] u(2) Tls_on_data(1) by (auto simp: conts_ok_def app_handlers_def)
  then show ?thesis
    using setter_tls [OF inv u(1,2)] u(3) by (force simp: callbacks_set_def ssl_handlers_def)
next
  case (Tls_on_writable f c)
  then obtain u x where u: "upd_ctx c (\<lambda>x. x\<lparr>c_on_writable := Fn_ssl_on_writable\<rparr>) (plain st) = Some u" "ssl_conts st c = Some x"
    "st' = st\<lparr>plain := u, ssl_conts := (ssl_conts st)(c \<mapsto> x\<lparr>sx_on_writable := f\<rparr>)\<rparr>"
    by (auto simp: us_internal_ssl_socket_context_on_writable_def in_plain_def upd_cont_def us_socket_context_on_writable_def split: Option.bind_splits)
  have "app_handlers (x\<lparr>sx_on_writable := f\<rparr>)"
    using tls_invD(3) [OF inv] u(2) Tls_on_writable(1) by (auto simp: conts_ok_def app_handlers_def)
  then show ?thesis
    using setter_tls [OF inv u(1,2)] u(3) by (force simp: callbacks_set_def ssl_handlers_def)
next
  case (Tls_on_close f c)
  then obtain u x where u: "upd_ctx c (\<lambda>x. x\<lparr>c_on_close := Fn_ssl_on_close\<rparr>) (plain st) = Some u" "ssl_conts st c = Some x"
    "st' = st\<lparr>plain := u, ssl_conts := (ssl_conts st)(c \<mapsto> x\<lparr>sx_on_close := f\<rparr>)\<rparr>"
    by (auto simp: us_internal_ssl_socket_context_on_close_def in_plain_def upd_cont_def us_socket_context_on_close_def split: Option.bind_splits)
  have "app_handlers (x\<lparr>sx_on_close := f\<rparr>)"
    using tls_invD(3) [OF inv] u(2) Tls_on_close(1) by (auto simp: conts_ok_def app_handlers_def)
  then show ?thesis
    using setter_tls [OF inv u(1,2)] u(3) by (force simp: callbacks_set_def ssl_handlers_def)
qed

lemma tls_steps_keep:
  "(tls_step SSL h)\<^sup>*\<^sup>* st st' \<Longrightarrow> tls_inv A st \<Longrightarrow> ssl_bounded SSL W \<Longrightarrow> \<exists>A'. tls_inv A' st' \<and> tls_evolves W A st A' st'"
proof (induction rule: rtranclp_induct)
  case base
  then show ?case using tls_evolves_refl by blast
next
  case (step y z)
  then show ?case using tls_step_keeps tls_evolves_trans by meson
qed

end
