(* ===== verification/SslApp.thy ===== *)
theory SslApp
  imports SslInv UsHosts
begin

text \<open>
  The handlers of \<open>openssl.c\<close> for an arbitrary application that uses the library through its interface and
  an OpenSSL that keeps to its contract: they return and keep the invariant of TLS sockets.
\<close>

declare neq0_conv [iff del]

fun cb_socket :: "callback \<Rightarrow> ptr" where
  "cb_socket (On_open s is_client ip) = s"
| "cb_socket (On_data s d) = s"
| "cb_socket (On_writable s) = s"
| "cb_socket (On_close s code) = s"
| "cb_socket (On_timeout s) = s"
| "cb_socket (On_end s) = s"
| "cb_socket (On_connect_error s code) = s"
| "cb_socket _ = 0"

definition wants_read :: "ptr \<Rightarrow> 'ssl tls \<Rightarrow> bool" where
  "wants_read s st = (case ssl_socks st s of None \<Rightarrow> False | Some x \<Rightarrow> ssl_write_wants_read x)"

text \<open>Each handler of the application returns the socket it was called for, and does a sequence of steps.\<close>

locale tls_application =
  fixes SSL :: "'ssl openssl" and h :: host and app :: "'ssl app" and W :: "'ssl \<Rightarrow> nat"
  assumes bounded: "ssl_bounded SSL W"
    and by_steps: "tls_inv A st \<Longrightarrow> f \<noteq> Fn_null \<Longrightarrow> \<exists>st'. app f cb st = Some (cb_socket cb, st') \<and> (tls_step SSL h)\<^sup>*\<^sup>* st st'"
begin

lemma app_ok_call:
  assumes "tls_inv A st" "f \<noteq> Fn_null"
  obtains A' st' where "app f cb st = Some (cb_socket cb, st')" "tls_inv A' st'" "tls_evolves W A st A' st'"
  using by_steps [OF assms, of cb] tls_steps_keep [OF _ assms(1) bounded] by blast

lemma call_ok:
  assumes inv: "tls_inv A st" and f: "f \<noteq> Fn_null"
  shows "\<exists>A' st'. call_app app f cb st = Some (cb_socket cb, st') \<and> tls_inv A' st' \<and> tls_evolves W A st A' st'"
proof -
  let ?st = "st\<lparr>plain := emit (Callback f cb) (plain st)\<rparr>"
  obtain A' st' where "app f cb ?st = Some (cb_socket cb, st')" "tls_inv A' st'" "tls_evolves W A ?st A' st'"
    by (rule app_ok_call [OF plain_emit(1) [OF inv] f])
  then show ?thesis
    using tls_evolves_trans [OF plain_emit(2) [OF inv]] f by (auto simp: call_app_def Let_def)
qed

lemma close_ok:
  assumes inv: "tls_inv A st" and live: "tls_live s st"
  obtains A' st' where "us_internal_ssl_socket_close h app s code st = Some (s, st')" "tls_inv A' st'"
    "tls_evolves W A st A' st'" "s \<in> set (a_closed A')"
proof (rule ssl_close_silently [OF inv live, of h W])
  fix x u y ctx c sx
  assume x: "socks (plain st) s = Some x" "\<not> is_closed x" and u: "close_silently h s x (plain st) = Some u"
    and c: "us_socket_context s u = Some c" "sock_ctx s u = Some ctx" "c_on_close ctx = Fn_ssl_on_close"
    and sx: "ssl_conts st c = Some sx" "app_handlers sx" and y: "ssl_socks st s = Some y"
    and st1: "tls_inv (a_close s A) (st\<lparr>plain := u, ssl_socks := (ssl_socks st)(s \<mapsto> y\<lparr>ss_ssl := None\<rparr>)\<rparr>)"
      "tls_evolves W A st (a_close s A) (st\<lparr>plain := u, ssl_socks := (ssl_socks st)(s \<mapsto> y\<lparr>ss_ssl := None\<rparr>)\<rparr>)"
  let ?st1 = "st\<lparr>plain := u, ssl_socks := (ssl_socks st)(s \<mapsto> y\<lparr>ss_ssl := None\<rparr>)\<rparr>"
  let ?st2 = "st\<lparr>plain := emit (Callback Fn_ssl_on_close (On_close s code)) u, ssl_socks := (ssl_socks st)(s \<mapsto> y\<lparr>ss_ssl := None\<rparr>)\<rparr>"
  have "?st1\<lparr>plain := emit (Callback Fn_ssl_on_close (On_close s code)) (plain ?st1)\<rparr> = ?st2" by (cases st) simp
  then have st2: "tls_inv (a_close s A) ?st2" "tls_evolves W (a_close s A) ?st1 (a_close s A) ?st2"
    using plain_emit [OF st1(1), where e = "Callback Fn_ssl_on_close (On_close s code)"] by metis+
  have "sx_on_close sx \<noteq> Fn_null" using sx(2) by (simp add: app_handlers_def)
  then obtain A' st' where st': "call_app app (sx_on_close sx) (On_close s code) ?st2 = Some (s, st')" "tls_inv A' st'"
    "tls_evolves W (a_close s A) ?st2 A' st'"
    using call_ok [OF st2(1), of "sx_on_close sx" "On_close s code"] by auto
  have e: "us_socket_context s (emit e u) = us_socket_context s u" for e by (simp add: us_socket_context_def emit_def)
  obtain ssl where g: "get_ssl s st = Some ssl" using live by (auto simp: tls_live_def)
  have "us_internal_ssl_socket_close h app s code st = Some (s, st')"
    using st'(1) by (simp add: us_internal_ssl_socket_close_def x u c sx(1) ssl_on_close_def e upd_ssl_def y g Let_def)
  moreover have ev: "tls_evolves W A st A' st'"
    using tls_evolves_trans [OF tls_evolves_trans [OF st1(2) st2(2)] st'(3)] .
  moreover have "s \<in> set (a_closed A')" using tls_evolvesD(2) [OF st'(3)] by simp
  ultimately show thesis using that st'(2) by blast
qed

lemma live_or_closed:
  assumes "tls_inv A' st'" "tls_evolves W A st A' st'" "tls_inv A st" "tls_live s st"
  shows "us_socket_is_closed s (plain st') = Some (s \<in> set (a_closed A'))" "s \<notin> set (a_closed A') \<Longrightarrow> tls_live s st'"
proof -
  have "s \<in> linked A" by (rule tls_inv_live [OF assms(3,4)])
  then show "us_socket_is_closed s (plain st') = Some (s \<in> set (a_closed A'))"
    using us_socket_is_closed_eq [OF tls_invD(1) [OF assms(1)]] tls_evolvesD(3) [OF assms(2)] by blast
  show "s \<notin> set (a_closed A') \<Longrightarrow> tls_live s st'" using tls_evolvesD(1) [OF assms(2,4)] by blast
qed

lemma emit_data_ok:
  assumes inv: "tls_inv A st" and live: "tls_live s st"
  obtains A' st' where "emit_data app s d st = Some (s \<in> set (a_closed A'), s, st')" "tls_inv A' st'" "tls_evolves W A st A' st'"
    "s \<notin> set (a_closed A') \<longrightarrow> tls_live s st'"
proof -
  obtain x sx where x: "socks (plain st) s = Some x" "ssl_conts st (s_context x) = Some sx" "app_handlers sx"
    by (rule tls_inv_live [OF inv live])
  then have "sx_on_data sx \<noteq> Fn_null" by (simp add: app_handlers_def)
  then obtain A' st' where st': "call_app app (sx_on_data sx) (On_data s d) st = Some (s, st')" "tls_inv A' st'"
    "tls_evolves W A st A' st'"
    using call_ok [OF inv, of "sx_on_data sx" "On_data s d"] by auto
  note lc = live_or_closed [OF st'(2,3) inv live]
  have "emit_data app s d st = Some (s \<in> set (a_closed A'), s, st')"
    by (simp add: emit_data_def us_socket_context_def x st'(1) lc(1))
  then show thesis using that st'(2,3) lc(2) by blast
qed

text \<open>One pass of the read loop, up to what it does with the result.\<close>

lemma read_call:
  assumes inv: "tls_inv A st" and live: "tls_live s st" and known: "ssl_socket (lsd st) \<in> linked A" and n: "0 < n"
  shows "\<exists>ssl r bytes ssl' st1 st2. get_ssl s st = Some ssl \<and> run_bio h (SSL_read SSL ssl n) st = Some ((r, bytes, ssl'), st1)
    \<and> upd_ssl s (\<lambda>x. x\<lparr>ss_ssl := Some ssl'\<rparr>) st1 = Some st2
    \<and> tls_inv A st2 \<and> tls_evolves W A st A st2 \<and> tls_live s st2 \<and> wants_read s st2 = wants_read s st
    \<and> (r > 0 \<longrightarrow> length bytes = nat r \<and> nat r \<le> n \<and> tls_weight W s st2 < tls_weight W s st)"
proof -
  obtain y ssl where y: "ssl_socks st s = Some y" "ss_ssl y = Some ssl" by (rule tls_inv_live [OF inv live])
  obtain r bytes ssl' u l where c: "run_bio h (SSL_read SSL ssl n) st = Some ((r, bytes, ssl'), st\<lparr>plain := u, lsd := l\<rparr>)"
    "poll_log (plain st) u" "bio_fits l" "bio_runs (SSL_read SSL ssl n) (unread (lsd st)) (r, bytes, ssl') (unread l)"
    "ssl_socket l = ssl_socket (lsd st)"
    using run_bio_ok [OF tls_invD(1) [OF inv] known tls_invD(2) [OF inv], of h "SSL_read SSL ssl n"] by auto
  let ?y = "y\<lparr>ss_ssl := Some ssl'\<rparr>"
  let ?st2 = "st\<lparr>plain := u, lsd := l, ssl_socks := (ssl_socks st)(s \<mapsto> ?y)\<rparr>"
  have g: "get_ssl s st = Some ssl" "get_ssl s ?st2 = Some ssl'" using y by (simp_all add: get_ssl_def)
  have "tls_inv A ?st2" "tls_evolves W A st A ?st2"
    using ssl_call_step [OF inv c(2,3) y, of ?y ssl' W] ssl_boundedD(2) [OF bounded n c(4)] bio_runs_shrinks [OF c(4)] c(5) by simp_all
  moreover have "tls_weight W s ?st2 < tls_weight W s st" if "r > 0"
    using ssl_boundedD(1) [OF bounded n c(4) that] g by (simp add: tls_weight_def)
  moreover have "upd_ssl s (\<lambda>x. x\<lparr>ss_ssl := Some ssl'\<rparr>) (st\<lparr>plain := u, lsd := l\<rparr>) = Some ?st2"
    using y by (simp add: upd_ssl_def)
  moreover have "tls_live s ?st2" "wants_read s ?st2 = wants_read s st"
    using g y by (simp_all add: tls_live_def wants_read_def)
  ultimately show ?thesis using g c(1) ssl_boundedD(1) [OF bounded n c(4)] by blast
qed

text \<open>A flag of a live socket is set.\<close>

lemma set_flag:
  assumes inv: "tls_inv A st" and live: "tls_live s st" and F: "\<And>x. ss_ssl (F x) = ss_ssl x"
  shows "\<exists>st'. upd_ssl s F st = Some st' \<and> tls_inv A st' \<and> tls_evolves W A st A st' \<and> tls_live s st' \<and> lsd st' = lsd st
    \<and> plain st' = plain st \<and> ssl_conts st' = ssl_conts st
    \<and> (\<forall>y. ssl_socks st s = Some y \<longrightarrow> ssl_socks st' s = Some (F y)) \<and> tls_weight W s st' = tls_weight W s st"
proof -
  obtain y ssl where y: "ssl_socks st s = Some y" "ss_ssl y = Some ssl" by (rule tls_inv_live [OF inv live])
  let ?st = "st\<lparr>plain := plain st, lsd := lsd st, ssl_socks := (ssl_socks st)(s \<mapsto> F y)\<rparr>"
  have "tls_inv A ?st" "tls_evolves W A st A ?st"
    using ssl_call_step [OF inv poll_log_refl tls_invD(2) [OF inv] y, of "F y" ssl W] y F by simp_all
  moreover have "tls_live s ?st" "tls_weight W s ?st = tls_weight W s st"
    using y F by (simp_all add: tls_live_def tls_weight_def get_ssl_def)
  ultimately show ?thesis using y by (intro exI [of _ ?st]) (simp add: upd_ssl_def)
qed

text \<open>
  The loop returns. When it did not return from the handler, the socket is live; and a write that waits for
  a read was not asked for during the loop, unless data was received.
\<close>

lemma read_loop_ok:
  assumes "tls_inv A st" "tls_live s st" "ssl_socket (lsd st) \<in> linked A" "length out < LIBUS_RECV_BUFFER_LENGTH"
  shows "\<exists>ret A' st'. ssl_read_loop SSL h app s out st = Some (ret, s, st') \<and> tls_inv A' st' \<and> tls_evolves W A st A' st'
    \<and> (if ret then s \<in> set (a_closed A') else tls_live s st')
    \<and> (out = [] \<and> \<not> ret \<longrightarrow> tls_weight W s st' < tls_weight W s st \<or> wants_read s st' = wants_read s st)"
  using assms
proof (induction "tls_weight W s st" arbitrary: A st out rule: less_induct)
  case less
  note inv = less.prems(1) and live = less.prems(2)
  let ?n = "LIBUS_RECV_BUFFER_LENGTH - length out"
  obtain ssl r bytes ssl' st1 st2 where c: "get_ssl s st = Some ssl" "run_bio h (SSL_read SSL ssl ?n) st = Some ((r, bytes, ssl'), st1)"
    "upd_ssl s (\<lambda>x. x\<lparr>ss_ssl := Some ssl'\<rparr>) st1 = Some st2"
    and st2: "tls_inv A st2" "tls_evolves W A st A st2" "tls_live s st2" "wants_read s st2 = wants_read s st"
    and r: "r > 0 \<longrightarrow> length bytes = nat r \<and> nat r \<le> ?n \<and> tls_weight W s st2 < tls_weight W s st"
    using read_call [OF inv live less.prems(3), of ?n] less.prems(4) by auto
  note step = ssl_read_loop.simps [of SSL h app s out st]
  have closing: ?case if cl: "ssl_read_loop SSL h app s out st = map_option (\<lambda>r. (True, r)) (us_internal_ssl_socket_close h app s 0 st3)"
      "tls_inv A st3" "tls_evolves W A st2 A st3" "tls_live s st3" for st3
  proof -
    obtain A' st' where "us_internal_ssl_socket_close h app s 0 st3 = Some (s, st')" "tls_inv A' st'" "tls_evolves W A st3 A' st'" "s \<in> set (a_closed A')"
      by (rule close_ok [OF cl(2,4)])
    then show ?thesis
      using cl(1) tls_evolves_trans [OF tls_evolves_trans [OF st2(2) cl(3)]] by (intro exI [of _ True]) auto
  qed
  show ?case
  proof (cases "r \<le> 0")
    case True
    let ?err = "SSL_get_error SSL ssl' r"
    show ?thesis
    proof (cases "?err \<noteq> SSL_ERROR_WANT_READ \<and> ?err \<noteq> SSL_ERROR_WANT_WRITE")
      case err: True
      then show ?thesis
        using closing [OF _ st2(1) tls_evolves_refl st2(3)] True by (simp add: step c)
    next
      case err: False
      obtain st3 where st3: "(if ?err = SSL_ERROR_WANT_WRITE then upd_ssl s (\<lambda>x. x\<lparr>ssl_read_wants_write := True\<rparr>) st2 else Some st2) = Some st3"
        "tls_inv A st3" "tls_evolves W A st2 A st3" "tls_live s st3" "wants_read s st3 = wants_read s st2"
      proof (cases "?err = SSL_ERROR_WANT_WRITE")
        case w: True
        obtain y ssl1 where y: "ssl_socks st2 s = Some y" by (rule tls_inv_live [OF st2(1,3)])
        then show ?thesis
          using set_flag [OF st2(1,3), of "\<lambda>x. x\<lparr>ssl_read_wants_write := True\<rparr>"] w that by (auto simp: wants_read_def)
      next
        case w: False
        then show ?thesis using that st2 tls_evolves_refl [of W A st2] by auto
      qed
      have eq: "ssl_read_loop SSL h app s out st =
         (if ssl_read_input_length (lsd st3) \<noteq> 0 then map_option (\<lambda>r. (True, r)) (us_internal_ssl_socket_close h app s 0 st3)
          else if out = [] then Some (False, s, st3) else emit_data app s out st3)"
        using True err st3(1) by (auto simp: step c Let_def)
      show ?thesis
      proof (cases "ssl_read_input_length (lsd st3) = 0")
        case False
        then show ?thesis using closing [OF _ st3(2-4)] eq by simp
      next
        case empty: True
        show ?thesis
        proof (cases "out = []")
          case True
          then show ?thesis
            using eq empty st3 st2(4) tls_evolves_trans [OF st2(2) st3(3)] by auto
        next
          case False
          obtain A' st' where "emit_data app s out st3 = Some (s \<in> set (a_closed A'), s, st')" "tls_inv A' st'" "tls_evolves W A st3 A' st'"
            "s \<notin> set (a_closed A') \<longrightarrow> tls_live s st'"
            using emit_data_ok [OF st3(2,4), of out] by blast
          then show ?thesis
            using eq empty False tls_evolves_trans [OF tls_evolves_trans [OF st2(2) st3(3)]] by auto
        qed
      qed
    qed
  next
    case False
    then have pos: "r > 0" by simp
    note r = r [rule_format, OF pos]
    have known: "ssl_socket (lsd st2) \<in> linked A" using tls_evolvesD(4) [OF st2(2) less.prems(3)] .
    show ?thesis
    proof (cases "length (out @ bytes) = LIBUS_RECV_BUFFER_LENGTH")
      case full: True
      obtain A1 st3 where st3: "emit_data app s (out @ bytes) st2 = Some (s \<in> set (a_closed A1), s, st3)" "tls_inv A1 st3"
        "tls_evolves W A st2 A1 st3" "s \<notin> set (a_closed A1) \<longrightarrow> tls_live s st3"
        by (rule emit_data_ok [OF st2(1,3), of "out @ bytes"])
      have eq: "ssl_read_loop SSL h app s out st = (if s \<in> set (a_closed A1) then Some (True, s, st3) else ssl_read_loop SSL h app s [] st3)"
        using False full st3(1) by (simp add: step c Let_def)
      show ?thesis
      proof (cases "s \<in> set (a_closed A1)")
        case True
        then show ?thesis
          using eq st3(2) tls_evolves_trans [OF st2(2) st3(3)] by (intro exI [of _ True]) auto
      next
        case open': False
        have w: "tls_weight W s st3 < tls_weight W s st" using tls_evolvesD(6) [OF st3(3), of s] r by simp
        have k: "ssl_socket (lsd st3) \<in> linked A1" using tls_evolvesD(4) [OF st3(3) known] .
        have N: "length [] < LIBUS_RECV_BUFFER_LENGTH" by (simp add: LIBUS_RECV_BUFFER_LENGTH_def)
        obtain ret A' st' where IH: "ssl_read_loop SSL h app s [] st3 = Some (ret, s, st')" "tls_inv A' st'" "tls_evolves W A1 st3 A' st'"
          "if ret then s \<in> set (a_closed A') else tls_live s st'"
          using less.hyps [OF w st3(2) mp [OF st3(4) open'] k N] by blast
        have "tls_weight W s st' < tls_weight W s st" using tls_evolvesD(6) [OF IH(3), of s] w by simp
        then show ?thesis
          using eq open' IH tls_evolves_trans [OF tls_evolves_trans [OF st2(2) st3(3)] IH(3)] by auto
      qed
    next
      case part: False
      then have N: "length (out @ bytes) < LIBUS_RECV_BUFFER_LENGTH" using r less.prems(4) by auto
      have w: "tls_weight W s st2 < tls_weight W s st" using r by simp
      have eq: "ssl_read_loop SSL h app s out st = ssl_read_loop SSL h app s (out @ bytes) st2"
        using False part by (simp add: step c Let_def)
      obtain ret A' st' where IH: "ssl_read_loop SSL h app s (out @ bytes) st2 = Some (ret, s, st')" "tls_inv A' st'" "tls_evolves W A st2 A' st'"
        "if ret then s \<in> set (a_closed A') else tls_live s st'"
        using less.hyps [OF w st2(1,3) known N] by blast
      have "tls_weight W s st' < tls_weight W s st" using tls_evolvesD(6) [OF IH(3), of s] w by simp
      then show ?thesis
        using eq IH tls_evolves_trans [OF st2(2) IH(3)] by auto
    qed
  qed
qed

lemma close_if_received_ok:
  assumes inv: "tls_inv A st" and live: "tls_live s st"
  shows "\<exists>A' st'. close_if_received SSL h app s st = Some (s, st') \<and> tls_inv A' st' \<and> tls_evolves W A st A' st'"
proof -
  obtain ssl where g: "get_ssl s st = Some ssl" using live by (auto simp: tls_live_def)
  obtain A' st' where "us_internal_ssl_socket_close h app s 0 st = Some (s, st')" "tls_inv A' st'" "tls_evolves W A st A' st'"
    by (rule close_ok [OF inv live])
  then show ?thesis using inv tls_evolves_refl by (auto simp: close_if_received_def g)
qed

lemma answer_shutdown_ok:
  assumes inv: "tls_inv A st" and live: "tls_live s st" and known: "ssl_socket (lsd st) \<in> linked A"
  shows "\<exists>A' st'. answer_shutdown SSL h app s st = Some (s, st') \<and> tls_inv A' st' \<and> tls_evolves W A st A' st'"
proof -
  obtain y ssl where y: "ssl_socks st s = Some y" "ss_ssl y = Some ssl" by (rule tls_inv_live [OF inv live])
  have g: "get_ssl s st = Some ssl" using y by (simp add: get_ssl_def)
  obtain r ssl' u l where c: "run_bio h (SSL_shutdown SSL ssl) st = Some ((r, ssl'), st\<lparr>plain := u, lsd := l\<rparr>)"
    "poll_log (plain st) u" "bio_fits l" "bio_runs (SSL_shutdown SSL ssl) (unread (lsd st)) (r, ssl') (unread l)"
    "ssl_socket l = ssl_socket (lsd st)"
    using run_bio_ok [OF tls_invD(1) [OF inv] known tls_invD(2) [OF inv], of h "SSL_shutdown SSL ssl"] by auto
  let ?st = "st\<lparr>plain := u, lsd := l, ssl_socks := (ssl_socks st)(s \<mapsto> y\<lparr>ss_ssl := Some ssl'\<rparr>)\<rparr>"
  have st: "tls_inv A ?st" "tls_evolves W A st A ?st"
    using ssl_call_step [OF inv c(2,3) y, of "y\<lparr>ss_ssl := Some ssl'\<rparr>" ssl' W] ssl_boundedD(4) [OF bounded c(4)]
      bio_runs_shrinks [OF c(4)] c(5) by simp_all
  have "tls_live s ?st" by (simp add: tls_live_def get_ssl_def)
  then obtain A' st' where cl: "us_internal_ssl_socket_close h app s 0 ?st = Some (s, st')" "tls_inv A' st'" "tls_evolves W A ?st A' st'"
    by (rule close_ok [OF st(1)])
  have u: "upd_ssl s (\<lambda>x. x\<lparr>ss_ssl := Some ssl'\<rparr>) (st\<lparr>plain := u, lsd := l\<rparr>) = Some ?st"
    using y(1) by (simp add: upd_ssl_def)
  show ?thesis
    using st cl tls_evolves_trans [OF st(2) cl(3)] by (auto simp: answer_shutdown_def g c(1) u)
qed

text \<open>The two handlers, by the weight of the connection and the pending wishes.\<close>

definition handle_measure :: "ptr \<Rightarrow> ssl_event \<Rightarrow> 'ssl tls \<Rightarrow> nat" where
  "handle_measure s ev st =
     4 * ((case get_ssl s st of None \<Rightarrow> 0 | Some ssl \<Rightarrow> W ssl) + (case ev of Ev_data d \<Rightarrow> length d | Ev_writable \<Rightarrow> 0))
       + (if wants_read s st then 2 else 0) + (case ev of Ev_data d \<Rightarrow> 1 | Ev_writable \<Rightarrow> 2)"

lemma with_input_ok:
  assumes inv: "tls_inv A st" and live: "tls_live s st"
  shows "tls_inv A (with_input s d st)" "tls_live s (with_input s d st)" "ssl_socket (lsd (with_input s d st)) \<in> linked A"
    "wants_read s (with_input s d st) = wants_read s st"
    "tls_weight W s (with_input s d st) = (case get_ssl s st of None \<Rightarrow> 0 | Some ssl \<Rightarrow> W ssl) + length d"
proof -
  have "s \<in> linked A" by (rule tls_inv_live [OF inv live])
  then show "tls_inv A (with_input s d st)" "tls_live s (with_input s d st)" "ssl_socket (lsd (with_input s d st)) \<in> linked A"
    "wants_read s (with_input s d st) = wants_read s st"
    "tls_weight W s (with_input s d st) = (case get_ssl s st of None \<Rightarrow> 0 | Some ssl \<Rightarrow> W ssl) + length d"
    using inv live
    by (simp_all add: with_input_def tls_inv_def bio_fits_def conts_ok_def live_ok_def tls_live_def wants_read_def tls_weight_def unread_def)
qed

text \<open>What a handler may do: as an evolution, but for the weights, which new data increase.\<close>

definition moves :: "abs \<Rightarrow> 'ssl tls \<Rightarrow> abs \<Rightarrow> 'ssl tls \<Rightarrow> bool" where
  "moves A st A' st' \<longleftrightarrow> (\<forall>s. tls_live s st \<longrightarrow> tls_live s st' \<or> s \<in> set (a_closed A'))
     \<and> set (a_closed A) \<subseteq> set (a_closed A') \<and> linked A \<subseteq> linked A' \<and> dom (ssl_conts st') = dom (ssl_conts st)"

lemma moves_evolves: "tls_evolves W A st A' st' \<Longrightarrow> moves A st A' st'"
  by (simp add: tls_evolves_def moves_def)

lemma moves_trans: "moves A st A1 st1 \<Longrightarrow> moves A1 st1 A2 st2 \<Longrightarrow> moves A st A2 st2"
  unfolding moves_def by (intro conjI allI impI) (blast, blast, blast, simp)

lemma moves_refl: "moves A st A st" by (simp add: moves_def)

lemma moves_input: "moves A st A (with_input s d st)"
  by (simp add: moves_def with_input_def tls_live_def)

lemma moves_live:
  assumes "tls_inv A' st'" "moves A st A' st'" "tls_inv A st" "tls_live s st"
  shows "us_socket_is_closed s (plain st') = Some (s \<in> set (a_closed A'))" "s \<notin> set (a_closed A') \<Longrightarrow> tls_live s st'"
proof -
  have "s \<in> linked A" by (rule tls_inv_live [OF assms(3,4)])
  then show "us_socket_is_closed s (plain st') = Some (s \<in> set (a_closed A'))"
    using us_socket_is_closed_eq [OF tls_invD(1) [OF assms(1)]] assms(2) by (auto simp: moves_def)
  show "s \<notin> set (a_closed A') \<Longrightarrow> tls_live s st'" using assms(2,4) by (auto simp: moves_def)
qed

lemma handle_data_loop:
  assumes inv: "tls_inv A st" and live: "tls_live s st"
  shows "\<exists>down ret A1 st1. us_internal_ssl_socket_is_shut_down SSL s (with_input s d st) = Some down
    \<and> ssl_read_loop SSL h app s [] (with_input s d st) = Some (ret, s, st1) \<and> tls_inv A1 st1 \<and> moves A st A1 st1
    \<and> (if ret then s \<in> set (a_closed A1) else tls_live s st1)
    \<and> (\<not> ret \<longrightarrow> tls_weight W s st1 < (case get_ssl s st of None \<Rightarrow> 0 | Some ssl \<Rightarrow> W ssl) + length d
         \<or> tls_weight W s st1 \<le> (case get_ssl s st of None \<Rightarrow> 0 | Some ssl \<Rightarrow> W ssl) + length d \<and> wants_read s st1 = wants_read s st)"
proof -
  note i = with_input_ok [OF inv live, of d]
  obtain down where down: "us_internal_ssl_socket_is_shut_down SSL s (with_input s d st) = Some down"
    using is_shut_down_live [OF i(1,2)] by blast
  have N: "length [] < LIBUS_RECV_BUFFER_LENGTH" by (simp add: LIBUS_RECV_BUFFER_LENGTH_def)
  obtain ret A1 st1 where l: "ssl_read_loop SSL h app s [] (with_input s d st) = Some (ret, s, st1)" "tls_inv A1 st1"
    "tls_evolves W A (with_input s d st) A1 st1" "if ret then s \<in> set (a_closed A1) else tls_live s st1"
    "\<not> ret \<longrightarrow> tls_weight W s st1 < tls_weight W s (with_input s d st) \<or> wants_read s st1 = wants_read s (with_input s d st)"
    using read_loop_ok [OF i(1-3) N] by blast
  have "tls_weight W s st1 \<le> tls_weight W s (with_input s d st)" by (rule tls_evolvesD(6) [OF l(3)])
  moreover have "moves A st A1 st1" using moves_trans [OF moves_input moves_evolves [OF l(3)]] .
  ultimately show ?thesis using down l i(4,5) by auto
qed

theorem handle_ok:
  assumes "tls_inv A st" "tls_live s st"
  shows "\<exists>A' st'. ssl_handle SSL h app s ev st = Some (s, st') \<and> tls_inv A' st' \<and> moves A st A' st'"
  using assms
proof (induction "handle_measure s ev st" arbitrary: A st ev rule: less_induct)
  case less
  note inv = less.prems(1) and live = less.prems(2)
  note step = ssl_handle.simps [of SSL h app s _ st]
  show ?case
  proof (cases ev)
    case (Ev_data d)
    obtain down ret A1 st1 where i: "us_internal_ssl_socket_is_shut_down SSL s (with_input s d st) = Some down"
      "ssl_read_loop SSL h app s [] (with_input s d st) = Some (ret, s, st1)" "tls_inv A1 st1" "moves A st A1 st1"
      "if ret then s \<in> set (a_closed A1) else tls_live s st1"
      "\<not> ret \<longrightarrow> tls_weight W s st1 < (case get_ssl s st of None \<Rightarrow> 0 | Some ssl \<Rightarrow> W ssl) + length d
         \<or> tls_weight W s st1 \<le> (case get_ssl s st of None \<Rightarrow> 0 | Some ssl \<Rightarrow> W ssl) + length d \<and> wants_read s st1 = wants_read s st"
      using handle_data_loop [OF inv live, of d] by blast
    show ?thesis
    proof (cases down)
      case True
      note w = with_input_ok [OF inv live, of d]
      obtain A' st' where "answer_shutdown SSL h app s (with_input s d st) = Some (s, st')" "tls_inv A' st'"
        "tls_evolves W A (with_input s d st) A' st'"
        using answer_shutdown_ok [OF w(1-3)] by blast
      then show ?thesis
        using moves_trans [OF moves_input moves_evolves] by (simp add: step Ev_data i(1) True Let_def) blast
    next
      case running: False
      show ?thesis
      proof (cases ret)
        case True
        then show ?thesis using i by (simp add: step Ev_data running Let_def) blast
      next
        case False
        then have live1: "tls_live s st1" using i(5) by simp
        obtain x sx ctx y ssl where y: "socks (plain st1) s = Some x" "ctxs (plain st1) (s_context x) = Some ctx" "ssl_handlers ctx"
          "ssl_socks st1 s = Some y" "ss_ssl y = Some ssl"
          by (rule tls_inv_live [OF i(3) live1])
        show ?thesis
        proof (cases "ssl_write_wants_read y")
          case no: False
          obtain A' st' where "close_if_received SSL h app s st1 = Some (s, st')" "tls_inv A' st'" "tls_evolves W A1 st1 A' st'"
            using close_if_received_ok [OF i(3) live1] by blast
          then show ?thesis
            using moves_trans [OF i(4) moves_evolves] i(1,2) y(4) no running False
            by (simp add: step Ev_data Let_def) blast
        next
          case wish: True
          obtain st2 where st2: "upd_ssl s (\<lambda>x. x\<lparr>ssl_write_wants_read := False\<rparr>) st1 = Some st2" "tls_inv A1 st2" "tls_evolves W A1 st1 A1 st2"
            "tls_live s st2" "plain st2 = plain st1" "ssl_socks st2 s = Some (y\<lparr>ssl_write_wants_read := False\<rparr>)"
            "tls_weight W s st2 = tls_weight W s st1"
            using set_flag [OF i(3) live1, of "\<lambda>x. x\<lparr>ssl_write_wants_read := False\<rparr>"] y(4) by auto
          define st3 where "st3 = st2\<lparr>plain := emit (Callback Fn_ssl_on_writable (On_writable s)) (plain st2)\<rparr>"
          have st3: "tls_inv A1 st3" "tls_evolves W A1 st2 A1 st3" "tls_live s st3" "\<not> wants_read s st3"
            "(case get_ssl s st3 of None \<Rightarrow> 0 | Some ssl \<Rightarrow> W ssl) \<le> tls_weight W s st1"
            using plain_emit [OF st2(2)] st2(4,6,7)
            by (simp_all add: st3_def tls_live_def wants_read_def tls_weight_def)
          have "handle_measure s Ev_writable st3 < handle_measure s ev st"
          proof (cases "wants_read s st")
            case True
            then show ?thesis using st3(4,5) i(6) False Ev_data by (auto simp: handle_measure_def)
          next
            case nw: False
            have "wants_read s st1" using y(4) wish by (simp add: wants_read_def)
            then show ?thesis using st3(4,5) i(6) False nw Ev_data by (auto simp: handle_measure_def)
          qed
          then obtain A4 st4 where st4: "ssl_handle SSL h app s Ev_writable st3 = Some (s, st4)" "tls_inv A4 st4" "moves A1 st3 A4 st4"
            using less.hyps [OF _ st3(1,3)] by blast
          have m: "moves A st A4 st4"
            by (rule moves_trans [OF moves_trans [OF moves_trans [OF i(4) moves_evolves [OF st2(3)]] moves_evolves [OF st3(2)]] st4(3)])
          note lc = moves_live [OF st4(2,3) st3(1,3)]
          have sc: "sc_of s st2 = Some ctx" "c_on_writable ctx = Fn_ssl_on_writable"
            using y(1-3) st2(5) by (simp_all add: sc_of_def sock_ctx_def ssl_handlers_def)
          have eq: "ssl_handle SSL h app s ev st = (if s \<in> set (a_closed A4) then Some (s, st4) else close_if_received SSL h app s st4)"
            using i(1,2) running False y(4) wish st2(1) st4(1) lc(1)
            by (simp add: step Ev_data Let_def sc flip: st3_def)
          show ?thesis
          proof (cases "s \<in> set (a_closed A4)")
            case True
            then show ?thesis using eq st4(2) m by auto
          next
            case open': False
            obtain A' st' where "close_if_received SSL h app s st4 = Some (s, st')" "tls_inv A' st'" "tls_evolves W A4 st4 A' st'"
              using close_if_received_ok [OF st4(2) lc(2) [OF open']] by blast
            then show ?thesis using eq open' moves_trans [OF m moves_evolves] by auto
          qed
        qed
      qed
    qed
  next
    case Ev_writable
    obtain x sx ctx y ssl where y: "socks (plain st) s = Some x" "ssl_conts st (s_context x) = Some sx"
      "ctxs (plain st) (s_context x) = Some ctx" "ssl_handlers ctx" "ssl_socks st s = Some y" "ss_ssl y = Some ssl"
      by (rule tls_inv_live [OF inv live])
    obtain A1 st1 where st1: "(if ssl_read_wants_write y
         then do {
           st \<leftarrow> upd_ssl s (\<lambda>x. x\<lparr>ssl_read_wants_write := False\<rparr>) st;
           sc \<leftarrow> sc_of s st;
           let st = st\<lparr>plain := emit (Callback (c_on_data sc) (On_data s [])) (plain st)\<rparr>;
           if c_on_data sc = Fn_ssl_on_data then ssl_handle SSL h app s (Ev_data []) st
           else if c_on_data sc = Fn_null then None else app (c_on_data sc) (On_data s []) st }
         else Some (s, st)) = Some (s, st1)" "tls_inv A1 st1" "moves A st A1 st1"
    proof (cases "ssl_read_wants_write y")
      case False
      then show ?thesis using that inv moves_refl by simp
    next
      case True
      obtain st2 where st2: "upd_ssl s (\<lambda>x. x\<lparr>ssl_read_wants_write := False\<rparr>) st = Some st2" "tls_inv A st2" "tls_evolves W A st A st2"
        "tls_live s st2" "plain st2 = plain st" "ssl_socks st2 s = Some (y\<lparr>ssl_read_wants_write := False\<rparr>)"
        using set_flag [OF inv live, of "\<lambda>x. x\<lparr>ssl_read_wants_write := False\<rparr>"] y(5) by auto
      define st3 where "st3 = st2\<lparr>plain := emit (Callback Fn_ssl_on_data (On_data s [])) (plain st2)\<rparr>"
      have st3: "tls_inv A st3" "tls_evolves W A st2 A st3" "tls_live s st3"
        using plain_emit [OF st2(2)] st2(4) by (simp_all add: st3_def tls_live_def)
      have "handle_measure s (Ev_data []) st3 < handle_measure s ev st"
        using st2(6) y(5,6) Ev_writable by (simp add: handle_measure_def st3_def wants_read_def get_ssl_def)
      then obtain A4 st4 where st4: "ssl_handle SSL h app s (Ev_data []) st3 = Some (s, st4)" "tls_inv A4 st4" "moves A st3 A4 st4"
        using less.hyps [OF _ st3(1,3)] by blast
      have sc: "sc_of s st2 = Some ctx" "c_on_data ctx = Fn_ssl_on_data"
        using y(1,3,4) st2(5) by (simp_all add: sc_of_def sock_ctx_def ssl_handlers_def)
      show ?thesis
        using that [of st4 A4] True st2(1) st4 sc moves_trans [OF moves_trans [OF moves_evolves [OF st2(3)] moves_evolves [OF st3(2)]] st4(3)]
        by (simp add: Let_def flip: st3_def)
    qed
    have "s_context x \<in> dom (ssl_conts st1)" using st1(3) y(2) by (auto simp: moves_def)
    then obtain sx1 where sx1: "ssl_conts st1 (s_context x) = Some sx1" by blast
    then have "sx_on_writable sx1 \<noteq> Fn_null" using tls_invD(3) [OF st1(2)] by (auto simp: conts_ok_def app_handlers_def)
    then obtain A' st' where "call_app app (sx_on_writable sx1) (On_writable s) st1 = Some (s, st')" "tls_inv A' st'" "tls_evolves W A1 st1 A' st'"
      using call_ok [OF st1(2), of "sx_on_writable sx1" "On_writable s"] by auto
    moreover have "ssl_handle SSL h app s ev st = call_app app (sx_on_writable sx1) (On_writable s) st1"
      using y(1,5) st1(1) sx1 by (simp add: step Ev_writable us_socket_context_def)
    ultimately show ?thesis using moves_trans [OF st1(3) moves_evolves] by auto
  qed
qed

text \<open>The other handlers: a connection gets its \<open>SSL\<close> when it opens, and loses it when the peer has finished.\<close>

theorem on_open_ok:
  assumes inv: "tls_inv A st" and x: "socks (plain st) s = Some x" "\<not> is_closed x" "s_context x \<in> dom (ssl_conts st)"
  shows "\<exists>A' st'. ssl_on_open SSL app s is_client ip st = Some (s, st') \<and> tls_inv A' st' \<and> (tls_live s st' \<or> s \<in> set (a_closed A'))"
proof -
  obtain sx where sx: "ssl_conts st (s_context x) = Some sx" using x(3) by blast
  define ssl where "ssl = (let ssl = SSL_new SSL (sx_ssl_context sx) in if is_client then SSL_set_connect_state SSL ssl else SSL_set_accept_state SSL ssl)"
  let ?st = "st\<lparr>ssl_socks := (ssl_socks st)(s \<mapsto> \<lparr>ss_ssl = Some ssl, ssl_write_wants_read = False, ssl_read_wants_write = False\<rparr>)\<rparr>"
  have g: "get_ssl t ?st = (if t = s then Some ssl else get_ssl t st)" for t by (simp add: get_ssl_def)
  have "s \<in> open_in A" by (rule open_of_alloc [OF tls_invD(1) [OF inv] x(1,2)])
  then have inv1: "tls_inv A ?st"
    using inv x g by (auto simp: tls_inv_def conts_ok_def live_ok_def tls_live_def)
  have live1: "tls_live s ?st" using g by (simp add: tls_live_def)
  have "sx_on_open sx \<noteq> Fn_null" using tls_invD(3) [OF inv] sx by (auto simp: conts_ok_def app_handlers_def)
  then obtain A' st' where st': "call_app app (sx_on_open sx) (On_open s is_client ip) ?st = Some (s, st')" "tls_inv A' st'"
    "tls_evolves W A ?st A' st'"
    using call_ok [OF inv1, of "sx_on_open sx" "On_open s is_client ip"] by auto
  have "ssl_on_open SSL app s is_client ip st = call_app app (sx_on_open sx) (On_open s is_client ip) ?st"
    using x(1) sx by (simp add: ssl_on_open_def us_socket_context_def ssl_def Let_def)
  then show ?thesis using st' tls_evolvesD(1) [OF st'(3) live1] by auto
qed

theorem on_end_ok:
  assumes "tls_inv A st" "tls_live s st"
  shows "\<exists>A' st'. ssl_on_end h app s st = Some (s, st') \<and> tls_inv A' st' \<and> s \<in> set (a_closed A') \<and> \<not> tls_live s st'"
proof -
  obtain A' st' where c: "us_internal_ssl_socket_close h app s 0 st = Some (s, st')" "tls_inv A' st'"
    "tls_evolves W A st A' st'" "s \<in> set (a_closed A')"
    by (rule close_ok [OF assms])
  have "\<not> tls_live s st'"
    using tls_invD(4) [OF c(2)] open_not_closed [OF tls_invD(5) [OF c(2)]] c(4) by (auto simp: live_ok_def)
  then show ?thesis using c by (auto simp: ssl_on_end_def)
qed

end

section \<open>A connection without encryption\<close>

text \<open>
  An OpenSSL that sends and receives as it is told; the connection is whether \<open>close_notify\<close> was sent. It has
  the measure 0, since what it returns it has just read.
\<close>

definition null_ssl :: "bool openssl" where
  "null_ssl = \<lparr>SSL_new = (\<lambda>_. False), SSL_set_connect_state = id, SSL_set_accept_state = id,
     SSL_read = (\<lambda>sent n. Bio_read n (\<lambda>r. case r of None \<Rightarrow> Bio_ret (-2, [], sent) | Some bs \<Rightarrow> Bio_ret (int (length bs), bs, sent))),
     SSL_write = (\<lambda>sent d. Bio_write d (\<lambda>r. Bio_ret (r, sent))),
     SSL_shutdown = (\<lambda>sent. Bio_ret (0, True)),
     SSL_get_error = (\<lambda>_ r. if r = -2 then SSL_ERROR_WANT_READ else SSL_ERROR_WANT_WRITE),
     SSL_sent = id, SSL_received = (\<lambda>_. False), SSL_in_init = (\<lambda>_. False)\<rparr>"

lemma null_read:
  assumes "bio_runs (SSL_read null_ssl sent n) i (r, out, sent') j" "0 < n"
  shows "sent' = sent \<and> i = out @ j \<and> (if r > 0 then length out = nat r \<and> nat r \<le> n else r = -2 \<and> i = [])"
  using assms by (auto simp: null_ssl_def elim!: bio_runs_readE split: option.splits if_splits)

lemma null_bounded: "ssl_bounded null_ssl (\<lambda>_. 0)"
  unfolding ssl_bounded_def
proof (intro conjI allI impI)
  fix sent sent' n i r out j assume a: "0 < n" "bio_runs (SSL_read null_ssl sent n) i (r, out, sent') j"
  show "if r > 0 then length out = nat r \<and> nat r \<le> n \<and> 0 + length j < 0 + length i else 0 + length j \<le> 0 + length i"
    using null_read [OF a(2,1)] by (auto split: if_splits)
qed (auto dest: bio_runs_shrinks)

definition tls_quiet :: "'ssl app" where
  "tls_quiet f cb st = Some (cb_socket cb, st)"

definition tls_echo :: "bool app" where
  "tls_echo f cb st = (case cb of
       On_data s d \<Rightarrow> (case us_internal_ssl_socket_write null_ssl quiet_host s d False st of None \<Rightarrow> Some (s, st) | Some (_, st) \<Rightarrow> Some (s, st))
     | _ \<Rightarrow> Some (cb_socket cb, st))"

interpretation tls_quiet: tls_application null_ssl quiet_host tls_quiet "\<lambda>_. 0"
  by standard (use null_bounded in \<open>auto simp: tls_quiet_def\<close>)

interpretation tls_echo: tls_application null_ssl quiet_host tls_echo "\<lambda>_. 0"
proof
  show "\<exists>st'. tls_echo f cb st = Some (cb_socket cb, st') \<and> (tls_step null_ssl quiet_host)\<^sup>*\<^sup>* st st'" for f cb st
    by (cases cb) (auto simp: tls_echo_def split: option.splits dest: Tls_write)
qed (rule null_bounded)

end
