(* ===== verification/SslData.thy ===== *)
theory SslData
  imports SslApp
begin

text \<open>
  What a TLS socket does with data. Received: the application gets what OpenSSL decrypts, all of it and in
  order, in pieces of the size of the buffer. Sent: a message that says nothing follows is not held back.
  Then the places where the order of calls matters and the code gets it wrong.
\<close>

declare neq0_conv [iff del]

section \<open>The history of a call\<close>

fun is_callback :: "event \<Rightarrow> bool" where
  "is_callback (Callback f cb) = True"
| "is_callback _ = False"

fun is_send :: "event \<Rightarrow> bool" where
  "is_send (Send fd d m) = True"
| "is_send _ = False"

text \<open>Whether the kernel may hold back data: the last thing sent was marked as incomplete, and not flushed.\<close>

fun corked :: "event list \<Rightarrow> bool" where
  "corked [] = False"
| "corked (Send fd d m # es) = m"
| "corked (Setsockopt fd (TCP_CORK n) # es) = (if n = 0 then False else corked es)"
| "corked (e # es) = corked es"

text \<open>
  A write to an open socket appends one \<open>Send\<close>, and perhaps a change of the poll; it keeps the socket open
  for writing. A write to any other socket does nothing.
\<close>

definition sendable :: "ptr \<Rightarrow> us \<Rightarrow> bool" where
  "sendable s u \<longleftrightarrow> us_socket_is_closed s u = Some False \<and> us_socket_is_shut_down s u = Some False"

lemma us_poll_change_effect:
  assumes "us_poll_change h p e u = Some u'"
  shows "socks u' = socks u \<and> ctxs u' = ctxs u \<and> (\<forall>q. us_socket_is_shut_down q u' = us_socket_is_shut_down q u)
    \<and> (\<exists>es. log u' = es @ log u \<and> filter is_callback es = [] \<and> (\<forall>x \<in> set es. \<exists>op fd e p. x = Epoll_ctl op fd e p))"
proof (cases "u' = u")
  case True
  then show ?thesis by (intro conjI allI exI [of _ "[]"]) simp_all
next
  case False
  then obtain q fd where q: "polls u p = Some q"
    "u' = emit (Epoll_ctl EPOLL_CTL_MOD fd e p) (u\<lparr>polls := (polls u)(p \<mapsto> with_events e q)\<rparr>)"
    using assms by (auto simp: us_poll_change_def upd_poll_def sys_int_def Let_def elim!: bind_SomeE split: if_splits)
  have "us_socket_is_shut_down t u' = us_socket_is_shut_down t u" for t
    using q(1) by (simp add: q(2) emit_def us_socket_is_shut_down_def us_internal_poll_type_def)
  moreover have "log u' = [Epoll_ctl EPOLL_CTL_MOD fd e p] @ log u" "socks u' = socks u" "ctxs u' = ctxs u"
    by (simp_all add: q(2) emit_def)
  ultimately show ?thesis by (intro conjI allI exI [of _ "[Epoll_ctl EPOLL_CTL_MOD fd e p]"]) simp_all
qed

lemma corked_epoll: "(\<forall>x \<in> set es. \<exists>op fd e p. x = Epoll_ctl op fd e p) \<Longrightarrow> corked (es @ l) = corked l \<and> filter is_send es = []"
proof (induction es)
  case (Cons e es)
  then obtain op fd ev p where "e = Epoll_ctl op fd ev p" by (metis list.set_intros(1))
  then show ?case using Cons by simp
qed simp

lemma us_socket_write_effect:
  assumes "us_socket_write h s d m u = Some (n, u')"
  shows "\<exists>es. log u' = es @ log u \<and> filter is_callback es = [] \<and> socks u' = socks u \<and> (\<forall>q. us_socket_is_shut_down q u' = us_socket_is_shut_down q u)
    \<and> (sendable s u \<longrightarrow> filter is_send es \<noteq> [] \<and> (\<forall>l. corked (es @ l) = m))"
proof -
  obtain closed down where c: "us_socket_is_closed s u = Some closed" "us_socket_is_shut_down s u = Some down"
    using assms by (auto simp: us_socket_write_def elim!: bind_SomeE)
  show ?thesis
  proof (cases "closed \<or> down")
    case True
    then show ?thesis using assms c by (auto simp: us_socket_write_def sendable_def)
  next
    case False
    then obtain fd where fd: "us_poll_fd s u = Some fd"
      using assms c by (auto simp: us_socket_write_def elim!: bind_SomeE)
    define u1 where "u1 = emit (Send fd d m) u"
    have u1: "bsd_send h fd d m u = (k_int h (log u1), u1)" by (simp add: bsd_send_def sys_int_def u1_def Let_def)
    have e1: "log u1 = [Send fd d m] @ log u" "socks u1 = socks u" "us_socket_is_shut_down q u1 = us_socket_is_shut_down q u" for q
      by (simp_all add: u1_def emit_def us_socket_is_shut_down_def us_internal_poll_type_def)
    show ?thesis
    proof (cases "k_int h (log u1) = int (length d)")
      case True
      then have "u' = u1"
        using assms unfolding us_socket_write_def c fd u1 Let_def Option.bind.simps prod.case using False by simp
      then show ?thesis using e1 by (intro exI [of _ "[Send fd d m]"]) simp
    next
      case part: False
      then obtain u2 where u2: "us_poll_change h s (LIBUS_SOCKET_READABLE OR LIBUS_SOCKET_WRITABLE) (u1\<lparr>last_write_failed := True\<rparr>) = Some u2" "u' = u2"
        using assms unfolding us_socket_write_def c fd u1 Let_def Option.bind.simps prod.case using False
        by (auto elim!: bind_SomeE)
      obtain es where es: "log u2 = es @ log u1" "filter is_callback es = []" "\<forall>x \<in> set es. \<exists>op fd e p. x = Epoll_ctl op fd e p"
        "socks u2 = socks u1" "\<forall>q. us_socket_is_shut_down q u2 = us_socket_is_shut_down q (u1\<lparr>last_write_failed := True\<rparr>)"
        using us_poll_change_effect [OF u2(1)] by auto
      have "us_socket_is_shut_down q (u1\<lparr>last_write_failed := True\<rparr>) = us_socket_is_shut_down q u1" for q
        by (simp add: us_socket_is_shut_down_def us_internal_poll_type_def)
      then show ?thesis
        using es e1 u2(2) corked_epoll [OF es(3)] by (intro exI [of _ "es @ [Send fd d m]"]) simp
    qed
  qed
qed

lemma sendable_same:
  "socks u' = socks u \<Longrightarrow> \<forall>q. us_socket_is_shut_down q u' = us_socket_is_shut_down q u \<Longrightarrow> sendable s u' = sendable s u"
  by (simp add: sendable_def us_socket_is_closed_def)

text \<open>
  A call of OpenSSL runs no handler, and \<open>last_write_was_msg_more\<close> says of its last write whether it was marked.
\<close>

lemma run_bio_effect:
  assumes "run_bio h p st = Some (a, st')"
  shows "\<exists>es. log (plain st') = es @ log (plain st) \<and> filter is_callback es = [] \<and> socks (plain st') = socks (plain st)
    \<and> (\<forall>q. us_socket_is_shut_down q (plain st') = us_socket_is_shut_down q (plain st))
    \<and> ssl_socket (lsd st') = ssl_socket (lsd st) \<and> ssl_socks st' = ssl_socks st \<and> ssl_conts st' = ssl_conts st
    \<and> (sendable (ssl_socket (lsd st)) (plain st) \<longrightarrow>
         (if filter is_send es = [] then (\<forall>l. corked (es @ l) = corked l) \<and> last_write_was_msg_more (lsd st') = last_write_was_msg_more (lsd st)
          else \<forall>l. corked (es @ l) = last_write_was_msg_more (lsd st')))"
  using assms
proof (induction p arbitrary: st)
  case (Bio_ret b)
  then show ?case by (intro exI [of _ "[]"]) auto
next
  case (Bio_read n k)
  then obtain r st1 where r: "BIO_s_custom_read n st = Some (r, st1)" "run_bio h (k r) st1 = Some (a, st')"
    by (auto split: option.splits)
  have f: "plain st1 = plain st" "ssl_socket (lsd st1) = ssl_socket (lsd st)" "ssl_socks st1 = ssl_socks st" "ssl_conts st1 = ssl_conts st"
    "last_write_was_msg_more (lsd st1) = last_write_was_msg_more (lsd st)"
    using r(1) by (auto simp: BIO_s_custom_read_def Let_def split: if_splits)
  show ?case using Bio_read.IH [OF rangeI r(2)] unfolding f .
next
  case (Bio_write d k)
  then obtain r st1 where r: "BIO_s_custom_write h d st = Some (r, st1)" "run_bio h (k r) st1 = Some (a, st')"
    by (auto split: option.splits)
  define m where "m = (msg_more (lsd st) \<or> length d = 16413)"
  obtain n u where w: "us_socket_write h (ssl_socket (lsd st)) d m (plain st) = Some (n, u)"
    "st1 = st\<lparr>plain := u, lsd := (lsd st)\<lparr>last_write_was_msg_more := m\<rparr>\<rparr>"
    using r(1) unfolding BIO_s_custom_write_def Let_def m_def [symmetric] by (auto elim!: bind_SomeE)
  obtain es1 where es1: "log u = es1 @ log (plain st)" "filter is_callback es1 = []" "socks u = socks (plain st)"
    "\<forall>q. us_socket_is_shut_down q u = us_socket_is_shut_down q (plain st)"
    "sendable (ssl_socket (lsd st)) (plain st) \<longrightarrow> filter is_send es1 \<noteq> [] \<and> (\<forall>l. corked (es1 @ l) = m)"
    using us_socket_write_effect [OF w(1)] by blast
  note s = sendable_same [OF es1(3,4), of "ssl_socket (lsd st)"]
  obtain es2 where es2: "log (plain st') = es2 @ log u" "filter is_callback es2 = []" "socks (plain st') = socks u"
    "\<forall>q. us_socket_is_shut_down q (plain st') = us_socket_is_shut_down q u"
    "ssl_socket (lsd st') = ssl_socket (lsd st)" "ssl_socks st' = ssl_socks st" "ssl_conts st' = ssl_conts st"
    "sendable (ssl_socket (lsd st)) (plain st) \<longrightarrow>
         (if filter is_send es2 = [] then (\<forall>l. corked (es2 @ l) = corked l) \<and> last_write_was_msg_more (lsd st') = m
          else \<forall>l. corked (es2 @ l) = last_write_was_msg_more (lsd st'))"
    using Bio_write.IH [OF rangeI r(2)] w(2) s by auto
  have "log (plain st') = (es2 @ es1) @ log (plain st)" "filter is_callback (es2 @ es1) = []" "socks (plain st') = socks (plain st)"
    "\<forall>q. us_socket_is_shut_down q (plain st') = us_socket_is_shut_down q (plain st)"
    using es1 es2 by simp_all
  moreover have "if filter is_send (es2 @ es1) = [] then (\<forall>l. corked ((es2 @ es1) @ l) = corked l) \<and> last_write_was_msg_more (lsd st') = last_write_was_msg_more (lsd st)
      else \<forall>l. corked ((es2 @ es1) @ l) = last_write_was_msg_more (lsd st')" if "sendable (ssl_socket (lsd st)) (plain st)"
    using es1(5) es2(8) that by (auto split: if_splits)
  ultimately show ?case using es2(5-7) by blast
qed

section \<open>Sending\<close>

lemma us_socket_flush_effect:
  assumes "us_socket_flush h s u = Some u'" "us_socket_is_shut_down s u = Some False"
  shows "\<exists>fd. log u' = Setsockopt fd (TCP_CORK 0) # log u"
  using assms by (auto simp: us_socket_flush_def bsd_socket_flush_def sys_int_def emit_def Let_def split: Option.bind_splits)

theorem write_uncorked:
  assumes inv: "tls_inv A st" and w: "us_internal_ssl_socket_write SSL h s d False st = Some (n, st')"
  shows "\<exists>es. log (plain st') = es @ log (plain st) \<and> \<not> corked es"
proof (cases "st' = st")
  case True
  then show ?thesis by (intro exI [of _ "[]"]) simp
next
  case False
  note def = us_internal_ssl_socket_write_def [of SSL h s d False st]
  obtain closed where c: "us_socket_is_closed s (plain st) = Some closed" using w by (auto simp: def elim!: bind_SomeE)
  have nc: "\<not> closed" using w False c by (auto simp: def)
  obtain down where dn: "us_internal_ssl_socket_is_shut_down SSL s st = Some down" using w c nc by (auto simp: def elim!: bind_SomeE)
  have nd: "\<not> down" using w False c nc dn by (auto simp: def)
  have sh: "us_socket_is_shut_down s (plain st) = Some False"
    using dn nd by (auto simp: us_internal_ssl_socket_is_shut_down_def split: Option.bind_splits if_splits)
  let ?l = "(lsd st)\<lparr>ssl_read_input_length := 0, ssl_socket := s, msg_more := False, last_write_was_msg_more := False\<rparr>"
  obtain ssl where g: "get_ssl s st = Some ssl" using w c nc dn nd by (auto simp: def elim!: bind_SomeE)
  obtain wr ssl' st1 where r: "run_bio h (SSL_write SSL ssl d) (st\<lparr>lsd := ?l\<rparr>) = Some ((wr, ssl'), st1)"
    using w c nc dn nd g by (auto simp: def elim!: bind_SomeE)
  obtain y where y: "ssl_socks st s = Some y" using g by (auto simp: get_ssl_def split: Option.bind_splits)
  obtain es where es: "log (plain st1) = es @ log (plain st)" "ssl_socks st1 = ssl_socks st"
    "\<forall>q. us_socket_is_shut_down q (plain st1) = us_socket_is_shut_down q (plain st)"
    "if filter is_send es = [] then (\<forall>l. corked (es @ l) = corked l) \<and> \<not> last_write_was_msg_more (lsd st1)
     else \<forall>l. corked (es @ l) = last_write_was_msg_more (lsd st1)"
    using run_bio_effect [OF r] c nc sh by (auto simp: sendable_def)
  have corked: "corked es = last_write_was_msg_more (lsd st1)"
  proof (cases "filter is_send es = []")
    case True
    then show ?thesis using es(4) spec [of "\<lambda>l. corked (es @ l) = corked l" "[]"] by simp
  next
    case False
    then show ?thesis using es(4) spec [of "\<lambda>l. corked (es @ l) = last_write_was_msg_more (lsd st1)" "[]"] by simp
  qed
  define st2 where "st2 = st1\<lparr>ssl_socks := (ssl_socks st)(s \<mapsto> y\<lparr>ss_ssl := Some ssl'\<rparr>), lsd := (lsd st1)\<lparr>msg_more := False\<rparr>\<rparr>"
  have "\<exists>st3. (if last_write_was_msg_more (lsd st1) then in_plain (us_socket_flush h s) st2 else Some st2) = Some st3 \<and> plain st' = plain st3"
    using w c nc dn nd g r y es(2)
    by (auto simp: def upd_ssl_def st2_def [symmetric] Let_def elim!: bind_SomeE split: if_splits)
  then obtain st3 where st3: "(if last_write_was_msg_more (lsd st1) then in_plain (us_socket_flush h s) st2 else Some st2) = Some st3"
    "plain st' = plain st3" by blast
  show ?thesis
  proof (cases "last_write_was_msg_more (lsd st1)")
    case True
    then obtain u where u: "us_socket_flush h s (plain st1) = Some u" "plain st3 = u"
      using st3(1) by (auto simp: in_plain_def st2_def)
    obtain fd where "log u = Setsockopt fd (TCP_CORK 0) # log (plain st1)"
      using us_socket_flush_effect [OF u(1)] es(3) sh by auto
    then show ?thesis
      using st3(2) u(2) es(1) by (intro exI [of _ "Setsockopt fd (TCP_CORK 0) # es"]) simp
  next
    case False
    then show ?thesis using st3 es(1) corked by (intro exI [of _ es]) (auto simp: st2_def)
  qed
qed

section \<open>Receiving\<close>

function chunks :: "nat \<Rightarrow> 'a list \<Rightarrow> 'a list list" where
  "chunks n xs = (if xs = [] \<or> n = 0 then [] else take n xs # chunks n (drop n xs))"
  by auto
termination by (relation "measure (\<lambda>(n, xs). length xs)") auto

declare chunks.simps [simp del]

lemma chunks_Nil [simp]: "chunks n [] = []"
  by (simp add: chunks.simps)

lemma chunks_single: "xs \<noteq> [] \<Longrightarrow> length xs \<le> n \<Longrightarrow> chunks n xs = [xs]"
  by (subst chunks.simps) auto

lemma chunks_full: "length xs = n \<Longrightarrow> n \<noteq> 0 \<Longrightarrow> chunks n (xs @ ys) = xs # chunks n ys"
  by (subst chunks.simps) auto

lemma concat_chunks: "n \<noteq> 0 \<Longrightarrow> concat (chunks n xs) = xs"
  by (induction n xs rule: chunks.induct) (subst chunks.simps, auto)

lemma length_chunks: "m \<in> set (chunks n xs) \<Longrightarrow> length m \<le> n"
proof (induction n xs rule: chunks.induct)
  case (1 n xs)
  then show ?case by (subst (asm) (2) chunks.simps) (auto split: if_splits)
qed

text \<open>
  The contract of OpenSSL on an established connection without errors: \<open>P ssl i\<close> is the data that a
  connection will return for the input \<open>i\<close>. A read returns the next of it, or wants more input when there is
  none; then it has taken all of its input.
\<close>

definition tls_stream :: "'ssl openssl \<Rightarrow> ('ssl \<Rightarrow> byte list \<Rightarrow> byte list) \<Rightarrow> bool" where
  "tls_stream SSL P \<longleftrightarrow> (\<forall>ssl n i r out ssl' j. 0 < n \<longrightarrow> bio_runs (SSL_read SSL ssl n) i (r, out, ssl') j \<longrightarrow>
     \<not> SSL_received SSL ssl' \<and>
     (if r > 0 then length out = nat r \<and> nat r \<le> n \<and> P ssl i = out @ P ssl' j
      else P ssl i = [] \<and> P ssl' j = [] \<and> j = [] \<and> SSL_get_error SSL ssl' r = SSL_ERROR_WANT_READ))"

lemma emit_data_quiet:
  assumes "us_socket_context s (plain st) = Some c" "ssl_conts st c = Some x" "sx_on_data x \<noteq> Fn_null"
    and "us_socket_is_closed s (plain st) = Some False"
  shows "emit_data tls_quiet s d st = Some (False, s, st\<lparr>plain := emit (Callback (sx_on_data x) (On_data s d)) (plain st)\<rparr>)"
  using assms by (auto simp: emit_data_def call_app_def tls_quiet_def us_socket_is_closed_def emit_def Let_def)

text \<open>What the read loop keeps for the socket it is about.\<close>

definition loop_inv :: "abs \<Rightarrow> ptr \<Rightarrow> ptr \<Rightarrow> us_internal_ssl_socket_context_t \<Rightarrow> bool \<Rightarrow> 'ssl tls \<Rightarrow> bool" where
  "loop_inv A s c x b st \<longleftrightarrow> tls_inv A st \<and> tls_live s st \<and> ssl_socket (lsd st) = s \<and> us_socket_context s (plain st) = Some c
     \<and> ssl_conts st c = Some x \<and> wants_read s st = b"

lemma loop_call:
  assumes i: "loop_inv A s c x b st" and g: "get_ssl s st = Some ssl" and stream: "tls_stream SSL P" and n: "0 < n"
  shows "\<exists>r bytes ssl' st1 st2 es. run_bio h (SSL_read SSL ssl n) st = Some ((r, bytes, ssl'), st1)
    \<and> upd_ssl s (\<lambda>x. x\<lparr>ss_ssl := Some ssl'\<rparr>) st1 = Some st2 \<and> loop_inv A s c x b st2 \<and> get_ssl s st2 = Some ssl'
    \<and> log (plain st2) = es @ log (plain st) \<and> filter is_callback es = []
    \<and> \<not> SSL_received SSL ssl'
    \<and> (if r > 0 then length bytes = nat r \<and> nat r \<le> n \<and> P ssl (unread (lsd st)) = bytes @ P ssl' (unread (lsd st2))
       else P ssl (unread (lsd st)) = [] \<and> P ssl' (unread (lsd st2)) = [] \<and> unread (lsd st2) = []
         \<and> SSL_get_error SSL ssl' r = SSL_ERROR_WANT_READ)"
proof -
  have inv: "tls_inv A st" "tls_live s st" and k: "ssl_socket (lsd st) = s" using i by (simp_all add: loop_inv_def)
  obtain y ssl0 where y: "ssl_socks st s = Some y" "ss_ssl y = Some ssl0" and sl: "s \<in> linked A" by (rule tls_inv_live [OF inv])
  have [simp]: "ssl0 = ssl" using g y by (simp add: get_ssl_def)
  obtain r bytes ssl' u l where c: "run_bio h (SSL_read SSL ssl n) st = Some ((r, bytes, ssl'), st\<lparr>plain := u, lsd := l\<rparr>)"
    "poll_log (plain st) u" "bio_fits l" "bio_runs (SSL_read SSL ssl n) (unread (lsd st)) (r, bytes, ssl') (unread l)"
    "ssl_socket l = s"
    using run_bio_ok [OF tls_invD(1) [OF inv(1)] _ tls_invD(2) [OF inv(1)], of h "SSL_read SSL ssl n"] k sl by auto
  obtain es where es: "log u = es @ log (plain st)" "filter is_callback es = []" "socks u = socks (plain st)"
    using run_bio_effect [OF c(1)] by auto
  let ?y = "y\<lparr>ss_ssl := Some ssl'\<rparr>"
  let ?st2 = "st\<lparr>plain := u, lsd := l, ssl_socks := (ssl_socks st)(s \<mapsto> ?y)\<rparr>"
  have "tls_inv A ?st2"
    using ssl_call_step(1) [OF inv(1) c(2,3) y, of ?y ssl' "\<lambda>_. 0"] bio_runs_shrinks [OF c(4)] c(5) k by simp
  moreover have g2: "get_ssl s ?st2 = Some ssl'" by (simp add: get_ssl_def)
  moreover have "wants_read s ?st2 = wants_read s st" using y by (simp add: wants_read_def)
  ultimately have i2: "loop_inv A s c x b ?st2"
    using i c(5) es(3) by (simp add: loop_inv_def tls_live_def us_socket_context_def)
  have u: "upd_ssl s (\<lambda>x. x\<lparr>ss_ssl := Some ssl'\<rparr>) (st\<lparr>plain := u, lsd := l\<rparr>) = Some ?st2"
    using y by (simp add: upd_ssl_def)
  note str = stream [unfolded tls_stream_def, rule_format, OF n c(4)]
  have "log (plain ?st2) = es @ log (plain st)" using es(1) by simp
  moreover have "\<not> SSL_received SSL ssl'
    \<and> (if r > 0 then length bytes = nat r \<and> nat r \<le> n \<and> P ssl (unread (lsd st)) = bytes @ P ssl' (unread (lsd ?st2))
       else P ssl (unread (lsd st)) = [] \<and> P ssl' (unread (lsd ?st2)) = [] \<and> unread (lsd ?st2) = []
         \<and> SSL_get_error SSL ssl' r = SSL_ERROR_WANT_READ)"
    using str by (auto split: if_splits)
  ultimately show ?thesis using c(1) u i2 g2 es(2) by blast
qed

lemma emit_loop_inv: "loop_inv A s c x b st \<Longrightarrow> loop_inv A s c x b (st\<lparr>plain := emit e (plain st)\<rparr>)"
  using plain_emit(1) [of A st e]
  by (simp add: loop_inv_def tls_live_def us_socket_context_def emit_def wants_read_def)

lemma read_loop_delivers:
  assumes "loop_inv A s c x b st" "get_ssl s st = Some ssl" "length out < LIBUS_RECV_BUFFER_LENGTH" "tls_stream SSL P"
  shows "\<exists>st' es ssl'. ssl_read_loop SSL h tls_quiet s out st = Some (False, s, st') \<and> loop_inv A s c x b st'
    \<and> log (plain st') = es @ log (plain st)
    \<and> filter is_callback es = rev (map (\<lambda>d. Callback (sx_on_data x) (On_data s d)) (chunks LIBUS_RECV_BUFFER_LENGTH (out @ P ssl (unread (lsd st)))))
    \<and> unread (lsd st') = [] \<and> get_ssl s st' = Some ssl' \<and> P ssl' [] = [] \<and> \<not> SSL_received SSL ssl'"
  using assms
proof (induction "length (P ssl (unread (lsd st)))" arbitrary: st ssl out rule: less_induct)
  case less
  let ?n = "LIBUS_RECV_BUFFER_LENGTH - length out"
  have n: "0 < ?n" using less.prems(3) by simp
  obtain r bytes ssl' st1 st2 es where c: "run_bio h (SSL_read SSL ssl ?n) st = Some ((r, bytes, ssl'), st1)"
    "upd_ssl s (\<lambda>x. x\<lparr>ss_ssl := Some ssl'\<rparr>) st1 = Some st2" "loop_inv A s c x b st2" "get_ssl s st2 = Some ssl'"
    "log (plain st2) = es @ log (plain st)" "filter is_callback es = []" "\<not> SSL_received SSL ssl'"
    "if r > 0 then length bytes = nat r \<and> nat r \<le> ?n \<and> P ssl (unread (lsd st)) = bytes @ P ssl' (unread (lsd st2))
       else P ssl (unread (lsd st)) = [] \<and> P ssl' (unread (lsd st2)) = [] \<and> unread (lsd st2) = []
         \<and> SSL_get_error SSL ssl' r = SSL_ERROR_WANT_READ"
    using loop_call [OF less.prems(1,2,4) n, of h] by blast
  note step = ssl_read_loop.simps [of SSL h tls_quiet s out st]
  have i2: "tls_inv A st2" "tls_live s st2" "us_socket_context s (plain st2) = Some c" "ssl_conts st2 c = Some x"
    using c(3) by (simp_all add: loop_inv_def)
  have f: "sx_on_data x \<noteq> Fn_null" using tls_invD(3) [OF i2(1)] i2(4) by (auto simp: conts_ok_def app_handlers_def)
  note emits = emit_data_quiet [OF i2(3,4) f live_is_closed [OF i2(1,2)]]
  show ?case
  proof (cases "r > 0")
    case False
    then have e: "P ssl (unread (lsd st)) = []" "P ssl' [] = []" "unread (lsd st2) = []" "SSL_get_error SSL ssl' r = SSL_ERROR_WANT_READ"
      using c(8) by auto
    have "ssl_read_input_length (lsd st2) = 0"
      using length_unread [OF tls_invD(2) [OF i2(1)]] e(3) by simp
    then have eq: "ssl_read_loop SSL h tls_quiet s out st = (if out = [] then Some (False, s, st2) else emit_data tls_quiet s out st2)"
      using False less.prems(2) by (simp add: step c(1,2) e(4) Let_def)
    show ?thesis
    proof (cases "out = []")
      case True
      then show ?thesis using eq c(3-7) e by auto
    next
      case out: False
      let ?e = "Callback (sx_on_data x) (On_data s out)"
      have "chunks LIBUS_RECV_BUFFER_LENGTH (out @ P ssl (unread (lsd st))) = [out]"
        using out less.prems(3) e(1) by (simp add: chunks_single)
      then show ?thesis
        using eq out emits c(4-7) e emit_loop_inv [OF c(3), of ?e]
        by (intro exI [of _ "st2\<lparr>plain := emit ?e (plain st2)\<rparr>"] exI [of _ "?e # es"] exI [of _ ssl']) (simp add: emit_def)
    qed
  next
    case True
    then have p: "length bytes = nat r" "nat r \<le> ?n" "P ssl (unread (lsd st)) = bytes @ P ssl' (unread (lsd st2))" "bytes \<noteq> []"
      using c(8) by auto
    have w: "length (P ssl' (unread (lsd st2))) < length (P ssl (unread (lsd st)))" using p(3,4) by simp
    show ?thesis
    proof (cases "length (out @ bytes) = LIBUS_RECV_BUFFER_LENGTH")
      case full: True
      let ?e = "Callback (sx_on_data x) (On_data s (out @ bytes))"
      let ?st3 = "st2\<lparr>plain := emit ?e (plain st2)\<rparr>"
      have eq: "ssl_read_loop SSL h tls_quiet s out st = ssl_read_loop SSL h tls_quiet s [] ?st3"
        using True full less.prems(2) emits by (simp add: step c(1,2) Let_def)
      have g3: "get_ssl s ?st3 = Some ssl'" "unread (lsd ?st3) = unread (lsd st2)" using c(4) by simp_all
      have N: "length [] < LIBUS_RECV_BUFFER_LENGTH" by (simp add: LIBUS_RECV_BUFFER_LENGTH_def)
      obtain st' es' ssl'' where IH: "ssl_read_loop SSL h tls_quiet s [] ?st3 = Some (False, s, st')" "loop_inv A s c x b st'"
        "log (plain st') = es' @ log (plain ?st3)"
        "filter is_callback es' = rev (map (\<lambda>d. Callback (sx_on_data x) (On_data s d)) (chunks LIBUS_RECV_BUFFER_LENGTH ([] @ P ssl' (unread (lsd ?st3)))))"
        "unread (lsd st') = []" "get_ssl s st' = Some ssl''" "P ssl'' [] = []" "\<not> SSL_received SSL ssl''"
        using less.hyps [OF _ emit_loop_inv [OF c(3)] g3(1) N less.prems(4)] w by auto
      have "chunks LIBUS_RECV_BUFFER_LENGTH (out @ P ssl (unread (lsd st))) = (out @ bytes) # chunks LIBUS_RECV_BUFFER_LENGTH (P ssl' (unread (lsd st2)))"
        using chunks_full [OF full, of "P ssl' (unread (lsd st2))"] p(3) by (simp add: LIBUS_RECV_BUFFER_LENGTH_def)
      then show ?thesis
        using eq IH c(5,6) by (intro exI [of _ st'] exI [of _ "es' @ ?e # es"] exI [of _ ssl'']) (simp add: emit_def)
    next
      case part: False
      then have N: "length (out @ bytes) < LIBUS_RECV_BUFFER_LENGTH" using p(1,2) less.prems(3) by simp
      have eq: "ssl_read_loop SSL h tls_quiet s out st = ssl_read_loop SSL h tls_quiet s (out @ bytes) st2"
        using True part less.prems(2) by (simp add: step c(1,2) Let_def)
      obtain st' es' ssl'' where IH: "ssl_read_loop SSL h tls_quiet s (out @ bytes) st2 = Some (False, s, st')" "loop_inv A s c x b st'"
        "log (plain st') = es' @ log (plain st2)"
        "filter is_callback es' = rev (map (\<lambda>d. Callback (sx_on_data x) (On_data s d)) (chunks LIBUS_RECV_BUFFER_LENGTH ((out @ bytes) @ P ssl' (unread (lsd st2)))))"
        "unread (lsd st') = []" "get_ssl s st' = Some ssl''" "P ssl'' [] = []" "\<not> SSL_received SSL ssl''"
        using less.hyps [OF w c(3,4) N less.prems(4)] by blast
      show ?thesis
        using eq IH c(5,6) p(3) by (intro exI [of _ st'] exI [of _ "es' @ es"] exI [of _ ssl'']) simp
    qed
  qed
qed

lemma with_input_loop:
  assumes "tls_inv A st" "get_ssl s st = Some ssl" "us_socket_context s (plain st) = Some c" "ssl_conts st c = Some x"
  shows "loop_inv A s c x (wants_read s st) (with_input s d st)" "get_ssl s (with_input s d st) = Some ssl"
    "unread (lsd (with_input s d st)) = d" "log (plain (with_input s d st)) = log (plain st)"
    "us_internal_ssl_socket_is_shut_down SSL s (with_input s d st) = us_internal_ssl_socket_is_shut_down SSL s st"
proof -
  have live: "tls_live s st" using assms(2) by (simp add: tls_live_def)
  have "s \<in> linked A" by (rule tls_inv_live [OF assms(1) live])
  then have "tls_inv A (with_input s d st)"
    using assms(1) by (simp add: with_input_def tls_inv_def bio_fits_def conts_ok_def live_ok_def tls_live_def)
  then show "loop_inv A s c x (wants_read s st) (with_input s d st)"
    using assms live by (simp add: loop_inv_def with_input_def tls_live_def wants_read_def)
  show "us_internal_ssl_socket_is_shut_down SSL s (with_input s d st) = us_internal_ssl_socket_is_shut_down SSL s st"
    by (simp add: us_internal_ssl_socket_is_shut_down_def with_input_def get_ssl_def cong: if_cong)
qed (use assms in \<open>simp_all add: with_input_def get_ssl_def unread_def\<close>)

theorem data_delivered:
  assumes stream: "tls_stream SSL P" and inv: "tls_inv A st" and ssl: "get_ssl s st = Some ssl"
    and up: "us_internal_ssl_socket_is_shut_down SSL s st = Some False" and w: "\<not> wants_read s st"
    and c: "us_socket_context s (plain st) = Some c" "ssl_conts st c = Some x"
  shows "\<exists>st' es. ssl_on_data SSL h tls_quiet s d st = Some (s, st') \<and> tls_inv A st' \<and> log (plain st') = es @ log (plain st)
    \<and> filter is_callback es = rev (map (\<lambda>m. Callback (sx_on_data x) (On_data s m)) (chunks LIBUS_RECV_BUFFER_LENGTH (P ssl d)))
    \<and> unread (lsd st') = []"
proof -
  note i = with_input_loop [OF inv ssl c]
  have N: "length [] < LIBUS_RECV_BUFFER_LENGTH" by (simp add: LIBUS_RECV_BUFFER_LENGTH_def)
  obtain st' es ssl' where r: "ssl_read_loop SSL h tls_quiet s [] (with_input s d st) = Some (False, s, st')"
    "loop_inv A s c x (wants_read s st) st'" "log (plain st') = es @ log (plain st)"
    "filter is_callback es = rev (map (\<lambda>m. Callback (sx_on_data x) (On_data s m)) (chunks LIBUS_RECV_BUFFER_LENGTH (P ssl d)))"
    "unread (lsd st') = []" "get_ssl s st' = Some ssl'" "\<not> SSL_received SSL ssl'"
    using read_loop_delivers [OF i(1,2) N stream, of h d] unfolding i(3,4) append_Nil by blast
  obtain y where y: "ssl_socks st' s = Some y" using r(6) by (auto simp: get_ssl_def elim!: bind_SomeE)
  have "\<not> ssl_write_wants_read y" "tls_inv A st'" using r(2) w y by (simp_all add: loop_inv_def wants_read_def)
  moreover have "ssl_on_data SSL h tls_quiet s d st = Some (s, st')"
    using up i(5) r(1) y calculation(1) r(6,7)
    by (simp add: ssl_on_data_def ssl_handle.simps [of SSL h tls_quiet s "Ev_data d" st] close_if_received_def Let_def)
  ultimately show ?thesis using r(3-5) by blast
qed

text \<open>A connection without encryption is such a stream.\<close>

lemma null_stream: "tls_stream null_ssl (\<lambda>_ i. i)"
  unfolding tls_stream_def
proof (intro allI impI)
  fix sent n i r out sent' j assume "0 < n" "bio_runs (SSL_read null_ssl sent n) i (r, out, sent') j"
  from null_read [OF this(2,1)]
  show "\<not> SSL_received null_ssl sent' \<and> (if 0 < r then length out = nat r \<and> nat r \<le> n \<and> i = out @ j
      else i = [] \<and> j = [] \<and> j = [] \<and> SSL_get_error null_ssl sent' r = SSL_ERROR_WANT_READ)"
    by (auto simp: null_ssl_def)
qed

section \<open>Where it goes wrong\<close>

text \<open>
  A write from the handler for data throws away what was received and not yet decrypted: the buffer of the
  loop is shared by all its sockets.
\<close>

lemma run_bio_empty:
  assumes "run_bio h p st = Some (a, st')" "ssl_read_input_length (lsd st) = 0"
  shows "ssl_read_input_length (lsd st') = 0"
  using assms
proof (induction p arbitrary: st)
  case (Bio_write d k)
  then obtain r st1 where r: "BIO_s_custom_write h d st = Some (r, st1)" "run_bio h (k r) st1 = Some (a, st')"
    by (auto split: option.splits)
  have "ssl_read_input_length (lsd st1) = 0"
    using r(1) Bio_write.prems(2) unfolding BIO_s_custom_write_def Let_def by (auto elim!: bind_SomeE)
  then show ?case by (rule Bio_write.IH [OF rangeI r(2)])
qed (auto simp: BIO_s_custom_read_def)

lemma write_discards_input:
  assumes "us_internal_ssl_socket_write SSL h s d m st = Some (n, st')"
    and "us_socket_is_closed s (plain st) = Some False" "us_internal_ssl_socket_is_shut_down SSL s st = Some False"
  shows "unread (lsd st') = []"
proof -
  note def = us_internal_ssl_socket_write_def [of SSL h s d m st]
  let ?l = "(lsd st)\<lparr>ssl_read_input_length := 0, ssl_socket := s, msg_more := m, last_write_was_msg_more := False\<rparr>"
  obtain ssl wr ssl' st1 where r: "get_ssl s st = Some ssl" "run_bio h (SSL_write SSL ssl d) (st\<lparr>lsd := ?l\<rparr>) = Some ((wr, ssl'), st1)"
    using assms by (auto simp: def elim!: bind_SomeE)
  have "ssl_read_input_length (lsd st1) = 0" using run_bio_empty [OF r(2)] by simp
  moreover have "ssl_read_input_length (lsd st') = ssl_read_input_length (lsd st1)"
    using assms r by (auto simp: def upd_ssl_def in_plain_def Let_def elim!: bind_SomeE split: if_splits)
  ultimately show ?thesis by (simp add: unread_def)
qed

end
