(* ===== verification/SslOptions.thy ===== *)
theory SslOptions
  imports UsTypes
begin

text \<open>
  Making an OpenSSL context from options (\<open>create_ssl_context_from_options\<close> and \<open>free_ssl_context\<close> of
  \<open>src/uSockets2/src/crypto/openssl.c\<close>): which calls are made, what happens when one fails, and who owns
  the context, the copy of the passphrase, the parameter file and the Diffie-Hellman parameters. The
  results of OpenSSL and of the file system are those of a \<open>ssl_lib\<close>, of the calls so far.
\<close>

declare neq0_conv [iff del]

section \<open>Calls and resources\<close>

record us_socket_context_options_t =
  key_file_name :: "string option"
  cert_file_name :: "string option"
  passphrase :: "string option"
  dh_params_file_name :: "string option"
  ca_file_name :: "string option"
  ssl_ciphers :: "string option"
  ssl_prefer_low_memory_usage :: int

datatype ssl_call =
    SSL_CTX_new
  | SSL_CTX_set_read_ahead ptr int
  | SSL_CTX_set_mode_moving_write_buffer ptr
  | SSL_CTX_set_min_proto_version_1_2 ptr
  | SSL_CTX_set_mode_release_buffers ptr
  | SSL_CTX_set_default_passwd ptr string
  | SSL_CTX_use_certificate_chain_file ptr string
  | SSL_CTX_use_PrivateKey_file ptr string
  | SSL_load_client_CA_file string
  | SSL_CTX_set_client_CA_list ptr
  | SSL_CTX_load_verify_locations ptr string
  | SSL_CTX_set_verify_peer ptr
  | Fopen string
  | PEM_read_DHparams
  | Fclose
  | SSL_CTX_set_tmp_dh ptr
  | DH_free
  | SSL_CTX_set_cipher_list ptr string

type_synonym ssl_lib = "ssl_call list \<Rightarrow> ssl_call \<Rightarrow> int"

text \<open>
  The calls so far, latest first, the next free address, and what is allocated: contexts with the user
  data of their passphrase callback (0 when there is none), passphrases, open files, parameters.
\<close>

record ssl_heap =
  sh_calls :: "ssl_call list"
  sh_next :: ptr
  sh_ctx :: "ptr \<rightharpoonup> ptr"
  sh_mem :: "ptr set"
  sh_files :: "ptr set"
  sh_dh :: "ptr set"

definition ask :: "ssl_lib \<Rightarrow> ssl_call \<Rightarrow> ssl_heap \<Rightarrow> int \<times> ssl_heap" where
  "ask K c st = (K (sh_calls st) c, st\<lparr>sh_calls := c # sh_calls st\<rparr>)"

definition tell :: "ssl_lib \<Rightarrow> ssl_call \<Rightarrow> ssl_heap \<Rightarrow> ssl_heap" where
  "tell K c st = snd (ask K c st)"

definition checked :: "ssl_lib \<Rightarrow> ssl_call \<Rightarrow> ssl_heap \<Rightarrow> bool \<times> ssl_heap" where
  "checked K c st = (case ask K c st of (r, st) \<Rightarrow> (r = 1, st))"

definition fresh :: "ssl_heap \<Rightarrow> ptr \<times> ssl_heap" where
  "fresh st = (sh_next st, st\<lparr>sh_next := Suc (sh_next st)\<rparr>)"

section \<open>The code\<close>

text \<open>Freeing what is not allocated is \<open>None\<close>; a null context is ignored, and so is a null passphrase.\<close>

definition ctx_free_ssl_context :: "ptr \<Rightarrow> ssl_heap \<Rightarrow> ssl_heap option" where
  "ctx_free_ssl_context p st =
     (if p = 0 then Some st
      else do {
        password \<leftarrow> sh_ctx st p;
        if password = 0 \<or> password \<in> sh_mem st
        then Some (st\<lparr>sh_mem := sh_mem st - {password}, sh_ctx := (sh_ctx st)(p := None)\<rparr>)
        else None })"

text \<open>
  OpenSSL asks for the passphrase with a buffer of its own. It is copied whatever the size of the buffer;
  a copy behind its end is \<open>None\<close>.
\<close>

definition passphrase_cb :: "byte list \<Rightarrow> byte list \<Rightarrow> (int \<times> byte list) option" where
  "passphrase_cb buf phrase =
     (if length phrase \<le> length buf then Some (int (length phrase), phrase @ drop (length phrase) buf) else None)"

definition BIO_s_custom_create :: int where
  "BIO_s_custom_create = 1"

datatype bio_ctrl = BIO_CTRL_FLUSH | BIO_CTRL_other

definition BIO_s_custom_ctrl :: "bio_ctrl \<Rightarrow> int" where
  "BIO_s_custom_ctrl cmd = (case cmd of BIO_CTRL_FLUSH \<Rightarrow> 1 | _ \<Rightarrow> 0)"

text \<open>The steps that can fail, each with whether the next one follows.\<close>

definition use_cert_file :: "ssl_lib \<Rightarrow> us_socket_context_options_t \<Rightarrow> ptr \<Rightarrow> ssl_heap \<Rightarrow> bool \<times> ssl_heap" where
  "use_cert_file K opts p st =
     (case cert_file_name opts of None \<Rightarrow> (True, st) | Some f \<Rightarrow> checked K (SSL_CTX_use_certificate_chain_file p f) st)"

definition use_key_file :: "ssl_lib \<Rightarrow> us_socket_context_options_t \<Rightarrow> ptr \<Rightarrow> ssl_heap \<Rightarrow> bool \<times> ssl_heap" where
  "use_key_file K opts p st =
     (case key_file_name opts of None \<Rightarrow> (True, st) | Some f \<Rightarrow> checked K (SSL_CTX_use_PrivateKey_file p f) st)"

definition use_ca_file :: "ssl_lib \<Rightarrow> us_socket_context_options_t \<Rightarrow> ptr \<Rightarrow> ssl_heap \<Rightarrow> bool \<times> ssl_heap" where
  "use_ca_file K opts p st =
     (case ca_file_name opts of
        None \<Rightarrow> (True, st)
      | Some f \<Rightarrow>
          (let (ca_list, st) = ask K (SSL_load_client_CA_file f) st in
           if ca_list = 0 then (False, st)
           else let st = tell K (SSL_CTX_set_client_CA_list p) st;
                    (ok, st) = checked K (SSL_CTX_load_verify_locations p f) st in
                if \<not> ok then (False, st) else (True, tell K (SSL_CTX_set_verify_peer p) st)))"

definition dh_cipher_list :: string where
  "dh_cipher_list = ''DHE-RSA-AES256-GCM-SHA384:DHE-RSA-AES128-GCM-SHA256:ECDHE-RSA-AES256-GCM-SHA384:ECDHE-RSA-AES128-GCM-SHA256''"

definition use_dh_params_file :: "ssl_lib \<Rightarrow> us_socket_context_options_t \<Rightarrow> ptr \<Rightarrow> ssl_heap \<Rightarrow> bool \<times> ssl_heap" where
  "use_dh_params_file K opts p st =
     (case dh_params_file_name opts of
        None \<Rightarrow> (True, st)
      | Some f \<Rightarrow>
          (let (opened, st) = ask K (Fopen f) st in
           if opened = 0 then (False, st)
           else let (paramfile, st) = fresh st;
                    st = st\<lparr>sh_files := insert paramfile (sh_files st)\<rparr>;
                    (parsed, st) = ask K PEM_read_DHparams st;
                    (dh, st) = (if parsed = 0 then (0, st)
                                else let (d, st) = fresh st in (d, st\<lparr>sh_dh := insert d (sh_dh st)\<rparr>));
                    st = tell K Fclose (st\<lparr>sh_files := sh_files st - {paramfile}\<rparr>) in
                if dh = 0 then (False, st)
                else let (set_tmp_dh, st) = ask K (SSL_CTX_set_tmp_dh p) st;
                         st = tell K DH_free (st\<lparr>sh_dh := sh_dh st - {dh}\<rparr>) in
                     if set_tmp_dh \<noteq> 1 then (False, st)
                     else checked K (SSL_CTX_set_cipher_list p dh_cipher_list) st))"

definition use_ssl_ciphers :: "ssl_lib \<Rightarrow> us_socket_context_options_t \<Rightarrow> ptr \<Rightarrow> ssl_heap \<Rightarrow> bool \<times> ssl_heap" where
  "use_ssl_ciphers K opts p st =
     (case ssl_ciphers opts of None \<Rightarrow> (True, st) | Some cs \<Rightarrow> checked K (SSL_CTX_set_cipher_list p cs) st)"

fun all_of :: "(ssl_heap \<Rightarrow> bool \<times> ssl_heap) list \<Rightarrow> ssl_heap \<Rightarrow> bool \<times> ssl_heap" where
  "all_of [] st = (True, st)"
| "all_of (f # fs) st = (case f st of (ok, st) \<Rightarrow> if ok then all_of fs st else (False, st))"

text \<open>The steps that cannot fail. The copy of the passphrase is the user data of the callback.\<close>

definition set_defaults :: "ssl_lib \<Rightarrow> us_socket_context_options_t \<Rightarrow> ptr \<Rightarrow> ssl_heap \<Rightarrow> ssl_heap" where
  "set_defaults K opts p st =
     (let st = tell K (SSL_CTX_set_read_ahead p 1) st;
          st = tell K (SSL_CTX_set_mode_moving_write_buffer p) st;
          st = tell K (SSL_CTX_set_min_proto_version_1_2 p) st in
      if ssl_prefer_low_memory_usage opts \<noteq> 0 then tell K (SSL_CTX_set_mode_release_buffers p) st else st)"

definition set_passphrase :: "ssl_lib \<Rightarrow> us_socket_context_options_t \<Rightarrow> ptr \<Rightarrow> ssl_heap \<Rightarrow> ssl_heap" where
  "set_passphrase K opts p st =
     (case passphrase opts of
        None \<Rightarrow> st
      | Some s \<Rightarrow>
          (let (password, st) = fresh st;
               st = st\<lparr>sh_mem := insert password (sh_mem st), sh_ctx := (sh_ctx st)(p \<mapsto> password)\<rparr> in
           tell K (SSL_CTX_set_default_passwd p s) st))"

text \<open>
  The new context, or null after it was freed because a step failed. The result of \<open>SSL_CTX_new\<close> is not
  compared with null; using it is \<open>None\<close> then.
\<close>

definition create_ssl_context_from_options ::
    "ssl_lib \<Rightarrow> us_socket_context_options_t \<Rightarrow> ssl_heap \<Rightarrow> (ptr \<times> ssl_heap) option" where
  "create_ssl_context_from_options K opts st =
     (let (made, st) = ask K SSL_CTX_new st in
      if made = 0 then None
      else let (p, st) = fresh st;
               st = st\<lparr>sh_ctx := (sh_ctx st)(p \<mapsto> 0)\<rparr>;
               st = set_passphrase K opts p (set_defaults K opts p st) in
           case all_of [use_cert_file K opts p, use_key_file K opts p, use_ca_file K opts p,
                        use_dh_params_file K opts p, use_ssl_ciphers K opts p] st of
             (ok, st) \<Rightarrow> if ok then Some (p, st) else map_option (Pair 0) (ctx_free_ssl_context p st))"

section \<open>What the options ask for\<close>

text \<open>
  The calls that configure a context, in order, as a list made from the options. Which results the code
  takes for success: 1 for a configuration, not null for a file, its parameters and a list of names.
\<close>

definition wanted_defaults :: "us_socket_context_options_t \<Rightarrow> ptr \<Rightarrow> ssl_call list" where
  "wanted_defaults opts p =
     [SSL_CTX_set_read_ahead p 1, SSL_CTX_set_mode_moving_write_buffer p, SSL_CTX_set_min_proto_version_1_2 p]
     @ (if ssl_prefer_low_memory_usage opts \<noteq> 0 then [SSL_CTX_set_mode_release_buffers p] else [])
     @ (case passphrase opts of None \<Rightarrow> [] | Some s \<Rightarrow> [SSL_CTX_set_default_passwd p s])"

definition wanted_files :: "us_socket_context_options_t \<Rightarrow> ptr \<Rightarrow> ssl_call list list" where
  "wanted_files opts p =
     [case cert_file_name opts of None \<Rightarrow> [] | Some f \<Rightarrow> [SSL_CTX_use_certificate_chain_file p f],
      case key_file_name opts of None \<Rightarrow> [] | Some f \<Rightarrow> [SSL_CTX_use_PrivateKey_file p f],
      case ca_file_name opts of None \<Rightarrow> []
        | Some f \<Rightarrow> [SSL_load_client_CA_file f, SSL_CTX_set_client_CA_list p, SSL_CTX_load_verify_locations p f, SSL_CTX_set_verify_peer p],
      case dh_params_file_name opts of None \<Rightarrow> []
        | Some f \<Rightarrow> [Fopen f, PEM_read_DHparams, Fclose, SSL_CTX_set_tmp_dh p, DH_free, SSL_CTX_set_cipher_list p dh_cipher_list],
      case ssl_ciphers opts of None \<Rightarrow> [] | Some cs \<Rightarrow> [SSL_CTX_set_cipher_list p cs]]"

fun success :: "ssl_call \<Rightarrow> int \<Rightarrow> bool" where
  "success (SSL_CTX_use_certificate_chain_file p f) r = (r = 1)"
| "success (SSL_CTX_use_PrivateKey_file p f) r = (r = 1)"
| "success (SSL_load_client_CA_file f) r = (r \<noteq> 0)"
| "success (SSL_CTX_load_verify_locations p f) r = (r = 1)"
| "success (Fopen f) r = (r \<noteq> 0)"
| "success PEM_read_DHparams r = (r \<noteq> 0)"
| "success (SSL_CTX_set_tmp_dh p) r = (r = 1)"
| "success (SSL_CTX_set_cipher_list p cs) r = (r = 1)"
| "success _ r = True"

fun granted :: "ssl_lib \<Rightarrow> ssl_call list \<Rightarrow> ssl_call list \<Rightarrow> bool" where
  "granted K l [] = True"
| "granted K l (c # cs) = (success c (K l c) \<and> granted K (c # l) cs)"

lemma granted_append: "granted K l (a @ b) = (granted K l a \<and> granted K (rev a @ l) b)"
  by (induction a arbitrary: l) auto

definition ssl_heap_ok :: "ssl_heap \<Rightarrow> bool" where
  "ssl_heap_ok st \<longleftrightarrow> 0 < sh_next st \<and> (\<forall>x \<in> dom (sh_ctx st) \<union> sh_mem st \<union> sh_files st \<union> sh_dh st. 0 < x \<and> x < sh_next st)
     \<and> (\<forall>p w. sh_ctx st p = Some w \<longrightarrow> w = 0 \<or> w \<in> sh_mem st)"

definition kept :: "ssl_heap \<Rightarrow> ssl_heap \<Rightarrow> bool" where
  "kept st st' \<longleftrightarrow> sh_next st \<le> sh_next st' \<and> sh_ctx st' = sh_ctx st \<and> sh_mem st' = sh_mem st
     \<and> sh_files st' = sh_files st \<and> sh_dh st' = sh_dh st"

lemma kept_refl [simp]: "kept st st"
  by (simp add: kept_def)

lemma kept_trans: "kept a b \<Longrightarrow> kept b c \<Longrightarrow> kept a c"
  by (simp add: kept_def)

lemma kept_heap_ok:
  assumes "kept st st'" "ssl_heap_ok st"
  shows "ssl_heap_ok st'"
proof -
  have "sh_next st \<le> sh_next st'" using assms(1) by (simp add: kept_def)
  then show ?thesis using assms unfolding kept_def ssl_heap_ok_def by (auto intro: less_le_trans)
qed

text \<open>A step that does all of its calls, or fails at the first that fails, and keeps nothing.\<close>

definition does :: "ssl_lib \<Rightarrow> (ssl_heap \<Rightarrow> bool \<times> ssl_heap) \<Rightarrow> ssl_call list \<Rightarrow> bool" where
  "does K f cs \<longleftrightarrow> (\<forall>st ok st'. ssl_heap_ok st \<longrightarrow> f st = (ok, st') \<longrightarrow>
     ok = granted K (sh_calls st) cs \<and> (ok \<longrightarrow> sh_calls st' = rev cs @ sh_calls st) \<and> kept st st')"

lemma doesI:
  "(\<And>st ok st'. ssl_heap_ok st \<Longrightarrow> f st = (ok, st') \<Longrightarrow>
     ok = granted K (sh_calls st) cs \<and> (ok \<longrightarrow> sh_calls st' = rev cs @ sh_calls st) \<and> kept st st') \<Longrightarrow> does K f cs"
  unfolding does_def by blast

lemma doesD:
  assumes "does K f cs" "ssl_heap_ok st" "f st = (ok, st')"
  shows "ok = granted K (sh_calls st) cs" "ok \<Longrightarrow> sh_calls st' = rev cs @ sh_calls st" "kept st st'"
  using assms unfolding does_def by blast+

lemma does_skip: "does K (Pair True) []"
  by (rule doesI) auto

lemma does_checked: "(\<And>r. success c r = (r = 1)) \<Longrightarrow> does K (checked K c) [c]"
  by (rule doesI) (auto simp: checked_def ask_def kept_def)

lemma does_pointer: "(\<And>r. success c r = (r \<noteq> 0)) \<Longrightarrow> does K (\<lambda>st. case ask K c st of (r, st) \<Rightarrow> (r \<noteq> 0, st)) [c]"
  by (rule doesI) (auto simp: ask_def kept_def)

lemma does_tell: "(\<And>r. success c r) \<Longrightarrow> does K (\<lambda>st. (True, tell K c st)) [c]"
  by (rule doesI) (auto simp: tell_def ask_def kept_def)

lemma does_all: "list_all2 (does K) fs css \<Longrightarrow> does K (all_of fs) (concat css)"
proof (induction rule: list_all2_induct)
  case Nil
  then show ?case by (auto intro: doesI)
next
  case (Cons f fs cs css)
  show ?case
  proof (rule doesI)
    fix st ok st' assume ok: "ssl_heap_ok st" and r: "all_of (f # fs) st = (ok, st')"
    obtain ok1 st1 where f: "f st = (ok1, st1)" by (cases "f st")
    note d = doesD [OF Cons.hyps(1) ok f]
    show "ok = granted K (sh_calls st) (concat (cs # css)) \<and> (ok \<longrightarrow> sh_calls st' = rev (concat (cs # css)) @ sh_calls st) \<and> kept st st'"
    proof (cases ok1)
      case False
      then show ?thesis using r f d by (simp add: granted_append)
    next
      case True
      then have "all_of fs st1 = (ok, st')" using r f by simp
      note e = doesD [OF Cons.IH kept_heap_ok [OF d(3) ok] this]
      have c: "granted K (sh_calls st) cs" "sh_calls st1 = rev cs @ sh_calls st" using d True by simp_all
      show ?thesis using e(1,2) c kept_trans [OF d(3) e(3)] by (simp add: granted_append)
    qed
  qed
qed

lemma does_cert: "does K (use_cert_file K opts p) (wanted_files opts p ! 0)"
  by (cases "cert_file_name opts") (simp_all add: use_cert_file_def [abs_def] wanted_files_def does_skip does_checked)

lemma does_key: "does K (use_key_file K opts p) (wanted_files opts p ! 1)"
  by (cases "key_file_name opts") (simp_all add: use_key_file_def [abs_def] wanted_files_def does_skip does_checked)

lemma does_ciphers: "does K (use_ssl_ciphers K opts p) (wanted_files opts p ! 4)"
  by (cases "ssl_ciphers opts") (simp_all add: use_ssl_ciphers_def [abs_def] wanted_files_def does_skip does_checked)

lemma does_ca: "does K (use_ca_file K opts p) (wanted_files opts p ! 2)"
proof (cases "ca_file_name opts")
  case None
  then show ?thesis by (simp add: use_ca_file_def [abs_def] wanted_files_def does_skip)
next
  case (Some f)
  have "use_ca_file K opts p = all_of [\<lambda>st. case ask K (SSL_load_client_CA_file f) st of (r, st) \<Rightarrow> (r \<noteq> 0, st),
      \<lambda>st. (True, tell K (SSL_CTX_set_client_CA_list p) st), checked K (SSL_CTX_load_verify_locations p f),
      \<lambda>st. (True, tell K (SSL_CTX_set_verify_peer p) st)]"
    by (simp add: fun_eq_iff use_ca_file_def Some Let_def split: prod.split)
  moreover have "does K \<dots> (concat [[SSL_load_client_CA_file f], [SSL_CTX_set_client_CA_list p],
      [SSL_CTX_load_verify_locations p f], [SSL_CTX_set_verify_peer p]])"
    by (rule does_all) (simp add: does_pointer does_tell does_checked)
  ultimately show ?thesis by (simp add: wanted_files_def Some)
qed

text \<open>The file and its parameters are released on every path.\<close>

lemma not_allocated:
  assumes "ssl_heap_ok st" "x = 0 \<or> sh_next st \<le> x"
  shows "x \<notin> sh_files st" "x \<notin> sh_dh st" "x \<notin> sh_mem st" "sh_ctx st x = None"
proof -
  have "x \<notin> dom (sh_ctx st) \<union> sh_mem st \<union> sh_files st \<union> sh_dh st"
  proof
    assume "x \<in> dom (sh_ctx st) \<union> sh_mem st \<union> sh_files st \<union> sh_dh st"
    then have "0 < x \<and> x < sh_next st" using assms(1) unfolding ssl_heap_ok_def by blast
    then show False using assms(2) by linarith
  qed
  then show "x \<notin> sh_files st" "x \<notin> sh_dh st" "x \<notin> sh_mem st" "sh_ctx st x = None" by auto
qed

lemma does_dh: "does K (use_dh_params_file K opts p) (wanted_files opts p ! 3)"
proof (cases "dh_params_file_name opts")
  case None
  then show ?thesis by (simp add: use_dh_params_file_def [abs_def] wanted_files_def does_skip)
next
  case (Some f)
  show ?thesis
  proof (rule doesI)
    fix st ok st' assume h: "ssl_heap_ok st" and r: "use_dh_params_file K opts p st = (ok, st')"
    note na = not_allocated(1) [OF h, of "sh_next st"] not_allocated(2) [OF h, of "Suc (sh_next st)"]
    let ?l = "sh_calls st" and ?d = "Suc (sh_next st)"
    let ?l1 = "Fopen f # ?l"
    let ?l2 = "PEM_read_DHparams # ?l1"
    let ?l3 = "Fclose # ?l2"
    let ?l4 = "SSL_CTX_set_tmp_dh p # ?l3"
    let ?l5 = "DH_free # ?l4"
    have "use_dh_params_file K opts p st =
       (if K ?l (Fopen f) = 0 then (False, st\<lparr>sh_calls := ?l1\<rparr>)
        else if K ?l1 PEM_read_DHparams = 0 then (False, st\<lparr>sh_calls := ?l3, sh_next := ?d\<rparr>)
        else if K ?l3 (SSL_CTX_set_tmp_dh p) \<noteq> 1 then (False, st\<lparr>sh_calls := ?l5, sh_next := Suc ?d\<rparr>)
        else (K ?l5 (SSL_CTX_set_cipher_list p dh_cipher_list) = 1,
              st\<lparr>sh_calls := SSL_CTX_set_cipher_list p dh_cipher_list # ?l5, sh_next := Suc ?d\<rparr>))"
      using na by (cases st) (simp add: use_dh_params_file_def Some ask_def tell_def checked_def fresh_def Let_def)
    then show "ok = granted K (sh_calls st) (wanted_files opts p ! 3)
      \<and> (ok \<longrightarrow> sh_calls st' = rev (wanted_files opts p ! 3) @ sh_calls st) \<and> kept st st'"
      using r by (auto simp: Some wanted_files_def kept_def split: if_splits)
  qed
qed

text \<open>The steps that cannot fail.\<close>

lemma defaults_done:
  fixes K opts p
  defines "f \<equiv> \<lambda>st. set_passphrase K opts p (set_defaults K opts p st)"
  shows "sh_calls (f st) = rev (wanted_defaults opts p) @ sh_calls st" "sh_files (f st) = sh_files st" "sh_dh (f st) = sh_dh st"
    "passphrase opts = None \<Longrightarrow> sh_next (f st) = sh_next st \<and> sh_mem (f st) = sh_mem st \<and> sh_ctx (f st) = sh_ctx st"
    "passphrase opts = Some s \<Longrightarrow> sh_next (f st) = Suc (sh_next st) \<and> sh_mem (f st) = insert (sh_next st) (sh_mem st)
       \<and> sh_ctx (f st) = (sh_ctx st)(p \<mapsto> sh_next st)"
  by (cases "passphrase opts";
      simp add: f_def set_passphrase_def set_defaults_def wanted_defaults_def tell_def ask_def fresh_def Let_def)+

lemma granted_defaults: "granted K l (wanted_defaults opts p)"
  by (cases "passphrase opts") (simp_all add: wanted_defaults_def)

text \<open>The new context with its passphrase; and what freeing it leaves.\<close>

definition with_context :: "us_socket_context_options_t \<Rightarrow> ssl_heap \<Rightarrow> (ptr \<rightharpoonup> ptr) \<times> ptr set" where
  "with_context opts st =
     (case passphrase opts of
        None \<Rightarrow> ((sh_ctx st)(sh_next st \<mapsto> 0), sh_mem st)
      | Some s \<Rightarrow> ((sh_ctx st)(sh_next st \<mapsto> Suc (sh_next st)), insert (Suc (sh_next st)) (sh_mem st)))"

lemma free_new_context:
  assumes ok: "ssl_heap_ok st" and new: "(sh_ctx st', sh_mem st') = with_context opts st"
  shows "\<exists>st''. ctx_free_ssl_context (sh_next st) st' = Some st'' \<and> sh_ctx st'' = sh_ctx st \<and> sh_mem st'' = sh_mem st
    \<and> sh_calls st'' = sh_calls st' \<and> sh_files st'' = sh_files st' \<and> sh_dh st'' = sh_dh st'"
proof -
  have f: "sh_next st \<noteq> 0" "sh_ctx st (sh_next st) = None" "0 \<notin> sh_mem st" "Suc (sh_next st) \<notin> sh_mem st"
    using not_allocated(3,4) [OF ok] ok by (simp_all add: ssl_heap_ok_def)
  then show ?thesis
    using new by (cases "passphrase opts") (auto simp: with_context_def ctx_free_ssl_context_def fun_eq_iff)
qed

lemma ssl_heap_ok_passphrase:
  assumes ok: "ssl_heap_ok st" and n: "sh_next st1 = Suc (Suc (sh_next st))" "sh_ctx st1 = (sh_ctx st)(sh_next st \<mapsto> Suc (sh_next st))"
    "sh_mem st1 = insert (Suc (sh_next st)) (sh_mem st)" "sh_files st1 = sh_files st" "sh_dh st1 = sh_dh st"
  shows "ssl_heap_ok st1"
proof -
  have low: "0 < x \<and> x < sh_next st" if "x \<in> dom (sh_ctx st) \<union> sh_mem st \<union> sh_files st \<union> sh_dh st" for x
    using ok that unfolding ssl_heap_ok_def by blast
  have new: "0 < x \<and> x < sh_next st1" if "x \<in> dom (sh_ctx st1) \<union> sh_mem st1 \<union> sh_files st1 \<union> sh_dh st1" for x
  proof -
    have "x = sh_next st \<or> x = Suc (sh_next st) \<or> x \<in> dom (sh_ctx st) \<union> sh_mem st \<union> sh_files st \<union> sh_dh st"
      using that unfolding n dom_fun_upd by auto
    moreover have "0 < sh_next st" using ok by (simp add: ssl_heap_ok_def)
    moreover have "x \<in> dom (sh_ctx st) \<union> sh_mem st \<union> sh_files st \<union> sh_dh st \<longrightarrow> 0 < x \<and> x < sh_next st" using low by blast
    ultimately show ?thesis unfolding n(1) by (metis less_SucI lessI less_Suc_eq_0_disj)
  qed
  have mem: "w = 0 \<or> w \<in> sh_mem st1" if "sh_ctx st1 p = Some w" for p w
    using that ok unfolding n ssl_heap_ok_def by (auto split: if_splits)
  have "0 < sh_next st1" by (simp add: n(1))
  then show ?thesis unfolding ssl_heap_ok_def using new mem by blast
qed

theorem create_spec:
  assumes ok: "ssl_heap_ok st" and made: "K (sh_calls st) SSL_CTX_new \<noteq> 0"
    and cs: "cs = wanted_defaults opts (sh_next st) @ concat (wanted_files opts (sh_next st))"
    and g: "g = granted K (SSL_CTX_new # sh_calls st) cs"
  shows "\<exists>st'. create_ssl_context_from_options K opts st = Some (if g then sh_next st else 0, st')
    \<and> sh_files st' = sh_files st \<and> sh_dh st' = sh_dh st
    \<and> (sh_ctx st', sh_mem st') = (if g then with_context opts st else (sh_ctx st, sh_mem st))
    \<and> (g \<longrightarrow> sh_calls st' = rev cs @ SSL_CTX_new # sh_calls st)"
proof -
  let ?p = "sh_next st"
  define st0 where "st0 = st\<lparr>sh_calls := SSL_CTX_new # sh_calls st, sh_next := Suc ?p, sh_ctx := (sh_ctx st)(?p \<mapsto> 0)\<rparr>"
  define st1 where "st1 = set_passphrase K opts ?p (set_defaults K opts ?p st0)"
  note d = defaults_done [where K = K and opts = opts and p = ?p and st = st0, folded st1_def]
  have new: "(sh_ctx st1, sh_mem st1) = with_context opts st"
    using d by (cases "passphrase opts") (simp_all add: st0_def with_context_def)
  have files: "sh_files st1 = sh_files st" "sh_dh st1 = sh_dh st" and calls: "sh_calls st1 = rev (wanted_defaults opts ?p) @ SSL_CTX_new # sh_calls st"
    using d(1-3) by (simp_all add: st0_def)
  have ok0: "ssl_heap_ok st0" using ok unfolding ssl_heap_ok_def st0_def by (auto intro: less_SucI)
  have ok1: "ssl_heap_ok st1"
  proof (cases "passphrase opts")
    case None
    then show ?thesis using ok0 d(2-4) by (simp add: ssl_heap_ok_def)
  next
    case (Some s)
    show ?thesis
    proof (rule ssl_heap_ok_passphrase [OF ok])
      show "sh_next st1 = Suc (Suc ?p)" "sh_ctx st1 = (sh_ctx st)(?p \<mapsto> Suc ?p)" "sh_mem st1 = insert (Suc ?p) (sh_mem st)"
        using d(5) [OF Some] by (simp_all add: st0_def)
    qed (rule files)+
  qed
  let ?fs = "[use_cert_file K opts ?p, use_key_file K opts ?p, use_ca_file K opts ?p, use_dh_params_file K opts ?p, use_ssl_ciphers K opts ?p]"
  let ?w = "wanted_files opts ?p"
  have l: "list_all2 (does K) ?fs [?w ! 0, ?w ! 1, ?w ! 2, ?w ! 3, ?w ! 4]"
    by (intro list.rel_intros does_cert does_key does_ca does_dh does_ciphers)
  have w: "[?w ! 0, ?w ! 1, ?w ! 2, ?w ! 3, ?w ! 4] = ?w" by (simp add: wanted_files_def)
  have "list_all2 (does K) ?fs ?w" using l unfolding w .
  note dall = does_all [OF this]
  obtain good st2 where r: "all_of ?fs st1 = (good, st2)" by (cases "all_of ?fs st1")
  note e = doesD [OF dall ok1 r]
  have good: "good = g" using e(1) by (simp add: g cs granted_append granted_defaults calls)
  have k: "sh_ctx st2 = sh_ctx st1" "sh_mem st2 = sh_mem st1" "sh_files st2 = sh_files st" "sh_dh st2 = sh_dh st"
    using e(3) files by (simp_all add: kept_def)
  have eq: "create_ssl_context_from_options K opts st = (if g then Some (?p, st2) else map_option (Pair 0) (ctx_free_ssl_context ?p st2))"
  proof -
    have u: "fresh (st\<lparr>sh_calls := SSL_CTX_new # sh_calls st\<rparr>) = (?p, st\<lparr>sh_calls := SSL_CTX_new # sh_calls st, sh_next := Suc ?p\<rparr>)"
      by (simp add: fresh_def)
    have v: "(st\<lparr>sh_calls := SSL_CTX_new # sh_calls st, sh_next := Suc ?p\<rparr>)
        \<lparr>sh_ctx := (sh_ctx (st\<lparr>sh_calls := SSL_CTX_new # sh_calls st, sh_next := Suc ?p\<rparr>))(?p \<mapsto> 0)\<rparr> = st0"
      by (simp add: st0_def)
    show ?thesis
      unfolding create_ssl_context_from_options_def ask_def Let_def prod.case u v st1_def [symmetric] r good using made by simp
  qed
  show ?thesis
  proof (cases g)
    case True
    then show ?thesis using eq k new good e(2) calls cs by simp
  next
    case False
    then show ?thesis using eq k new free_new_context [OF ok, of st2 opts] by auto
  qed
qed

section \<open>Where it goes wrong\<close>

text \<open>Without memory for a context the null pointer is used.\<close>

lemma no_context_used: "K (sh_calls st) SSL_CTX_new = 0 \<Longrightarrow> create_ssl_context_from_options K opts st = None"
  by (simp add: create_ssl_context_from_options_def ask_def)

text \<open>A passphrase that is longer than the buffer of OpenSSL is written behind its end.\<close>

lemma long_passphrase: "length buf < length phrase \<Longrightarrow> passphrase_cb buf phrase = None"
  by (simp add: passphrase_cb_def)

lemma short_passphrase:
  "length phrase \<le> length buf \<Longrightarrow> \<exists>buf'. passphrase_cb buf phrase = Some (int (length phrase), buf')
     \<and> length buf' = length buf \<and> take (length phrase) buf' = phrase"
  by (simp add: passphrase_cb_def)

end
