(* ===== verification/SslProps.thy ===== *)
theory SslProps
  imports SslData SslOptions
begin

text \<open>
  What holds of TLS sockets, each with a witness on a loop with one context of two sockets, of which one
  has an open connection.
\<close>

declare neq0_conv [iff del]

section \<open>A concrete loop\<close>

definition ex_ssl_ctx :: us_socket_context_t where
  "ex_ssl_ctx = ex_ctx\<lparr>c_on_open := Fn_ssl_on_open, c_on_data := Fn_ssl_on_data, c_on_writable := Fn_ssl_on_writable,
     c_on_close := Fn_ssl_on_close\<rparr>"

definition ex_cont :: us_internal_ssl_socket_context_t where
  "ex_cont = \<lparr>sx_ssl_context = 80, sx_is_parent = True, sx_on_open = Fn_user 10, sx_on_data = Fn_user 11,
     sx_on_writable = Fn_user 12, sx_on_close = Fn_user 13, sx_on_server_name = Fn_null, sx_sni = sni_new\<rparr>"

definition ex_tls :: "bool tls" where
  "ex_tls = \<lparr>plain = ex_st\<lparr>ctxs := [16 \<mapsto> ex_ssl_ctx]\<rparr>,
     lsd = \<lparr>ssl_read_input = [], ssl_read_input_length = 0, ssl_read_input_offset = 0, ssl_socket = 0,
            last_write_was_msg_more = False, msg_more = False\<rparr>,
     ssl_socks = [48 \<mapsto> \<lparr>ss_ssl = Some False, ssl_write_wants_read = False, ssl_read_wants_write = False\<rparr>],
     ssl_conts = [16 \<mapsto> ex_cont], ssl_ctxs = {80}\<rparr>"

lemma ex_tls_inv: "tls_inv ex_abs ex_tls"
proof -
  have "ready_ok (plain ex_tls)"
    by (simp add: ready_ok_def ex_tls_def ex_st_def empty_us_def)
  moreover have "dlist (slinks (plain ex_tls)) 48 [48, 32]"
    by (simp add: dlist_def slinks_def ex_tls_def ex_st_def ex_sock_def)
  moreover have "dlist (clinks (plain ex_tls)) 16 [16]"
    by (simp add: dlist_def clinks_def ex_tls_def ex_st_def ex_ctx_def ex_ssl_ctx_def)
  ultimately have "us_inv ex_abs (plain ex_tls)"
    by (auto simp: us_inv_def ctxs_ok_def list_ok_def low_ok_def closed_ok_def loose_ok_def mem_ok_def
        heap_ok_def linked_def ex_abs_def ex_tls_def ex_st_def ex_ssl_ctx_def ex_ctx_def ex_sock_def empty_us_def)
  then have "app_ok ex_abs (plain ex_tls)"
    by (simp add: app_ok_def ex_abs_def ex_tls_def ex_st_def ex_ssl_ctx_def ex_ctx_def callbacks_set_def)
  moreover have "open_in ex_abs = {48, 32}" by (auto simp: open_in_def in_ctxs_def ex_abs_def)
  ultimately show ?thesis
    by (simp add: tls_inv_def bio_fits_def conts_ok_def live_ok_def tls_live_def get_ssl_def app_handlers_def ssl_handlers_def
        ex_tls_def ex_cont_def ex_ssl_ctx_def ex_st_def ex_sock_def)
qed

lemma ex_tls_live: "tls_live 48 ex_tls" "get_ssl 48 ex_tls = Some False" "us_socket_context 48 (plain ex_tls) = Some 16"
    "ssl_conts ex_tls 16 = Some ex_cont" "\<not> wants_read 48 ex_tls"
  by (simp_all add: tls_live_def get_ssl_def ex_tls_def us_socket_context_def ex_st_def ex_sock_def wants_read_def)

lemma ex_tls_up: "us_internal_ssl_socket_is_shut_down null_ssl 48 ex_tls = Some False"
  by (simp add: us_internal_ssl_socket_is_shut_down_def ex_tls_live(2))
     (simp add: ex_tls_def get_ssl_def us_socket_is_shut_down_def us_internal_poll_type_def ex_st_def ex_poll_def null_ssl_def poll_type_of_def us_defs)

section \<open>Properties\<close>







text \<open>
  C15. A TLS write that is not marked as incomplete leaves nothing behind in the kernel: although the largest
  records are sent as if more followed, after the write the last segment is flushed.
\<close>

theorem tls_write_uncorked:
  assumes "tls_inv A st" "us_internal_ssl_socket_write SSL h s d False st = Some (n, st')"
  shows "\<exists>es. log (plain st') = es @ log (plain st) \<and> \<not> corked es"
  using assms by (rule write_uncorked)

theorem tls_write_uncorked_witness:
  "\<exists>n st' es. us_internal_ssl_socket_write null_ssl quiet_host 48 (replicate 16413 7) False ex_tls = Some (n, st')
    \<and> log (plain st') = es @ log (plain ex_tls) \<and> \<not> corked es"
proof -
  obtain n st' where w: "us_internal_ssl_socket_write null_ssl quiet_host 48 (replicate 16413 7) False ex_tls = Some (n, st')"
    using ssl_write_ok [OF ex_tls_inv ex_tls_live(1) null_bounded] by blast
  then show ?thesis using tls_write_uncorked [OF ex_tls_inv w] by blast
qed

text \<open>
  C16. An OpenSSL context is made from options all or nothing: it is returned when every call the options
  ask for succeeds, all of them in order, with a copy of the passphrase if one is given; when one fails null is
  returned, and the context, the passphrase, the parameter file and the parameters are released. Freeing a
  returned context releases it and its passphrase, so nothing is left in either case.
\<close>

theorem ssl_context_all_or_nothing:
  assumes "ssl_heap_ok st" "K (sh_calls st) SSL_CTX_new \<noteq> 0"
    and "cs = wanted_defaults opts (sh_next st) @ concat (wanted_files opts (sh_next st))"
  shows "\<exists>p st'. create_ssl_context_from_options K opts st = Some (p, st')
    \<and> (p \<noteq> 0 \<longleftrightarrow> granted K (SSL_CTX_new # sh_calls st) cs)
    \<and> (p \<noteq> 0 \<longrightarrow> (sh_ctx st', sh_mem st') = with_context opts st \<and> sh_calls st' = rev cs @ SSL_CTX_new # sh_calls st)
    \<and> (\<exists>st''. ctx_free_ssl_context p st' = Some st'' \<and> sh_ctx st'' = sh_ctx st \<and> sh_mem st'' = sh_mem st
         \<and> sh_files st'' = sh_files st \<and> sh_dh st'' = sh_dh st)"
proof -
  have n: "sh_next st \<noteq> 0" using assms(1) by (simp add: ssl_heap_ok_def)
  obtain st' where c: "create_ssl_context_from_options K opts st
      = Some (if granted K (SSL_CTX_new # sh_calls st) cs then sh_next st else 0, st')"
    "sh_files st' = sh_files st" "sh_dh st' = sh_dh st"
    "(sh_ctx st', sh_mem st') = (if granted K (SSL_CTX_new # sh_calls st) cs then with_context opts st else (sh_ctx st, sh_mem st))"
    "granted K (SSL_CTX_new # sh_calls st) cs \<longrightarrow> sh_calls st' = rev cs @ SSL_CTX_new # sh_calls st"
    using create_spec [where K = K and st = st and opts = opts and cs = cs, OF assms refl] by blast
  show ?thesis
  proof (cases "granted K (SSL_CTX_new # sh_calls st) cs")
    case True
    then show ?thesis using c n free_new_context [OF assms(1), of st' opts] by auto
  next
    case False
    then show ?thesis using c n by (simp add: ctx_free_ssl_context_def)
  qed
qed

definition ex_options :: us_socket_context_options_t where
  "ex_options = \<lparr>key_file_name = Some ''key.pem'', cert_file_name = Some ''cert.pem'', passphrase = Some ''1234'',
     dh_params_file_name = Some ''dh.pem'', ca_file_name = None, ssl_ciphers = None, ssl_prefer_low_memory_usage = 0\<rparr>"

definition ex_heap :: ssl_heap where
  "ex_heap = \<lparr>sh_calls = [], sh_next = 64, sh_ctx = Map.empty, sh_mem = {}, sh_files = {}, sh_dh = {}\<rparr>"

theorem ssl_context_all_or_nothing_witness:
  "\<exists>p st'. create_ssl_context_from_options (\<lambda>_ c. if c = PEM_read_DHparams then 0 else 1) ex_options ex_heap = Some (p, st') \<and> p = 0"
  using ssl_context_all_or_nothing [of ex_heap "\<lambda>_ c. if c = PEM_read_DHparams then 0 else 1", OF _ _ refl, of ex_options]
  by (auto simp: ssl_heap_ok_def ex_heap_def ex_options_def wanted_defaults_def wanted_files_def)

end
