(* ===== verification/SslApi.thy ===== *)
theory SslApi
  imports SslSocket SslOptions SniSsl
begin

text \<open>
  The objects all TLS sockets of a loop share (\<open>us_internal_init_loop_ssl_data\<close> and
  \<open>us_internal_free_loop_ssl_data\<close> of \<open>src/uSockets2/src/crypto/openssl.c\<close>) with their reference counts, and
  the functions of \<open>context.c\<close> and \<open>socket.c\<close> that choose by their first argument, \<open>ssl\<close>, between a plain
  socket and a TLS socket.
\<close>

declare neq0_conv [iff del]

section \<open>The shared BIOs\<close>

text \<open>
  Blocks, methods, and BIOs with the number of references to them; \<open>None\<close> is the use or release of what is
  not allocated. \<open>bh_ssls\<close> are the connections that hold a reference to both BIOs of the loop.
\<close>

record shared_bios =
  sb_data :: ptr
  sb_output :: ptr
  sb_biom :: ptr
  sb_rbio :: ptr
  sb_wbio :: ptr

record bio_heap =
  bh_next :: ptr
  bh_mem :: "ptr set"
  bh_meths :: "ptr set"
  bh_bios :: "ptr \<rightharpoonup> nat"
  bh_ssl_data :: "shared_bios option"

definition BIO_free :: "ptr \<Rightarrow> bio_heap \<Rightarrow> bio_heap option" where
  "BIO_free b st =
     do {
       n \<leftarrow> bh_bios st b;
       Some (st\<lparr>bh_bios := (bh_bios st)(b := (if n \<le> 1 then None else Some (n - 1)))\<rparr>) }"

definition BIO_up_ref :: "ptr \<Rightarrow> bio_heap \<Rightarrow> bio_heap option" where
  "BIO_up_ref b st = do { n \<leftarrow> bh_bios st b; Some (st\<lparr>bh_bios := (bh_bios st)(b \<mapsto> n + 1)\<rparr>) }"

definition free_block :: "ptr \<Rightarrow> bio_heap \<Rightarrow> bio_heap option" where
  "free_block p st = (if p \<in> bh_mem st then Some (st\<lparr>bh_mem := bh_mem st - {p}\<rparr>) else None)"

definition BIO_meth_free :: "ptr \<Rightarrow> bio_heap \<Rightarrow> bio_heap option" where
  "BIO_meth_free p st = (if p \<in> bh_meths st then Some (st\<lparr>bh_meths := bh_meths st - {p}\<rparr>) else None)"

definition us_internal_init_loop_ssl_data :: "bio_heap \<Rightarrow> bio_heap" where
  "us_internal_init_loop_ssl_data st =
     (case bh_ssl_data st of
        Some d \<Rightarrow> st
      | None \<Rightarrow>
          (let p = bh_next st;
               d = \<lparr>sb_data = p, sb_output = p + 1, sb_biom = p + 2, sb_rbio = p + 3, sb_wbio = p + 4\<rparr> in
           st\<lparr>bh_next := p + 5, bh_mem := insert p (insert (p + 1) (bh_mem st)), bh_meths := insert (p + 2) (bh_meths st),
              bh_bios := (bh_bios st)(p + 3 \<mapsto> 1, p + 4 \<mapsto> 1), bh_ssl_data := Some d\<rparr>))"

definition us_internal_free_loop_ssl_data :: "bio_heap \<Rightarrow> bio_heap option" where
  "us_internal_free_loop_ssl_data st =
     (case bh_ssl_data st of
        None \<Rightarrow> Some st
      | Some d \<Rightarrow>
          do {
            st \<leftarrow> free_block (sb_output d) st;
            st \<leftarrow> BIO_free (sb_rbio d) st;
            st \<leftarrow> BIO_free (sb_wbio d) st;
            st \<leftarrow> BIO_meth_free (sb_biom d) st;
            free_block (sb_data d) st })"

text \<open>
  What opening and closing a TLS socket does to the counts: \<open>SSL_set_bio\<close> takes one reference of each over,
  which the code then replaces; \<open>SSL_free\<close> drops them.
\<close>

definition ssl_take_bios :: "bio_heap \<Rightarrow> bio_heap option" where
  "ssl_take_bios st =
     do { d \<leftarrow> bh_ssl_data st; st \<leftarrow> BIO_up_ref (sb_rbio d) st; BIO_up_ref (sb_wbio d) st }"

definition ssl_drop_bios :: "bio_heap \<Rightarrow> bio_heap option" where
  "ssl_drop_bios st =
     do { d \<leftarrow> bh_ssl_data st; st \<leftarrow> BIO_free (sb_rbio d) st; BIO_free (sb_wbio d) st }"

text \<open>A history of TLS sockets that open (\<open>True\<close>) and close; at no time have more closed than opened.\<close>

fun run_sockets :: "bool list \<Rightarrow> bio_heap \<Rightarrow> bio_heap option" where
  "run_sockets [] st = Some st"
| "run_sockets (b # bs) st = do { st \<leftarrow> (if b then ssl_take_bios st else ssl_drop_bios st); run_sockets bs st }"

fun open_after :: "bool list \<Rightarrow> nat \<Rightarrow> nat option" where
  "open_after [] n = Some n"
| "open_after (b # bs) n = (if b then open_after bs (n + 1) else if n = 0 then None else open_after bs (n - 1))"

definition bios_held :: "nat \<Rightarrow> shared_bios \<Rightarrow> bio_heap \<Rightarrow> bio_heap \<Rightarrow> bool" where
  "bios_held n d st0 st \<longleftrightarrow> st = st0\<lparr>bh_bios := (bh_bios st0)(sb_rbio d \<mapsto> n + 1, sb_wbio d \<mapsto> n + 1)\<rparr>"

lemma bios_held_step:
  assumes "bios_held n d st0 st" "bh_ssl_data st0 = Some d" "sb_rbio d \<noteq> sb_wbio d"
  shows "\<exists>st'. ssl_take_bios st = Some st' \<and> bios_held (n + 1) d st0 st'"
    and "n \<noteq> 0 \<Longrightarrow> \<exists>st'. ssl_drop_bios st = Some st' \<and> bios_held (n - 1) d st0 st'"
  using assms by (auto simp: bios_held_def ssl_take_bios_def ssl_drop_bios_def BIO_up_ref_def BIO_free_def fun_upd_twist)

lemma run_sockets_held:
  assumes "bios_held n d st0 st" "bh_ssl_data st0 = Some d" "sb_rbio d \<noteq> sb_wbio d" "open_after bs n = Some m"
  shows "\<exists>st'. run_sockets bs st = Some st' \<and> bios_held m d st0 st'"
  using assms
proof (induction bs arbitrary: n st)
  case (Cons b bs)
  show ?case
  proof (cases b)
    case True
    obtain st1 where "ssl_take_bios st = Some st1" "bios_held (n + 1) d st0 st1"
      using bios_held_step(1) [OF Cons.prems(1-3)] by blast
    then show ?thesis using Cons.IH [of "n + 1" st1] Cons.prems True by simp
  next
    case False
    then have n: "n \<noteq> 0" "open_after bs (n - 1) = Some m" using Cons.prems(4) by (auto split: if_splits)
    obtain st1 where "ssl_drop_bios st = Some st1" "bios_held (n - 1) d st0 st1"
      using bios_held_step(2) [OF Cons.prems(1-3) n(1)] by blast
    then show ?thesis using Cons.IH [of "n - 1" st1] Cons.prems False n by simp
  qed
qed simp

text \<open>
  Once every TLS socket is closed, freeing the data of the loop releases the block, the buffer, the method
  and both BIOs, each once; before, it leaves the BIOs to the connections that are open, with a method that
  was freed.
\<close>

theorem loop_ssl_data_released:
  assumes fresh: "bh_ssl_data st = None" "\<And>x. x \<in> bh_mem st \<union> bh_meths st \<union> dom (bh_bios st) \<Longrightarrow> x < bh_next st"
    and closed: "open_after bs 0 = Some n"
  shows "\<exists>st1 st2. run_sockets bs (us_internal_init_loop_ssl_data st) = Some st1 \<and> us_internal_free_loop_ssl_data st1 = Some st2
    \<and> bh_mem st2 = bh_mem st \<and> bh_meths st2 = bh_meths st
    \<and> (if n = 0 then bh_bios st2 = bh_bios st else bh_bios st2 = (bh_bios st)(bh_next st + 3 \<mapsto> n, bh_next st + 4 \<mapsto> n))"
proof -
  let ?p = "bh_next st"
  define d where "d = \<lparr>sb_data = ?p, sb_output = ?p + 1, sb_biom = ?p + 2, sb_rbio = ?p + 3, sb_wbio = ?p + 4\<rparr>"
  define st0 where "st0 = us_internal_init_loop_ssl_data st"
  have new: "?p \<notin> bh_mem st" "?p + 1 \<notin> bh_mem st" "?p + 2 \<notin> bh_meths st" "bh_bios st (?p + 3) = None" "bh_bios st (?p + 4) = None"
    using fresh(2) [of ?p] fresh(2) [of "?p + 1"] fresh(2) [of "?p + 2"] fresh(2) [of "?p + 3"] fresh(2) [of "?p + 4"] by auto
  have st0: "st0 = st\<lparr>bh_next := ?p + 5, bh_mem := insert ?p (insert (?p + 1) (bh_mem st)), bh_meths := insert (?p + 2) (bh_meths st),
      bh_bios := (bh_bios st)(?p + 3 \<mapsto> 1, ?p + 4 \<mapsto> 1), bh_ssl_data := Some d\<rparr>"
    by (simp add: st0_def us_internal_init_loop_ssl_data_def fresh(1) d_def Let_def)
  have "(bh_bios st0)(sb_rbio d \<mapsto> 0 + 1, sb_wbio d \<mapsto> 0 + 1) = bh_bios st0" by (simp add: st0 d_def)
  then have "bios_held 0 d st0 st0" by (simp add: bios_held_def)
  then obtain st1 where st1: "run_sockets bs st0 = Some st1" "bios_held n d st0 st1"
    using run_sockets_held [of 0 d st0 st0 bs n] closed by (auto simp: st0 d_def)
  have "\<exists>st2. us_internal_free_loop_ssl_data st1 = Some st2 \<and> bh_mem st2 = bh_mem st \<and> bh_meths st2 = bh_meths st
    \<and> (if n = 0 then bh_bios st2 = bh_bios st else bh_bios st2 = (bh_bios st)(?p + 3 \<mapsto> n, ?p + 4 \<mapsto> n))"
    using st1(2) new
    by (auto simp: bios_held_def st0 us_internal_free_loop_ssl_data_def free_block_def BIO_free_def BIO_meth_free_def d_def fun_eq_iff)
  then show ?thesis using st1(1) unfolding st0_def by blast
qed

section \<open>Plain or TLS\<close>

text \<open>The result of a plain operation in the state with TLS members.\<close>

definition plain_result :: "('a \<times> us) option \<Rightarrow> 'ssl tls \<Rightarrow> ('a \<times> 'ssl tls) option" where
  "plain_result r st = map_option (\<lambda>(a, u). (a, st\<lparr>plain := u\<rparr>)) r"

definition api_socket_write ::
    "'ssl openssl \<Rightarrow> host \<Rightarrow> bool \<Rightarrow> ptr \<Rightarrow> byte list \<Rightarrow> bool \<Rightarrow> 'ssl tls \<Rightarrow> (int \<times> 'ssl tls) option" where
  "api_socket_write SSL h ssl s d m st =
     (if ssl then us_internal_ssl_socket_write SSL h s d m st else plain_result (us_socket_write h s d m (plain st)) st)"

definition api_socket_is_shut_down :: "'ssl openssl \<Rightarrow> bool \<Rightarrow> ptr \<Rightarrow> 'ssl tls \<Rightarrow> bool option" where
  "api_socket_is_shut_down SSL ssl s st =
     (if ssl then us_internal_ssl_socket_is_shut_down SSL s st else us_socket_is_shut_down s (plain st))"

definition api_socket_shutdown :: "'ssl openssl \<Rightarrow> host \<Rightarrow> bool \<Rightarrow> ptr \<Rightarrow> 'ssl tls \<Rightarrow> 'ssl tls option" where
  "api_socket_shutdown SSL h ssl s st =
     (if ssl then us_internal_ssl_socket_shutdown SSL h s st else in_plain (us_socket_shutdown h s) st)"

text \<open>The native handle is the \<open>SSL\<close>, or the file descriptor of a plain socket.\<close>

definition api_socket_get_native_handle :: "bool \<Rightarrow> ptr \<Rightarrow> 'ssl tls \<Rightarrow> ('ssl + int) option" where
  "api_socket_get_native_handle ssl s st =
     (if ssl then map_option Inl (get_ssl s st) else map_option Inr (us_socket_get_native_handle s (plain st)))"

definition api_context_get_native_handle :: "bool \<Rightarrow> ptr \<Rightarrow> 'ssl tls \<Rightarrow> ptr option" where
  "api_context_get_native_handle ssl c st = (if ssl then map_option sx_ssl_context (ssl_conts st c) else Some 0)"

definition api_context_listen ::
    "host \<Rightarrow> bool \<Rightarrow> ptr \<Rightarrow> string option \<Rightarrow> int \<Rightarrow> int \<Rightarrow> nat \<Rightarrow> 'ssl tls \<Rightarrow> (ptr \<times> 'ssl tls) option" where
  "api_context_listen h ssl c hst port options ext_size =
     (if ssl then us_internal_ssl_socket_context_listen h c hst port options ext_size
      else run_plain (us_socket_context_listen h c hst port options ext_size))"

definition api_context_listen_unix ::
    "host \<Rightarrow> bool \<Rightarrow> ptr \<Rightarrow> string \<Rightarrow> int \<Rightarrow> nat \<Rightarrow> 'ssl tls \<Rightarrow> (ptr \<times> 'ssl tls) option" where
  "api_context_listen_unix h ssl c path options ext_size =
     (if ssl then us_internal_ssl_socket_context_listen_unix h c path options ext_size
      else run_plain (us_socket_context_listen_unix h c path options ext_size))"

definition api_context_connect ::
    "host \<Rightarrow> bool \<Rightarrow> ptr \<Rightarrow> string option \<Rightarrow> int \<Rightarrow> string option \<Rightarrow> int \<Rightarrow> nat \<Rightarrow> 'ssl tls \<Rightarrow> (ptr \<times> 'ssl tls) option" where
  "api_context_connect h ssl c hst port source_host options ext_size =
     (if ssl then us_internal_ssl_socket_context_connect h c hst port source_host options ext_size
      else run_plain (us_socket_context_connect h c hst port source_host options ext_size))"

definition api_context_connect_unix ::
    "host \<Rightarrow> bool \<Rightarrow> ptr \<Rightarrow> string \<Rightarrow> int \<Rightarrow> nat \<Rightarrow> 'ssl tls \<Rightarrow> (ptr \<times> 'ssl tls) option" where
  "api_context_connect_unix h ssl c path options ext_size =
     (if ssl then us_internal_ssl_socket_context_connect_unix h c path options ext_size
      else run_plain (us_socket_context_connect_unix h c path options ext_size))"

definition api_create_child_context ::
    "host \<Rightarrow> bool \<Rightarrow> ptr \<Rightarrow> nat \<Rightarrow> us_internal_ssl_socket_context_t \<Rightarrow> 'ssl tls \<Rightarrow> (ptr \<times> 'ssl tls) option" where
  "api_create_child_context h ssl c ext_size sx0 st =
     (if ssl then us_internal_create_child_ssl_socket_context h c ext_size sx0 st
      else run_plain (us_create_child_socket_context h c ext_size) st)"

definition api_context_adopt_socket :: "host \<Rightarrow> bool \<Rightarrow> ptr \<Rightarrow> ptr \<Rightarrow> nat \<Rightarrow> 'ssl tls \<Rightarrow> (ptr \<times> 'ssl tls) option" where
  "api_context_adopt_socket h ssl c s ext_size =
     (if ssl then us_internal_ssl_socket_context_adopt_socket h c s ext_size
      else run_plain (us_socket_context_adopt_socket h c s ext_size))"

text \<open>The setters of handlers.\<close>

datatype setter = Set_open | Set_close | Set_data | Set_writable | Set_timeout | Set_end | Set_connect_error

fun api_context_on :: "bool \<Rightarrow> setter \<Rightarrow> ptr \<Rightarrow> fnptr \<Rightarrow> 'ssl tls \<Rightarrow> 'ssl tls option" where
  "api_context_on ssl Set_open c f =
     (if ssl then us_internal_ssl_socket_context_on_open c f else in_plain (us_socket_context_on_open c f))"
| "api_context_on ssl Set_close c f =
     (if ssl then us_internal_ssl_socket_context_on_close c f else in_plain (us_socket_context_on_close c f))"
| "api_context_on ssl Set_data c f =
     (if ssl then us_internal_ssl_socket_context_on_data c f else in_plain (us_socket_context_on_data c f))"
| "api_context_on ssl Set_writable c f =
     (if ssl then us_internal_ssl_socket_context_on_writable c f else in_plain (us_socket_context_on_writable c f))"
| "api_context_on ssl Set_timeout c f =
     (if ssl then us_internal_ssl_socket_context_on_timeout c f else in_plain (us_socket_context_on_timeout c f))"
| "api_context_on ssl Set_end c f =
     (if ssl then us_internal_ssl_socket_context_on_end c f else in_plain (us_socket_context_on_end c f))"
| "api_context_on ssl Set_connect_error c f =
     (if ssl then us_internal_ssl_socket_context_on_connect_error c f else in_plain (us_socket_context_on_connect_error c f))"

text \<open>The names of a context; a plain one has none.\<close>

definition api_find_server_name_userdata :: "bool \<Rightarrow> string \<Rightarrow> ssl_context \<Rightarrow> ptr option" where
  "api_find_server_name_userdata ssl hostname_pattern st =
     (if ssl then ssl_find_server_name_userdata hostname_pattern st else Some 0)"

definition api_add_server_name :: "bool \<Rightarrow> string \<Rightarrow> ptr \<Rightarrow> ptr \<Rightarrow> ssl_context \<Rightarrow> ssl_context option" where
  "api_add_server_name ssl hostname_pattern new_context user st =
     (if ssl then ssl_add_server_name hostname_pattern new_context user st else Some st)"

definition api_remove_server_name :: "bool \<Rightarrow> string \<Rightarrow> ssl_context \<Rightarrow> ssl_context option" where
  "api_remove_server_name ssl hostname_pattern st =
     (if ssl then ssl_remove_server_name hostname_pattern st else Some st)"

definition api_on_server_name :: "bool \<Rightarrow> ptr \<Rightarrow> fnptr \<Rightarrow> 'ssl tls \<Rightarrow> 'ssl tls option" where
  "api_on_server_name ssl c f st = (if ssl then us_internal_ssl_socket_context_on_server_name c f st else Some st)"

text \<open>
  A context with options: the data of the loop, then the context of OpenSSL, then the plain context with room
  for the TLS members.
\<close>

record 'ssl library =
  lib_tls :: "'ssl tls"
  lib_heap :: ssl_heap
  lib_bios :: bio_heap

definition api_create_context ::
    "ssl_lib \<Rightarrow> host \<Rightarrow> bool \<Rightarrow> nat \<Rightarrow> us_socket_context_options_t \<Rightarrow> us_internal_ssl_socket_context_t \<Rightarrow> 'ssl library
     \<Rightarrow> (ptr \<times> 'ssl library) option" where
  "api_create_context K h ssl ext_size opts sx0 st =
     (if ssl then
        do {
          let st = st\<lparr>lib_bios := us_internal_init_loop_ssl_data (lib_bios st)\<rparr>;
          (ssl_context, heap) \<leftarrow> create_ssl_context_from_options K opts (lib_heap st);
          let st = st\<lparr>lib_heap := heap\<rparr>;
          (c, t) \<leftarrow> us_internal_create_ssl_socket_context h ext_size ssl_context sx0 (lib_tls st);
          Some (c, st\<lparr>lib_tls := t\<rparr>) }
      else do {
        (c, t) \<leftarrow> run_plain (us_create_socket_context h ext_size) (lib_tls st);
        Some (c, st\<lparr>lib_tls := t\<rparr>) })"

text \<open>
  With options that OpenSSL rejects there is no context: the sockets and contexts are as before, and nothing
  of the context of OpenSSL is left. Otherwise the new context holds it.
\<close>

theorem api_create_context_result:
  assumes ok: "ssl_heap_ok (lib_heap st)" "K (sh_calls (lib_heap st)) SSL_CTX_new \<noteq> 0"
    and cs: "cs = wanted_defaults opts (sh_next (lib_heap st)) @ concat (wanted_files opts (sh_next (lib_heap st)))"
    and r: "api_create_context K h True ext_size opts sx0 st = Some (c, st')"
  shows "if granted K (SSL_CTX_new # sh_calls (lib_heap st)) cs
    then \<exists>x. ssl_conts (lib_tls st') c = Some x \<and> sx_ssl_context x = sh_next (lib_heap st) \<and> sx_is_parent x
         \<and> (sh_ctx (lib_heap st'), sh_mem (lib_heap st')) = with_context opts (lib_heap st)
    else c = 0 \<and> lib_tls st' = lib_tls st \<and> sh_ctx (lib_heap st') = sh_ctx (lib_heap st) \<and> sh_mem (lib_heap st') = sh_mem (lib_heap st)"
proof -
  let ?g = "granted K (SSL_CTX_new # sh_calls (lib_heap st)) cs"
  have n: "sh_next (lib_heap st) \<noteq> 0" using ok(1) by (simp add: ssl_heap_ok_def)
  obtain heap where heap: "create_ssl_context_from_options K opts (lib_heap st) = Some (if ?g then sh_next (lib_heap st) else 0, heap)"
    "(sh_ctx heap, sh_mem heap) = (if ?g then with_context opts (lib_heap st) else (sh_ctx (lib_heap st), sh_mem (lib_heap st)))"
    using create_spec [where K = K and st = "lib_heap st" and opts = opts and cs = cs, OF ok cs refl] by blast
  obtain t where t: "us_internal_create_ssl_socket_context h ext_size (if ?g then sh_next (lib_heap st) else 0) sx0 (lib_tls st) = Some (c, t)"
    "st' = st\<lparr>lib_bios := us_internal_init_loop_ssl_data (lib_bios st), lib_heap := heap, lib_tls := t\<rparr>"
    using r heap(1) by (auto simp: api_create_context_def elim!: bind_SomeE)
  show ?thesis
    using t heap(2) n by (auto simp: us_internal_create_ssl_socket_context_def elim!: bind_SomeE split: if_splits)
qed

end
