(* ===== verification/Spec2Isabelle.thy ===== *)
theory Spec2Isabelle
  imports UsTimeout UsHosts SniSsl HashProps NetProps RouterProps NngWork LocalChannel HotUpdate
    AccountProps Startup SslProps SslApi
begin

text \<open>
  Verification of the SM application framework.

  SM is a C++ framework for servers: coroutines on asio, packets over TCP, local queues and nng, requests
  that are routed to handlers by a command and a subcommand, a database layer and the reloading of
  libraries at run time. It carries an event loop (\<open>src/uSockets2\<close>, not part of the default build) and a
  library of hash functions (\<open>src/hashlibrary\<close>). The development models the event loop with its TLS sockets,
  the hash library, the framework's own network layer (\<open>src/networkinterface\<close>, \<open>src/Utils\<close>,
  \<open>src/configs/Routers.cpp\<close>), accounts and the gateway to the database (\<open>src/database\<close>), the web front end
  (\<open>Https.cpp\<close>, \<open>Apps.h\<close>), the configuration (\<open>src/configs\<close>), start-up, and the cache of resources
  (\<open>src/hotupdate\<close>).

  \<^bold>\<open>Conventions.\<close> Structs and classes are records, enums and class hierarchies datatypes; members keep their
  names, with a prefix for the class. Operations take and return the state. Integers whose wrap-around
  matters are words of their width; bytes are 8-bit words and \<open>std::string\<close> is a list of bytes. \<open>None\<close>
  as the result of an operation is undefined behaviour (a null or dangling pointer, an access out of
  range), a failed assertion, or a loop that does not end; exceptions, failures and waiting are values.
  \<open>dbg\<close> says whether \<open>assert\<close> is compiled in: where the code has a side effect inside an assertion, a build
  with \<open>NDEBUG\<close> loses it, and so does the model. Machine words are little-endian, as on the
  platforms the code is built for; \<open>u_long\<close> is a parameter (4 bytes on Windows, 8 on 64-bit Linux).

  \<^bold>\<open>The event loop\<close> (\<open>src/uSockets2/src\<close>, \<open>LIBUS_USE_EPOLL\<close>, TCP, UDP and TLS).
  \<^item> \<open>UsTypes\<close>: the structs, the memory (one map from addresses per struct), and the host: kernel,
    allocator and application, given by two functions that answer system calls and callbacks.
  \<^item> \<open>UsPoll\<close> (\<open>eventing/epoll_kqueue.c\<close>): polls, timers, asyncs and the pending ready polls.
  \<^item> \<open>UsContext\<close>, \<open>UsSocket\<close> (\<open>context.c\<close>, \<open>socket.c\<close>): contexts, sockets, listening and connecting.
  \<^item> \<open>Bsd\<close>, \<open>Udp\<close> (\<open>bsd.c\<close>, \<open>udp.c\<close>): the wrappers of system calls and UDP sockets.
  \<^item> \<open>UsLoop\<close> (\<open>loop.c\<close> and \<open>us_loop_run\<close>): timer sweep, low-priority queue, dispatch, the loop itself.
  \<^item> \<open>UsInv\<close> abstracts the intrusive lists to lists of addresses and states the invariant \<open>us_inv\<close>;
    \<open>UsClose\<close> has the refinements of closing; \<open>UsApp\<close> the calls an application may make as a step
    relation \<open>api_step\<close>, whose steps keep the invariant; \<open>UsSweep\<close>, \<open>UsDispatch\<close> and \<open>UsReady\<close> the loop
    under the contract of an application (locale \<open>application\<close>); \<open>UsTimeout\<close> the arithmetic of timeouts;
    \<open>UsHosts\<close> two hosts the contract is interpreted on, one that does nothing and an echo server.
  \<^item> \<open>SniTree\<close>, \<open>SniSsl\<close> (\<open>crypto/sni_tree.cpp\<close>, the name functions of \<open>crypto/openssl.c\<close>): the tree of server
    names, which refines a table from labels to contexts (C17), and the contexts it owns: every
    operation uses live contexts only, and freeing the context frees each of them once.
  \<^item> \<open>SslSocket\<close> (\<open>crypto/openssl.c\<close>): TLS sockets. Their members stand beside the plain state, at the same
    addresses. OpenSSL is the record \<open>openssl\<close>: a connection is a value of any type, and a call is a program
    over the two BIO operations of the loop (type \<open>bio\<close>), so that what OpenSSL reads and writes goes through
    the code's callbacks. \<open>ssl_on_data\<close> and \<open>ssl_on_writable\<close> call each other and are one function of the event.
  \<^item> \<open>SslInv\<close> states the invariant \<open>tls_inv\<close> and the calls of an application as the relation \<open>tls_step\<close>; the
    locale \<open>tls_application\<close> of \<open>SslApp\<close> is the contract of an application and of OpenSSL, interpreted on a
    connection without encryption with a quiet and an echoing application; \<open>SslData\<close> is about what is received
    and sent; \<open>SslOptions\<close> makes and frees the contexts of OpenSSL. \<open>SslProps\<close>: C12 to C16.
  \<^item> \<open>SslApi\<close>: the BIO objects shared by the TLS sockets of a loop, with their reference counts, and the public
    functions of \<open>context.c\<close> and \<open>socket.c\<close>, which choose between plain and TLS by their argument \<open>ssl\<close>.
  Its other properties are C1 to C4 and C6 to C11, below, and C17.

  \<^bold>\<open>The hash library\<close> (\<open>src/hashlibrary\<close>).
  \<^item> \<open>HashCore\<close>: what the classes share: blocks, the buffer, padding, and that an object holds the message
    that was added (locales \<open>block_hash\<close> and \<open>padded_hash\<close>).
  \<^item> \<open>HashObject\<close> (\<open>hash.h\<close>, \<open>hmac.h\<close>): the contract of a hash class (\<open>hash_object\<close>, \<open>keyed_hash\<close>) and HMAC.
  \<^item> \<open>Md5\<close>, \<open>Sha1\<close>, \<open>Sha256\<close>, \<open>Keccak\<close> (also SHA3), \<open>Crc32\<close>, \<open>Crc32Table\<close>: the code, line by line, next to
    the functions of RFC 1321, FIPS 180-4, FIPS 202 and the bitwise CRC-32, with their equivalence.
  \<^item> \<open>HashProps\<close>: C18 to C22; SHA1, Keccak and the tables of CRC-32 have theorems of the same form.

  \<^bold>\<open>The network layer\<close>, from the bytes up.
  \<^item> \<open>Framing\<close>, \<open>UtilsOps\<close> (\<open>Utils.cpp\<close>, \<open>Utils.h\<close>, \<open>templatefuncs.h\<close>): network byte order, packet headers,
    strings with a length, packed arguments, query strings, Base64 headers, names of values.
  \<^item> \<open>Routers\<close> (\<open>Routers.cpp\<close>): the tables of handlers. A handler answers, answers null, or throws.
  \<^item> \<open>Dealers\<close>: the header of a packet on a connection (\<open>StreamNetDealer\<close>), the header of command and
    subcommand inside (\<open>dealers/\<close>, \<open>PackUnpackManager.cpp\<close>), and the packet dealers (\<open>PackDealer*.cpp\<close>).
  \<^item> \<open>TcpChannel\<close> (\<open>TcpChannelImpl.cpp\<close>, \<open>FullDuplexChannel.cpp\<close>): packets over TCP and over local queues.
    The reads and writes of a socket are lists that say what each returns. The contract of a channel is
    the locale \<open>packet_channel\<close>: what is received next is the first packet of what is pending.
  \<^item> \<open>TcpStream\<close> (\<open>TcpStreamHandler.cpp\<close>, \<open>TcpChannel.h\<close>): the older channel, and its client and server.
  \<^item> \<open>Split\<close> (\<open>MessageSplitFuncs.cpp\<close>, \<open>.h\<close>): splitting packets off a buffer.
  \<^item> \<open>MsgRouter\<close> (\<open>MessageRouter.cpp\<close>, \<open>NMessage.cpp\<close>, \<open>networkinterface.cpp\<close>): which request an answer
    belongs to. A one-shot channel is an index; \<open>mr_ok\<close> says that unused senders are unique, and \<open>mr_do\<close>
    is one call of any kind, so that a list of calls is an interleaving of the coroutines.
  \<^item> \<open>ChannelCombine\<close> (\<open>ChannelCombine.h\<close> and the second coroutine of \<open>MessageRouter::start\<close>): request
    numbers, \<open>reqrep\<close>, and the serving of a request of the peer.
  \<^item> \<open>LocalNet\<close> (\<open>LocalNetManager.cpp\<close>): connections by number, and pairs of local queues.
  \<^item> \<open>NngConn\<close> (\<open>nngs/AsynRepImpl.cpp\<close>, \<open>nngs/ReqImpl.cpp\<close>, the rest of \<open>LocalNetManager.cpp\<close>): the two ends of
    a connection over nng; \<open>NngWork\<close> (\<open>nngs/AsynBase.h\<close>, \<open>AsynRep.cpp\<close>, \<open>AsynReq.cpp\<close>, \<open>SyncReq.cpp\<close>): the older
    nodes, with who owns a message. What nng answers is an argument.
  \<^item> \<open>NetProps\<close>: C23 to C28; \<open>RouterProps\<close>: C29 to C33.
  \<^item> \<open>LocalChannel\<close> (\<open>LocalNetChannel.cpp\<close>): a queue of frames with an event.
  The parts meet in \<open>mr_deal\<close> (router, platform header, table of handlers) and in \<open>reqrep_completes\<close>
  (request, sending over a connection, router); every channel is an instance of \<open>packet_channel\<close>.

  \<^bold>\<open>Accounts and the gateway\<close> (\<open>src/database\<close>).
  \<^item> \<open>Accounts\<close> (\<open>CommonDBProcess.cpp\<close>, \<open>UserManager.cpp\<close>, \<open>inc/reqreps.h\<close>): registration, login, administrators
    and the cache of users, over tables whose select, insert and remove are parameters with the laws
    \<open>sql_ok\<close> (a statement may throw, and rows come in any order); tokens are made and checked by a parameter.
  \<^item> \<open>Gateway\<close> (\<open>DealAuth.cpp\<close>, \<open>DBConnectManager.h\<close>, \<open>DBConnectTCP.cpp\<close>, \<open>DBConnectNNG.cpp\<close>, \<open>DBManager.cpp\<close>,
    \<open>TcpClientCombine.h\<close>, \<open>inc/HttpCmdTag.h\<close>, \<open>inc/TransCmdTag.h\<close>): the handlers wrapped around functions, the
    pool of connections to the database node and the query over it. JSON is a parameter.
  \<^item> \<open>AccountProps\<close>: C34 to C38. C34 composes the gateway, a connection, the router of the database node
    (\<open>mr_deal\<close>) and its table of handlers.

  \<^bold>\<open>Web front end, configuration, start-up.\<close>
  \<^item> \<open>WebApp\<close> (\<open>Https.cpp\<close>, \<open>Apps.h\<close>): headers, authorisation, and the answers of GET, POST and WebSocket messages;
    the web server calls these operations in any order. C39.
  \<^item> \<open>Configuration\<close> (\<open>Configs.cpp\<close>, \<open>conf.cpp\<close>, \<open>Structs.h\<close>): reading the tree of a TOML file; C40.
  \<^item> \<open>Startup\<close> (\<open>hotupdate.cpp\<close>, \<open>networkinterface.cpp\<close>): the order in which modules are initialised.

  \<^bold>\<open>The cache of resources\<close> (\<open>src/hotupdate\<close>), in \<open>HotUpdate\<close>: events between coroutines (\<open>CoEvent\<close>), a file and its
  asynchronous read (\<open>fileOp\<close>), the map of files and the coroutine that drops the changed ones
  (\<open>FilePathMonitor\<close>, a step relation \<open>fm_step\<close>). C5: a changed file is served anew.

  \<^bold>\<open>Bounds and loops.\<close> Loops over intrusive lists, the event loop and the loops over OpenSSL are partial
  functions, so that not returning is \<open>None\<close>; C1 to C3 and C12 prove that they return, for every application
  that keeps to the contract. For OpenSSL the contract is \<open>ssl_bounded\<close>: a measure of the connection and the
  unread input falls with every read that returns data; \<open>handle_measure\<close> adds the pending wishes to read or
  write. The other loops are structural or have a measure. No fuel is used. Lengths below $2^{31}$ (where the
  code uses \<open>int\<close>) or $2^{32}$ appear as hypotheses exactly where the code breaks beyond them.

  \<^bold>\<open>What does not hold\<close> is proved next to the code that breaks it, e.g. \<open>ch_recvPack_repeats\<close>,
  \<open>ch_recvPack_negative\<close>, \<open>fd_interleaved\<close>, \<open>sh_recvPack_loses_header\<close>, \<open>sh_sendPack_failed\<close>,
  \<open>dencode_zero_byte\<close>, \<open>FixHeaderSplit2_takes_all\<close>, \<open>mr_deal_ndebug\<close>, \<open>repeated_request\<close>,
  \<open>unknown_connection\<close>, \<open>parsecmd_lp64\<close>, \<open>getMainNameByValue_stale\<close>, \<open>second_reader_gets_zeros\<close>,
  \<open>lost_update\<close>, \<open>resource_path_escapes\<close>, \<open>one_request_per_connection\<close>, \<open>second_request_undefined\<close>,
  \<open>receiver_not_held\<close>, \<open>find_userdata_by_wildcard\<close>; of accounts and the gateway \<open>concurrent_registrations\<close>,
  \<open>login_with_name_and_phone_fails\<close>, \<open>fill_cache_last\<close>, \<open>database_reply_lost\<close>, \<open>admin_requests_stop\<close>,
  \<open>execQuery_once\<close>, \<open>nng_query_fails\<close>; of the rest \<open>expired_token_is_authed\<close>, \<open>stale_abort\<close>, \<open>second_start\<close>,
  \<open>initNetwork_ndebug\<close>, \<open>shipped_http_rejected\<close>; of TLS \<open>write_discards_input\<close>, \<open>long_passphrase\<close>,
  \<open>no_context_used\<close>.

  \<^bold>\<open>Not modelled.\<close> The kqueue, GCD, libuv and asio backends and QUIC of uSockets (other builds). What OpenSSL, the web server (uWS), nng, the SQL library,
  the JSON, TOML and token libraries and Base64 do: they are parameters, with the laws the code relies on.
  Registries of nng nodes and of channels, the server base and the set-up of the database connections, which
  construct objects of these libraries and start threads; \<open>whereami\<close>, which asks the operating system.
  Vendored headers under \<open>src/inc\<close>, the demo, the tests and rayX.
\<close>

section \<open>The event loop\<close>





text \<open>
  C3. Dispatching a connecting socket returns and keeps the invariant, whether the connection was
  made or failed, and even if \<open>on_connect_error\<close> closes the socket itself.
\<close>

theorem dispatch_connect_safe:
  assumes "application h" "app_ok A st" "s \<in> in_ctxs A"
  shows "\<exists>A' st'. dispatch_connect h s error st = Some st' \<and> app_ok A' st' \<and> later A st A' st'"
  using application.connect_safe [OF assms] .

theorem dispatch_connect_safe_witness:
  "\<exists>A' st'. dispatch_connect quiet_host 32 True ex_st = Some st' \<and> app_ok A' st'"
  using dispatch_connect_safe [OF quiet.application_axioms ex_app_ok, of 32 True]
  by (auto simp: in_ctxs_def ex_abs_def)

text \<open>
  C4. \<open>us_socket_close\<close> on an open socket: the socket leaves its context's list or the low-priority
  queue, is put at the head of the closed list and marked, is no longer in any ready entry still
  to be dispatched, and then \<open>on_close\<close> of its context is called, once and last.
\<close>

theorem close_moves_to_closed:
  assumes "us_inv A st" "a_loose A = {}" "socks st s = Some x" "s \<in> open_in A"
  shows "\<exists>st' f. us_socket_close h s code st = call h f (On_close s code) st'
           \<and> map_option c_on_close (ctxs st (s_context x)) = Some f
           \<and> us_inv (a_close s A) st' \<and> us_socket_is_closed s st' = Some True \<and> s \<notin> pending st'
           \<and> (\<exists>es. log st' = es @ log st \<and> (\<forall>f cb. Callback f cb \<notin> set es))"
  by (rule us_socket_close_open [OF assms, of h code]) blast

theorem close_moves_to_closed_witness:
  "\<exists>st'. us_inv (a_close 48 ex_abs) st' \<and> us_socket_is_closed 48 st' = Some True \<and> 48 \<notin> pending st'"
  using close_moves_to_closed [OF ex_inv, of 48 "ex_sock 0 32 0x2009" quiet_host 0]
  by (auto simp: ex_abs_def ex_st_def open_in_def in_ctxs_def)

text \<open>Closing a socket that is already closed changes nothing and calls nothing.\<close>

lemma close_twice:
  assumes "us_inv A st" "socks st s = Some x" "s \<in> set (a_closed A)"
  shows "us_socket_close h s code st = Some (s, st)"
  using us_socket_close_closed [OF assms(2)] is_closed_iff [OF assms(1,2)] assms(3) by (simp add: linked_def)

lemma close_twice_example: "us_socket_close quiet_host 48 0 ex_st2 = Some (48, ex_st2)"
  using close_twice [OF ex_inv2, of 48 "ex_sock 16 0 0" quiet_host 0] by (simp add: ex_st2_def ex_abs2_def)

text \<open>
  C6. Closed sockets are freed, each exactly once, at the end of the iteration, and nothing else is
  (\<open>us_internal_free_closed_sockets\<close>); the count of polls goes down by their number.
\<close>

theorem free_closed_frees_closed:
  assumes "us_inv A st"
  shows "\<exists>st'. us_internal_free_closed_sockets st = Some st' \<and> us_inv (A\<lparr>a_closed := []\<rparr>) st'
           \<and> log st' = rev (map Free (a_closed A)) @ log st \<and> distinct (a_closed A)
           \<and> num_polls st' = num_polls st - int (length (a_closed A))
           \<and> (\<forall>p. socks st' p = (if p \<in> set (a_closed A) then None else socks st p))"
proof -
  have "distinct (a_closed A)" using us_inv_closed [OF assms] by (simp add: closed_ok_def)
  then show ?thesis by (rule_tac free_closed_refines [OF assms]) blast
qed

theorem free_closed_frees_closed_witness:
  "\<exists>st'. us_internal_free_closed_sockets ex_st2 = Some st' \<and> log st' = [Free 48] \<and> num_polls st' = 2"
  using free_closed_frees_closed [OF ex_inv2] by (auto simp: ex_abs2_def ex_st2_def ex_st_def empty_us_def)

text \<open>
  C7. An iteration takes the first five sockets (\<open>MAX_LOW_PRIO_SOCKETS_PER_LOOP_ITERATION\<close>) of the
  low-priority queue back into their contexts, all of them when there are fewer, and leaves as
  budget what it did not use.
\<close>

theorem low_priority_takes_five:
  assumes "app_ok A st"
  shows "\<exists>A' st'. us_internal_handle_low_priority_sockets h st = Some st' \<and> app_ok A' st'
           \<and> a_low A' = drop 5 (a_low A) \<and> linked A' = linked A
           \<and> low_prio_budget st' = int (5 - length (a_low A))"
proof -
  have b: "app_ok A (st\<lparr>low_prio_budget := 5\<rparr>)" using assms by simp
  show ?thesis
    using low_prio_loop_safe [OF b, of 5 "low_prio_head st" h]
    by (auto simp: us_internal_handle_low_priority_sockets_def MAX_LOW_PRIO_SOCKETS_PER_LOOP_ITERATION_def)
qed

theorem low_priority_takes_five_witness:
  "\<exists>A' st'. us_internal_handle_low_priority_sockets quiet_host ex_st2 = Some st' \<and> us_inv A' st' \<and> a_low A' = []
     \<and> low_prio_budget st' = 4"
proof -
  have "a_low ex_abs2 = [64]" by (simp add: ex_abs2_def)
  then show ?thesis
    using low_priority_takes_five [OF ex_app_ok2, of quiet_host] by (fastforce simp: app_ok_def)
qed

text \<open>
  C8. A timeout of \<open>s\<close> seconds set at timestamp \<open>t\<close> is due at the \<open>k\<close>-th following sweep exactly
  when \<open>k\<close> is \<open>\<lceil>s / 4\<rceil>\<close>, up to the period of 8192 sweeps of the 13-bit timestamp. So no timeout is
  missed; one longer than 8191 sweeps (about nine hours) comes early.
\<close>

theorem timeout_due_at:
  assumes "unat t < 8192"
  shows "needle_of ((next_timestamp ^^ k) t) = ucast (timeout_of t s)
         \<longleftrightarrow> k mod 8192 = (unat (s + 3) div 4) mod 8192"
  by (rule timeout_due_iff [OF assms])

theorem timeout_due_at_witness:
  "needle_of ((next_timestamp ^^ 3) 8190) = ucast (timeout_of 8190 10)
   \<and> needle_of ((next_timestamp ^^ 2) 8190) \<noteq> ucast (timeout_of 8190 10)"
  using timeout_due_at [of 8190 3 10] timeout_due_at [of 8190 2 10] by simp



text \<open>
  \<open>us_internal_socket_context_link\<close> refines consing: the loose socket becomes the first of its
  context's list, every other list and every other field of every socket stays.
\<close>

theorem socket_link_refines:
  assumes "us_inv A st" "c \<in> set (a_ctxs A)" "s \<in> a_loose A" "socks st s = Some x" "s_low_prio_state x \<noteq> 1"
  shows "\<exists>st'. us_internal_socket_context_link c s st = Some st' \<and> us_inv (a_link c s A) st'
           \<and> (\<forall>p. p \<noteq> s \<longrightarrow> map_option core (socks st' p) = map_option core (socks st p))"
proof -
  obtain S C where "us_internal_socket_context_link c s st = Some (st\<lparr>socks := S, ctxs := C\<rparr>)"
    "us_inv (a_link c s A) (st\<lparr>socks := S, ctxs := C\<rparr>)"
    "\<forall>p. p \<noteq> s \<longrightarrow> map_option core (S p) = map_option core (socks st p)"
    using context_link_refines [OF assms] by blast
  then show ?thesis by auto
qed


theorem socket_link_refines_witness:
  "\<exists>st st'. us_internal_socket_context_unlink 16 48 ex_st = Some st
     \<and> us_internal_socket_context_link 16 48 st = Some st' \<and> us_inv (a_link 16 48 (a_unlink 16 48 ex_abs)) st'"
proof -
  have c: "16 \<in> set (a_ctxs ex_abs)" "48 \<in> set (a_socks ex_abs 16)" "ctxs ex_st 16 = Some ex_ctx"
    "socks ex_st 48 = Some (ex_sock 0 32 0x2009)"
    by (simp_all add: ex_abs_def ex_st_def)
  obtain S C where 1: "us_internal_socket_context_unlink 16 48 ex_st = Some (ex_st\<lparr>socks := S, ctxs := C\<rparr>)"
    "us_inv (a_unlink 16 48 ex_abs) (ex_st\<lparr>socks := S, ctxs := C\<rparr>)" "S 48 = socks ex_st 48"
    using context_unlink_refines [OF ex_inv c(1,2,3)] by blast
  have "48 \<in> a_loose (a_unlink 16 48 ex_abs)" "16 \<in> set (a_ctxs (a_unlink 16 48 ex_abs))"
    "socks (ex_st\<lparr>socks := S, ctxs := C\<rparr>) 48 = Some (ex_sock 0 32 0x2009)" "s_low_prio_state (ex_sock 0 32 0x2009) \<noteq> 1"
    using c 1(3) by (simp_all add: a_unlink_def ex_sock_def)
  then show ?thesis
    using socket_link_refines [OF 1(2)] 1(1) by blast
qed

text \<open>
  C10. \<open>us_internal_socket_context_unlink\<close> refines removal from the list, and when the sweep's iterator
  is at the socket it moves to the socket's successor, otherwise it stays.
\<close>

theorem socket_unlink_refines:
  assumes "us_inv A st" "c \<in> set (a_ctxs A)" "s \<in> set (a_socks A c)" "ctxs st c = Some ctx"
  shows "\<exists>st' ctx'. us_internal_socket_context_unlink c s st = Some st' \<and> us_inv (a_unlink c s A) st'
           \<and> ctxs st' c = Some ctx'
           \<and> c_iterator ctx' = (if c_iterator ctx = s then nxt (a_socks A c) s else c_iterator ctx)
           \<and> socks st' s = socks st s"
proof -
  obtain S C where "us_internal_socket_context_unlink c s st = Some (st\<lparr>socks := S, ctxs := C\<rparr>)"
    "us_inv (a_unlink c s A) (st\<lparr>socks := S, ctxs := C\<rparr>)" "S s = socks st s"
    "C = (ctxs st)(c \<mapsto> ctx\<lparr>c_iterator := if c_iterator ctx = s then nxt (a_socks A c) s else c_iterator ctx,
               c_head := first (removeAll s (a_socks A c))\<rparr>)"
    using context_unlink_refines [OF assms] by blast
  then show ?thesis by (intro exI [of _ "st\<lparr>socks := S, ctxs := C\<rparr>"]) simp
qed

theorem socket_unlink_refines_witness:
  "\<exists>st'. us_internal_socket_context_unlink 16 32 ex_st = Some st' \<and> us_inv (a_unlink 16 32 ex_abs) st'"
  using socket_unlink_refines [OF ex_inv, of 16 32 ex_ctx] by (auto simp: ex_abs_def ex_st_def)

text \<open>
  C11. \<open>us_poll_stop\<close> keeps the array of ready polls well formed and leaves no entry that is still to be
  dispatched for the poll: a poll stopped (and freed) by a callback is not dispatched later.
\<close>

theorem poll_stop_not_pending:
  assumes "ready_ok st" "p \<noteq> 0" "polls st p = Some q"
  shows "\<exists>st'. us_poll_stop h p st = Some st' \<and> ready_ok st' \<and> p \<notin> pending st' \<and> pending st' \<subseteq> pending st \<union> {0}"
  by (rule poll_stop_eq [OF assms, of h]) (use assms(2) in blast)

theorem poll_stop_not_pending_witness:
  "48 \<in> pending ex_st \<and> (\<exists>st'. us_poll_stop quiet_host 48 ex_st = Some st' \<and> 48 \<notin> pending st')"
  using poll_stop_not_pending [OF us_inv_ready [OF ex_inv], of 48 "ex_poll 6" quiet_host]
  by (force simp: pending_def ex_st_def empty_us_def)

text \<open>
  The 4-bit \<open>poll_type\<close> field holds the type in its low and the polled events in its high bits:
  \<open>us_internal_poll_set_type\<close> sets the type and keeps the events, starting or changing the polled
  events keeps the type and stores what \<open>us_poll_events\<close> gives back.
\<close>

lemma poll_type_packing:
  "poll_type_of (x\<lparr>p_poll_type := (t AND 3) OR (p_poll_type x AND 12)\<rparr>) = t AND 3
   \<and> poll_events_of (x\<lparr>p_poll_type := (t AND 3) OR (p_poll_type x AND 12)\<rparr>) = poll_events_of x
   \<and> poll_type_of (with_events e x) = poll_type_of x
   \<and> poll_events_of (with_events e x) = e AND (LIBUS_SOCKET_READABLE OR LIBUS_SOCKET_WRITABLE)
   \<and> p_fd (with_events e x) = p_fd x"
proof -
  have "(t AND 3) AND 12 = 0" by (rule word4_exhaust [of t]) simp_all
  then show ?thesis
    by (simp only: poll_type_of_set_type poll_events_of_set_type poll_type_of_with_events
        poll_events_of_with_events p_fd_with_events simp_thms)
qed

end
